(* ===== verification/Prelude.thy ===== *)
theory Prelude
  imports Main "HOL-Library.Word" "HOL-Library.Char_ord" "HOL-Library.List_Lexorder"
    "HOL-Library.Product_Lexorder"
begin

section \<open>Shared vocabulary of the development\<close>

text \<open>
  What every component uses: the error results of the Rust code as sums, the string
  functions of Rust's standard library that the source calls, and the facts about maps and
  lists that the component proofs share.

  A Rust \<open>String\<close> or \<open>&str\<close> is its UTF-8 encoding, a list of bytes, which is Isabelle's
  type \<open>string\<close>: \<open>len()\<close> is \<open>length\<close>, equality is equality of bytes, and \<open>cmp\<close> is the
  lexicographic order on bytes. The functions below read the bytes as Rust does, so
  \<open>trim\<close> removes the multi-byte white space of Unicode too.
\<close>

named_theorems gw_simps \<open>definitions a gateway handler unfolds to\<close>
named_theorems frame \<open>which state components an operation leaves alone\<close>

type_synonym bytes = "8 word list"
type_synonym 'a result = "string + 'a"

text \<open>
  Association lists stand for hash maps that the code iterates over; where only lookups,
  insertions and removals matter, a hash map is a partial function.
\<close>

subsection \<open>White space and trimming\<close>

definition byte_of :: "char \<Rightarrow> nat" where
  "byte_of c = of_char c"

text \<open>
  The white-space characters of Rust's \<open>char::is_whitespace\<close>, by the length of their UTF-8
  encoding: U+0009 to U+000D and U+0020; U+0085 and U+00A0; U+1680, U+2000 to U+200A,
  U+2028, U+2029, U+202F, U+205F and U+3000.
\<close>

definition ws1 :: "char \<Rightarrow> bool" where
  "ws1 a \<longleftrightarrow> byte_of a \<in> {9, 10, 11, 12, 13, 32}"

definition ws2 :: "char \<Rightarrow> char \<Rightarrow> bool" where
  "ws2 a b \<longleftrightarrow> byte_of a = 194 \<and> byte_of b \<in> {133, 160}"

definition ws3 :: "char \<Rightarrow> char \<Rightarrow> char \<Rightarrow> bool" where
  "ws3 a b c \<longleftrightarrow>
     (byte_of a = 225 \<and> byte_of b = 154 \<and> byte_of c = 128) \<or>
     (byte_of a = 226 \<and> byte_of b = 128 \<and>
        byte_of c \<in> {128, 129, 130, 131, 132, 133, 134, 135, 136, 137, 138, 168, 169, 175}) \<or>
     (byte_of a = 226 \<and> byte_of b = 129 \<and> byte_of c = 159) \<or>
     (byte_of a = 227 \<and> byte_of b = 128 \<and> byte_of c = 128)"

text \<open>The white space a string starts with, if any: the length of its first character.\<close>

definition ws_len :: "string \<Rightarrow> nat" where
  "ws_len s = (case s of
      [] \<Rightarrow> 0
    | [a] \<Rightarrow> (if ws1 a then 1 else 0)
    | [a, b] \<Rightarrow> (if ws1 a then 1 else if ws2 a b then 2 else 0)
    | a # b # c # _ \<Rightarrow> (if ws1 a then 1 else if ws2 a b then 2 else if ws3 a b c then 3 else 0))"

definition ws_len_rev :: "string \<Rightarrow> nat" where
  "ws_len_rev s = (case s of
      [] \<Rightarrow> 0
    | [a] \<Rightarrow> (if ws1 a then 1 else 0)
    | [a, b] \<Rightarrow> (if ws1 a then 1 else if ws2 b a then 2 else 0)
    | a # b # c # _ \<Rightarrow> (if ws1 a then 1 else if ws2 b a then 2 else if ws3 c b a then 3 else 0))"

lemma ws_len_le: "ws_len s \<le> length s" and ws_len_rev_le: "ws_len_rev s \<le> length s"
  by (auto simp: ws_len_def ws_len_rev_def split: list.splits)

text \<open>Drop what the given measure accepts, again and again, from the front.\<close>

function drop_ws :: "(string \<Rightarrow> nat) \<Rightarrow> string \<Rightarrow> string" where
  "drop_ws w s = (if w s = 0 \<or> s = [] then s else drop_ws w (drop (w s) s))"
  by pat_completeness auto
termination
  by (relation "measure (\<lambda>(w, s). length s)") auto

declare drop_ws.simps [simp del]

definition trim_start :: "string \<Rightarrow> string" where
  "trim_start s = drop_ws ws_len s"

definition trim_end :: "string \<Rightarrow> string" where
  "trim_end s = rev (drop_ws ws_len_rev (rev s))"

definition trim :: "string \<Rightarrow> string" where
  "trim s = trim_end (trim_start s)"

subsection \<open>Facts about trimming\<close>

lemma drop_ws_fix: "w s = 0 \<Longrightarrow> drop_ws w s = s"
  by (simp add: drop_ws.simps)

lemma drop_ws_done:
  assumes le: "\<And>s. w s \<le> length s"
  shows "w (drop_ws w s) = 0"
  using assms
proof (induction w s rule: drop_ws.induct)
  case (1 w s)
  show ?case
  proof (cases "w s = 0 \<or> s = []")
    case True
    with "1.prems" [of "[]"] show ?thesis by (auto simp: drop_ws.simps [of w s])
  next
    case False
    with "1" show ?thesis by (simp add: drop_ws.simps [of w s])
  qed
qed

lemma ws_len_trim_start [simp]: "ws_len (trim_start s) = 0"
  by (simp add: trim_start_def drop_ws_done ws_len_le)

lemma trim_start_fix: "ws_len s = 0 \<Longrightarrow> trim_start s = s"
  by (simp add: trim_start_def drop_ws_fix)

lemma trim_end_idem [simp]: "trim_end (trim_end s) = trim_end s"
  by (simp add: trim_end_def drop_ws_fix drop_ws_done ws_len_rev_le)

lemma drop_ws_suffix: "\<exists>p. s = p @ drop_ws w s"
proof (induction w s rule: drop_ws.induct)
  case (1 w s)
  show ?case
  proof (cases "w s = 0 \<or> s = []")
    case True
    then show ?thesis by (simp add: drop_ws.simps [of w s])
  next
    case False
    with "1" obtain p where "drop (w s) s = p @ drop_ws w (drop (w s) s)" by blast
    then have "s = (take (w s) s @ p) @ drop_ws w (drop (w s) s)"
      by (metis append_assoc append_take_drop_id)
    with False show ?thesis by (simp add: drop_ws.simps [of w s]) (metis append_assoc)
  qed
qed

lemma trim_end_prefix: "\<exists>q. s = trim_end s @ q"
proof -
  obtain p where "rev s = p @ drop_ws ws_len_rev (rev s)" using drop_ws_suffix by blast
  then have "s = rev (drop_ws ws_len_rev (rev s)) @ rev p" by (metis rev_append rev_rev_ident)
  then show ?thesis unfolding trim_end_def by blast
qed

lemma ws_len_prefix: "ws_len (p @ q) = 0 \<Longrightarrow> ws_len p = 0"
  by (auto simp: ws_len_def split: list.splits if_splits)

lemma ws_len_trim [simp]: "ws_len (trim s) = 0"
proof -
  obtain q where "trim_start s = trim_end (trim_start s) @ q" using trim_end_prefix by blast
  then show ?thesis unfolding trim_def by (metis ws_len_prefix ws_len_trim_start)
qed

lemma trim_idem [simp]: "trim (trim s) = trim s"
proof -
  have "trim_start (trim s) = trim s" by (rule trim_start_fix) simp
  then show ?thesis by (simp add: trim_def)
qed

lemma trim_Nil [simp]: "trim [] = []"
  by (simp add: trim_def trim_start_def trim_end_def drop_ws.simps ws_len_def ws_len_rev_def)

text \<open>A string that neither starts nor ends with white space.\<close>

lemma trim_fix: "ws_len s = 0 \<Longrightarrow> ws_len_rev (rev s) = 0 \<Longrightarrow> trim s = s"
  by (simp add: trim_def trim_start_fix trim_end_def drop_ws_fix)

lemma ws_len_ascii: "byte_of a < 128 \<Longrightarrow> \<not> ws1 a \<Longrightarrow> ws_len (a # s) = 0"
  by (auto simp: ws_len_def ws2_def ws3_def split: list.split)

lemma ws_len_rev_ascii: "byte_of a < 128 \<Longrightarrow> \<not> ws1 a \<Longrightarrow> ws_len_rev (a # s) = 0"
  by (auto simp: ws_len_rev_def ws2_def ws3_def split: list.split)

lemmas trim_eval = trim_def trim_start_def trim_end_def drop_ws.simps ws_len_def ws_len_rev_def
  ws1_def ws2_def ws3_def byte_of_def

subsection \<open>The other string functions the source calls\<close>

text \<open>\<open>to_ascii_lowercase\<close> and \<open>eq_ignore_ascii_case\<close> change the bytes A to Z only.\<close>

definition ascii_lower_char :: "char \<Rightarrow> char" where
  "ascii_lower_char c = (if 65 \<le> byte_of c \<and> byte_of c \<le> 90 then char_of (byte_of c + 32) else c)"

definition to_ascii_lowercase :: "string \<Rightarrow> string" where
  "to_ascii_lowercase s = map ascii_lower_char s"

definition eq_ignore_ascii_case :: "string \<Rightarrow> string \<Rightarrow> bool" where
  "eq_ignore_ascii_case s t \<longleftrightarrow> to_ascii_lowercase s = to_ascii_lowercase t"

definition starts_with :: "string \<Rightarrow> string \<Rightarrow> bool" where
  "starts_with s p \<longleftrightarrow> take (length p) s = p"

definition ends_with :: "string \<Rightarrow> string \<Rightarrow> bool" where
  "ends_with s p \<longleftrightarrow> starts_with (rev s) (rev p)"

fun str_contains :: "string \<Rightarrow> string \<Rightarrow> bool" where
  "str_contains [] p = (p = [])"
| "str_contains (c # s) p = (starts_with (c # s) p \<or> str_contains s p)"

definition strip_prefix :: "string \<Rightarrow> string \<Rightarrow> string option" where
  "strip_prefix p s = (if starts_with s p then Some (drop (length p) s) else None)"

text \<open>\<open>trim_matches\<close> with a predicate, \<open>trim_end_matches\<close> with one character.\<close>

definition trim_matches :: "(char \<Rightarrow> bool) \<Rightarrow> string \<Rightarrow> string" where
  "trim_matches p s = rev (dropWhile p (rev (dropWhile p s)))"

definition trim_end_matches :: "char \<Rightarrow> string \<Rightarrow> string" where
  "trim_end_matches c s = rev (dropWhile (\<lambda>x. x = c) (rev s))"

text \<open>\<open>trim_start_matches\<close> with a string removes it as often as it is found.\<close>

function trim_start_matches :: "string \<Rightarrow> string \<Rightarrow> string" where
  "trim_start_matches p s =
     (if p \<noteq> [] \<and> s \<noteq> [] \<and> starts_with s p then trim_start_matches p (drop (length p) s) else s)"
  by pat_completeness auto
termination
  by (relation "measure (\<lambda>(p, s). length s)") auto

declare trim_start_matches.simps [simp del]

function split_whitespace_from :: "string \<Rightarrow> string \<Rightarrow> string list" where
  "split_whitespace_from acc s =
     (if s = [] then (if acc = [] then [] else [rev acc])
      else if ws_len s > 0
        then (if acc = [] then [] else [rev acc]) @ split_whitespace_from [] (drop (ws_len s) s)
      else split_whitespace_from (hd s # acc) (tl s))"
  by pat_completeness auto
termination
  by (relation "measure (\<lambda>(acc, s). length s)") auto

declare split_whitespace_from.simps [simp del]

definition split_whitespace :: "string \<Rightarrow> string list" where
  "split_whitespace s = split_whitespace_from [] s"

text \<open>Decimal printing of unsigned and signed integers.\<close>

definition digit_char :: "nat \<Rightarrow> char" where
  "digit_char n = char_of (48 + n)"

fun show_nat :: "nat \<Rightarrow> string" where
  "show_nat n = (if n < 10 then [digit_char n] else show_nat (n div 10) @ [digit_char (n mod 10)])"

declare show_nat.simps [simp del]

definition show_int :: "int \<Rightarrow> string" where
  "show_int i = (if i < 0 then CHR ''-'' # show_nat (nat (- i)) else show_nat (nat i))"

text \<open>\<open>'{}'\<close> in a format string: the argument between single quotes.\<close>

definition quoted :: "string \<Rightarrow> string" where
  "quoted s = CHR 0x27 # s @ [CHR 0x27]"

lemma ascii_lower_idem [simp]: "to_ascii_lowercase (to_ascii_lowercase s) = to_ascii_lowercase s"
  by (simp add: to_ascii_lowercase_def ascii_lower_char_def byte_of_def)

lemmas lower_eval = to_ascii_lowercase_def ascii_lower_char_def byte_of_def char_of_def
  bit_Suc_0_iff

lemmas show_nat_eval = show_nat.simps digit_char_def char_of_def
  bit_Suc_0_iff

text \<open>Reading decimal digits, as \<open>str::parse\<close> does for the unsigned and the signed integers.\<close>

definition is_dec_digit :: "char \<Rightarrow> bool" where
  "is_dec_digit c \<longleftrightarrow> 48 \<le> byte_of c \<and> byte_of c \<le> 57"

definition digits_val :: "string \<Rightarrow> nat" where
  "digits_val s = foldl (\<lambda>acc c. acc * 10 + (byte_of c - 48)) 0 s"

definition parse_digits :: "string \<Rightarrow> nat option" where
  "parse_digits s = (if s \<noteq> [] \<and> list_all is_dec_digit s then Some (digits_val s) else None)"

definition parse_i64 :: "string \<Rightarrow> int option" where
  "parse_i64 s =
     Option.bind
       (if starts_with s ''-'' then map_option (\<lambda>n. - int n) (parse_digits (drop 1 s))
        else if starts_with s ''+'' then map_option int (parse_digits (drop 1 s))
        else map_option int (parse_digits s))
       (\<lambda>i. if - (2 ^ 63) \<le> i \<and> i < 2 ^ 63 then Some i else None)"

lemma byte_of_digit_char: "n < 10 \<Longrightarrow> byte_of (digit_char n) = 48 + n"
  by (simp add: byte_of_def digit_char_def)

lemma show_nat_not_Nil [simp]: "show_nat n \<noteq> []"
  by (subst show_nat.simps) simp

lemma parse_show_nat: "list_all is_dec_digit (show_nat n) \<and> digits_val (show_nat n) = n"
proof (induction n rule: show_nat.induct)
  case (1 n)
  show ?case
  proof (cases "n < 10")
    case True
    then show ?thesis
      by (simp add: show_nat.simps [of n] is_dec_digit_def digits_val_def byte_of_digit_char)
  next
    case False
    with 1 show ?thesis
      by (simp add: show_nat.simps [of n] is_dec_digit_def digits_val_def byte_of_digit_char)
  qed
qed

lemma parse_digits_show [simp]: "parse_digits (show_nat n) = Some n"
  by (simp add: parse_digits_def parse_show_nat)

lemma hd_show_nat: "is_dec_digit (hd (show_nat n))"
  using parse_show_nat [of n] by (cases "show_nat n") simp_all

lemma parse_show_int: "- (2 ^ 63) \<le> i \<Longrightarrow> i < 2 ^ 63 \<Longrightarrow> parse_i64 (show_int i) = Some i"
proof -
  have "\<not> starts_with (show_nat n) ''-''" "\<not> starts_with (show_nat n) ''+''" for n
    using hd_show_nat [of n] by (cases "show_nat n"; auto simp: starts_with_def is_dec_digit_def byte_of_def)+
  then show "- (2 ^ 63) \<le> i \<Longrightarrow> i < 2 ^ 63 \<Longrightarrow> parse_i64 (show_int i) = Some i"
    by (auto simp: parse_i64_def show_int_def starts_with_def)
qed

subsection \<open>Bytes\<close>

definition as_bytes :: "string \<Rightarrow> bytes" where
  "as_bytes s = map of_char s"

lemma length_as_bytes [simp]: "length (as_bytes s) = length s"
  by (simp add: as_bytes_def)

lemma as_bytes_append [simp]: "as_bytes (s @ t) = as_bytes s @ as_bytes t"
  by (simp add: as_bytes_def)

text \<open>\<open>slice::chunks(n)\<close>: pieces of n elements, the last one possibly shorter.\<close>

function chunks :: "nat \<Rightarrow> 'a list \<Rightarrow> 'a list list" where
  "chunks n xs = (if n = 0 \<or> xs = [] then [] else take n xs # chunks n (drop n xs))"
  by pat_completeness auto
termination
  by (relation "measure (\<lambda>(n, xs). length xs)") auto

declare chunks.simps [simp del]

lemma chunks_Nil [simp]: "chunks n [] = []"
  by (simp add: chunks.simps)

lemma chunks_append:
  assumes "length xs = n" "0 < n"
  shows "chunks n (xs @ ys) = xs # chunks n ys"
  using assms by (subst chunks.simps) auto

lemma chunks_short:
  assumes "xs \<noteq> []" "length xs \<le> n"
  shows "chunks n xs = [xs]"
  using assms by (cases xs) (auto simp: chunks.simps [of n])

lemma concat_chunks: "0 < n \<Longrightarrow> concat (chunks n xs) = xs"
  by (induction n xs rule: chunks.induct) (subst chunks.simps, simp)

subsection \<open>Maps and lists\<close>

text \<open>\<open>HashMap::retain\<close> with "the value is not v": the keys bound to v go.\<close>

definition drop_value :: "('k \<rightharpoonup> 'v) \<Rightarrow> 'v \<Rightarrow> ('k \<rightharpoonup> 'v)" where
  "drop_value m v = (\<lambda>k. if m k = Some v then None else m k)"

lemma drop_value_Some [simp]: "drop_value m v k = Some u \<longleftrightarrow> m k = Some u \<and> u \<noteq> v"
  by (auto simp: drop_value_def)

lemma drop_value_None: "drop_value m v k = None \<longleftrightarrow> m k = None \<or> m k = Some v"
  by (auto simp: drop_value_def)

lemma dom_drop_value_subset: "dom (drop_value m v) \<subseteq> dom m"
  by (auto simp: drop_value_def split: if_splits)

text \<open>\<open>HashMap::len\<close>.\<close>

abbreviation map_len :: "('k \<rightharpoonup> 'v) \<Rightarrow> nat" where
  "map_len m \<equiv> card (dom m)"

subsection \<open>Machine words as numbers\<close>

lemma unat_Suc_below: "(c :: 'a::len word) < l \<Longrightarrow> unat (c + 1) = Suc (unat c)"
  using unsigned_less [of l, where 'a = nat] by (simp add: word_less_nat_alt unat_word_ariths(1) del: unsigned_less)

lemma unat_pred: "0 < unat (c :: 'a::len word) \<Longrightarrow> unat (c - 1) = unat c - 1"
  by (metis unat_minus_one unat_0 less_irrefl)

lemma unat_min: "unat (min a b) = min (unat a) (unat b)"
  by (simp add: min_def word_le_nat_alt)

lemma unat_ucast_up:
  assumes "LENGTH('a::len) \<le> LENGTH('b::len)"
  shows "unat (ucast (w :: 'a word) :: 'b word) = unat w"
proof -
  have "unat w < 2 ^ LENGTH('b)"
    using unsigned_less [of w, where 'a = nat] power_increasing [OF assms, of "2 :: nat"] by linarith
  then show ?thesis by (simp add: unsigned_ucast_eq take_bit_nat_eq_self)
qed

text \<open>The default of an absent value.\<close>

definition unwrap_or :: "'a option \<Rightarrow> 'a \<Rightarrow> 'a" where
  "unwrap_or a d = (case a of None \<Rightarrow> d | Some x \<Rightarrow> x)"

end
