(* ===== verification/Pairing.thy ===== *)
theory Pairing
  imports Prelude
begin

unbundle bit_operations_syntax

section \<open>The pairing guard\<close>

text \<open>
  \<open>PairingGuard\<close> of \<open>liveclaw-gateway/src/pairing.rs\<close>: the pairing code, the hashes of the
  tokens given out, the counter of failed attempts and the lockout.

  SHA-256 (crate \<open>sha2\<close>) is a parameter \<open>sha\<close> from the bytes of a token to the bytes of the
  digest; a fresh UUID (crate \<open>uuid\<close>) is an argument of the operation that draws it.
  Instants and durations are nanoseconds as natural numbers; an operation that reads the
  clock twice gets the two readings as two arguments. Locks are not modelled: each method
  runs to its end.
\<close>

type_synonym sha = "bytes \<Rightarrow> bytes"

record pairing_guard =
  require_pairing :: bool
  pairing_code :: "string option"
  token_hashes :: "string list"
  failed_attempts :: "32 word"
  max_attempts :: "32 word"
  lockout_duration :: nat
  lockout_until :: "nat option"

definition nanos_per_sec :: nat where
  "nanos_per_sec = 1000000000"

definition from_secs :: "nat \<Rightarrow> nat" where
  "from_secs s = s * nanos_per_sec"

definition as_secs :: "nat \<Rightarrow> nat" where
  "as_secs d = d div nanos_per_sec"

subsection \<open>Helpers\<close>

definition hex_digit :: "nat \<Rightarrow> char" where
  "hex_digit n = (if n < 10 then char_of (48 + n) else char_of (87 + n))"

definition hex_encode :: "bytes \<Rightarrow> string" where
  "hex_encode bs = concat (map (\<lambda>b. [hex_digit (unat b div 16), hex_digit (unat b mod 16)]) bs)"

definition hash_token :: "sha \<Rightarrow> string \<Rightarrow> string" where
  "hash_token sha token = hex_encode (sha (as_bytes token))"

definition is_ascii_hexdigit :: "char \<Rightarrow> bool" where
  "is_ascii_hexdigit c \<longleftrightarrow>
     (48 \<le> byte_of c \<and> byte_of c \<le> 57) \<or> (65 \<le> byte_of c \<and> byte_of c \<le> 70) \<or>
     (97 \<le> byte_of c \<and> byte_of c \<le> 102)"

definition hexdigit_val :: "char \<Rightarrow> nat" where
  "hexdigit_val c =
     (if byte_of c \<le> 57 then byte_of c - 48 else if byte_of c \<le> 70 then byte_of c - 55
      else byte_of c - 87)"

text \<open>\<open>u32::from_str_radix(s, 16)\<close> on a string of hexadecimal digits.\<close>

definition u32_from_hex :: "string \<Rightarrow> 32 word option" where
  "u32_from_hex s =
     (let n = foldl (\<lambda>acc c. acc * 16 + hexdigit_val c) 0 s
      in if s = [] \<or> 2 ^ 32 \<le> n then None else Some (of_nat n))"

definition pad6 :: "nat \<Rightarrow> string" where
  "pad6 n = replicate (6 - length (show_nat n)) (CHR ''0'') @ show_nat n"

definition generate_pairing_code :: "string \<Rightarrow> string" where
  "generate_pairing_code uuid =
     (let hex_str = take 8 (filter is_ascii_hexdigit uuid);
          num = (case u32_from_hex hex_str of None \<Rightarrow> 0 | Some n \<Rightarrow> n)
      in pad6 (unat num mod 1000000))"

definition constant_time_eq :: "bytes \<Rightarrow> bytes \<Rightarrow> bool" where
  "constant_time_eq a b =
     (if length a \<noteq> length b then False
      else foldl (\<lambda>diff (x, y). diff OR (x XOR y)) 0 (zip a b) = 0)"

subsection \<open>Operations\<close>

definition pairing_new :: "sha \<Rightarrow> string \<Rightarrow> bool \<Rightarrow> string list \<Rightarrow> pairing_guard" where
  "pairing_new sha uuid require existing_tokens =
     (let (code, hashes) =
        (if \<not> require then (None, [])
         else if existing_tokens = [] then (Some (generate_pairing_code uuid), [])
         else (None, map (hash_token sha) existing_tokens))
      in \<lparr> require_pairing = require, pairing_code = code, token_hashes = hashes,
           failed_attempts = 0, max_attempts = 5, lockout_duration = from_secs 300,
           lockout_until = None \<rparr>)"

definition pairing_with_lockout ::
  "sha \<Rightarrow> string \<Rightarrow> bool \<Rightarrow> string list \<Rightarrow> 32 word \<Rightarrow> nat \<Rightarrow> pairing_guard" where
  "pairing_with_lockout sha uuid require existing_tokens max_att duration =
     (pairing_new sha uuid require existing_tokens)
       \<lparr> max_attempts := max_att, lockout_duration := duration \<rparr>"

definition try_pair ::
  "sha \<Rightarrow> nat \<Rightarrow> nat \<Rightarrow> string \<Rightarrow> pairing_guard \<Rightarrow> string \<Rightarrow> (nat + string option) \<times> pairing_guard" where
  "try_pair sha now now' uuid g code =
     (if \<not> require_pairing g then (Inr None, g)
      else case (case lockout_until g of
                   Some until \<Rightarrow> (if now < until then Some (as_secs (until - now)) else None)
                 | None \<Rightarrow> None) of
        Some remaining \<Rightarrow> (Inl (max remaining 1), g)
      | None \<Rightarrow>
         (case pairing_code g of
            None \<Rightarrow> (Inl 0, g)
          | Some expected \<Rightarrow>
              if code = expected
              then (Inr (Some uuid),
                    g \<lparr> failed_attempts := 0,
                        token_hashes := token_hashes g @ [hash_token sha uuid] \<rparr>)
              else
                let prev = failed_attempts g;
                    attempts = prev + 1;
                    g = g \<lparr> failed_attempts := attempts \<rparr>
                in if max_attempts g \<le> attempts
                   then (Inl (as_secs (lockout_duration g)),
                         g \<lparr> lockout_until := Some (now' + lockout_duration g),
                             failed_attempts := 0 \<rparr>)
                   else (Inl 0, g)))"

definition is_authenticated :: "sha \<Rightarrow> pairing_guard \<Rightarrow> string \<Rightarrow> bool" where
  "is_authenticated sha g token =
     (if \<not> require_pairing g then True
      else let presented_hash = hash_token sha token
           in list_ex (\<lambda>stored. constant_time_eq (as_bytes stored) (as_bytes presented_hash))
                (token_hashes g))"

subsection \<open>The comparison and the encodings\<close>

lemma word_or_eq_0: "(a OR b = (0 :: 8 word)) \<longleftrightarrow> a = 0 \<and> b = 0"
  by (auto simp: bit_eq_iff bit_or_iff)

lemma word_xor_eq_0: "(a XOR b = (0 :: 8 word)) \<longleftrightarrow> a = b"
  by (auto simp: bit_eq_iff bit_xor_iff)

lemma foldl_diff:
  "foldl (\<lambda>diff (x, y). diff OR (x XOR y)) d zs = (0 :: 8 word) \<longleftrightarrow>
     d = 0 \<and> (\<forall>(x, y) \<in> set zs. x = y)"
  by (induction zs arbitrary: d) (auto simp: word_or_eq_0 word_xor_eq_0)

lemma constant_time_eq_iff [simp]: "constant_time_eq a b \<longleftrightarrow> a = b"
proof (cases "length a = length b")
  case True
  then show ?thesis
    by (induction a b rule: list_induct2) (auto simp: constant_time_eq_def foldl_diff word_xor_eq_0)
next
  case False
  then show ?thesis by (auto simp: constant_time_eq_def)
qed

lemma inj_as_bytes: "as_bytes s = as_bytes t \<Longrightarrow> s = t"
proof -
  have "unat (of_char c :: 8 word) = of_char c" for c
  proof -
    have "unat (of_char c :: 8 word) = unat (of_nat (of_char c) :: 8 word)"
      by (simp only: of_nat_of_char)
    also have "\<dots> = of_char c" by (simp add: unsigned_of_nat take_bit_eq_mod)
    finally show ?thesis .
  qed
  then have "inj (of_char :: char \<Rightarrow> 8 word)"
    by (metis injI of_char_eqI)
  then have "inj as_bytes" unfolding as_bytes_def by simp
  then show "as_bytes s = as_bytes t \<Longrightarrow> s = t" by (rule injD)
qed

lemma is_authenticated_iff:
  "is_authenticated sha g token \<longleftrightarrow>
     (require_pairing g \<longrightarrow> hash_token sha token \<in> set (token_hashes g))"
  by (auto simp: is_authenticated_def Let_def list_ex_iff dest: inj_as_bytes)

text \<open>Decimal digits, for the six-digit code.\<close>

definition is_digit :: "char \<Rightarrow> bool" where
  "is_digit c \<longleftrightarrow> 48 \<le> byte_of c \<and> byte_of c \<le> 57"

lemma is_digit_digit_char: "n < 10 \<Longrightarrow> is_digit (digit_char n)"
  by (simp add: is_digit_def digit_char_def byte_of_def)

lemma show_nat_digits: "c \<in> set (show_nat n) \<Longrightarrow> is_digit c"
proof (induction n rule: show_nat.induct)
  case (1 n)
  then show ?case
    by (cases "n < 10") (auto simp: show_nat.simps [of n] intro: is_digit_digit_char)
qed

lemma length_show_nat: "n < 10 ^ Suc k \<Longrightarrow> length (show_nat n) \<le> Suc k"
proof (induction k arbitrary: n)
  case 0
  then show ?case by (simp add: show_nat.simps [of n])
next
  case (Suc k)
  then have "n div 10 < 10 ^ Suc k" by (simp add: less_mult_imp_div_less mult.commute)
  then have "length (show_nat (n div 10)) \<le> Suc k" by (rule Suc.IH)
  then show ?case by (simp add: show_nat.simps [of n])
qed

lemma pad6_shape: "n < 1000000 \<Longrightarrow> length (pad6 n) = 6 \<and> (\<forall>c \<in> set (pad6 n). is_digit c)"
  using length_show_nat [of n 5]
  by (auto simp: pad6_def is_digit_def byte_of_def dest: show_nat_digits [unfolded is_digit_def byte_of_def])

lemma generate_pairing_code_shape:
  "length (generate_pairing_code uuid) = 6 \<and> (\<forall>c \<in> set (generate_pairing_code uuid). is_digit c)"
proof -
  have "n mod 1000000 < 1000000" for n :: nat by simp
  then show ?thesis unfolding generate_pairing_code_def Let_def by (rule pad6_shape)
qed

lemma hex_digit_inj: "a < 16 \<Longrightarrow> b < 16 \<Longrightarrow> hex_digit a = hex_digit b \<Longrightarrow> a = b"
proof -
  assume "a < 16" "b < 16" "hex_digit a = hex_digit b"
  then have "(of_char (hex_digit a) :: nat) = of_char (hex_digit b)" by simp
  with \<open>a < 16\<close> \<open>b < 16\<close> show ?thesis by (auto simp: hex_digit_def split: if_splits)
qed

lemma hex_encode_inj: "hex_encode xs = hex_encode ys \<Longrightarrow> xs = ys"
proof (induction xs arbitrary: ys)
  case Nil
  then show ?case by (cases ys) (auto simp: hex_encode_def)
next
  case (Cons x xs)
  then obtain y ys' where ys: "ys = y # ys'" by (cases ys) (auto simp: hex_encode_def)
  have lt: "unat z div 16 < 16" "unat z mod 16 < 16" for z :: "8 word"
    using unsigned_less [of z, where ?'a = nat] by (auto intro: less_mult_imp_div_less)
  from Cons.prems ys have "hex_digit (unat x div 16) = hex_digit (unat y div 16)"
    "hex_digit (unat x mod 16) = hex_digit (unat y mod 16)" "hex_encode xs = hex_encode ys'"
    by (auto simp: hex_encode_def)
  then have "unat x div 16 = unat y div 16" "unat x mod 16 = unat y mod 16" "xs = ys'"
    using lt hex_digit_inj Cons.IH by blast+
  then show ?case using ys by (metis div_mod_decomp word_unat_eq_iff)
qed

lemma hash_token_eq: "hash_token sha t = hash_token sha u \<longleftrightarrow> sha (as_bytes t) = sha (as_bytes u)"
  by (auto simp: hash_token_def dest: hex_encode_inj)

subsection \<open>Pairing attempts\<close>

text \<open>An attempt: the two clock readings, the UUID drawn on success, the code presented.\<close>

type_synonym attempt = "nat \<times> nat \<times> string \<times> string"

fun pair_once :: "sha \<Rightarrow> pairing_guard \<Rightarrow> attempt \<Rightarrow> (nat + string option) \<times> pairing_guard" where
  "pair_once sha g (now, now', uuid, code) = try_pair sha now now' uuid g code"

fun pair_run ::
  "sha \<Rightarrow> pairing_guard \<Rightarrow> attempt list \<Rightarrow> (nat + string option) list \<times> pairing_guard" where
  "pair_run sha g [] = ([], g)"
| "pair_run sha g (a # as) =
     (let (r, g') = pair_once sha g a; (rs, g'') = pair_run sha g' as in (r # rs, g''))"

definition locked :: "pairing_guard \<Rightarrow> nat \<Rightarrow> bool" where
  "locked g now \<longleftrightarrow> (case lockout_until g of Some until \<Rightarrow> now < until | None \<Rightarrow> False)"

text \<open>The failure counter stays below the limit, so that it never wraps.\<close>

definition guard_inv :: "pairing_guard \<Rightarrow> bool" where
  "guard_inv g \<longleftrightarrow> unat (failed_attempts g) < max 1 (unat (max_attempts g))"

lemmas try_pair_cases = try_pair_def Let_def

lemma try_pair_frame [frame]:
  assumes "try_pair sha now now' uuid g code = (r, g')"
  shows "require_pairing g' = require_pairing g" "pairing_code g' = pairing_code g"
    "max_attempts g' = max_attempts g" "lockout_duration g' = lockout_duration g"
    "token_hashes g' = token_hashes g @ (case r of Inr (Some t) \<Rightarrow> [hash_token sha t] | _ \<Rightarrow> [])"
  using assms by (auto simp: try_pair_cases split: if_splits option.splits)

lemma try_pair_locked:
  assumes "require_pairing g" "locked g now"
  shows "try_pair sha now now' uuid g code =
    (Inl (max (as_secs (the (lockout_until g) - now)) 1), g)"
  using assms by (auto simp: try_pair_def locked_def split: option.splits)

lemma try_pair_right:
  assumes "require_pairing g" "\<not> locked g now" "pairing_code g = Some code"
  shows "try_pair sha now now' uuid g code =
    (Inr (Some uuid), g \<lparr> failed_attempts := 0,
       token_hashes := token_hashes g @ [hash_token sha uuid] \<rparr>)"
  using assms by (auto simp: try_pair_def locked_def split: option.splits)

lemma try_pair_wrong:
  assumes "require_pairing g" "\<not> locked g now" "pairing_code g = Some c" "code \<noteq> c"
  shows "try_pair sha now now' uuid g code =
    (if max_attempts g \<le> failed_attempts g + 1
     then (Inl (as_secs (lockout_duration g)),
           g \<lparr> lockout_until := Some (now' + lockout_duration g), failed_attempts := 0 \<rparr>)
     else (Inl 0, g \<lparr> failed_attempts := failed_attempts g + 1 \<rparr>))"
  using assms by (auto simp: try_pair_def Let_def locked_def split: option.splits)

lemma guard_inv_new: "guard_inv (pairing_with_lockout sha uuid require toks m d)"
  by (simp add: guard_inv_def pairing_with_lockout_def pairing_new_def Let_def split_def)

text \<open>Below the limit the 32-bit increment is the increment.\<close>

lemma failed_attempts_Suc:
  assumes "guard_inv g" "\<not> max_attempts g \<le> failed_attempts g + 1"
  shows "unat (failed_attempts g + 1) = Suc (unat (failed_attempts g))"
proof -
  have "unat (failed_attempts g) + 1 < 2 ^ 32"
    using assms(1) unsigned_less [of "max_attempts g", where ?'a = nat]
    by (auto simp: guard_inv_def max_def split: if_splits)
  then show ?thesis by (simp add: unat_word_ariths)
qed

lemma try_pair_inv:
  assumes "guard_inv g"
  shows "guard_inv (snd (try_pair sha now now' uuid g code))"
proof (cases "require_pairing g \<and> \<not> locked g now")
  case False
  then show ?thesis
    using assms try_pair_locked [of g now sha now' uuid code] by (auto simp: try_pair_def)
next
  case True
  show ?thesis
  proof (cases "pairing_code g")
    case None
    with True assms show ?thesis by (auto simp: try_pair_def locked_def split: option.splits)
  next
    case (Some c)
    show ?thesis
    proof (cases "code = c")
      case True
      with Some \<open>require_pairing g \<and> \<not> locked g now\<close> show ?thesis
        by (simp add: try_pair_right guard_inv_def)
    next
      case False
      with True Some assms failed_attempts_Suc [OF assms] show ?thesis
        by (auto simp: try_pair_wrong guard_inv_def word_le_nat_alt)
    qed
  qed
qed

lemma pair_run_inv: "guard_inv g \<Longrightarrow> guard_inv (snd (pair_run sha g as))"
proof (induction as arbitrary: g)
  case (Cons a as)
  obtain now now' uuid code where a: "a = (now, now', uuid, code)" by (cases a)
  have "guard_inv (snd (pair_once sha g a))"
    using Cons.prems unfolding a pair_once.simps by (rule try_pair_inv)
  from Cons.IH [OF this] show ?case by (simp add: Let_def split_def)
qed simp

subsection \<open>The brute-force bound\<close>

text \<open>How many attempts of a run have their code compared: those not refused by the lock.\<close>

fun compared :: "sha \<Rightarrow> pairing_guard \<Rightarrow> attempt list \<Rightarrow> nat" where
  "compared sha g [] = 0"
| "compared sha g (a # as) =
     (if locked g (fst a) then 0 else 1) + compared sha (snd (pair_once sha g a)) as"

definition in_window :: "nat \<Rightarrow> nat \<Rightarrow> attempt \<Rightarrow> bool" where
  "in_window start dur a = (case a of (now, now', _, _) \<Rightarrow>
     start \<le> now \<and> now \<le> now' \<and> now' < start + dur)"

definition wrong_code :: "pairing_guard \<Rightarrow> attempt \<Rightarrow> bool" where
  "wrong_code g a = (case a of (_, _, _, code) \<Rightarrow> pairing_code g \<noteq> Some code)"

lemma compared_locked:
  assumes "require_pairing g" "lockout_until g = Some until"
    and "list_all (\<lambda>a. fst a < until) as"
  shows "compared sha g as = 0"
  using assms(3)
proof (induction as)
  case (Cons a as)
  obtain now now' uuid code where a: "a = (now, now', uuid, code)" by (cases a)
  with Cons.prems assms(2) have "locked g now" by (simp add: locked_def)
  with Cons a assms(1) show ?case by (simp add: try_pair_locked)
qed simp

lemma compared_bound:
  assumes "guard_inv g" "require_pairing g" "pairing_code g = Some c"
    and "list_all (in_window start (lockout_duration g)) as" "list_all (wrong_code g) as"
  shows "compared sha g as + unat (failed_attempts g) \<le> max 1 (unat (max_attempts g))"
  using assms
proof (induction as arbitrary: g)
  case Nil
  then show ?case by (simp add: guard_inv_def)
next
  case (Cons a as)
  obtain now now' uuid code where a: "a = (now, now', uuid, code)" by (cases a)
  let ?d = "lockout_duration g"
  have tails: "list_all (in_window start ?d) as" "list_all (wrong_code g) as"
    and heads: "in_window start ?d a" "wrong_code g a"
    using Cons.prems(4,5) by simp_all
  from heads a Cons.prems(3) tails
  have win: "start \<le> now" "now \<le> now'" "now' < start + ?d" "list_all (in_window start ?d) as"
    and bad: "code \<noteq> c" "list_all (wrong_code g) as"
    by (simp_all add: in_window_def wrong_code_def)
  show ?case
  proof (cases "locked g now")
    case True
    with Cons.IH [OF Cons.prems(1,2,3) win(4) bad(2)] Cons.prems(2) a show ?thesis
      by (simp add: try_pair_locked)
  next
    case free: False
    show ?thesis
    proof (cases "max_attempts g \<le> failed_attempts g + 1")
      case True
      let ?g = "g \<lparr> lockout_until := Some (now' + ?d), failed_attempts := 0 \<rparr>"
      have "list_all (\<lambda>a. fst a < now' + ?d) as"
        using win by (auto simp: list_all_iff in_window_def split: prod.splits)
      then have "compared sha ?g as = 0"
        using Cons.prems(2) by (intro compared_locked) auto
      with True free a bad Cons.prems show ?thesis
        by (simp add: try_pair_wrong guard_inv_def)
    next
      case False
      let ?g = "g \<lparr> failed_attempts := failed_attempts g + 1 \<rparr>"
      note suc = failed_attempts_Suc [OF Cons.prems(1) False]
      have "guard_inv ?g"
        using try_pair_inv [OF Cons.prems(1), of sha now now' uuid code] False free bad Cons.prems(2,3)
        by (simp add: try_pair_wrong)
      moreover have "list_all (wrong_code ?g) as"
        using bad(2) by (simp add: wrong_code_def list_all_iff)
      ultimately have "compared sha ?g as + unat (failed_attempts ?g) \<le> max 1 (unat (max_attempts ?g))"
        using Cons.prems(2,3) win(4) by (intro Cons.IH) simp_all
      with suc False free a bad Cons.prems(2,3) show ?thesis
        by (simp add: try_pair_wrong)
    qed
  qed
qed

subsection \<open>Tokens: the contract of a credential store\<close>

text \<open>
  What the gateway relies on: a token given out is accepted, and an accepted token stays
  accepted whatever the guard does next.
\<close>

locale credential_store =
  fixes accepts :: "'g \<Rightarrow> string \<Rightarrow> bool"
    and issues :: "'g \<Rightarrow> string \<Rightarrow> 'g \<Rightarrow> bool"
    and step :: "'g \<Rightarrow> 'g \<Rightarrow> bool"
  assumes issues_accepted: "issues g t g' \<Longrightarrow> accepts g' t"
    and step_keeps: "step g g' \<Longrightarrow> accepts g t \<Longrightarrow> accepts g' t"
begin

lemma steps_keep: "step\<^sup>*\<^sup>* g g' \<Longrightarrow> accepts g t \<Longrightarrow> accepts g' t"
  by (induction rule: rtranclp_induct) (auto intro: step_keeps)

lemma issued_stays: "issues g t g' \<Longrightarrow> step\<^sup>*\<^sup>* g' g'' \<Longrightarrow> accepts g'' t"
  by (blast intro: steps_keep issues_accepted)

lemma refused_before: "step\<^sup>*\<^sup>* g g' \<Longrightarrow> \<not> accepts g' t \<Longrightarrow> \<not> accepts g t"
  by (blast intro: steps_keep)

end

definition pair_step :: "sha \<Rightarrow> pairing_guard \<Rightarrow> pairing_guard \<Rightarrow> bool" where
  "pair_step sha g g' \<longleftrightarrow> (\<exists>a. g' = snd (pair_once sha g a))"

definition pair_issues :: "sha \<Rightarrow> pairing_guard \<Rightarrow> string \<Rightarrow> pairing_guard \<Rightarrow> bool" where
  "pair_issues sha g t g' \<longleftrightarrow> (\<exists>a. pair_once sha g a = (Inr (Some t), g'))"

lemma pair_once_keeps: "is_authenticated sha g t \<Longrightarrow> is_authenticated sha (snd (pair_once sha g a)) t"
proof -
  assume acc: "is_authenticated sha g t"
  obtain now now' uuid code r g' where a: "a = (now, now', uuid, code)"
    and r: "try_pair sha now now' uuid g code = (r, g')"
    by (metis prod.exhaust)
  with acc try_pair_frame [OF r] show ?thesis by (simp add: is_authenticated_iff)
qed

lemma pair_once_issues:
  "pair_once sha g a = (Inr (Some t), g') \<Longrightarrow> is_authenticated sha g' t"
  by (cases a) (auto dest!: try_pair_frame simp: is_authenticated_iff)

interpretation pg: credential_store "is_authenticated sha" "pair_issues sha" "pair_step sha" for sha
  by unfold_locales
    (unfold pair_issues_def pair_step_def, elim exE, erule pair_once_issues,
      elim exE, simp only: pair_once_keeps)

lemma pair_run_steps: "(pair_step sha)\<^sup>*\<^sup>* g (snd (pair_run sha g as))"
proof (induction as arbitrary: g)
  case (Cons a as)
  have "pair_step sha g (snd (pair_once sha g a))" unfolding pair_step_def by blast
  from converse_rtranclp_into_rtranclp [OF this Cons.IH] show ?case
    by (simp add: Let_def split_def)
qed simp

text \<open>The tokens a run of attempts gave out.\<close>

fun granted :: "(nat + string option) list \<Rightarrow> string list" where
  "granted [] = []"
| "granted (Inr (Some t) # rs) = t # granted rs"
| "granted (_ # rs) = granted rs"

lemma granted_Cons:
  "granted (r # rs) = (case r of Inr (Some t) \<Rightarrow> [t] | _ \<Rightarrow> []) @ granted rs"
  by (cases r; cases "projr r") auto

lemma pair_run_hashes:
  "pair_run sha g as = (rs, g') \<Longrightarrow>
     token_hashes g' = token_hashes g @ map (hash_token sha) (granted rs) \<and>
     require_pairing g' = require_pairing g"
proof (induction as arbitrary: g rs)
  case (Cons a as)
  obtain now now' uuid code where a: "a = (now, now', uuid, code)" by (cases a)
  obtain r g1 where r: "try_pair sha now now' uuid g code = (r, g1)" by fastforce
  obtain rs' where rs: "rs = r # rs'" "pair_run sha g1 as = (rs', g')"
    using Cons.prems a r by (auto simp: Let_def split_def split: prod.splits)
  from Cons.IH [OF rs(2)] try_pair_frame [OF r] show ?case
    by (simp add: rs granted_Cons split: sum.split option.split)
qed simp

lemma pair_run_settings:
  "require_pairing (snd (pair_run sha g as)) = require_pairing g \<and>
   pairing_code (snd (pair_run sha g as)) = pairing_code g \<and>
   max_attempts (snd (pair_run sha g as)) = max_attempts g \<and>
   lockout_duration (snd (pair_run sha g as)) = lockout_duration g"
proof (induction as arbitrary: g)
  case (Cons a as)
  obtain now now' uuid code where a: "a = (now, now', uuid, code)" by (cases a)
  obtain r g1 where r: "try_pair sha now now' uuid g code = (r, g1)" by fastforce
  from Cons.IH [of g1] try_pair_frame [OF r] show ?case by (simp add: a r Let_def split_def)
qed simp

lemmas pair_run_frame =
  pair_run_settings [THEN conjunct1]
  pair_run_settings [THEN conjunct2, THEN conjunct1]
  pair_run_settings [THEN conjunct2, THEN conjunct2, THEN conjunct1]
  pair_run_settings [THEN conjunct2, THEN conjunct2, THEN conjunct2]

text \<open>What a guard accepts after a run of attempts.\<close>

lemma granted_accepted:
  assumes "pair_run sha (pairing_with_lockout sha uuid True [] limit dur) as = (rs, g)"
  shows "is_authenticated sha g token \<longleftrightarrow>
    (\<exists>t \<in> set (granted rs). sha (as_bytes t) = sha (as_bytes token))"
proof -
  have "token_hashes g = map (hash_token sha) (granted rs)" "require_pairing g"
    using pair_run_hashes [OF assms] by (simp_all add: pairing_with_lockout_def pairing_new_def)
  moreover have "hash_token sha token \<in> hash_token sha ` S \<longleftrightarrow>
      (\<exists>t \<in> S. hash_token sha t = hash_token sha token)" for S
    unfolding image_iff by metis
  ultimately show ?thesis by (simp add: is_authenticated_iff hash_token_eq [symmetric])
qed

subsection \<open>Properties\<close>


text \<open>the failure counter cannot wrap. After any sequence of attempts the 32-bit counter is below
  the limit, so that adding one to it is exact.\<close>

theorem failure_counter_below_limit:
  "unat (failed_attempts (snd (pair_run sha (pairing_with_lockout sha uuid require toks limit dur) as)))
     < max 1 (unat limit)"
  using pair_run_inv [OF guard_inv_new, of sha sha uuid require toks limit dur as]
    pair_run_frame(3) [of sha "pairing_with_lockout sha uuid require toks limit dur" as]
  by (simp add: guard_inv_def pairing_with_lockout_def)

text \<open>a token that was given out is accepted from then on, whatever is tried later.\<close>

theorem issued_token_accepted:
  assumes "pair_once sha g a = (Inr (Some token), g')"
  shows "is_authenticated sha (snd (pair_run sha g' later)) token"
proof -
  have "pair_issues sha g token g'" using assms unfolding pair_issues_def by blast
  then show ?thesis by (rule pg.issued_stays) (rule pair_run_steps)
qed

text \<open>no other token is accepted. On a guard that requires pairing and was given no token, exactly
  the tokens granted by pairing are accepted, up to equality of their digests.\<close>

theorem accepted_iff_granted:
  assumes "pair_run sha (pairing_with_lockout sha uuid True [] limit dur) as = (rs, g)"
  shows "is_authenticated sha g token \<longleftrightarrow>
    (\<exists>t \<in> set (granted rs). sha (as_bytes t) = sha (as_bytes token))"
  using assms by (rule granted_accepted)

text \<open>C10: the lockout. When a wrong code reaches the limit, every code is refused, the right one too,
  until the lockout is over, with the seconds that remain; then the right code pairs again.\<close>

theorem lockout_and_recovery:
  assumes "require_pairing g" "\<not> locked g now" "pairing_code g = Some right" "wrong \<noteq> right"
    and "max_attempts g \<le> failed_attempts g + 1"
    and "try_pair sha now now' uuid g wrong = (r, g')"
  shows "r = Inl (as_secs (lockout_duration g)) \<and>
    (\<forall>t t' u code. t < now' + lockout_duration g \<longrightarrow>
       try_pair sha t t' u g' code = (Inl (max (as_secs (now' + lockout_duration g - t)) 1), g')) \<and>
    (\<forall>t t' u. now' + lockout_duration g \<le> t \<longrightarrow> fst (try_pair sha t t' u g' right) = Inr (Some u))"
proof -
  have g': "r = Inl (as_secs (lockout_duration g))"
    "g' = g \<lparr> lockout_until := Some (now' + lockout_duration g), failed_attempts := 0 \<rparr>"
    using assms(6) try_pair_wrong [OF assms(1-4)] assms(5) by simp_all
  have "try_pair sha t t' u g' code = (Inl (max (as_secs (now' + lockout_duration g - t)) 1), g')"
    if "t < now' + lockout_duration g" for t t' u code
    using try_pair_locked [of g' t sha t' u code] that assms(1) by (simp add: g'(2) locked_def)
  moreover have "fst (try_pair sha t t' u g' right) = Inr (Some u)" if "now' + lockout_duration g \<le> t" for t t' u
    using try_pair_right [of g' t right sha t' u] that assms(1,3) by (simp add: g'(2) locked_def)
  ultimately show ?thesis using g'(1) by blast
qed

text \<open>a pairing code is six decimal digits, whatever the identifier it is made from.\<close>

theorem pairing_code_six_digits:
  "length (generate_pairing_code uuid) = 6 \<and> set (generate_pairing_code uuid) \<subseteq> set ''0123456789''"
proof -
  have "c \<in> set ''0123456789''" if "is_digit c" for c
  proof -
    have "c = char_of (byte_of c)" by (simp add: byte_of_def)
    moreover have "byte_of c \<in> {48, 49, 50, 51, 52, 53, 54, 55, 56, 57}"
      using that unfolding is_digit_def insert_iff empty_iff by presburger
    ultimately show ?thesis by (auto simp: char_of_def bit_Suc_0_iff)
  qed
  then show ?thesis using generate_pairing_code_shape [of uuid] by blast
qed

text \<open>the code is not used up. After a successful pairing the same code pairs again, and gives
  another token.\<close>

theorem pairing_code_reusable:
  assumes "require_pairing g" "pairing_code g = Some code" "lockout_until g = None"
    and "try_pair sha now now' uuid g code = (r, g')"
  shows "r = Inr (Some uuid) \<and> fst (try_pair sha t t' uuid' g' code) = Inr (Some uuid')"
proof -
  have "\<not> locked g now" using assms(3) by (simp add: locked_def)
  from try_pair_right [OF assms(1) this assms(2)] assms(4)
  have g': "r = Inr (Some uuid)" "g' = g \<lparr> failed_attempts := 0,
     token_hashes := token_hashes g @ [hash_token sha uuid] \<rparr>" by simp_all
  have "\<not> locked g' t" using assms(3) by (simp add: g'(2) locked_def)
  from try_pair_right [OF _ this] assms(1,2) show ?thesis by (simp add: g')
qed

subsection \<open>Examples\<close>

text \<open>A guard that allows two attempts and locks for ten units, and a digest for the examples.\<close>

definition sample_guard :: pairing_guard where
  "sample_guard = pairing_with_lockout (\<lambda>b. b) ''zz'' True [] 2 10"

lemma sample_guard_code: "generate_pairing_code ''zz'' = ''000000''"
proof -
  have "filter is_ascii_hexdigit ''zz'' = []" by (simp add: is_ascii_hexdigit_def byte_of_def)
  moreover have "show_nat 0 = ''0''" by (simp add: show_nat.simps [of 0] digit_char_def char_of_def bit_Suc_0_iff)
  moreover have "replicate 5 c = [c, c, c, c, c]" for c :: char by (simp add: numeral_eq_Suc)
  ultimately show ?thesis by (simp add: generate_pairing_code_def u32_from_hex_def pad6_def)
qed

lemma sample_guard_simps:
  "require_pairing sample_guard" "pairing_code sample_guard = Some ''000000''"
  "lockout_until sample_guard = None" "max_attempts sample_guard = 2" "failed_attempts sample_guard = 0"
  "lockout_duration sample_guard = 10"
  by (simp_all add: sample_guard_def pairing_with_lockout_def pairing_new_def sample_guard_code)


lemma sample_pairs:
  "pair_once (\<lambda>b. b) sample_guard (0, 0, ''tok'', ''000000'') = (Inr (Some ''tok''),
     sample_guard \<lparr> failed_attempts := 0, token_hashes := token_hashes sample_guard @ [hash_token (\<lambda>b. b) ''tok''] \<rparr>)"
  by (simp add: try_pair_right sample_guard_simps locked_def)

theorem issued_token_accepted_witness:
  "is_authenticated (\<lambda>b. b) (snd (pair_run (\<lambda>b. b) (snd (pair_once (\<lambda>b. b) sample_guard
     (0, 0, ''tok'', ''000000''))) [(1, 1, ''u'', ''1''), (2, 2, ''u'', ''2'')])) ''tok''"
  unfolding sample_pairs snd_conv by (rule issued_token_accepted [OF sample_pairs])

theorem accepted_iff_granted_witness:
  "is_authenticated (\<lambda>b. b) (snd (pair_run (\<lambda>b. b) sample_guard [(0, 0, ''tok'', ''000000'')])) ''tok''"
proof -
  let ?r = "pair_run (\<lambda>b. b) sample_guard [(0, 0, ''tok'', ''000000'')]"
  have "pair_run (\<lambda>b. b) (pairing_with_lockout (\<lambda>b. b) ''zz'' True [] 2 10) [(0, 0, ''tok'', ''000000'')]
      = (fst ?r, snd ?r)" by (simp add: sample_guard_def)
  moreover have "granted (fst ?r) = [''tok'']"
    using sample_pairs by (simp add: Let_def split_def)
  ultimately show ?thesis
    by (subst accepted_iff_granted) (assumption, simp)
qed

theorem lockout_and_recovery_witness:
  "let g = sample_guard \<lparr> failed_attempts := 1 \<rparr>; g' = snd (try_pair (\<lambda>b. b) 3 3 ''u'' g ''999999'')
   in fst (try_pair (\<lambda>b. b) 5 5 ''u'' g' ''000000'') = Inl 1 \<and>
      fst (try_pair (\<lambda>b. b) 13 13 ''u'' g' ''000000'') = Inr (Some ''u'')"
proof -
  let ?g = "sample_guard \<lparr> failed_attempts := 1 \<rparr>"
  let ?t = "try_pair (\<lambda>b. b) 3 3 ''u'' ?g ''999999''"
  have "?t = (fst ?t, snd ?t)" by simp
  from lockout_and_recovery [OF _ _ _ _ _ this, of "''000000''"]
  show ?thesis by (simp add: sample_guard_simps locked_def as_secs_def nanos_per_sec_def Let_def)
qed

theorem pairing_code_reusable_witness:
  "fst (try_pair (\<lambda>b. b) 7 7 ''second'' (snd (try_pair (\<lambda>b. b) 3 3 ''first'' sample_guard ''000000'')) ''000000'')
     = Inr (Some ''second'')"
proof -
  let ?t = "try_pair (\<lambda>b. b) 3 3 ''first'' sample_guard ''000000''"
  have "?t = (fst ?t, snd ?t)" by simp
  from pairing_code_reusable [OF sample_guard_simps(1-3) this] show ?thesis by blast
qed

end
