(* ===== verification/Base64.thy ===== *)
theory Base64
  imports Prelude
begin

unbundle bit_operations_syntax

section \<open>The base64 codec of the gateway\<close>

text \<open>
  \<open>base64_encode\<close> and \<open>base64_decode\<close> of \<open>liveclaw-gateway/src/server.rs\<close> (the encoder is
  repeated in \<open>liveclaw-app/src/main.rs\<close>), on 32-bit buffers as the code has them. The
  round trip is the codec law that audio forwarding rests on; a second group of lemmas says
  exactly which strings the decoder refuses.
\<close>

locale codec =
  fixes enc :: "'a \<Rightarrow> 'b" and dec :: "'b \<Rightarrow> 'a option"
  assumes dec_enc: "dec (enc x) = Some x"
begin

lemma enc_inj: "enc x = enc y \<Longrightarrow> x = y"
  by (metis dec_enc option.inject)

lemma dec_image: "\<exists>e. dec e = Some x"
  using dec_enc by blast

end

subsection \<open>Decoding\<close>

definition b64_val :: "8 word \<Rightarrow> 8 word option" where
  "b64_val c =
     (if 65 \<le> c \<and> c \<le> 90 then Some (c - 65)
      else if 97 \<le> c \<and> c \<le> 122 then Some (c - 97 + 26)
      else if 48 \<le> c \<and> c \<le> 57 then Some (c - 48 + 52)
      else if c = 43 then Some 62
      else if c = 47 then Some 63
      else None)"

text \<open>The inner loop over one chunk: the 32-bit buffer and the number of characters read.\<close>

fun b64_accum :: "32 word \<Rightarrow> nat \<Rightarrow> bytes \<Rightarrow> (32 word \<times> nat) option" where
  "b64_accum buf count [] = Some (buf, count)"
| "b64_accum buf count (b # chunk) =
     (case b64_val b of
        None \<Rightarrow> None
      | Some v \<Rightarrow> b64_accum (push_bit 6 buf OR ucast v) (count + 1) chunk)"

definition b64_decode_chunk :: "bytes \<Rightarrow> bytes option" where
  "b64_decode_chunk chunk =
     (case b64_accum 0 0 chunk of
        None \<Rightarrow> None
      | Some (buf, count) \<Rightarrow>
          let buf = push_bit ((4 - count) * 6) buf
          in Some ((if 2 \<le> count then [ucast (drop_bit 16 buf)] else []) @
                   (if 3 \<le> count then [ucast (drop_bit 8 buf)] else []) @
                   (if 4 \<le> count then [ucast buf] else [])))"

fun b64_decode_chunks :: "bytes list \<Rightarrow> bytes option" where
  "b64_decode_chunks [] = Some []"
| "b64_decode_chunks (c # cs) =
     (case b64_decode_chunk c of
        None \<Rightarrow> None
      | Some out \<Rightarrow> map_option (\<lambda>rest. out @ rest) (b64_decode_chunks cs))"

definition base64_decode :: "string \<Rightarrow> bytes option" where
  "base64_decode input =
     b64_decode_chunks (chunks 4 (as_bytes (trim_end_matches (CHR ''='') input)))"

subsection \<open>Encoding\<close>

definition b64_table :: string where
  "b64_table = ''ABCDEFGHIJKLMNOPQRSTUVWXYZabcdefghijklmnopqrstuvwxyz0123456789+/''"

definition b64_char :: "32 word \<Rightarrow> char" where
  "b64_char w = b64_table ! unat (w AND 0x3F)"

definition b64_triple :: "bytes \<Rightarrow> 32 word" where
  "b64_triple chunk =
     (let b0 = ucast (chunk ! 0);
          b1 = (if 1 < length chunk then ucast (chunk ! 1) else 0);
          b2 = (if 2 < length chunk then ucast (chunk ! 2) else 0)
      in push_bit 16 b0 OR push_bit 8 b1 OR b2)"

definition b64_encode_chunk :: "bytes \<Rightarrow> string" where
  "b64_encode_chunk chunk =
     (let triple = b64_triple chunk
      in [b64_char (drop_bit 18 triple), b64_char (drop_bit 12 triple),
          (if 1 < length chunk then b64_char (drop_bit 6 triple) else CHR ''=''),
          (if 2 < length chunk then b64_char triple else CHR ''='')])"

definition base64_encode :: "bytes \<Rightarrow> string" where
  "base64_encode input = concat (map b64_encode_chunk (chunks 3 input))"

subsection \<open>Words: the four sextets of a triple\<close>

lemma bit_byte_high: "8 \<le> n \<Longrightarrow> \<not> bit (b :: 8 word) n"
  using bit_imp_le_length by fastforce

lemma Suc_Suc_minus_2: "2 \<le> n \<Longrightarrow> Suc (Suc (n - 2)) = n"
  by arith

lemma mask63: "(63 :: 32 word) = mask 6"
  by (simp add: mask_eq_exp_minus_1)

lemma b64_val_table: "i < 64 \<Longrightarrow> b64_val (of_char (b64_table ! i)) = Some (of_nat i)"
proof -
  assume "i < 64"
  moreover have "\<forall>i \<in> set [0..<64]. b64_val (of_char (b64_table ! i)) = Some (of_nat i)"
    by code_simp
  ultimately show ?thesis by simp
qed

lemma b64_val_char [simp]: "b64_val (of_char (b64_char w)) = Some (ucast (w AND 63))"
proof -
  have "unat (w AND 63) < 64"
    using word_and_le1 [of w 63] by (simp add: word_le_nat_alt)
  then have "b64_val (of_char (b64_char w)) = Some (of_nat (unat (w AND 63)))"
    unfolding b64_char_def by (rule b64_val_table)
  then show ?thesis by simp
qed

lemma b64_char_not_pad [simp]: "b64_char w \<noteq> CHR ''=''"
proof
  assume "b64_char w = CHR ''=''"
  then have "b64_val (of_char (CHR ''='')) = Some (ucast (w AND 63))"
    by (metis b64_val_char)
  then show False by (simp add: b64_val_def)
qed

lemma ucast_sextet [simp]: "ucast (ucast (w AND 63 :: 32 word) :: 8 word) = (w AND 63 :: 32 word)"
  by (rule bit_word_eqI) (auto simp: bit_simps mask63)

lemma sextets_join:
  fixes t :: "32 word"
  assumes "\<And>n. 24 \<le> n \<Longrightarrow> \<not> bit t n"
  shows "push_bit 6 (push_bit 6 (push_bit 6 (push_bit 6 0 OR (drop_bit 18 t AND 63))
           OR (drop_bit 12 t AND 63)) OR (drop_bit 6 t AND 63)) OR (t AND 63) = t" (is "?l = t")
proof (rule bit_word_eqI)
  fix n assume "n < LENGTH(32)"
  have "n < 6 \<or> (6 \<le> n \<and> n < 12) \<or> (12 \<le> n \<and> n < 18) \<or> (18 \<le> n \<and> n < 24) \<or> 24 \<le> n"
    by arith
  then show "bit ?l n = bit t n"
    using assms [of n] \<open>n < LENGTH(32)\<close> by (auto simp: bit_simps mask63)
qed

subsection \<open>Round trip of one chunk\<close>

lemma decode_chunk_3: "b64_decode_chunk (as_bytes (b64_encode_chunk [a, b, c])) = Some [a, b, c]"
proof -
  let ?t = "push_bit 16 (ucast a) OR push_bit 8 (ucast b) OR ucast c :: 32 word"
  have hi: "\<And>n. 24 \<le> n \<Longrightarrow> \<not> bit ?t n" by (auto simp: bit_simps bit_byte_high)
  have "ucast (drop_bit 16 ?t) = a" "ucast (drop_bit 8 ?t) = b" "ucast ?t = c"
    by (rule bit_word_eqI, auto simp: bit_simps bit_byte_high)+
  with sextets_join [OF hi] show ?thesis
    by (simp add: b64_decode_chunk_def b64_encode_chunk_def b64_triple_def as_bytes_def)
qed

lemma decode_chunk_2:
  "b64_decode_chunk (as_bytes (take 3 (b64_encode_chunk [a, b]))) = Some [a, b]"
proof -
  let ?t = "push_bit 16 (ucast a) OR push_bit 8 (ucast b) OR 0 :: 32 word"
  let ?u = "push_bit 6 (push_bit 6 (push_bit 6 (push_bit 6 0 OR (drop_bit 18 ?t AND 63))
              OR (drop_bit 12 ?t AND 63)) OR (drop_bit 6 ?t AND 63))"
  have "ucast (drop_bit 16 ?u) = a" "ucast (drop_bit 8 ?u) = b"
    by (rule bit_word_eqI, auto simp: bit_simps bit_byte_high mask63 Suc_Suc_minus_2 not_less)+
  then show ?thesis
    by (simp add: b64_decode_chunk_def b64_encode_chunk_def b64_triple_def as_bytes_def)
qed

lemma decode_chunk_1:
  "b64_decode_chunk (as_bytes (take 2 (b64_encode_chunk [a]))) = Some [a]"
proof -
  define t where "t = b64_triple [a]"
  let ?u = "push_bit 12 (push_bit 6 (push_bit 6 0 OR (drop_bit 18 t AND 63))
              OR (drop_bit 12 t AND 63))"
  have enc: "take 2 (b64_encode_chunk [a]) = [b64_char (drop_bit 18 t), b64_char (drop_bit 12 t)]"
    by (simp add: b64_encode_chunk_def t_def Let_def)
  have t: "t = push_bit 16 (ucast a)" by (simp add: t_def b64_triple_def)
  have "ucast (drop_bit 16 ?u) = a"
    unfolding t
    by (rule bit_word_eqI, auto simp: bit_simps bit_byte_high mask63 Suc_Suc_minus_2 not_less)
  then show ?thesis by (simp add: enc b64_decode_chunk_def as_bytes_def)
qed

lemma length_b64_encode_chunk [simp]: "length (b64_encode_chunk chunk) = 4"
  by (simp add: b64_encode_chunk_def Let_def)

lemma b64_encode_chunk_not_Nil [simp]: "b64_encode_chunk chunk \<noteq> []"
  by (simp add: b64_encode_chunk_def Let_def)

subsection \<open>Round trip of a whole input\<close>

lemma trim_end_matches_append:
  "trim_end_matches c ys \<noteq> [] \<Longrightarrow> trim_end_matches c (xs @ ys) = xs @ trim_end_matches c ys"
  by (auto simp: trim_end_matches_def dropWhile_append)

lemma dropWhile_replicate_append:
  "dropWhile (\<lambda>x. x = c) (replicate n c @ ys) = dropWhile (\<lambda>x. x = c) ys"
  by (induction n) auto

lemma trim_end_matches_last:
  "xs \<noteq> [] \<Longrightarrow> last xs \<noteq> c \<Longrightarrow> trim_end_matches c (xs @ replicate n c) = xs"
  by (cases xs rule: rev_cases) (auto simp: trim_end_matches_def dropWhile_replicate_append)

lemma short_chunk_cases:
  assumes "xs \<noteq> []" "length xs \<le> 3"
  obtains a where "xs = [a]" | a b where "xs = [a, b]" | a b c where "xs = [a, b, c]"
proof -
  from assms obtain a r where r: "xs = a # r" "length r \<le> 2" by (cases xs) auto
  show ?thesis
  proof (cases r)
    case Nil
    with r that(1) show ?thesis by simp
  next
    case (Cons b r')
    with r that(2,3) show ?thesis by (cases r') auto
  qed
qed

lemma trim_encode_short:
  assumes "xs \<noteq> []" "length xs \<le> 3"
  shows "trim_end_matches (CHR ''='') (b64_encode_chunk xs) =
         take (length xs + 1) (b64_encode_chunk xs)"
  using assms
proof (cases xs rule: short_chunk_cases)
  case (1 a)
  then show ?thesis by (simp add: b64_encode_chunk_def Let_def trim_end_matches_def)
next
  case (2 a b)
  then show ?thesis by (simp add: b64_encode_chunk_def Let_def trim_end_matches_def)
next
  case (3 a b c)
  then show ?thesis by (simp add: b64_encode_chunk_def Let_def trim_end_matches_def)
qed

lemma decode_chunk_short:
  assumes "xs \<noteq> []" "length xs \<le> 3"
  shows "b64_decode_chunk (as_bytes (take (length xs + 1) (b64_encode_chunk xs))) = Some xs"
  using assms
proof (cases xs rule: short_chunk_cases)
  case (1 a)
  then show ?thesis using decode_chunk_1 [of a] by (simp add: numeral_2_eq_2)
next
  case (2 a b)
  then show ?thesis using decode_chunk_2 [of a b] by (simp add: numeral_3_eq_3)
next
  case (3 a b c)
  then show ?thesis using decode_chunk_3 [of a b c] by simp
qed

lemma base64_encode_short: "xs \<noteq> [] \<Longrightarrow> length xs \<le> 3 \<Longrightarrow> base64_encode xs = b64_encode_chunk xs"
  by (simp add: base64_encode_def chunks_short)

lemma base64_encode_full:
  "length xs = 3 \<Longrightarrow> base64_encode (xs @ ys) = b64_encode_chunk xs @ base64_encode ys"
  by (simp add: base64_encode_def chunks_append)

text \<open>The encoding without its padding decodes to the input, and is not empty.\<close>

lemma decode_encode_stripped:
  "xs \<noteq> [] \<Longrightarrow> trim_end_matches (CHR ''='') (base64_encode xs) \<noteq> [] \<and>
     base64_decode (base64_encode xs) = Some xs"
proof (induction xs rule: length_induct)
  case (1 xs)
  show ?case
  proof (cases "length xs \<le> 3")
    case True
    have "trim_end_matches (CHR ''='') (base64_encode xs) = take (length xs + 1) (b64_encode_chunk xs)"
      using "1.prems" True by (simp add: base64_encode_short trim_encode_short)
    moreover have "take (length xs + 1) (b64_encode_chunk xs) \<noteq> []"
      by (simp add: b64_encode_chunk_def Let_def)
    moreover from this have "chunks 4 (as_bytes (take (length xs + 1) (b64_encode_chunk xs)))
        = [as_bytes (take (length xs + 1) (b64_encode_chunk xs))]"
      using True by (intro chunks_short) (auto simp: as_bytes_def)
    ultimately show ?thesis
      using decode_chunk_short [OF "1.prems" True] by (simp add: base64_decode_def)
  next
    case False
    define h t where "h = take 3 xs" and "t = drop 3 xs"
    have ht: "xs = h @ t" "length h = 3" "t \<noteq> []" "length t < length xs"
      using False by (auto simp: h_def t_def)
    with "1.IH" have IH: "trim_end_matches (CHR ''='') (base64_encode t) \<noteq> []"
      "base64_decode (base64_encode t) = Some t" by auto
    have trim: "trim_end_matches (CHR ''='') (base64_encode xs)
        = b64_encode_chunk h @ trim_end_matches (CHR ''='') (base64_encode t)"
      using ht IH(1) by (simp add: base64_encode_full trim_end_matches_append)
    have "b64_decode_chunk (as_bytes (b64_encode_chunk h)) = Some h"
      using decode_chunk_short [of h] ht(2) by (cases h) (auto simp: numeral_eq_Suc)
    with trim IH(2) ht show ?thesis
      by (simp add: base64_decode_def chunks_append)
  qed
qed

interpretation b64: codec base64_encode base64_decode
proof
  fix x
  show "base64_decode (base64_encode x) = Some x"
  proof (cases "x = []")
    case True
    then show ?thesis by (simp add: base64_encode_def base64_decode_def trim_end_matches_def as_bytes_def)
  next
    case False
    then show ?thesis by (simp add: decode_encode_stripped)
  qed
qed

subsection \<open>What the decoder refuses\<close>

definition b64_alphabet :: "8 word \<Rightarrow> bool" where
  "b64_alphabet b \<longleftrightarrow> b64_val b \<noteq> None"

lemma b64_accum_None: "b64_accum buf n bs = None \<longleftrightarrow> (\<exists>b \<in> set bs. \<not> b64_alphabet b)"
  by (induction buf n bs rule: b64_accum.induct) (auto simp: b64_alphabet_def split: option.splits)

lemma b64_accum_count: "b64_accum buf n bs = Some (buf', m) \<Longrightarrow> m = n + length bs"
  by (induction buf n bs rule: b64_accum.induct) (auto split: option.splits)

lemma b64_decode_chunk_None: "b64_decode_chunk bs = None \<longleftrightarrow> (\<exists>b \<in> set bs. \<not> b64_alphabet b)"
  using b64_accum_None [of 0 0 bs]
  by (cases "b64_accum 0 0 bs") (auto simp: b64_decode_chunk_def Let_def)

lemma b64_decode_chunks_None:
  "b64_decode_chunks cs = None \<longleftrightarrow> (\<exists>b \<in> set (concat cs). \<not> b64_alphabet b)"
proof (induction cs)
  case Nil
  then show ?case by simp
next
  case (Cons c cs)
  then show ?case using b64_decode_chunk_None [of c]
    by (cases "b64_decode_chunk c") auto
qed

definition b64_codes :: "nat set" where
  "b64_codes = {65 ..< 91} \<union> {97 ..< 123} \<union> {48 ..< 58} \<union> {43, 47}"

lemma b64_val_codes: "b64_val b \<noteq> None \<longleftrightarrow> unat b \<in> b64_codes"
proof -
  have "(x \<le> b \<longleftrightarrow> unat x \<le> unat b) \<and> (b \<le> x \<longleftrightarrow> unat b \<le> unat x) \<and> (b = x \<longleftrightarrow> unat b = unat x)" for x
    by (simp add: word_le_nat_alt word_unat_eq_iff)
  then show ?thesis unfolding b64_val_def b64_codes_def
    by (simp split: if_split) linarith
qed

lemma b64_table_codes: "set b64_table = char_of ` b64_codes"
proof -
  let ?codes = "([65 ..< 91] :: nat list) @ [97 ..< 123] @ [48 ..< 58] @ [43, 47]"
  have "b64_table = map char_of ?codes" by code_simp
  then have "set b64_table = set (map char_of ?codes)" by (rule arg_cong)
  moreover have "set ?codes = b64_codes" by (simp only: b64_codes_def set_append set_upt list.set Un_assoc)
  ultimately show ?thesis by (simp only: set_map)
qed

lemma unat_of_char: "unat (of_char c :: 8 word) = of_char c"
proof -
  have "unat (of_nat (of_char c) :: 8 word) = of_char c"
    by (simp add: unat_of_nat)
  then show ?thesis by (simp add: of_nat_of_char)
qed

lemma b64_val_None_iff: "b64_val (of_char c) = None \<longleftrightarrow> c \<notin> set b64_table"
proof -
  have "n = of_char (char_of n :: char)" if "n \<in> b64_codes" for n :: nat
    using that by (auto simp: b64_codes_def)
  then have "c \<in> set b64_table \<longleftrightarrow> of_char c \<in> b64_codes"
    unfolding b64_table_codes by (metis char_of_char imageE imageI)
  then show ?thesis using b64_val_codes [of "of_char c"] unfolding unat_of_char by blast
qed

text \<open>
  The decoder refuses a string exactly when, without its trailing \<open>=\<close>, it holds a byte
  outside the alphabet: lengths and paddings are not looked at.
\<close>

lemma base64_decode_None:
  "base64_decode s = None \<longleftrightarrow>
     (\<exists>b \<in> set (as_bytes (trim_end_matches (CHR ''='') s)). \<not> b64_alphabet b)"
  unfolding base64_decode_def b64_decode_chunks_None by (simp only: concat_chunks)

subsection \<open>Properties\<close>

text \<open>C15: audio survives the trip through JSON. Decoding the encoding of a byte string gives the
  byte string back, for every length and hence for each of the three paddings.\<close>

theorem base64_round_trip: "base64_decode (base64_encode bs) = Some bs"
  by (rule b64.dec_enc)

text \<open>what the decoder refuses. A string is refused exactly when, without its trailing \<open>=\<close>, it
  holds a byte that is not one of the 64 letters of the alphabet the encoder writes.\<close>

theorem base64_refuses_exactly:
  "base64_decode s = None \<longleftrightarrow>
     set (trim_end_matches (CHR ''='') s) - set b64_table \<noteq> {}"
proof -
  have "base64_decode s = None \<longleftrightarrow> (\<exists>c \<in> set (trim_end_matches (CHR ''='') s). b64_val (of_char c) = None)"
    by (simp add: base64_decode_None as_bytes_def b64_alphabet_def)
  then show ?thesis by (auto simp: b64_val_None_iff)
qed

text \<open>the decoder is lax about length and padding, which RFC 4648 is not: a single letter, and a text
  with any number of trailing \<open>=\<close>, decode.\<close>

theorem base64_accepts_malformed:
  "base64_decode (s @ replicate n (CHR ''='')) = base64_decode s \<and> base64_decode ''A'' = Some []"
proof
  show "base64_decode (s @ replicate n (CHR ''='')) = base64_decode s"
    by (simp add: base64_decode_def trim_end_matches_def dropWhile_replicate_append)
  show "base64_decode ''A'' = Some []" by code_simp
qed

end
