(* ===== verification/Protocol.thy ===== *)
theory Protocol
  imports Base64
begin

section \<open>The gateway protocol\<close>

text \<open>
  The messages, responses and structures of \<open>liveclaw-gateway/src/protocol.rs\<close>, and their
  JSON form as the \<open>serde\<close> derives of the source define it (\<open>tag = "type"\<close>, one field per
  struct field, \<open>null\<close> for an absent option). A JSON object is an association list in
  the order in which the source writes the fields; it is only read by key. Integers of the source's
  type \<open>u64\<close> and \<open>usize\<close> are 64-bit words.

  A constructor that has the name of one in the library, or of a structure, is prefixed or
  suffixed (\<open>PairMsg\<close>, \<open>GwError\<close>, \<open>PriorityNoticeMsg\<close>).
\<close>

type_synonym u64 = "64 word"
type_synonym session_id = string

datatype json =
    JNull
  | JBool bool
  | JNum int
  | JFloat u64
  | JStr string
  | JArr "json list"
  | JObj "(string \<times> json) list"

definition json_get :: "string \<Rightarrow> json \<Rightarrow> json option" where
  "json_get k v = (case v of JObj kvs \<Rightarrow> map_of kvs k | _ \<Rightarrow> None)"

definition json_as_str :: "json \<Rightarrow> string option" where
  "json_as_str v = (case v of JStr s \<Rightarrow> Some s | _ \<Rightarrow> None)"

definition json_as_bool :: "json \<Rightarrow> bool option" where
  "json_as_bool v = (case v of JBool b \<Rightarrow> Some b | _ \<Rightarrow> None)"

definition PROTOCOL_VERSION :: string where
  "PROTOCOL_VERSION = ''2026-02-20''"

subsection \<open>Structures\<close>

record session_config =
  sc_model :: "string option"
  sc_voice :: "string option"
  sc_instructions :: "string option"
  sc_role :: "string option"
  sc_enable_graph :: "bool option"

record channel_outbound_item =
  oi_id :: string
  oi_session_id :: session_id
  oi_text :: string
  oi_created_at_unix_ms :: u64

record channel_job =
  job_id :: string
  job_channel :: string
  job_account_id :: string
  job_external_user_id :: string
  job_text :: string
  job_interval_seconds :: u64
  job_create_response :: bool
  job_created_at_unix_ms :: u64

record graph_execution_event =
  ge_step :: nat
  ge_node :: string
  ge_action :: string
  ge_detail :: string

record graph_execution_report =
  gr_thread_id :: string
  gr_completed :: bool
  gr_interrupted :: bool
  gr_events :: "graph_execution_event list"
  gr_final_state :: json

record runtime_diagnostics =
  rd_protocol_version :: string
  rd_supported_client_messages :: "string list"
  rd_supported_server_responses :: "string list"
  rd_runtime_kind :: string
  rd_provider_profile :: string
  rd_provider_kind :: string
  rd_provider_model :: string
  rd_provider_base_url :: "string option"
  rd_reconnect_enabled :: bool
  rd_reconnect_max_attempts :: "32 word"
  rd_reconnect_attempts_total :: u64
  rd_reconnect_successes_total :: u64
  rd_reconnect_failures_total :: u64
  rd_compaction_enabled :: bool
  rd_compaction_max_events_threshold :: nat
  rd_compactions_applied_total :: u64
  rd_security_workspace_root :: string
  rd_security_forbidden_tool_paths :: "string list"
  rd_security_deny_by_default_principal_allowlist :: bool
  rd_security_principal_allowlist_size :: nat
  rd_security_allow_public_bind :: bool
  rd_active_sessions :: nat

record gateway_health =
  gh_protocol_version :: string
  gh_uptime_seconds :: nat
  gh_require_pairing :: bool
  gh_active_sessions :: nat
  gh_active_ws_bindings :: nat
  gh_active_priority_bindings :: nat
  gh_active_channel_jobs :: nat

record priority_notice =
  pn_level :: string
  pn_code :: string
  pn_message :: string
  pn_session_id :: "string option"

subsection \<open>Messages and responses\<close>

datatype gateway_message =
    PairMsg string
  | Authenticate string
  | CreateSession "session_config option"
  | TerminateSession session_id
  | SessionAudio session_id string
  | SessionAudioCommit session_id
  | SessionResponseCreate session_id
  | SessionResponseInterrupt session_id
  | SessionPrompt session_id string "bool option"
  | ChannelInbound string string string string "bool option"
  | GetChannelOutbound string string string "u64 option"
  | CreateChannelJob string string string string u64 "bool option"
  | CancelChannelJob string
  | ListChannelJobs
  | SessionToolCall session_id string json
  | PriorityProbe
  | GetGatewayHealth
  | GetDiagnostics
  | Ping

datatype gateway_response =
    PairSuccess string
  | Authenticated string
  | PairFailure string
  | SessionCreated session_id
  | SessionTerminated session_id
  | AudioAccepted session_id
  | AudioCommitted session_id
  | ResponseCreateAccepted session_id
  | ResponseInterruptAccepted session_id
  | PromptAccepted session_id
  | ChannelRouted string string string session_id
  | ChannelOutboundBatch string string string "channel_outbound_item list"
  | ChannelJobCreated channel_job
  | ChannelJobCanceled string
  | ChannelJobs "channel_job list"
  | SessionToolResult session_id string json graph_execution_report
  | AudioOutput session_id string
  | TranscriptUpdate session_id string bool
  | PriorityProbeAccepted bool bool
  | PriorityNoticeMsg priority_notice
  | GatewayHealthMsg gateway_health
  | Diagnostics runtime_diagnostics
  | GwError string string
  | Pong

definition supported_client_message_types :: "string list" where
  "supported_client_message_types =
    [''Pair'', ''Authenticate'', ''CreateSession'', ''TerminateSession'', ''SessionAudio'',
     ''SessionAudioCommit'', ''SessionResponseCreate'', ''SessionResponseInterrupt'',
     ''SessionPrompt'', ''ChannelInbound'', ''GetChannelOutbound'', ''CreateChannelJob'',
     ''CancelChannelJob'', ''ListChannelJobs'', ''SessionToolCall'', ''PriorityProbe'',
     ''GetGatewayHealth'', ''GetDiagnostics'', ''Ping'']"

definition supported_server_response_types :: "string list" where
  "supported_server_response_types =
    [''PairSuccess'', ''Authenticated'', ''PairFailure'', ''SessionCreated'',
     ''SessionTerminated'', ''AudioAccepted'', ''AudioCommitted'', ''ResponseCreateAccepted'',
     ''ResponseInterruptAccepted'', ''PromptAccepted'', ''ChannelRouted'',
     ''ChannelOutboundBatch'', ''ChannelJobCreated'', ''ChannelJobCanceled'', ''ChannelJobs'',
     ''SessionToolResult'', ''AudioOutput'', ''TranscriptUpdate'', ''PriorityProbeAccepted'',
     ''PriorityNotice'', ''GatewayHealth'', ''Diagnostics'', ''Error'', ''Pong'']"

subsection \<open>JSON form of messages and of the structures responses carry\<close>

definition json_opt :: "('a \<Rightarrow> json) \<Rightarrow> 'a option \<Rightarrow> json" where
  "json_opt f x = (case x of None \<Rightarrow> JNull | Some v \<Rightarrow> f v)"

definition json_u64 :: "u64 \<Rightarrow> json" where
  "json_u64 w = JNum (uint w)"

definition json_of_config :: "session_config \<Rightarrow> json" where
  "json_of_config c = JObj
     [(''model'', json_opt JStr (sc_model c)), (''voice'', json_opt JStr (sc_voice c)),
      (''instructions'', json_opt JStr (sc_instructions c)), (''role'', json_opt JStr (sc_role c)),
      (''enable_graph'', json_opt JBool (sc_enable_graph c))]"

definition json_of_item :: "channel_outbound_item \<Rightarrow> json" where
  "json_of_item i = JObj
     [(''id'', JStr (oi_id i)), (''session_id'', JStr (oi_session_id i)),
      (''text'', JStr (oi_text i)), (''created_at_unix_ms'', json_u64 (oi_created_at_unix_ms i))]"

definition json_of_job :: "channel_job \<Rightarrow> json" where
  "json_of_job j = JObj
     [(''job_id'', JStr (job_id j)), (''channel'', JStr (job_channel j)),
      (''account_id'', JStr (job_account_id j)), (''external_user_id'', JStr (job_external_user_id j)),
      (''text'', JStr (job_text j)), (''interval_seconds'', json_u64 (job_interval_seconds j)),
      (''create_response'', JBool (job_create_response j)),
      (''created_at_unix_ms'', json_u64 (job_created_at_unix_ms j))]"

definition json_of_event :: "graph_execution_event \<Rightarrow> json" where
  "json_of_event e = JObj
     [(''step'', JNum (int (ge_step e))), (''node'', JStr (ge_node e)),
      (''action'', JStr (ge_action e)), (''detail'', JStr (ge_detail e))]"

definition json_of_report :: "graph_execution_report \<Rightarrow> json" where
  "json_of_report r = JObj
     [(''thread_id'', JStr (gr_thread_id r)), (''completed'', JBool (gr_completed r)),
      (''interrupted'', JBool (gr_interrupted r)), (''events'', JArr (map json_of_event (gr_events r))),
      (''final_state'', gr_final_state r)]"

definition tagged :: "string \<Rightarrow> (string \<times> json) list \<Rightarrow> json" where
  "tagged tag kvs = JObj ((''type'', JStr tag) # kvs)"

fun json_of_message :: "gateway_message \<Rightarrow> json" where
  "json_of_message (PairMsg code) = tagged ''Pair'' [(''code'', JStr code)]"
| "json_of_message (Authenticate token) = tagged ''Authenticate'' [(''token'', JStr token)]"
| "json_of_message (CreateSession c) = tagged ''CreateSession'' [(''config'', json_opt json_of_config c)]"
| "json_of_message (TerminateSession s) = tagged ''TerminateSession'' [(''session_id'', JStr s)]"
| "json_of_message (SessionAudio s a) =
     tagged ''SessionAudio'' [(''session_id'', JStr s), (''audio'', JStr a)]"
| "json_of_message (SessionAudioCommit s) = tagged ''SessionAudioCommit'' [(''session_id'', JStr s)]"
| "json_of_message (SessionResponseCreate s) =
     tagged ''SessionResponseCreate'' [(''session_id'', JStr s)]"
| "json_of_message (SessionResponseInterrupt s) =
     tagged ''SessionResponseInterrupt'' [(''session_id'', JStr s)]"
| "json_of_message (SessionPrompt s p cr) = tagged ''SessionPrompt''
     [(''session_id'', JStr s), (''prompt'', JStr p), (''create_response'', json_opt JBool cr)]"
| "json_of_message (ChannelInbound c a u t cr) = tagged ''ChannelInbound''
     [(''channel'', JStr c), (''account_id'', JStr a), (''external_user_id'', JStr u),
      (''text'', JStr t), (''create_response'', json_opt JBool cr)]"
| "json_of_message (GetChannelOutbound c a u m) = tagged ''GetChannelOutbound''
     [(''channel'', JStr c), (''account_id'', JStr a), (''external_user_id'', JStr u),
      (''max_items'', json_opt json_u64 m)]"
| "json_of_message (CreateChannelJob c a u t i cr) = tagged ''CreateChannelJob''
     [(''channel'', JStr c), (''account_id'', JStr a), (''external_user_id'', JStr u),
      (''text'', JStr t), (''interval_seconds'', json_u64 i), (''create_response'', json_opt JBool cr)]"
| "json_of_message (CancelChannelJob j) = tagged ''CancelChannelJob'' [(''job_id'', JStr j)]"
| "json_of_message ListChannelJobs = tagged ''ListChannelJobs'' []"
| "json_of_message (SessionToolCall s n a) = tagged ''SessionToolCall''
     [(''session_id'', JStr s), (''tool_name'', JStr n), (''arguments'', a)]"
| "json_of_message PriorityProbe = tagged ''PriorityProbe'' []"
| "json_of_message GetGatewayHealth = tagged ''GetGatewayHealth'' []"
| "json_of_message GetDiagnostics = tagged ''GetDiagnostics'' []"
| "json_of_message Ping = tagged ''Ping'' []"

text \<open>
  Reading a message back: a missing or ill-typed field is an error, an absent or \<open>null\<close>
  option is \<open>None\<close>, fields that the message does not have are ignored. The derives also read a structure
  from an array of its fields in their order, and a tagged one from an array that starts with the tag; then no field
  may be missing, not even an option, and none may be left over. \<open>struct_json\<close> and \<open>tagged_json\<close> give such
  an array the form of an object.
\<close>

definition struct_json :: "string list \<Rightarrow> json \<Rightarrow> json" where
  "struct_json ks v = (case v of
      JArr xs \<Rightarrow> (if length xs = length ks then JObj (zip ks xs) else JNull)
    | _ \<Rightarrow> v)"

definition field_str :: "json \<Rightarrow> string \<Rightarrow> string option" where
  "field_str v k = Option.bind (json_get k v) json_as_str"

definition opt_of_json :: "(json \<Rightarrow> 'a option) \<Rightarrow> json option \<Rightarrow> 'a option option" where
  "opt_of_json f v = (case v of
      None \<Rightarrow> Some None
    | Some JNull \<Rightarrow> Some None
    | Some w \<Rightarrow> map_option Some (f w))"

definition json_as_u64 :: "json \<Rightarrow> u64 option" where
  "json_as_u64 v = (case v of
      JNum i \<Rightarrow> (if 0 \<le> i \<and> i < 2 ^ 64 then Some (word_of_int i) else None)
    | _ \<Rightarrow> None)"

definition field_opt :: "(json \<Rightarrow> 'a option) \<Rightarrow> json \<Rightarrow> string \<Rightarrow> 'a option option" where
  "field_opt f v k = opt_of_json f (json_get k v)"

definition json_is_obj :: "json \<Rightarrow> bool" where
  "json_is_obj v = (case v of JObj _ \<Rightarrow> True | _ \<Rightarrow> False)"

definition tagged_json :: "(string \<Rightarrow> string list) \<Rightarrow> json \<Rightarrow> (string \<times> json) option" where
  "tagged_json names v = (case v of
      JObj _ \<Rightarrow> map_option (\<lambda>tag. (tag, v)) (field_str v ''type'')
    | JArr (JStr tag # xs) \<Rightarrow>
        (if length xs = length (names tag) then Some (tag, JObj (zip (names tag) xs)) else None)
    | _ \<Rightarrow> None)"

definition config_of_json :: "json \<Rightarrow> session_config option" where
  "config_of_json u =
     (let v = struct_json [''model'', ''voice'', ''instructions'', ''role'', ''enable_graph''] u
      in if \<not> json_is_obj v then None
      else case (field_opt json_as_str v ''model'', field_opt json_as_str v ''voice'',
            field_opt json_as_str v ''instructions'', field_opt json_as_str v ''role'',
            field_opt json_as_bool v ''enable_graph'') of
        (Some m, Some vo, Some i, Some r, Some g) \<Rightarrow>
          Some \<lparr> sc_model = m, sc_voice = vo, sc_instructions = i, sc_role = r, sc_enable_graph = g \<rparr>
      | _ \<Rightarrow> None)"

definition with_session :: "json \<Rightarrow> (string \<Rightarrow> gateway_message option) \<Rightarrow> gateway_message option" where
  "with_session v f = Option.bind (field_str v ''session_id'') f"

definition with_route ::
  "json \<Rightarrow> (string \<Rightarrow> string \<Rightarrow> string \<Rightarrow> gateway_message option) \<Rightarrow> gateway_message option" where
  "with_route v f =
     (case (field_str v ''channel'', field_str v ''account_id'', field_str v ''external_user_id'') of
        (Some c, Some a, Some u) \<Rightarrow> f c a u
      | _ \<Rightarrow> None)"

definition message_body_of_json :: "string \<Rightarrow> json \<Rightarrow> gateway_message option" where
  "message_body_of_json tag v =
    (if tag = ''Pair'' then map_option PairMsg (field_str v ''code'')
     else if tag = ''Authenticate'' then map_option Authenticate (field_str v ''token'')
     else if tag = ''CreateSession'' then map_option CreateSession (field_opt config_of_json v ''config'')
     else if tag = ''TerminateSession'' then with_session v (\<lambda>s. Some (TerminateSession s))
     else if tag = ''SessionAudio'' then
       with_session v (\<lambda>s. map_option (SessionAudio s) (field_str v ''audio''))
     else if tag = ''SessionAudioCommit'' then with_session v (\<lambda>s. Some (SessionAudioCommit s))
     else if tag = ''SessionResponseCreate'' then with_session v (\<lambda>s. Some (SessionResponseCreate s))
     else if tag = ''SessionResponseInterrupt'' then
       with_session v (\<lambda>s. Some (SessionResponseInterrupt s))
     else if tag = ''SessionPrompt'' then
       with_session v (\<lambda>s. Option.bind (field_str v ''prompt'') (\<lambda>p.
         map_option (SessionPrompt s p) (field_opt json_as_bool v ''create_response'')))
     else if tag = ''ChannelInbound'' then
       with_route v (\<lambda>c a u. Option.bind (field_str v ''text'') (\<lambda>t.
         map_option (ChannelInbound c a u t) (field_opt json_as_bool v ''create_response'')))
     else if tag = ''GetChannelOutbound'' then
       with_route v (\<lambda>c a u. map_option (GetChannelOutbound c a u) (field_opt json_as_u64 v ''max_items''))
     else if tag = ''CreateChannelJob'' then
       with_route v (\<lambda>c a u. Option.bind (field_str v ''text'') (\<lambda>t.
         Option.bind (Option.bind (json_get ''interval_seconds'' v) json_as_u64) (\<lambda>i.
           map_option (CreateChannelJob c a u t i) (field_opt json_as_bool v ''create_response''))))
     else if tag = ''CancelChannelJob'' then map_option CancelChannelJob (field_str v ''job_id'')
     else if tag = ''ListChannelJobs'' then Some ListChannelJobs
     else if tag = ''SessionToolCall'' then
       with_session v (\<lambda>s. Option.bind (field_str v ''tool_name'') (\<lambda>n.
         map_option (SessionToolCall s n) (json_get ''arguments'' v)))
     else if tag = ''PriorityProbe'' then Some PriorityProbe
     else if tag = ''GetGatewayHealth'' then Some GetGatewayHealth
     else if tag = ''GetDiagnostics'' then Some GetDiagnostics
     else if tag = ''Ping'' then Some Ping
     else None)"

definition message_fields :: "string \<Rightarrow> string list" where
  "message_fields tag =
     (let route = [''channel'', ''account_id'', ''external_user_id'']
      in unwrap_or (map_of
        [(''Pair'', [''code'']), (''Authenticate'', [''token'']), (''CreateSession'', [''config'']),
         (''TerminateSession'', [''session_id'']), (''SessionAudio'', [''session_id'', ''audio'']),
         (''SessionAudioCommit'', [''session_id'']), (''SessionResponseCreate'', [''session_id'']),
         (''SessionResponseInterrupt'', [''session_id'']),
         (''SessionPrompt'', [''session_id'', ''prompt'', ''create_response'']),
         (''ChannelInbound'', route @ [''text'', ''create_response'']),
         (''GetChannelOutbound'', route @ [''max_items'']),
         (''CreateChannelJob'', route @ [''text'', ''interval_seconds'', ''create_response'']),
         (''CancelChannelJob'', [''job_id'']),
         (''SessionToolCall'', [''session_id'', ''tool_name'', ''arguments''])] tag) [])"

definition message_of_json :: "json \<Rightarrow> gateway_message option" where
  "message_of_json v =
     Option.bind (tagged_json message_fields v) (\<lambda>(tag, body). message_body_of_json tag body)"

definition message_tag :: "gateway_message \<Rightarrow> string" where
  "message_tag m = the (field_str (json_of_message m) ''type'')"

subsection \<open>The message codec\<close>

named_theorems json_simps \<open>reading the fields of a literal JSON object\<close>

lemmas [json_simps] = json_get_def json_as_str_def json_as_bool_def field_str_def field_opt_def
  opt_of_json_def json_opt_def tagged_def with_session_def with_route_def

lemma json_as_u64_u64 [simp]: "json_as_u64 (json_u64 w) = Some w"
  using uint_lt2p [of w] by (simp add: json_as_u64_def json_u64_def)

lemma opt_of_json_str [simp]: "opt_of_json json_as_str (Some (json_opt JStr x)) = Some x"
  by (cases x) (simp_all add: json_simps)

lemma opt_of_json_bool [simp]: "opt_of_json json_as_bool (Some (json_opt JBool x)) = Some x"
  by (cases x) (simp_all add: json_simps)

lemma opt_of_json_u64 [simp]: "opt_of_json json_as_u64 (Some (json_opt json_u64 x)) = Some x"
proof (cases x)
  case (Some a)
  have "json_as_u64 (JNum (uint a)) = Some a"
    using json_as_u64_u64 [of a] unfolding json_u64_def .
  with Some show ?thesis by (simp add: json_opt_def opt_of_json_def json_u64_def)
qed (simp add: json_opt_def opt_of_json_def)

lemma config_of_json_config [simp]: "config_of_json (json_of_config c) = Some c"
  by (cases c) (simp add: config_of_json_def json_of_config_def field_opt_def json_get_def json_is_obj_def struct_json_def)

lemma config_of_array:
  "config_of_json (JArr [json_opt JStr m, json_opt JStr v, json_opt JStr i, json_opt JStr r, json_opt JBool g]) =
     Some \<lparr> sc_model = m, sc_voice = v, sc_instructions = i, sc_role = r, sc_enable_graph = g \<rparr>"
  by (simp add: config_of_json_def struct_json_def json_is_obj_def field_opt_def json_get_def)

lemma opt_of_json_config [simp]:
  "opt_of_json config_of_json (Some (json_opt json_of_config x)) = Some x"
proof (cases x)
  case (Some c)
  have "config_of_json (json_of_config c) = Some c" by simp
  moreover obtain kvs where "json_of_config c = JObj kvs" by (simp add: json_of_config_def)
  ultimately show ?thesis using Some by (simp add: json_opt_def opt_of_json_def)
qed (simp add: json_opt_def opt_of_json_def)

interpretation msg_json: codec json_of_message message_of_json
proof
  fix m
  show "message_of_json (json_of_message m) = Some m"
    by (cases m) (simp_all add: message_of_json_def tagged_json_def message_body_of_json_def tagged_def
        with_session_def with_route_def field_str_def field_opt_def json_get_def json_as_str_def)
qed

lemma message_tag_simps [simp]:
  "message_tag m = (case m of PairMsg _ \<Rightarrow> ''Pair'' | Authenticate _ \<Rightarrow> ''Authenticate''
     | CreateSession _ \<Rightarrow> ''CreateSession'' | TerminateSession _ \<Rightarrow> ''TerminateSession''
     | SessionAudio _ _ \<Rightarrow> ''SessionAudio'' | SessionAudioCommit _ \<Rightarrow> ''SessionAudioCommit''
     | SessionResponseCreate _ \<Rightarrow> ''SessionResponseCreate''
     | SessionResponseInterrupt _ \<Rightarrow> ''SessionResponseInterrupt''
     | SessionPrompt _ _ _ \<Rightarrow> ''SessionPrompt'' | ChannelInbound _ _ _ _ _ \<Rightarrow> ''ChannelInbound''
     | GetChannelOutbound _ _ _ _ \<Rightarrow> ''GetChannelOutbound''
     | CreateChannelJob _ _ _ _ _ _ \<Rightarrow> ''CreateChannelJob''
     | CancelChannelJob _ \<Rightarrow> ''CancelChannelJob'' | ListChannelJobs \<Rightarrow> ''ListChannelJobs''
     | SessionToolCall _ _ _ \<Rightarrow> ''SessionToolCall'' | PriorityProbe \<Rightarrow> ''PriorityProbe''
     | GetGatewayHealth \<Rightarrow> ''GetGatewayHealth'' | GetDiagnostics \<Rightarrow> ''GetDiagnostics''
     | Ping \<Rightarrow> ''Ping'')"
  by (cases m) (simp_all add: message_tag_def field_str_def tagged_def json_get_def json_as_str_def)

lemma message_tag_supported: "message_tag m \<in> set supported_client_message_types"
  by (cases m) (simp_all add: supported_client_message_types_def)

text \<open>One message of each kind, in the order of the advertised list.\<close>

definition sample_messages :: "gateway_message list" where
  "sample_messages =
    [PairMsg [], Authenticate [], CreateSession None, TerminateSession [], SessionAudio [] [],
     SessionAudioCommit [], SessionResponseCreate [], SessionResponseInterrupt [],
     SessionPrompt [] [] None, ChannelInbound [] [] [] [] None, GetChannelOutbound [] [] [] None,
     CreateChannelJob [] [] [] [] 0 None, CancelChannelJob [], ListChannelJobs,
     SessionToolCall [] [] JNull, PriorityProbe, GetGatewayHealth, GetDiagnostics, Ping]"

lemma supported_tags_eq: "supported_client_message_types = map message_tag sample_messages"
  by (simp add: supported_client_message_types_def sample_messages_def)

lemma supported_tags_range: "set supported_client_message_types = range message_tag"
proof
  show "set supported_client_message_types \<subseteq> range message_tag"
    by (auto simp only: supported_tags_eq set_map)
  show "range message_tag \<subseteq> set supported_client_message_types"
    using message_tag_supported by blast
qed

lemma message_body_tag: "message_body_of_json tag v = Some m \<Longrightarrow> tag = message_tag m"
  by (auto simp: message_body_of_json_def with_session_def with_route_def split: if_splits option.splits bind_splits)

lemma message_of_json_tag:
  "message_of_json v = Some m \<Longrightarrow> field_str v ''type'' = Some t \<Longrightarrow> t = message_tag m"
  by (cases v) (auto simp: message_of_json_def tagged_json_def field_str_def json_get_def dest: message_body_tag)

lemma json_of_message_obj: "\<exists>kvs. json_of_message m = tagged (message_tag m) kvs \<and> map fst kvs = message_fields (message_tag m)"
  by (cases m) (simp_all add: tagged_def message_fields_def unwrap_or_def)

lemma json_of_message_tag: "field_str (json_of_message m) ''type'' = Some (message_tag m)"
  using json_of_message_obj [of m] by (auto simp: field_str_def tagged_def json_get_def json_as_str_def)

text \<open>The array of the tag and the fields is read as the object is.\<close>

lemma message_body_untagged:
  "message_body_of_json tag (JObj ((''type'', t) # kvs)) = message_body_of_json tag (JObj kvs)"
  by (simp add: message_body_of_json_def with_session_def with_route_def field_str_def field_opt_def json_get_def)

lemma message_of_array:
  assumes "json_of_message m = tagged tag kvs"
  shows "message_of_json (JArr (JStr tag # map snd kvs)) = Some m"
proof -
  from json_of_message_obj [of m] assms have k: "map fst kvs = message_fields tag" by (auto simp: tagged_def)
  then have z: "zip (message_fields tag) (map snd kvs) = kvs" "length kvs = length (message_fields tag)"
    by (metis zip_map_fst_snd, metis length_map)
  from msg_json.dec_enc [of m] have "message_body_of_json tag (JObj kvs) = Some m"
    by (simp add: assms message_of_json_def tagged_json_def tagged_def field_str_def json_get_def json_as_str_def
        message_body_untagged)
  then show ?thesis by (simp add: message_of_json_def tagged_json_def z)
qed

subsection \<open>Properties\<close>

text \<open>C16: every client message survives serialisation. Reading back the JSON object of a message gives
  the message, and the tag in the object is one the gateway advertises.\<close>

theorem message_round_trip:
  "message_of_json (json_of_message m) = Some m \<and>
     (\<exists>tag \<in> set supported_client_message_types. field_str (json_of_message m) ''type'' = Some tag)"
  using msg_json.dec_enc [of m] json_of_message_tag message_tag_supported by blast

text \<open>the advertised list is exact. A tag is advertised if and only if some JSON object with that tag
  is read as a message.\<close>

theorem advertised_messages_exact:
  "tag \<in> set supported_client_message_types \<longleftrightarrow>
     (\<exists>v m. field_str v ''type'' = Some tag \<and> message_of_json v = Some m)"
proof
  assume "tag \<in> set supported_client_message_types"
  then obtain m where "tag = message_tag m" unfolding supported_tags_range by blast
  then show "\<exists>v m. field_str v ''type'' = Some tag \<and> message_of_json v = Some m"
    using msg_json.dec_enc [of m] json_of_message_tag by blast
next
  assume "\<exists>v m. field_str v ''type'' = Some tag \<and> message_of_json v = Some m"
  then show "tag \<in> set supported_client_message_types"
    using message_of_json_tag message_tag_supported by metis
qed

end
