(* ===== verification/Normalize.thy ===== *)
theory Normalize
  imports Protocol
begin

section \<open>Normalisation of channel routes\<close>

text \<open>
  The checks at the start of every channel operation of \<open>liveclaw-gateway/src/server.rs\<close>:
  \<open>normalize_channel\<close>, \<open>normalize_channel_component\<close> and \<open>bounded_max_items\<close>. The lemmas
  show that they are idempotent, so that what a job stores passes them at every tick.
\<close>

subsection \<open>Normalisation\<close>

definition SUPPORTED_CHANNELS_MESSAGE :: string where
  "SUPPORTED_CHANNELS_MESSAGE =
     ''Supported channels are telegram, slack, webhook, discord, matrix, and teams''"

definition supported_channels :: "string list" where
  "supported_channels =
     [''telegram'', ''slack'', ''webhook'', ''discord'', ''matrix'', ''teams'']"

definition normalize_channel :: "string \<Rightarrow> string option" where
  "normalize_channel channel =
     (let c = to_ascii_lowercase (trim channel)
      in if c \<in> set supported_channels then Some c else None)"

definition normalize_channel_component :: "string \<Rightarrow> string option" where
  "normalize_channel_component v = (let t = trim v in if t = [] then None else Some t)"

definition bounded_max_items :: "u64 option \<Rightarrow> nat" where
  "bounded_max_items v =
     (let n = (case v of None \<Rightarrow> 50 | Some w \<Rightarrow> unat w) in max 1 (min n 500))"

text \<open>The three checks that every channel operation starts with.\<close>

definition normalize_route ::
  "string \<Rightarrow> string \<Rightarrow> string \<Rightarrow> gateway_response + string \<times> string \<times> string" where
  "normalize_route channel account_id external_user_id =
     (case normalize_channel channel of
        None \<Rightarrow> Inl (GwError ''invalid_channel'' SUPPORTED_CHANNELS_MESSAGE)
      | Some c \<Rightarrow>
     (case normalize_channel_component account_id of
        None \<Rightarrow> Inl (GwError ''invalid_channel_route'' ''account_id is required'')
      | Some a \<Rightarrow>
     (case normalize_channel_component external_user_id of
        None \<Rightarrow> Inl (GwError ''invalid_channel_route'' ''external_user_id is required'')
      | Some u \<Rightarrow> Inr (c, a, u))))"

subsection \<open>Normalised routes\<close>

lemma supported_channels_lower:
  assumes "c \<in> set supported_channels"
  shows "to_ascii_lowercase c = c" "trim c = c" "c \<noteq> []"
proof -
  have "list_all (\<lambda>c. to_ascii_lowercase c = c \<and> trim c = c \<and> c \<noteq> []) supported_channels"
    by code_simp
  with assms show "to_ascii_lowercase c = c" "trim c = c" "c \<noteq> []"
    by (auto simp: list_all_iff)
qed

lemma normalize_channel_Some:
  "normalize_channel s = Some c \<longleftrightarrow> c \<in> set supported_channels \<and> to_ascii_lowercase (trim s) = c"
  by (auto simp: normalize_channel_def Let_def)

lemma normalize_channel_idem:
  "normalize_channel s = Some c \<Longrightarrow> normalize_channel c = Some c"
  using supported_channels_lower [of c] by (auto simp: normalize_channel_Some)

lemma normalize_component_Some:
  "normalize_channel_component v = Some t \<longleftrightarrow> t = trim v \<and> t \<noteq> []"
  by (auto simp: normalize_channel_component_def Let_def)

lemma normalize_component_idem:
  "normalize_channel_component v = Some t \<Longrightarrow> normalize_channel_component t = Some t"
  by (auto simp: normalize_component_Some)

lemma normalize_route_Inr:
  "normalize_route ch ac us = Inr (c, a, u) \<longleftrightarrow>
     normalize_channel ch = Some c \<and> normalize_channel_component ac = Some a \<and>
     normalize_channel_component us = Some u"
  by (auto simp: normalize_route_def split: option.split)

lemma normalize_route_idem:
  "normalize_route ch ac us = Inr (c, a, u) \<Longrightarrow> normalize_route c a u = Inr (c, a, u)"
  by (auto simp: normalize_route_Inr intro: normalize_channel_idem normalize_component_idem)

lemma bounded_max_items_bounds: "1 \<le> bounded_max_items m" "bounded_max_items m \<le> 500"
  by (auto simp: bounded_max_items_def Let_def)

text \<open>A job that the normalisation has nothing to change in, with a positive interval.\<close>

definition job_normal :: "channel_job \<Rightarrow> bool" where
  "job_normal j \<longleftrightarrow>
     normalize_route (job_channel j) (job_account_id j) (job_external_user_id j) =
       Inr (job_channel j, job_account_id j, job_external_user_id j) \<and>
     normalize_channel_component (job_text j) = Some (job_text j) \<and>
     job_interval_seconds j \<noteq> 0"

end
