(* ===== verification/Gateway_State.thy ===== *)
theory Gateway_State
  imports Pairing Normalize
begin

section \<open>The state of the gateway and the access check\<close>

text \<open>
  \<open>AppState\<close>, \<open>ConnectionState\<close> and what they hold, the interface \<open>RunnerHandle\<close> of the
  runner, and \<open>authorize_session_access\<close>, all of \<open>liveclaw-gateway/src/server.rs\<close>.

  The runner is reached through a trait: here a record of its operations over a state of its
  own, whose type is a parameter. A handler runs to its end without another handler between
  its steps (each lock is taken and given back as the source does, but no interleaving of two
  handlers is modelled here). A \<open>tokio\<close> channel is an identity, and the state holds its contents:
  the queue, the capacity, and whether the receiver still exists. Sending on a full channel
  waits; a task that waits for a channel only it can empty waits for ever, which the
  handlers that send report as \<open>None\<close>.
\<close>

subsection \<open>The interface of the runner\<close>

record 'r runner =
  rn_create_session :: "string \<Rightarrow> string \<Rightarrow> session_config option \<Rightarrow> 'r \<Rightarrow> string result \<times> 'r"
  rn_terminate_session :: "string \<Rightarrow> 'r \<Rightarrow> unit result \<times> 'r"
  rn_send_audio :: "string \<Rightarrow> bytes \<Rightarrow> 'r \<Rightarrow> unit result \<times> 'r"
  rn_commit_audio :: "string \<Rightarrow> 'r \<Rightarrow> unit result \<times> 'r"
  rn_create_response :: "string \<Rightarrow> 'r \<Rightarrow> unit result \<times> 'r"
  rn_interrupt_response :: "string \<Rightarrow> 'r \<Rightarrow> unit result \<times> 'r"
  rn_send_text :: "string \<Rightarrow> string \<Rightarrow> 'r \<Rightarrow> unit result \<times> 'r"
  rn_session_tool_call ::
    "string \<Rightarrow> string \<Rightarrow> json \<Rightarrow> 'r \<Rightarrow> (json \<times> graph_execution_report) result \<times> 'r"
  rn_diagnostics :: "'r \<Rightarrow> runtime_diagnostics result \<times> 'r"

text \<open>What the handlers use of the outside: the digest function and the runner.\<close>

record 'r env =
  ev_sha :: sha
  ev_runner :: "'r runner"

text \<open>
  What a handler draws while it runs: a UUID, two readings of the monotonic clock and the wall
  clock in milliseconds since 1970 (\<open>None\<close> before it).
\<close>

record ambient =
  am_uuid :: string
  am_now :: nat
  am_now_later :: nat
  am_unix_ms :: "nat option"

subsection \<open>Channels\<close>

type_synonym chan = nat

record mpsc =
  mq_items :: "gateway_response list"
  mq_capacity :: nat
  mq_open :: bool

datatype send_outcome = SendOk | SendClosed | SendBlocked

subsection \<open>The state\<close>

record channel_route_key =
  rk_principal_id :: string
  rk_channel :: string
  rk_account_id :: string
  rk_external_user_id :: string

record channel_job_runtime =
  jr_owner_principal_id :: string
  jr_job :: channel_job
  jr_cancel_tx :: bool

text \<open>A spawned \<open>run_channel_job\<close> task: its arguments and whether it was told to stop.\<close>

record job_task =
  jt_job :: channel_job
  jt_owner_principal_id :: string
  jt_cancelled :: bool

record 'r app_state =
  st_pairing :: pairing_guard
  st_runner :: 'r
  st_started_at :: nat
  audio_senders :: "string \<rightharpoonup> chan"
  session_owners :: "string \<rightharpoonup> string"
  ws_response_senders :: "string \<rightharpoonup> chan"
  ws_priority_senders :: "string \<rightharpoonup> chan"
  channel_routes :: "channel_route_key \<rightharpoonup> string"
  session_channel_routes :: "string \<rightharpoonup> channel_route_key"
  channel_outbox :: "channel_route_key \<rightharpoonup> channel_outbound_item list"
  channel_jobs :: "(string \<times> channel_job_runtime) list"
  job_tasks :: "string \<rightharpoonup> job_task"
  chans :: "chan \<rightharpoonup> mpsc"

record connection_state =
  cn_authenticated :: bool
  cn_token :: "string option"
  cn_principal_id :: "string option"
  cn_owned_sessions :: "string list"

definition new_connection :: connection_state where
  "new_connection = \<lparr> cn_authenticated = False, cn_token = None, cn_principal_id = None,
     cn_owned_sessions = [] \<rparr>"

text \<open>The state \<open>Gateway::start\<close> builds.\<close>

definition initial_state :: "pairing_guard \<Rightarrow> 'r \<Rightarrow> nat \<Rightarrow> 'r app_state" where
  "initial_state pairing r now =
     \<lparr> st_pairing = pairing, st_runner = r, st_started_at = now, audio_senders = Map.empty,
       session_owners = Map.empty, ws_response_senders = Map.empty,
       ws_priority_senders = Map.empty, channel_routes = Map.empty,
       session_channel_routes = Map.empty, channel_outbox = Map.empty, channel_jobs = [],
       job_tasks = Map.empty, chans = Map.empty \<rparr>"

definition call_runner :: "('r \<Rightarrow> 'a result \<times> 'r) \<Rightarrow> 'r app_state \<Rightarrow> 'a result \<times> 'r app_state" where
  "call_runner f st = (let (res, r) = f (st_runner st) in (res, st \<lparr> st_runner := r \<rparr>))"

definition chan_send :: "chan \<Rightarrow> gateway_response \<Rightarrow> 'r app_state \<Rightarrow> send_outcome \<times> 'r app_state" where
  "chan_send c resp st =
     (case chans st c of
        None \<Rightarrow> (SendClosed, st)
      | Some q \<Rightarrow>
          if \<not> mq_open q then (SendClosed, st)
          else if mq_capacity q \<le> length (mq_items q) then (SendBlocked, st)
          else (SendOk, st \<lparr> chans := (chans st)(c \<mapsto> q \<lparr> mq_items := mq_items q @ [resp] \<rparr>) \<rparr>))"

definition auth_required_error :: gateway_response where
  "auth_required_error =
     GwError ''auth_required'' ''Authentication required. Send Pair or Authenticate first.''"

definition principal_from_token :: "sha \<Rightarrow> string \<Rightarrow> string" where
  "principal_from_token sha token = hex_encode (sha (as_bytes token))"

text \<open>\<open>now_unix_ms\<close>: zero before 1970, the low 64 bits of the milliseconds after.\<close>

definition now_unix_ms :: "ambient \<Rightarrow> u64" where
  "now_unix_ms am = (case am_unix_ms am of None \<Rightarrow> 0 | Some ms \<Rightarrow> of_nat ms)"

subsection \<open>The access check\<close>

text \<open>Registering the senders of a connection for a session, where they are given.\<close>

definition bind_senders ::
  "string \<Rightarrow> chan option \<Rightarrow> chan option \<Rightarrow> 'r app_state \<Rightarrow> 'r app_state" where
  "bind_senders sid ws_tx ws_priority_tx st =
     (let st = (case ws_tx of None \<Rightarrow> st
                | Some c \<Rightarrow> st \<lparr> ws_response_senders := (ws_response_senders st)(sid \<mapsto> c) \<rparr>)
      in case ws_priority_tx of None \<Rightarrow> st
         | Some c \<Rightarrow> st \<lparr> ws_priority_senders := (ws_priority_senders st)(sid \<mapsto> c) \<rparr>)"

definition authorize_session_access ::
  "string \<Rightarrow> 'r app_state \<Rightarrow> connection_state \<Rightarrow> chan option \<Rightarrow> chan option \<Rightarrow>
     (gateway_response + unit) \<times> 'r app_state \<times> connection_state" where
  "authorize_session_access sid st conn ws_tx ws_priority_tx =
     (case cn_principal_id conn of
        None \<Rightarrow> (Inl auth_required_error, st, conn)
      | Some principal_id \<Rightarrow>
          if list_ex (\<lambda>s. s = sid) (cn_owned_sessions conn)
          then (Inr (), bind_senders sid ws_tx ws_priority_tx st, conn)
          else (case session_owners st sid of
            Some owner_id \<Rightarrow>
              (if owner_id = principal_id
               then (Inr (), bind_senders sid ws_tx ws_priority_tx st,
                     conn \<lparr> cn_owned_sessions := cn_owned_sessions conn @ [sid] \<rparr>)
               else (Inl (GwError ''forbidden_session''
                        ''Session is not owned by the authenticated principal''), st, conn))
          | None \<Rightarrow> (Inl (GwError ''session_not_found''
                       (''Session '' @ quoted sid @ '' not found'')), st, conn)))"

subsection \<open>Facts about the access check\<close>

lemma call_runner_eq [gw_simps]:
  "call_runner f st = (fst (f (st_runner st)), st \<lparr> st_runner := snd (f (st_runner st)) \<rparr>)"
  by (simp add: call_runner_def Let_def split_def)

lemma bind_senders_frame [simp]:
  "st_pairing (bind_senders sid a b st) = st_pairing st"
  "st_runner (bind_senders sid a b st) = st_runner st"
  "st_started_at (bind_senders sid a b st) = st_started_at st"
  "audio_senders (bind_senders sid a b st) = audio_senders st"
  "session_owners (bind_senders sid a b st) = session_owners st"
  "channel_routes (bind_senders sid a b st) = channel_routes st"
  "session_channel_routes (bind_senders sid a b st) = session_channel_routes st"
  "channel_outbox (bind_senders sid a b st) = channel_outbox st"
  "channel_jobs (bind_senders sid a b st) = channel_jobs st"
  "job_tasks (bind_senders sid a b st) = job_tasks st"
  "chans (bind_senders sid a b st) = chans st"
  by (auto simp: bind_senders_def Let_def split: option.split)

lemma bind_senders_senders:
  "ws_response_senders (bind_senders sid a b st) =
     (case a of None \<Rightarrow> ws_response_senders st | Some c \<Rightarrow> (ws_response_senders st)(sid \<mapsto> c))"
  "ws_priority_senders (bind_senders sid a b st) =
     (case b of None \<Rightarrow> ws_priority_senders st | Some c \<Rightarrow> (ws_priority_senders st)(sid \<mapsto> c))"
  by (auto simp: bind_senders_def Let_def split: option.split)

lemma bind_senders_None [simp]: "bind_senders sid None None st = st"
  by (simp add: bind_senders_def)

text \<open>
  The sessions a connection lists as its own belong to its principal, as far as they still
  have an owner.
\<close>

definition conn_ok :: "'r app_state \<Rightarrow> connection_state \<Rightarrow> bool" where
  "conn_ok st conn \<longleftrightarrow>
     (\<forall>sid \<in> set (cn_owned_sessions conn). \<forall>p.
        session_owners st sid = Some p \<longrightarrow> cn_principal_id conn = Some p)"

text \<open>A connection lists a session of the principal p.\<close>

definition conn_lists :: "string \<Rightarrow> 'r app_state \<Rightarrow> connection_state \<Rightarrow> bool" where
  "conn_lists p st conn \<longleftrightarrow> (\<exists>sid \<in> set (cn_owned_sessions conn). session_owners st sid = Some p)"

lemma conn_ok_iff_lists:
  "conn_ok st conn \<longleftrightarrow> (\<forall>p. conn_lists p st conn \<longrightarrow> cn_principal_id conn = Some p)"
  by (auto simp: conn_ok_def conn_lists_def)

lemma conn_lists_owners: "session_owners st' = session_owners st \<Longrightarrow> conn_lists p st' conn = conn_lists p st conn"
  by (simp add: conn_lists_def)

lemma conn_ok_new [simp]: "conn_ok st new_connection"
  by (simp add: conn_ok_def new_connection_def)

lemma authorize_cases:
  obtains (anonymous) "cn_principal_id conn = None"
      "authorize_session_access sid st conn a b = (Inl auth_required_error, st, conn)"
  | (listed) p where "cn_principal_id conn = Some p" "sid \<in> set (cn_owned_sessions conn)"
      "authorize_session_access sid st conn a b = (Inr (), bind_senders sid a b st, conn)"
  | (owner) p where "cn_principal_id conn = Some p" "sid \<notin> set (cn_owned_sessions conn)"
      "session_owners st sid = Some p"
      "authorize_session_access sid st conn a b = (Inr (), bind_senders sid a b st,
         conn \<lparr> cn_owned_sessions := cn_owned_sessions conn @ [sid] \<rparr>)"
  | (refused) p e where "cn_principal_id conn = Some p" "sid \<notin> set (cn_owned_sessions conn)"
      "session_owners st sid \<noteq> Some p"
      "authorize_session_access sid st conn a b = (Inl e, st, conn)"
proof (cases "cn_principal_id conn")
  case None
  then show ?thesis by (intro anonymous) (simp_all add: authorize_session_access_def)
next
  case p: (Some p)
  show ?thesis
  proof (cases "sid \<in> set (cn_owned_sessions conn)")
    case True
    with p show ?thesis
      by (intro listed) (auto simp: authorize_session_access_def list_ex_iff)
  next
    case new: False
    show ?thesis
    proof (cases "session_owners st sid = Some p")
      case True
      with p new show ?thesis
        by (intro owner) (auto simp: authorize_session_access_def list_ex_iff)
    next
      case False
      with p new have "\<exists>e. authorize_session_access sid st conn a b = (Inl e, st, conn)"
        by (auto simp: authorize_session_access_def list_ex_iff split: option.split)
      then show ?thesis using refused [OF p new False] by blast
    qed
  qed
qed

lemma authorize_Inr_cases:
  assumes "authorize_session_access sid st conn a b = (Inr u, st', conn')"
  obtains p where "cn_principal_id conn = Some p"
    "sid \<in> set (cn_owned_sessions conn) \<or> session_owners st sid = Some p"
    "st' = bind_senders sid a b st" "cn_principal_id conn' = Some p"
    "set (cn_owned_sessions conn') = insert sid (set (cn_owned_sessions conn))"
  using assms by (cases rule: authorize_cases [of conn sid st a b]) auto

lemma authorize_Inl_same:
  assumes "authorize_session_access sid st conn a b = (Inl e, st', conn')"
  shows "st' = st" "conn' = conn"
  using assms by (cases rule: authorize_cases [of conn sid st a b]; simp)+

lemma chan_send_frame [simp]:
  "st_pairing (snd (chan_send c m st)) = st_pairing st"
  "st_runner (snd (chan_send c m st)) = st_runner st"
  "session_owners (snd (chan_send c m st)) = session_owners st"
  "ws_response_senders (snd (chan_send c m st)) = ws_response_senders st"
  "ws_priority_senders (snd (chan_send c m st)) = ws_priority_senders st"
  "channel_routes (snd (chan_send c m st)) = channel_routes st"
  "session_channel_routes (snd (chan_send c m st)) = session_channel_routes st"
  "channel_outbox (snd (chan_send c m st)) = channel_outbox st"
  "channel_jobs (snd (chan_send c m st)) = channel_jobs st"
  "job_tasks (snd (chan_send c m st)) = job_tasks st"
  by (auto simp: chan_send_def Let_def split: option.split)

subsection \<open>The invariant of the tables\<close>

text \<open>
  The two route tables are inverse to each other, and a bound session belongs to the principal
  of its route key. A queue in the outbox is non-empty and belongs to a bound route; its items
  come from the bound session.
\<close>

definition routes_inv :: "'r app_state \<Rightarrow> bool" where
  "routes_inv st \<longleftrightarrow>
     (\<forall>k s. channel_routes st k = Some s \<longleftrightarrow> session_channel_routes st s = Some k) \<and>
     (\<forall>k s. channel_routes st k = Some s \<longrightarrow> session_owners st s = Some (rk_principal_id k))"

definition outbox_inv :: "'r app_state \<Rightarrow> bool" where
  "outbox_inv st \<longleftrightarrow>
     (\<forall>k q. channel_outbox st k = Some q \<longrightarrow>
        q \<noteq> [] \<and> (\<exists>s. channel_routes st k = Some s \<and>
                     (\<forall>i \<in> set q. oi_session_id i = s \<and> oi_text i \<noteq> [])))"

text \<open>
  A job of the table has a live task that was not told to stop; a task told to stop has left
  the table. Both are filed under the identifier of the job, and what a job stores is normal.
\<close>

definition jobs_inv :: "'r app_state \<Rightarrow> bool" where
  "jobs_inv st \<longleftrightarrow>
     distinct (map fst (channel_jobs st)) \<and>
     (\<forall>(i, rt) \<in> set (channel_jobs st). job_id (jr_job rt) = i \<and> jr_cancel_tx rt \<and>
        job_tasks st i = Some \<lparr> jt_job = jr_job rt, jt_owner_principal_id = jr_owner_principal_id rt,
                               jt_cancelled = False \<rparr>) \<and>
     (\<forall>i t. job_tasks st i = Some t \<longrightarrow>
        job_id (jt_job t) = i \<and> job_normal (jt_job t) \<and>
        jt_cancelled t = (i \<notin> fst ` set (channel_jobs st)))"

definition gw_inv :: "'r app_state \<Rightarrow> bool" where
  "gw_inv st \<longleftrightarrow> routes_inv st \<and> outbox_inv st \<and> jobs_inv st"

lemma gw_inv_initial [simp]: "gw_inv (initial_state pairing r now)"
  by (simp add: gw_inv_def routes_inv_def outbox_inv_def jobs_inv_def initial_state_def)

lemma gw_inv_frame [simp]:
  "gw_inv (st \<lparr> st_runner := r \<rparr>) = gw_inv st"
  "gw_inv (st \<lparr> st_pairing := g \<rparr>) = gw_inv st"
  "gw_inv (st \<lparr> chans := c \<rparr>) = gw_inv st"
  "gw_inv (bind_senders sid a b st) = gw_inv st"
  "gw_inv (snd (chan_send c' m st)) = gw_inv st"
  by (auto simp: gw_inv_def routes_inv_def outbox_inv_def jobs_inv_def)

lemma gw_invD:
  assumes "gw_inv st"
  shows "channel_routes st k = Some s \<longleftrightarrow> session_channel_routes st s = Some k"
    and "channel_routes st k = Some s \<Longrightarrow> session_owners st s = Some (rk_principal_id k)"
    and "channel_outbox st k = Some q \<Longrightarrow> q \<noteq> []"
    and "channel_outbox st k = Some q \<Longrightarrow> i \<in> set q \<Longrightarrow> channel_routes st k = Some (oi_session_id i)"
    and "channel_routes st k = None \<Longrightarrow> channel_outbox st k = None"
    and "session_owners st s = None \<Longrightarrow> session_channel_routes st s = None"
  using assms unfolding gw_inv_def routes_inv_def outbox_inv_def
  by (blast, blast, blast, metis, (cases "channel_outbox st k"; force),
      (cases "session_channel_routes st s"; force))

text \<open>A fresh identifier, and a runner that names a session as it is asked to.\<close>

definition fresh_id :: "'r app_state \<Rightarrow> string \<Rightarrow> bool" where
  "fresh_id st u \<longleftrightarrow> session_owners st u = None \<and> job_tasks st u = None"

definition creates_as_asked :: "'r runner \<Rightarrow> bool" where
  "creates_as_asked R \<longleftrightarrow>
     (\<forall>p s c r s' r'. rn_create_session R p s c r = (Inr s', r') \<longrightarrow> s' = s)"

subsection \<open>What belongs to a principal\<close>

text \<open>
  Two states agree on what belongs to p: its sessions with their senders and their route, its
  routes with their queues, its jobs and the tasks that run them.
\<close>

definition same_for :: "string \<Rightarrow> 'r app_state \<Rightarrow> 'r app_state \<Rightarrow> bool" where
  "same_for p st st' \<longleftrightarrow>
     (\<forall>s. session_owners st' s = Some p \<longleftrightarrow> session_owners st s = Some p) \<and>
     (\<forall>s. session_owners st s = Some p \<longrightarrow>
        ws_response_senders st' s = ws_response_senders st s \<and>
        ws_priority_senders st' s = ws_priority_senders st s \<and>
        session_channel_routes st' s = session_channel_routes st s) \<and>
     (\<forall>k. rk_principal_id k = p \<longrightarrow>
        channel_routes st' k = channel_routes st k \<and> channel_outbox st' k = channel_outbox st k) \<and>
     filter (\<lambda>(_, rt). jr_owner_principal_id rt = p) (channel_jobs st') =
       filter (\<lambda>(_, rt). jr_owner_principal_id rt = p) (channel_jobs st) \<and>
     (\<forall>i t. jt_owner_principal_id t = p \<longrightarrow>
        (job_tasks st' i = Some t \<longleftrightarrow> job_tasks st i = Some t))"

lemma same_for_refl [simp]: "same_for p st st"
  by (simp add: same_for_def)

lemma same_for_trans [trans]: "same_for p a b \<Longrightarrow> same_for p b c \<Longrightarrow> same_for p a c"
  by (simp add: same_for_def)

lemma same_for_frame [simp]:
  "same_for p st (st' \<lparr> st_runner := r \<rparr>) = same_for p st st'"
  "same_for p st (st' \<lparr> st_pairing := g \<rparr>) = same_for p st st'"
  "same_for p st (st' \<lparr> chans := c \<rparr>) = same_for p st st'"
  "same_for p st (snd (chan_send c' m st')) = same_for p st st'"
  by (simp_all add: same_for_def)

lemma same_for_bind:
  "session_owners st' sid \<noteq> Some p \<Longrightarrow> same_for p st st' \<Longrightarrow> same_for p st (bind_senders sid a b st')"
  by (auto simp: same_for_def bind_senders_senders split: option.splits)

subsection \<open>A concrete environment for the examples\<close>

text \<open>A runner that accepts every call and remembers the identifiers of its sessions.\<close>

definition idle_report :: graph_execution_report where
  "idle_report = \<lparr> gr_thread_id = ''t'', gr_completed = True, gr_interrupted = False, gr_events = [],
     gr_final_state = JNull \<rparr>"

definition idle_runner :: "string list runner" where
  "idle_runner =
     \<lparr> rn_create_session = (\<lambda>_ sid _ r. (Inr sid, sid # r)),
       rn_terminate_session = (\<lambda>sid r. (Inr (), filter (\<lambda>s. s \<noteq> sid) r)),
       rn_send_audio = (\<lambda>_ _ r. (Inr (), r)),
       rn_commit_audio = (\<lambda>_ r. (Inr (), r)),
       rn_create_response = (\<lambda>_ r. (Inr (), r)),
       rn_interrupt_response = (\<lambda>_ r. (Inr (), r)),
       rn_send_text = (\<lambda>_ _ r. (Inr (), r)),
       rn_session_tool_call = (\<lambda>_ _ _ r. (Inr (JNull, idle_report), r)),
       rn_diagnostics = (\<lambda>r. (Inl ''none'', r)) \<rparr>"

definition idle_env :: "string list env" where
  "idle_env = \<lparr> ev_sha = (\<lambda>b. b), ev_runner = idle_runner \<rparr>"

definition idle_ambient :: "string \<Rightarrow> ambient" where
  "idle_ambient u = \<lparr> am_uuid = u, am_now = 5, am_now_later = 6, am_unix_ms = Some 7 \<rparr>"

definition idle_guard :: pairing_guard where
  "idle_guard = \<lparr> require_pairing = True, pairing_code = Some ''001337'', token_hashes = [],
     failed_attempts = 0, max_attempts = 5, lockout_duration = 10, lockout_until = None \<rparr>"

definition idle_state :: "string list app_state" where
  "idle_state = initial_state idle_guard [] 0"

definition conn_of :: "string \<Rightarrow> connection_state" where
  "conn_of p = \<lparr> cn_authenticated = True, cn_token = None, cn_principal_id = Some p,
     cn_owned_sessions = [] \<rparr>"

lemma idle_creates_as_asked [simp]: "creates_as_asked (ev_runner idle_env)"
  by (simp add: creates_as_asked_def idle_env_def idle_runner_def)

lemma idle_state_inv [simp]: "gw_inv idle_state"
  by (simp add: idle_state_def)

lemma idle_state_simps [simp]:
  "session_owners idle_state = Map.empty" "job_tasks idle_state = Map.empty"
  "channel_routes idle_state = Map.empty" "st_runner idle_state = []"
  by (simp_all add: idle_state_def initial_state_def)

lemmas idle_eval = idle_env_def idle_runner_def idle_ambient_def conn_of_def

end
