(* ===== verification/Sessions.thy ===== *)
theory Sessions
  imports Gateway_State
begin

section \<open>Pairing, sessions and operations of the gateway\<close>

text \<open>
  The handlers of \<open>liveclaw-gateway/src/server.rs\<close> from \<open>handle_pair\<close> to
  \<open>handle_session_response_interrupt\<close>, \<open>handle_session_prompt\<close> with the prompt analysis it
  calls, and \<open>handle_session_tool_call\<close> to \<open>handle_priority_probe\<close>.

  A handler takes the state and the connection and gives the response with both updated. A
  handler that sends on a channel of its own connection gives \<open>None\<close> for the response when
  the channel is full: it waits for the receiver, which is the very task it runs in.
  Logging is left out.
\<close>

type_synonym 'r handled = "gateway_response \<times> 'r app_state \<times> connection_state"
type_synonym 'r awaited = "gateway_response option \<times> 'r app_state \<times> connection_state"

definition no_wait :: "'r handled \<Rightarrow> 'r awaited" where
  "no_wait h = (Some (fst h), snd h)"

subsection \<open>Pairing and authentication\<close>

definition handle_pair ::
  "'r env \<Rightarrow> ambient \<Rightarrow> string \<Rightarrow> 'r app_state \<Rightarrow> connection_state \<Rightarrow> 'r handled" where
  "handle_pair env am code st conn =
     (let (res, guard) = try_pair (ev_sha env) (am_now am) (am_now_later am) (am_uuid am)
                           (st_pairing st) code;
          st = st \<lparr> st_pairing := guard \<rparr>
      in case res of
           Inr (Some token) \<Rightarrow>
             (PairSuccess token, st,
              conn \<lparr> cn_authenticated := True, cn_token := Some token,
                     cn_principal_id := Some (principal_from_token (ev_sha env) token) \<rparr>)
         | Inr None \<Rightarrow>
             (PairSuccess ''no-auth-required'', st,
              conn \<lparr> cn_authenticated := True, cn_principal_id := Some ''anonymous'' \<rparr>)
         | Inl lockout_secs \<Rightarrow>
             (if lockout_secs = 0 then (PairFailure ''Invalid pairing code'', st, conn)
              else (PairFailure (''Locked out for '' @ show_nat lockout_secs @ '' seconds''), st, conn)))"

definition handle_authenticate ::
  "'r env \<Rightarrow> string \<Rightarrow> 'r app_state \<Rightarrow> connection_state \<Rightarrow> 'r handled" where
  "handle_authenticate env token st conn =
     (if \<not> is_authenticated (ev_sha env) (st_pairing st) token
      then (GwError ''invalid_token'' ''Token authentication failed'', st, conn)
      else let principal_id = (if is_authenticated (ev_sha env) (st_pairing st) ''''
                               then ''anonymous'' else principal_from_token (ev_sha env) token)
           in (Authenticated principal_id, st,
               conn \<lparr> cn_authenticated := True, cn_token := Some token,
                      cn_principal_id := Some principal_id \<rparr>))"

subsection \<open>Sessions\<close>

definition handle_create_session_internal ::
  "'r env \<Rightarrow> ambient \<Rightarrow> session_config option \<Rightarrow> 'r app_state \<Rightarrow> connection_state \<Rightarrow>
     chan option \<Rightarrow> chan option \<Rightarrow> 'r handled" where
  "handle_create_session_internal env am config st conn ws_tx ws_priority_tx =
     (let principal_id = (case cn_principal_id conn of None \<Rightarrow> ''unknown'' | Some p \<Rightarrow> p);
          (res, st) = call_runner
             (rn_create_session (ev_runner env) principal_id (am_uuid am) config) st
      in case res of
           Inl e \<Rightarrow>
             (GwError ''session_create_failed'' (''Failed to create session: '' @ e), st, conn)
         | Inr sid \<Rightarrow>
             (let st = st \<lparr> session_owners := (session_owners st)(sid \<mapsto> principal_id) \<rparr>;
                  st = bind_senders sid ws_tx ws_priority_tx st;
                  conn = (if sid \<in> set (cn_owned_sessions conn) then conn
                          else conn \<lparr> cn_owned_sessions := cn_owned_sessions conn @ [sid] \<rparr>)
              in (SessionCreated sid, st, conn)))"

definition handle_create_session ::
  "'r env \<Rightarrow> ambient \<Rightarrow> session_config option \<Rightarrow> 'r app_state \<Rightarrow> connection_state \<Rightarrow>
     chan \<Rightarrow> chan \<Rightarrow> 'r handled" where
  "handle_create_session env am config st conn ws_tx ws_priority_tx =
     handle_create_session_internal env am config st conn (Some ws_tx) (Some ws_priority_tx)"

text \<open>
  What \<open>handle_terminate_session\<close> removes before it calls the runner. The outbox entries that
  go are those of the route keys which were bound to the session.
\<close>

definition forget_session :: "string \<Rightarrow> 'r app_state \<Rightarrow> 'r app_state" where
  "forget_session sid st =
     (let removed_route_keys = {k. channel_routes st k = Some sid}
      in st \<lparr> audio_senders := (audio_senders st)(sid := None),
             ws_response_senders := (ws_response_senders st)(sid := None),
             ws_priority_senders := (ws_priority_senders st)(sid := None),
             session_owners := (session_owners st)(sid := None),
             channel_routes := drop_value (channel_routes st) sid,
             session_channel_routes := (session_channel_routes st)(sid := None),
             channel_outbox := (\<lambda>k. if channel_routes st k = Some sid then None
                                    else channel_outbox st k) \<rparr>)"

text \<open>The early return on a refused access, which the handlers below share.\<close>

definition with_access ::
  "string \<Rightarrow> 'r app_state \<Rightarrow> connection_state \<Rightarrow> chan option \<Rightarrow> chan option \<Rightarrow>
     ('r app_state \<Rightarrow> connection_state \<Rightarrow> 'r handled) \<Rightarrow> 'r handled" where
  "with_access sid st conn ws_tx ws_priority_tx f =
     (case authorize_session_access sid st conn ws_tx ws_priority_tx of
        (Inl resp, st, conn) \<Rightarrow> (resp, st, conn)
      | (Inr _, st, conn) \<Rightarrow> f st conn)"

definition handle_terminate_session ::
  "'r env \<Rightarrow> string \<Rightarrow> 'r app_state \<Rightarrow> connection_state \<Rightarrow> 'r handled" where
  "handle_terminate_session env sid st conn =
     with_access sid st conn None None (\<lambda>st conn.
       let st = forget_session sid st;
           conn = conn \<lparr> cn_owned_sessions := filter (\<lambda>s. s \<noteq> sid) (cn_owned_sessions conn) \<rparr>;
           (res, st) = call_runner (rn_terminate_session (ev_runner env) sid) st
       in case res of
            Inr _ \<Rightarrow> (SessionTerminated sid, st, conn)
          | Inl e \<Rightarrow>
              (GwError ''session_terminate_failed'' (''Failed to terminate session: '' @ e), st, conn))"

definition handle_session_audio ::
  "'r env \<Rightarrow> string \<Rightarrow> string \<Rightarrow> 'r app_state \<Rightarrow> connection_state \<Rightarrow> chan \<Rightarrow> chan \<Rightarrow> 'r handled" where
  "handle_session_audio env sid audio_b64 st conn ws_tx ws_priority_tx =
     with_access sid st conn (Some ws_tx) (Some ws_priority_tx) (\<lambda>st conn.
       case base64_decode audio_b64 of
         None \<Rightarrow> (GwError ''invalid_audio'' ''Failed to decode base64 audio data'', st, conn)
       | Some audio_bytes \<Rightarrow>
           (case call_runner (rn_send_audio (ev_runner env) sid audio_bytes) st of
              (Inr _, st) \<Rightarrow> (AudioAccepted sid, st, conn)
            | (Inl e, st) \<Rightarrow>
                (GwError ''audio_send_failed'' (''Failed to forward audio: '' @ e), st, conn)))"

definition handle_session_audio_commit ::
  "'r env \<Rightarrow> string \<Rightarrow> 'r app_state \<Rightarrow> connection_state \<Rightarrow> chan \<Rightarrow> chan \<Rightarrow> 'r handled" where
  "handle_session_audio_commit env sid st conn ws_tx ws_priority_tx =
     with_access sid st conn (Some ws_tx) (Some ws_priority_tx) (\<lambda>st conn.
       case call_runner (rn_commit_audio (ev_runner env) sid) st of
         (Inr _, st) \<Rightarrow> (AudioCommitted sid, st, conn)
       | (Inl e, st) \<Rightarrow>
           (GwError ''audio_commit_failed'' (''Failed to commit audio: '' @ e), st, conn))"

definition handle_session_response_create ::
  "'r env \<Rightarrow> string \<Rightarrow> 'r app_state \<Rightarrow> connection_state \<Rightarrow> chan \<Rightarrow> chan \<Rightarrow> 'r handled" where
  "handle_session_response_create env sid st conn ws_tx ws_priority_tx =
     with_access sid st conn (Some ws_tx) (Some ws_priority_tx) (\<lambda>st conn.
       case call_runner (rn_create_response (ev_runner env) sid) st of
         (Inr _, st) \<Rightarrow> (ResponseCreateAccepted sid, st, conn)
       | (Inl e, st) \<Rightarrow>
           (GwError ''response_create_failed'' (''Failed to create response: '' @ e), st, conn))"

definition handle_session_response_interrupt ::
  "'r env \<Rightarrow> string \<Rightarrow> 'r app_state \<Rightarrow> connection_state \<Rightarrow> chan \<Rightarrow> chan \<Rightarrow> 'r handled" where
  "handle_session_response_interrupt env sid st conn ws_tx ws_priority_tx =
     with_access sid st conn (Some ws_tx) (Some ws_priority_tx) (\<lambda>st conn.
       case call_runner (rn_interrupt_response (ev_runner env) sid) st of
         (Inr _, st) \<Rightarrow> (ResponseInterruptAccepted sid, st, conn)
       | (Inl e, st) \<Rightarrow>
           (GwError ''response_interrupt_failed'' (''Failed to interrupt response: '' @ e), st, conn))"

subsection \<open>Prompts\<close>

text \<open>The characters a token of a prompt is stripped of: quotes, punctuation and brackets.\<close>

definition prompt_trim_char :: "char \<Rightarrow> bool" where
  "prompt_trim_char c \<longleftrightarrow>
     c \<in> {CHR 0x22, CHR 0x27, CHR 0x60, CHR '','', CHR '';'', CHR '':'', CHR ''('', CHR '')'',
          CHR ''['', CHR '']'', CHR ''{'', CHR ''}''}"

definition known_extensions :: "string list" where
  "known_extensions =
     [''.md'', ''.txt'', ''.toml'', ''.json'', ''.yaml'', ''.yml'', ''.rs'', ''.ts'', ''.js'',
      ''.py'', ''.sh'']"

definition workspace_path_of_token :: "string \<Rightarrow> string option" where
  "workspace_path_of_token token =
     (let candidate = trim_matches prompt_trim_char token in
      if candidate = [] then None
      else let normalized = trim_start_matches ''./'' candidate;
               candidate_lower = to_ascii_lowercase normalized;
               is_file_like = (CHR ''/'' \<in> set candidate \<or> CHR ''.'' \<in> set candidate);
               known_ext = list_ex (ends_with candidate_lower) known_extensions
           in if is_file_like \<and> known_ext then Some normalized else None)"

fun first_workspace_path :: "string list \<Rightarrow> string option" where
  "first_workspace_path [] = None"
| "first_workspace_path (t # ts) =
     (case workspace_path_of_token t of Some p \<Rightarrow> Some p | None \<Rightarrow> first_workspace_path ts)"

definition maybe_extract_workspace_read_path :: "string \<Rightarrow> string option" where
  "maybe_extract_workspace_read_path prompt =
     (let lower = to_ascii_lowercase prompt;
          read_intent = (str_contains lower ''read_workspace_file'' \<or>
             str_contains lower ''read file'' \<or> str_contains lower ''read the file'' \<or>
             str_contains lower ''readme'')
      in if \<not> read_intent then None
         else case first_workspace_path (split_whitespace prompt) of
                Some p \<Rightarrow> Some p
              | None \<Rightarrow> if str_contains lower ''readme'' then Some ''README.md'' else None)"

definition newline :: string where
  "newline = [CHR 0x0A]"

definition build_workspace_summary_prompt :: "string \<Rightarrow> string \<Rightarrow> string \<Rightarrow> bool \<Rightarrow> string" where
  "build_workspace_summary_prompt user_prompt path content truncated =
     (let truncation_note =
        (if truncated
         then ''The file content was truncated for safety. If needed, ask for a narrower section.''
         else ''The file content is complete for this read.'')
      in ''User request:'' @ newline @ user_prompt @ newline @ newline
         @ ''Context from read_workspace_file(path='' @ [CHR 0x22] @ path @ [CHR 0x22] @ ''):'' @ newline
         @ content @ newline @ newline @ truncation_note @ newline @ newline
         @ ''Now answer the user request directly.'')"

definition tool_result_field :: "json \<Rightarrow> string \<Rightarrow> json option" where
  "tool_result_field tool_result k = Option.bind (json_get ''result'' tool_result) (json_get k)"

text \<open>The prompt that goes out once the file has been read.\<close>

definition prompt_with_file :: "string \<Rightarrow> json \<Rightarrow> string" where
  "prompt_with_file trimmed tool_result =
     (let content = (case Option.bind (tool_result_field tool_result ''content'') json_as_str of
                       None \<Rightarrow> '''' | Some s \<Rightarrow> s);
          resolved_path = (case Option.bind (tool_result_field tool_result ''path'') json_as_str of
                       None \<Rightarrow> ''README.md'' | Some s \<Rightarrow> s);
          truncated = (case Option.bind (tool_result_field tool_result ''truncated'') json_as_bool of
                       None \<Rightarrow> False | Some b \<Rightarrow> b)
      in if content = [] then trimmed
         else build_workspace_summary_prompt trimmed resolved_path content truncated)"

text \<open>The end of \<open>handle_session_prompt\<close>: the text, then the response when asked for.\<close>

definition send_prompt ::
  "'r env \<Rightarrow> string \<Rightarrow> string \<Rightarrow> bool \<Rightarrow> 'r app_state \<Rightarrow> connection_state \<Rightarrow> 'r handled" where
  "send_prompt env sid outbound_prompt create_response st conn =
     (case call_runner (rn_send_text (ev_runner env) sid outbound_prompt) st of
        (Inl e, st) \<Rightarrow> (GwError ''session_prompt_failed'' (''Failed to send prompt: '' @ e), st, conn)
      | (Inr _, st) \<Rightarrow>
          (if create_response
           then (case call_runner (rn_create_response (ev_runner env) sid) st of
                   (Inl e, st) \<Rightarrow> (GwError ''session_prompt_response_failed''
                       (''Prompt queued, but create_response failed: '' @ e), st, conn)
                 | (Inr _, st) \<Rightarrow> (PromptAccepted sid, st, conn))
           else (PromptAccepted sid, st, conn)))"

definition prompt_tool_args :: "string \<Rightarrow> json" where
  "prompt_tool_args path = JObj [(''path'', JStr path), (''max_bytes'', JNum 32768)]"

text \<open>What follows the access check: the file is read first when the prompt asks for it.\<close>

definition prompt_body ::
  "'r env \<Rightarrow> string \<Rightarrow> string \<Rightarrow> bool \<Rightarrow> 'r app_state \<Rightarrow> connection_state \<Rightarrow> chan \<Rightarrow> 'r awaited" where
  "prompt_body env sid trimmed create_response st conn ws_tx =
     (case maybe_extract_workspace_read_path trimmed of
        None \<Rightarrow> no_wait (send_prompt env sid trimmed create_response st conn)
      | Some path \<Rightarrow>
          (case call_runner (rn_session_tool_call (ev_runner env) sid ''read_workspace_file''
                  (prompt_tool_args path)) st of
             (Inl e, st) \<Rightarrow>
               (Some (GwError ''session_prompt_tool_bridge_failed''
                 (''Failed to execute prompt-driven read_workspace_file call: '' @ e)), st, conn)
           | (Inr (tool_result, graph), st) \<Rightarrow>
               (case chan_send ws_tx
                       (SessionToolResult sid ''read_workspace_file'' tool_result graph) st of
                  (SendBlocked, st) \<Rightarrow> (None, st, conn)
                | (_, st) \<Rightarrow> no_wait
                    (send_prompt env sid (prompt_with_file trimmed tool_result)
                       create_response st conn))))"

definition handle_session_prompt ::
  "'r env \<Rightarrow> string \<Rightarrow> string \<Rightarrow> bool \<Rightarrow> 'r app_state \<Rightarrow> connection_state \<Rightarrow> chan \<Rightarrow> chan \<Rightarrow>
     'r awaited" where
  "handle_session_prompt env sid prompt create_response st conn ws_tx ws_priority_tx =
     (case authorize_session_access sid st conn (Some ws_tx) (Some ws_priority_tx) of
        (Inl resp, st, conn) \<Rightarrow> (Some resp, st, conn)
      | (Inr _, st, conn) \<Rightarrow>
          (let trimmed = trim prompt in
           if trimmed = [] then (Some (GwError ''invalid_prompt'' ''Prompt is empty''), st, conn)
           else prompt_body env sid trimmed create_response st conn ws_tx))"

definition handle_session_tool_call ::
  "'r env \<Rightarrow> string \<Rightarrow> string \<Rightarrow> json \<Rightarrow> 'r app_state \<Rightarrow> connection_state \<Rightarrow> chan \<Rightarrow> chan \<Rightarrow>
     'r handled" where
  "handle_session_tool_call env sid tool_name arguments st conn ws_tx ws_priority_tx =
     with_access sid st conn (Some ws_tx) (Some ws_priority_tx) (\<lambda>st conn.
       case call_runner (rn_session_tool_call (ev_runner env) sid tool_name arguments) st of
         (Inr (res, graph), st) \<Rightarrow> (SessionToolResult sid tool_name res graph, st, conn)
       | (Inl e, st) \<Rightarrow>
           (GwError ''session_tool_call_failed'' (''Failed to execute tool call: '' @ e), st, conn))"

subsection \<open>Diagnostics, health and the priority probe\<close>

definition handle_get_diagnostics ::
  "'r env \<Rightarrow> 'r app_state \<Rightarrow> gateway_response \<times> 'r app_state" where
  "handle_get_diagnostics env st =
     (case call_runner (rn_diagnostics (ev_runner env)) st of
        (Inr data, st) \<Rightarrow> (Diagnostics data, st)
      | (Inl e, st) \<Rightarrow> (GwError ''diagnostics_failed'' (''Failed to fetch diagnostics: '' @ e), st))"

text \<open>\<open>HashMap::len\<close> of the job table: its keys are distinct.\<close>

definition handle_get_gateway_health :: "'r env \<Rightarrow> ambient \<Rightarrow> 'r app_state \<Rightarrow> gateway_response" where
  "handle_get_gateway_health env am st =
     GatewayHealthMsg
       \<lparr> gh_protocol_version = PROTOCOL_VERSION,
         gh_uptime_seconds = as_secs (am_now am - st_started_at st),
         gh_require_pairing = (\<not> is_authenticated (ev_sha env) (st_pairing st) ''''),
         gh_active_sessions = map_len (session_owners st),
         gh_active_ws_bindings = map_len (ws_response_senders st),
         gh_active_priority_bindings = map_len (ws_priority_senders st),
         gh_active_channel_jobs = length (channel_jobs st) \<rparr>"

definition handle_priority_probe ::
  "'r app_state \<Rightarrow> connection_state \<Rightarrow> chan \<Rightarrow> chan \<Rightarrow> gateway_response option \<times> 'r app_state" where
  "handle_priority_probe st conn ws_tx ws_priority_tx =
     (let sid = (if cn_owned_sessions conn = [] then ''priority-probe''
                 else last (cn_owned_sessions conn))
      in case chan_send ws_tx (TranscriptUpdate sid ''priority_probe_standard'' False) st of
           (SendBlocked, st) \<Rightarrow> (None, st)
         | (standard, st) \<Rightarrow>
             (case chan_send ws_priority_tx
                  (PriorityNoticeMsg \<lparr> pn_level = ''info'', pn_code = ''priority_probe'',
                     pn_message = ''Priority channel is active'', pn_session_id = Some sid \<rparr>) st of
                (SendBlocked, st) \<Rightarrow> (None, st)
              | (priority, st) \<Rightarrow>
                  (Some (PriorityProbeAccepted (standard = SendOk) (priority = SendOk)), st)))"

subsection \<open>What the handlers keep\<close>

text \<open>
  A handled message keeps the invariant of the tables and the identity of the connection. For
  another principal of whom the connection lists no session, that stays so, and nothing that
  belongs to this principal changes.
\<close>

definition keeps :: "'r app_state \<Rightarrow> connection_state \<Rightarrow> 'r app_state \<Rightarrow> connection_state \<Rightarrow> bool" where
  "keeps st conn st' conn' \<longleftrightarrow>
     (gw_inv st \<longrightarrow> gw_inv st') \<and>
     cn_principal_id conn' = cn_principal_id conn \<and>
     cn_authenticated conn' = cn_authenticated conn \<and>
     (gw_inv st \<longrightarrow> (\<forall>p. cn_principal_id conn \<noteq> Some p \<longrightarrow> \<not> conn_lists p st conn \<longrightarrow>
        \<not> conn_lists p st' conn' \<and> same_for p st st'))"

definition handled_ok :: "'r app_state \<Rightarrow> connection_state \<Rightarrow> 'r handled \<Rightarrow> bool" where
  "handled_ok st conn h \<longleftrightarrow> keeps st conn (fst (snd h)) (snd (snd h))"

definition awaited_ok :: "'r app_state \<Rightarrow> connection_state \<Rightarrow> 'r awaited \<Rightarrow> bool" where
  "awaited_ok st conn h \<longleftrightarrow> keeps st conn (fst (snd h)) (snd (snd h))"

lemma keeps_refl [simp, intro]: "keeps st conn st conn"
  by (simp add: keeps_def)

lemma keeps_trans [trans]:
  "keeps a c b d \<Longrightarrow> keeps b d e f \<Longrightarrow> keeps a c e f"
  by (auto simp: keeps_def intro: same_for_trans)

lemma keeps_conn_ok: "keeps st conn st' conn' \<Longrightarrow> gw_inv st \<Longrightarrow> conn_ok st conn \<Longrightarrow> conn_ok st' conn'"
  unfolding keeps_def conn_ok_iff_lists by metis

lemma conn_ok_owners: "session_owners st' = session_owners st \<Longrightarrow> conn_ok st' conn = conn_ok st conn"
  by (simp add: conn_ok_def)

lemma keeps_frame [simp]:
  "keeps st conn (st' \<lparr> st_runner := r \<rparr>) conn' = keeps st conn st' conn'"
  "keeps st conn (st' \<lparr> chans := c \<rparr>) conn' = keeps st conn st' conn'"
  "keeps st conn (snd (chan_send c' m st')) conn' = keeps st conn st' conn'"
  by (simp_all add: keeps_def conn_lists_def)

lemma handled_ok_simps [simp]:
  "handled_ok st conn (resp, st', conn') = keeps st conn st' conn'"
  "awaited_ok st conn (r, st', conn') = keeps st conn st' conn'"
  "awaited_ok st conn (no_wait h) = handled_ok st conn h"
  by (simp_all add: handled_ok_def awaited_ok_def no_wait_def)

lemma keeps_bind:
  assumes owner: "\<And>q. session_owners st sid = Some q \<Longrightarrow> cn_principal_id conn = Some q \<or> conn_lists q st conn"
    and owned: "set (cn_owned_sessions conn') = insert sid (set (cn_owned_sessions conn))"
    and "cn_principal_id conn' = cn_principal_id conn" "cn_authenticated conn' = cn_authenticated conn"
  shows "keeps st conn (bind_senders sid a b st) conn'"
proof -
  have "\<not> conn_lists p (bind_senders sid a b st) conn' \<and> same_for p st (bind_senders sid a b st)"
    if "cn_principal_id conn \<noteq> Some p" "\<not> conn_lists p st conn" for p
    using that owner [of p] owned by (auto simp: conn_lists_def intro!: same_for_bind)
  then show ?thesis using assms(3,4) by (simp add: keeps_def)
qed

lemma authorize_keeps:
  assumes "authorize_session_access sid st conn a b = (res, st', conn')"
  shows "keeps st conn st' conn'"
proof (cases rule: authorize_cases [of conn sid st a b])
  case (owner p)
  with assms have "st' = bind_senders sid a b st"
    "conn' = conn \<lparr> cn_owned_sessions := cn_owned_sessions conn @ [sid] \<rparr>" by auto
  with owner show ?thesis by (auto intro!: keeps_bind)
next
  case (listed p)
  with assms have "st' = bind_senders sid a b st" "conn' = conn" by auto
  with listed show ?thesis by (auto simp: conn_lists_def intro!: keeps_bind)
qed (use assms in simp_all)

text \<open>After an access check that succeeded the session is listed, and the rest may rely on it.\<close>

lemma authorize_then_keeps:
  assumes auth: "authorize_session_access sid st conn a b = (Inr u, st1, conn1)"
    and rest: "sid \<in> set (cn_owned_sessions conn1) \<Longrightarrow> cn_principal_id conn1 = cn_principal_id conn \<Longrightarrow>
       keeps st1 conn1 st' conn'"
  shows "keeps st conn st' conn'"
proof -
  have "sid \<in> set (cn_owned_sessions conn1)" "cn_principal_id conn1 = cn_principal_id conn"
    using auth by (auto elim!: authorize_Inr_cases)
  with rest authorize_keeps [OF auth] show ?thesis by (blast intro: keeps_trans)
qed

lemma with_access_keeps:
  assumes "\<And>st1 conn1. sid \<in> set (cn_owned_sessions conn1) \<Longrightarrow>
      cn_principal_id conn1 = cn_principal_id conn \<Longrightarrow> handled_ok st1 conn1 (f st1 conn1)"
  shows "handled_ok st conn (with_access sid st conn a b f)"
  using assms
  by (auto simp: with_access_def handled_ok_def split: prod.split sum.split
      intro: authorize_keeps authorize_then_keeps)

lemma handle_authenticate_state [simp]: "fst (snd (handle_authenticate env t st conn)) = st"
  by (simp add: handle_authenticate_def Let_def)

lemma handle_session_audio_ok: "handled_ok st conn (handle_session_audio env sid au st conn a b)"
  unfolding handle_session_audio_def
  by (rule with_access_keeps) (auto simp: gw_simps split: option.split sum.split)

lemma handle_session_audio_commit_ok:
  "handled_ok st conn (handle_session_audio_commit env sid st conn a b)"
  unfolding handle_session_audio_commit_def
  by (rule with_access_keeps) (auto simp: gw_simps split: option.split sum.split)

lemma handle_session_response_create_ok:
  "handled_ok st conn (handle_session_response_create env sid st conn a b)"
  unfolding handle_session_response_create_def
  by (rule with_access_keeps) (auto simp: gw_simps split: option.split sum.split)

lemma handle_session_response_interrupt_ok:
  "handled_ok st conn (handle_session_response_interrupt env sid st conn a b)"
  unfolding handle_session_response_interrupt_def
  by (rule with_access_keeps) (auto simp: gw_simps split: option.split sum.split)

lemma handle_session_tool_call_ok:
  "handled_ok st conn (handle_session_tool_call env sid n v st conn a b)"
  unfolding handle_session_tool_call_def
  by (rule with_access_keeps) (auto simp: gw_simps split: option.split sum.split)

lemma send_prompt_ok [simp]: "handled_ok st conn (send_prompt env sid t cr st conn)"
  by (auto simp: send_prompt_def gw_simps split: sum.split)

lemma chan_send_keeps: "chan_send c m st = (out, st') \<Longrightarrow> keeps st conn st' conn"
  using keeps_frame(3) [where st = st and conn = conn and c' = c and m = m and st' = st] by simp

lemma send_prompt_after:
  "keeps st conn st' conn \<Longrightarrow> handled_ok st conn (send_prompt env sid t cr st' conn)"
  using send_prompt_ok [of st' conn env sid t cr] by (auto simp: handled_ok_def intro: keeps_trans)

lemma prompt_body_ok: "awaited_ok st conn (prompt_body env sid t cr st conn ws_tx)"
proof -
  have *: "keeps st conn st' conn" if "chan_send ws_tx m (st \<lparr> st_runner := r \<rparr>) = (out, st')" for m r out st'
  proof (rule keeps_trans)
    show "keeps st conn (st \<lparr> st_runner := r \<rparr>) conn" by simp
  qed (use that chan_send_keeps in blast)
  show ?thesis
    by (auto simp: prompt_body_def gw_simps split: option.split sum.split prod.split send_outcome.split
        intro: * send_prompt_after)
qed

lemma handle_session_prompt_ok:
  "awaited_ok st conn (handle_session_prompt env sid p cr st conn a b)"
proof (cases "authorize_session_access sid st conn (Some a) (Some b)")
  case (fields res st1 conn1)
  show ?thesis
  proof (cases res)
    case (Inl e)
    with fields show ?thesis by (auto simp: handle_session_prompt_def intro: authorize_keeps)
  next
    case (Inr u)
    with fields prompt_body_ok [of st1 conn1 env sid "trim p" cr a] show ?thesis
      by (auto simp: handle_session_prompt_def Let_def awaited_ok_def intro: authorize_then_keeps)
  qed
qed

text \<open>Removing a session that the invariant covers touches what belongs to its owner only.\<close>

lemma gw_inv_forget:
  assumes "gw_inv st"
  shows "gw_inv (forget_session sid st)"
proof -
  note I = gw_invD [OF assms]
  have "routes_inv (forget_session sid st)"
    using I(1,2) by (auto simp: routes_inv_def forget_session_def Let_def)
  moreover have "outbox_inv (forget_session sid st)"
    using assms by (fastforce simp: gw_inv_def outbox_inv_def forget_session_def Let_def)
  moreover have "jobs_inv (forget_session sid st)"
    using assms by (simp add: gw_inv_def jobs_inv_def forget_session_def Let_def)
  ultimately show ?thesis by (simp add: gw_inv_def)
qed

lemma same_for_forget:
  assumes "gw_inv st" "session_owners st sid \<noteq> Some p"
  shows "same_for p st (forget_session sid st)"
  using gw_invD(2) [OF assms(1)] assms(2)
  by (auto simp: same_for_def forget_session_def Let_def drop_value_def)

lemma keeps_forget:
  assumes "sid \<in> set (cn_owned_sessions conn)"
  shows "keeps st conn (forget_session sid st)
    (conn \<lparr> cn_owned_sessions := filter (\<lambda>s. s \<noteq> sid) (cn_owned_sessions conn) \<rparr>)"
  using assms
  by (auto simp: keeps_def gw_inv_forget conn_lists_def intro!: same_for_forget)
    (auto simp: forget_session_def Let_def split: if_splits)

lemma handle_terminate_session_ok: "handled_ok st conn (handle_terminate_session env sid st conn)"
  unfolding handle_terminate_session_def
  by (rule with_access_keeps) (auto simp: gw_simps Let_def keeps_forget split: sum.split)

text \<open>A new session, under an identifier that no session has.\<close>

lemma gw_inv_new_owner:
  assumes "gw_inv st" "session_owners st sid = None"
  shows "gw_inv (st \<lparr> session_owners := (session_owners st)(sid \<mapsto> p) \<rparr>)"
  using assms gw_invD(2) [OF assms(1)]
  by (fastforce simp: gw_inv_def routes_inv_def outbox_inv_def jobs_inv_def)

lemma same_for_new_owner:
  assumes "session_owners st sid = None" "p \<noteq> q"
  shows "same_for p st (st \<lparr> session_owners := (session_owners st)(sid \<mapsto> q) \<rparr>)"
  using assms by (auto simp: same_for_def)

lemma create_session_cases:
  assumes asked: "creates_as_asked (ev_runner env)"
    and h: "handle_create_session_internal env am config st conn a b = (resp, st', conn')"
  obtains (failed) e r where "resp = GwError ''session_create_failed'' (''Failed to create session: '' @ e)"
      "st' = st \<lparr> st_runner := r \<rparr>" "conn' = conn"
  | (created) r where "resp = SessionCreated (am_uuid am)"
      "st' = bind_senders (am_uuid am) a b (st \<lparr> st_runner := r, session_owners :=
          (session_owners st)(am_uuid am \<mapsto> (case cn_principal_id conn of None \<Rightarrow> ''unknown'' | Some p \<Rightarrow> p)) \<rparr>)"
      "set (cn_owned_sessions conn') = insert (am_uuid am) (set (cn_owned_sessions conn))"
      "cn_principal_id conn' = cn_principal_id conn" "cn_authenticated conn' = cn_authenticated conn"
proof -
  let ?p = "case cn_principal_id conn of None \<Rightarrow> ''unknown'' | Some p \<Rightarrow> p"
  obtain res r where run: "rn_create_session (ev_runner env) ?p (am_uuid am) config (st_runner st) = (res, r)"
    by (cases "rn_create_session (ev_runner env) ?p (am_uuid am) config (st_runner st)")
  show thesis
  proof (cases res)
    case (Inl e)
    with run h show ?thesis
      by (intro failed) (auto simp: handle_create_session_internal_def gw_simps Let_def)
  next
    case (Inr s)
    with asked run have "s = am_uuid am" unfolding creates_as_asked_def by blast
    with run h Inr show ?thesis
      by (intro created) (auto simp: handle_create_session_internal_def gw_simps Let_def split: if_splits)
  qed
qed

lemma create_session_ok:
  assumes "creates_as_asked (ev_runner env)" "session_owners st (am_uuid am) = None"
    and "cn_principal_id conn \<noteq> None"
  shows "handled_ok st conn (handle_create_session_internal env am config st conn a b)"
proof (cases "handle_create_session_internal env am config st conn a b")
  case (fields resp st' conn')
  from assms(1) fields show ?thesis
  proof (cases rule: create_session_cases)
    case (created r)
    obtain p where p: "cn_principal_id conn = Some p" using assms(3) by auto
    let ?st = "st \<lparr> st_runner := r, session_owners := (session_owners st)(am_uuid am \<mapsto> p) \<rparr>"
    let ?st1 = "st \<lparr> session_owners := (session_owners st)(am_uuid am \<mapsto> p) \<rparr>"
    have eq: "?st = ?st1 \<lparr> st_runner := r \<rparr>" by simp
    have "keeps st conn ?st1 conn"
      using assms(2) p unfolding keeps_def
      by (auto intro: gw_inv_new_owner same_for_new_owner) (auto simp: conn_lists_def split: if_splits)
    then have "keeps st conn ?st conn" unfolding eq by simp
    moreover have "keeps ?st conn st' conn'"
      unfolding created(2) p option.case by (rule keeps_bind) (use created p in auto)
    ultimately show ?thesis using fields by (auto intro: keeps_trans)
  qed (use fields in auto)
qed

lemma handle_priority_probe_ok:
  "keeps st conn (snd (handle_priority_probe st conn a b)) conn"
  by (auto simp: handle_priority_probe_def Let_def split: prod.split send_outcome.split
      intro: chan_send_keeps keeps_trans)

text \<open>A refused access changes nothing; the handlers below share it.\<close>

lemma with_access_refused:
  assumes "authorize_session_access sid st conn a b = (Inl e, st1, conn1)"
  shows "with_access sid st conn a b f = (e, st, conn)"
  using assms authorize_Inl_same [OF assms] by (simp add: with_access_def)

lemma authorize_forbidden:
  assumes "session_owners st sid = Some p" "cn_principal_id conn = Some q" "p \<noteq> q"
    and "sid \<notin> set (cn_owned_sessions conn)"
  shows "authorize_session_access sid st conn a b =
    (Inl (GwError ''forbidden_session'' ''Session is not owned by the authenticated principal''), st, conn)"
  using assms by (auto simp: authorize_session_access_def list_ex_iff)

lemma authorize_missing:
  assumes "session_owners st sid = None" "cn_principal_id conn = Some q"
    and "sid \<notin> set (cn_owned_sessions conn)"
  shows "authorize_session_access sid st conn a b =
    (Inl (GwError ''session_not_found'' (''Session '' @ quoted sid @ '' not found'')), st, conn)"
  using assms by (auto simp: authorize_session_access_def list_ex_iff)

text \<open>Termination removes a session everywhere, whatever the runner answers.\<close>

lemma handle_terminate_session_state:
  assumes "handle_terminate_session env sid st conn = (resp, st', conn')"
    and "authorize_session_access sid st conn None None = (Inr u, st1, conn1)"
  shows "st' = (forget_session sid st) \<lparr> st_runner := snd (rn_terminate_session (ev_runner env) sid (st_runner st)) \<rparr>"
    and "cn_owned_sessions conn' = filter (\<lambda>s. s \<noteq> sid) (cn_owned_sessions conn)"
proof -
  obtain p where "st1 = st" "set (cn_owned_sessions conn1) = insert sid (set (cn_owned_sessions conn))"
    "filter (\<lambda>s. s \<noteq> sid) (cn_owned_sessions conn1) = filter (\<lambda>s. s \<noteq> sid) (cn_owned_sessions conn)"
    using assms(2) by (cases rule: authorize_cases [of conn sid st None None]) auto
  moreover have "st_runner (forget_session sid st) = st_runner st"
    by (simp add: forget_session_def Let_def)
  ultimately show "st' = (forget_session sid st) \<lparr> st_runner := snd (rn_terminate_session (ev_runner env) sid (st_runner st)) \<rparr>"
    "cn_owned_sessions conn' = filter (\<lambda>s. s \<noteq> sid) (cn_owned_sessions conn)"
    using assms by (auto simp: handle_terminate_session_def with_access_def gw_simps Let_def split: sum.splits)
qed

lemma forget_session_gone:
  "session_owners (forget_session sid st) sid = None"
  "ws_response_senders (forget_session sid st) sid = None"
  "ws_priority_senders (forget_session sid st) sid = None"
  "session_channel_routes (forget_session sid st) sid = None"
  "audio_senders (forget_session sid st) sid = None"
  "channel_routes (forget_session sid st) k \<noteq> Some sid"
  "channel_routes st k = Some sid \<Longrightarrow> channel_outbox (forget_session sid st) k = None"
  by (simp_all add: forget_session_def Let_def)

end
