(* ===== verification/Channels.thy ===== *)
theory Channels
  imports Sessions "HOL-Library.Multiset"
begin

section \<open>Channel routes, outbox and jobs\<close>

text \<open>
  The channel part of \<open>liveclaw-gateway/src/server.rs\<close>: the outbox and its polling, channel jobs with the task each of them runs, and \<open>handle_channel_inbound\<close>,
  which maps a channel user to a session and forwards the text.

  A job's task is a sequence of steps: a tick, or its end once it was told to stop. Job
  identifiers are UUIDs, taken not to repeat, so that a task is found under its job's identifier.
\<close>

subsection \<open>Route keys\<close>

definition route_key :: "string \<Rightarrow> string \<times> string \<times> string \<Rightarrow> channel_route_key" where
  "route_key principal_id route =
     (case route of (c, a, u) \<Rightarrow>
        \<lparr> rk_principal_id = principal_id, rk_channel = c, rk_account_id = a,
          rk_external_user_id = u \<rparr>)"

subsection \<open>The outbox\<close>

text \<open>Taking at most n items off the queue of a route; an empty queue is removed.\<close>

definition take_outbox ::
  "channel_route_key \<Rightarrow> nat \<Rightarrow> 'r app_state \<Rightarrow> channel_outbound_item list \<times> 'r app_state" where
  "take_outbox k take_n st =
     (case channel_outbox st k of
        None \<Rightarrow> ([], st)
      | Some queue \<Rightarrow>
          (let split = min take_n (length queue);
               drained = take split queue;
               rest = drop split queue
           in (drained, st \<lparr> channel_outbox :=
                 (if rest = [] then (channel_outbox st)(k := None)
                  else (channel_outbox st)(k \<mapsto> rest)) \<rparr>)))"

definition drain_channel_outbox ::
  "'r app_state \<Rightarrow> string \<Rightarrow> string \<Rightarrow> string \<Rightarrow> string \<Rightarrow> u64 option \<Rightarrow>
     (gateway_response + string \<times> string \<times> string \<times> channel_outbound_item list) \<times> 'r app_state" where
  "drain_channel_outbox st principal_id channel account_id external_user_id max_items =
     (case normalize_route channel account_id external_user_id of
        Inl resp \<Rightarrow> (Inl resp, st)
      | Inr (c, a, u) \<Rightarrow>
          (let (items, st) = take_outbox (route_key principal_id (c, a, u))
                               (bounded_max_items max_items) st
           in (Inr (c, a, u, items), st)))"

definition handle_get_channel_outbound ::
  "string \<Rightarrow> string \<Rightarrow> string \<Rightarrow> u64 option \<Rightarrow> 'r app_state \<Rightarrow> connection_state \<Rightarrow>
     gateway_response \<times> 'r app_state" where
  "handle_get_channel_outbound channel account_id external_user_id max_items st conn =
     (case cn_principal_id conn of
        None \<Rightarrow> (auth_required_error, st)
      | Some principal_id \<Rightarrow>
          (case drain_channel_outbox st principal_id channel account_id external_user_id max_items of
             (Inr (c, a, u, items), st) \<Rightarrow> (ChannelOutboundBatch c a u items, st)
           | (Inl resp, st) \<Rightarrow> (resp, st)))"

text \<open>What the transcript task does with each output after forwarding it.\<close>

record session_transcript_output =
  to_session_id :: string
  to_text :: string
  to_is_final :: bool

definition queue_channel_outbound_transcript ::
  "ambient \<Rightarrow> session_transcript_output \<Rightarrow> 'r app_state \<Rightarrow> 'r app_state" where
  "queue_channel_outbound_transcript am output st =
     (if \<not> to_is_final output then st
      else let text = trim (to_text output) in
        if text = [] then st
        else case session_channel_routes st (to_session_id output) of
          None \<Rightarrow> st
        | Some k \<Rightarrow>
            (let item = \<lparr> oi_id = am_uuid am, oi_session_id = to_session_id output, oi_text = text,
                          oi_created_at_unix_ms = now_unix_ms am \<rparr>;
                 queue = (case channel_outbox st k of None \<Rightarrow> [] | Some q \<Rightarrow> q)
             in st \<lparr> channel_outbox := (channel_outbox st)(k \<mapsto> queue @ [item]) \<rparr>))"

subsection \<open>Inbound messages\<close>

record channel_inbound_request =
  ci_channel :: string
  ci_account_id :: string
  ci_external_user_id :: string
  ci_text :: string
  ci_create_response :: bool
  ci_session_config_on_create :: "session_config option"
  ci_force_session_recreate :: bool

text \<open>\<open>force_session_recreate\<close>: the session the route is bound to goes, in the table and the runner.\<close>

definition drop_mapped_session ::
  "'r env \<Rightarrow> channel_route_key \<Rightarrow> string \<Rightarrow> 'r app_state \<Rightarrow> 'r app_state" where
  "drop_mapped_session env k sid st =
     (let st = st \<lparr> channel_routes := (channel_routes st)(k := None),
                    session_channel_routes := (session_channel_routes st)(sid := None),
                    channel_outbox := (channel_outbox st)(k := None),
                    ws_response_senders := (ws_response_senders st)(sid := None),
                    ws_priority_senders := (ws_priority_senders st)(sid := None),
                    audio_senders := (audio_senders st)(sid := None),
                    session_owners := (session_owners st)(sid := None) \<rparr>
      in snd (call_runner (rn_terminate_session (ev_runner env) sid) st))"

definition create_routed_session ::
  "'r env \<Rightarrow> ambient \<Rightarrow> session_config option \<Rightarrow> channel_route_key \<Rightarrow> 'r app_state \<Rightarrow>
     connection_state \<Rightarrow> chan option \<Rightarrow> chan option \<Rightarrow>
     (gateway_response + string) \<times> 'r app_state \<times> connection_state" where
  "create_routed_session env am config k st conn ws_tx ws_priority_tx =
     (case handle_create_session_internal env am config st conn ws_tx ws_priority_tx of
        (SessionCreated sid, st, conn) \<Rightarrow>
          (Inr sid, st \<lparr> channel_routes := (channel_routes st)(k \<mapsto> sid) \<rparr>, conn)
      | (other, st, conn) \<Rightarrow> (Inl other, st, conn))"

text \<open>The session a message goes to: the one bound to the route while it exists, or a new one.\<close>

definition inbound_session ::
  "'r env \<Rightarrow> ambient \<Rightarrow> channel_inbound_request \<Rightarrow> channel_route_key \<Rightarrow> 'r app_state \<Rightarrow>
     connection_state \<Rightarrow> chan option \<Rightarrow> chan option \<Rightarrow>
     (gateway_response + string) \<times> 'r app_state \<times> connection_state" where
  "inbound_session env am request k st conn ws_tx ws_priority_tx =
     (let mapped_session = channel_routes st k;
          config = ci_session_config_on_create request;
          st = (if ci_force_session_recreate request
                then (case mapped_session of None \<Rightarrow> st | Some sid \<Rightarrow> drop_mapped_session env k sid st)
                else st);
          mapped_session = (if ci_force_session_recreate request then None else mapped_session)
      in case mapped_session of
           Some existing \<Rightarrow>
             (if session_owners st existing \<noteq> None then (Inr existing, st, conn)
              else let st = st \<lparr> channel_routes := (channel_routes st)(k := None),
                                 session_channel_routes :=
                                   (session_channel_routes st)(existing := None) \<rparr>
                   in create_routed_session env am config k st conn ws_tx ws_priority_tx)
         | None \<Rightarrow> create_routed_session env am config k st conn ws_tx ws_priority_tx)"

definition forward_inbound ::
  "'r env \<Rightarrow> channel_inbound_request \<Rightarrow> string \<times> string \<times> string \<Rightarrow> string \<Rightarrow> string \<Rightarrow>
     'r app_state \<Rightarrow> connection_state \<Rightarrow> 'r handled" where
  "forward_inbound env request route text sid st conn =
     (case call_runner (rn_send_text (ev_runner env) sid text) st of
        (Inl e, st) \<Rightarrow>
          (GwError ''channel_inbound_failed'' (''Failed to forward channel message: '' @ e), st, conn)
      | (Inr _, st) \<Rightarrow>
          (let routed = (case route of (c, a, u) \<Rightarrow> ChannelRouted c a u sid) in
           if ci_create_response request
           then (case call_runner (rn_create_response (ev_runner env) sid) st of
                   (Inl e, st) \<Rightarrow> (GwError ''channel_response_failed''
                       (''Channel message routed, but response creation failed: '' @ e), st, conn)
                 | (Inr _, st) \<Rightarrow> (routed, st, conn))
           else (routed, st, conn)))"

definition handle_channel_inbound ::
  "'r env \<Rightarrow> ambient \<Rightarrow> channel_inbound_request \<Rightarrow> 'r app_state \<Rightarrow> connection_state \<Rightarrow>
     chan option \<Rightarrow> chan option \<Rightarrow> 'r handled" where
  "handle_channel_inbound env am request st conn ws_tx ws_priority_tx =
     (case cn_principal_id conn of
        None \<Rightarrow> (auth_required_error, st, conn)
      | Some principal_id \<Rightarrow>
     (case normalize_route (ci_channel request) (ci_account_id request)
             (ci_external_user_id request) of
        Inl resp \<Rightarrow> (resp, st, conn)
      | Inr route \<Rightarrow>
     (case normalize_channel_component (ci_text request) of
        None \<Rightarrow> (GwError ''invalid_channel_message'' ''text is empty'', st, conn)
      | Some text \<Rightarrow>
          (let k = route_key principal_id route in
           case inbound_session env am request k st conn ws_tx ws_priority_tx of
             (Inl resp, st, conn) \<Rightarrow> (resp, st, conn)
           | (Inr sid, st, conn) \<Rightarrow>
               (let st = st \<lparr> session_channel_routes := (session_channel_routes st)(sid \<mapsto> k) \<rparr>
                in with_access sid st conn ws_tx ws_priority_tx
                     (forward_inbound env request route text sid))))))"

subsection \<open>Jobs\<close>

record channel_job_create_request =
  cj_channel :: string
  cj_account_id :: string
  cj_external_user_id :: string
  cj_text :: string
  cj_interval_seconds :: u64
  cj_create_response :: bool

definition alist_remove :: "'k \<Rightarrow> ('k \<times> 'v) list \<Rightarrow> ('k \<times> 'v) list" where
  "alist_remove k xs = filter (\<lambda>(k', _). k' \<noteq> k) xs"

definition handle_create_channel_job ::
  "ambient \<Rightarrow> channel_job_create_request \<Rightarrow> 'r app_state \<Rightarrow> connection_state \<Rightarrow>
     gateway_response \<times> 'r app_state" where
  "handle_create_channel_job am request st conn =
     (case cn_principal_id conn of
        None \<Rightarrow> (auth_required_error, st)
      | Some owner_principal_id \<Rightarrow>
     (case normalize_route (cj_channel request) (cj_account_id request)
             (cj_external_user_id request) of
        Inl resp \<Rightarrow> (resp, st)
      | Inr (c, a, u) \<Rightarrow>
     (case normalize_channel_component (cj_text request) of
        None \<Rightarrow> (GwError ''invalid_channel_message'' ''text is empty'', st)
      | Some text \<Rightarrow>
          (if cj_interval_seconds request = 0
           then (GwError ''invalid_channel_job'' ''interval_seconds must be greater than 0'', st)
           else
             let job = \<lparr> job_id = am_uuid am, job_channel = c, job_account_id = a,
                         job_external_user_id = u, job_text = text,
                         job_interval_seconds = cj_interval_seconds request,
                         job_create_response = cj_create_response request,
                         job_created_at_unix_ms = now_unix_ms am \<rparr>;
                 runtime = \<lparr> jr_owner_principal_id = owner_principal_id, jr_job = job,
                             jr_cancel_tx = True \<rparr>;
                 task = \<lparr> jt_job = job, jt_owner_principal_id = owner_principal_id,
                          jt_cancelled = False \<rparr>
             in (ChannelJobCreated job,
                 st \<lparr> channel_jobs := (job_id job, runtime) # alist_remove (job_id job) (channel_jobs st),
                      job_tasks := (job_tasks st)(job_id job \<mapsto> task) \<rparr>)))))"

text \<open>
  \<open>run_channel_job\<close>: while its timer and its cancellation are both ready the task takes either,
  so a task that was told to stop may still tick; it ends by removing its entry of the job table.
\<close>

definition job_request :: "channel_job \<Rightarrow> channel_inbound_request" where
  "job_request job =
     \<lparr> ci_channel = job_channel job, ci_account_id = job_account_id job,
       ci_external_user_id = job_external_user_id job, ci_text = job_text job,
       ci_create_response = job_create_response job, ci_session_config_on_create = None,
       ci_force_session_recreate = False \<rparr>"

definition job_connection :: "string \<Rightarrow> connection_state" where
  "job_connection owner_principal_id =
     \<lparr> cn_authenticated = True, cn_token = None, cn_principal_id = Some owner_principal_id,
       cn_owned_sessions = [] \<rparr>"

definition run_channel_job_tick ::
  "'r env \<Rightarrow> ambient \<Rightarrow> channel_job \<Rightarrow> string \<Rightarrow> 'r app_state \<Rightarrow> gateway_response \<times> 'r app_state" where
  "run_channel_job_tick env am job owner_principal_id st =
     (case handle_channel_inbound env am (job_request job) st (job_connection owner_principal_id)
             None None of
        (resp, st, _) \<Rightarrow> (resp, st))"

definition run_channel_job_stop :: "string \<Rightarrow> 'r app_state \<Rightarrow> 'r app_state" where
  "run_channel_job_stop jid st =
     st \<lparr> channel_jobs := alist_remove jid (channel_jobs st), job_tasks := (job_tasks st)(jid := None) \<rparr>"

inductive run_channel_job ::
  "'r env \<Rightarrow> ambient \<Rightarrow> string \<Rightarrow> 'r app_state \<Rightarrow> 'r app_state \<Rightarrow> bool"
  for env am jid st where
  tick: "job_tasks st jid = Some task \<Longrightarrow>
    run_channel_job env am jid st
      (snd (run_channel_job_tick env am (jt_job task) (jt_owner_principal_id task) st))"
| stop: "job_tasks st jid = Some task \<Longrightarrow> jt_cancelled task \<Longrightarrow>
    run_channel_job env am jid st (run_channel_job_stop jid st)"

inductive_simps run_channel_job_iff: "run_channel_job env am jid st st'"

definition cancel_task :: "string \<Rightarrow> 'r app_state \<Rightarrow> 'r app_state" where
  "cancel_task jid st =
     st \<lparr> job_tasks := (job_tasks st)(jid := map_option (jt_cancelled_update (\<lambda>_. True)) (job_tasks st jid)) \<rparr>"

definition handle_cancel_channel_job ::
  "string \<Rightarrow> 'r app_state \<Rightarrow> connection_state \<Rightarrow> gateway_response \<times> 'r app_state" where
  "handle_cancel_channel_job jid st conn =
     (case cn_principal_id conn of
        None \<Rightarrow> (auth_required_error, st)
      | Some principal_id \<Rightarrow>
          (case map_of (channel_jobs st) jid of
             None \<Rightarrow> (GwError ''channel_job_not_found'' (''Channel job '' @ quoted jid @ '' not found''), st)
           | Some existing \<Rightarrow>
               (if jr_owner_principal_id existing \<noteq> principal_id
                then (GwError ''forbidden_channel_job''
                        ''Channel job is not owned by the authenticated principal'', st)
                else
                  let st = st \<lparr> channel_jobs := alist_remove jid (channel_jobs st) \<rparr>;
                      st = (if jr_cancel_tx existing then cancel_task jid st else st)
                  in (ChannelJobCanceled jid, st))))"

text \<open>The order of the list: time of creation, then identifier.\<close>

definition job_order :: "channel_job \<Rightarrow> u64 \<times> string" where
  "job_order j = (job_created_at_unix_ms j, job_id j)"

definition handle_list_channel_jobs :: "'r app_state \<Rightarrow> connection_state \<Rightarrow> gateway_response" where
  "handle_list_channel_jobs st conn =
     (case cn_principal_id conn of
        None \<Rightarrow> auth_required_error
      | Some principal_id \<Rightarrow>
          ChannelJobs (sort_key job_order
            (map (jr_job \<circ> snd)
               (filter (\<lambda>(_, rt). jr_owner_principal_id rt = principal_id) (channel_jobs st)))))"

subsection \<open>What the outbox operations keep\<close>

lemma route_key_principal [simp]: "rk_principal_id (route_key p r) = p"
  by (cases r) (simp add: route_key_def)

lemma route_key_inject [simp]: "route_key p r = route_key p' r' \<longleftrightarrow> p = p' \<and> r = r'"
  by (cases r; cases r') (auto simp: route_key_def)

lemma take_outbox_frame [simp]:
  "channel_routes (snd (take_outbox k n st)) = channel_routes st"
  "session_channel_routes (snd (take_outbox k n st)) = session_channel_routes st"
  "session_owners (snd (take_outbox k n st)) = session_owners st"
  "ws_response_senders (snd (take_outbox k n st)) = ws_response_senders st"
  "ws_priority_senders (snd (take_outbox k n st)) = ws_priority_senders st"
  "channel_jobs (snd (take_outbox k n st)) = channel_jobs st"
  "job_tasks (snd (take_outbox k n st)) = job_tasks st"
  by (auto simp: take_outbox_def Let_def split: option.split)

text \<open>The items taken and the items left make up the queue.\<close>

definition queue_of :: "'r app_state \<Rightarrow> channel_route_key \<Rightarrow> channel_outbound_item list" where
  "queue_of st k = (case channel_outbox st k of None \<Rightarrow> [] | Some q \<Rightarrow> q)"

lemma gw_inv_queue:
  assumes "gw_inv st" "i \<in> set (queue_of st k)"
  shows "channel_routes st k = Some (oi_session_id i) \<and> oi_text i \<noteq> []"
proof -
  from assms(2) obtain q where "channel_outbox st k = Some q" "i \<in> set q"
    by (cases "channel_outbox st k") (simp_all add: queue_of_def)
  with assms(1) show ?thesis unfolding gw_inv_def outbox_inv_def by metis
qed

lemma take_outbox_split:
  "fst (take_outbox k n st) = take n (queue_of st k)"
  "queue_of (snd (take_outbox k n st)) k = drop n (queue_of st k)"
  "k' \<noteq> k \<Longrightarrow> channel_outbox (snd (take_outbox k n st)) k' = channel_outbox st k'"
  by (auto simp: take_outbox_def queue_of_def Let_def min_def split: option.split)

lemma take_outbox_inv:
  assumes "gw_inv st"
  shows "gw_inv (snd (take_outbox k n st))"
proof (cases "channel_outbox st k")
  case None
  then show ?thesis using assms by (simp add: take_outbox_def)
next
  case (Some q)
  have "channel_outbox st k' = Some q' \<Longrightarrow> outbox_inv st \<Longrightarrow>
      q' \<noteq> [] \<and> (\<exists>s. channel_routes st k' = Some s \<and> (\<forall>i \<in> set q'. oi_session_id i = s \<and> oi_text i \<noteq> []))"
    for k' q' by (simp add: outbox_inv_def)
  from this [of k] this [OF Some] have "outbox_inv (snd (take_outbox k n st))" if "outbox_inv st"
    using that Some
    by (fastforce simp: outbox_inv_def take_outbox_def Let_def dest: in_set_dropD)
  then show ?thesis using assms by (simp add: gw_inv_def routes_inv_def jobs_inv_def)
qed

lemma take_outbox_same_for:
  "rk_principal_id k \<noteq> p \<Longrightarrow> same_for p st (snd (take_outbox k n st))"
  by (simp add: same_for_def) (metis take_outbox_split(3))

lemma take_outbox_keeps:
  assumes "cn_principal_id conn = Some (rk_principal_id k)"
  shows "keeps st conn (snd (take_outbox k n st)) conn"
  using assms by (auto simp: keeps_def take_outbox_inv conn_lists_def intro: take_outbox_same_for)

lemma handle_get_channel_outbound_ok:
  "keeps st conn (snd (handle_get_channel_outbound c a u m st conn)) conn"
  by (auto simp: handle_get_channel_outbound_def drain_channel_outbox_def Let_def split_def
      split: option.split sum.split intro: take_outbox_keeps)

lemma queue_transcript_cases:
  obtains (skipped) "queue_channel_outbound_transcript am out st = st"
  | (queued) k item where "session_channel_routes st (to_session_id out) = Some k"
      "oi_session_id item = to_session_id out" "oi_text item = trim (to_text out)"
      "oi_text item \<noteq> []" "to_is_final out"
      "queue_channel_outbound_transcript am out st =
         st \<lparr> channel_outbox := (channel_outbox st)(k \<mapsto> queue_of st k @ [item]) \<rparr>"
proof (cases "to_is_final out \<and> trim (to_text out) \<noteq> [] \<and> session_channel_routes st (to_session_id out) \<noteq> None")
  case True
  then obtain k where "session_channel_routes st (to_session_id out) = Some k" by blast
  with True show thesis
    by (intro queued [of k "\<lparr> oi_id = am_uuid am, oi_session_id = to_session_id out,
          oi_text = trim (to_text out), oi_created_at_unix_ms = now_unix_ms am \<rparr>"])
      (auto simp: queue_channel_outbound_transcript_def Let_def queue_of_def)
next
  case False
  then show thesis
    by (intro skipped) (auto simp: queue_channel_outbound_transcript_def Let_def split: option.split)
qed

lemma queue_transcript_inv:
  assumes "gw_inv st"
  shows "gw_inv (queue_channel_outbound_transcript am out st)"
proof (cases rule: queue_transcript_cases [of am out st])
  case skipped
  then show ?thesis using assms by simp
next
  case (queued k item)
  have "channel_routes st k = Some (to_session_id out)"
    using gw_invD(1) [OF assms] queued(1) by simp
  moreover have "\<forall>i \<in> set (queue_of st k). oi_session_id i = to_session_id out \<and> oi_text i \<noteq> []"
    using gw_inv_queue [OF assms, of _ k] calculation by simp
  ultimately have "outbox_inv (queue_channel_outbound_transcript am out st)"
    using assms queued(2,4) unfolding queued(6) by (auto simp: gw_inv_def outbox_inv_def)
  then show ?thesis using assms unfolding queued(6)
    by (simp add: gw_inv_def routes_inv_def jobs_inv_def)
qed

text \<open>A transcript goes to the outbox of the owner of its session.\<close>

lemma queue_transcript_same_for:
  assumes "gw_inv st" "session_owners st (to_session_id out) \<noteq> Some p"
  shows "same_for p st (queue_channel_outbound_transcript am out st)"
proof (cases rule: queue_transcript_cases [of am out st])
  case (queued k item)
  have "rk_principal_id k \<noteq> p" using gw_invD(1,2) [OF assms(1)] queued(1) assms(2) by metis
  then show ?thesis unfolding queued(6) by (auto simp: same_for_def)
qed simp

subsection \<open>Inbound messages\<close>

text \<open>Replacing the session of a route removes it as a termination does.\<close>

lemma drop_mapped_session_eq:
  assumes "gw_inv st" "channel_routes st k = Some sid"
  shows "drop_mapped_session env k sid st = (forget_session sid st)
    \<lparr> st_runner := snd (rn_terminate_session (ev_runner env) sid (st_runner st)) \<rparr>"
proof -
  have only: "channel_routes st k' = Some sid \<longleftrightarrow> k' = k" for k'
    using gw_invD(1) [OF assms(1)] assms(2) by (metis option.inject)
  have "(channel_routes st)(k := None) = drop_value (channel_routes st) sid"
    "(channel_outbox st)(k := None) =
       (\<lambda>k'. if channel_routes st k' = Some sid then None else channel_outbox st k')"
    using only by (auto simp: drop_value_def)
  then show ?thesis
    by (simp add: drop_mapped_session_def forget_session_def gw_simps Let_def)
qed

lemma drop_mapped_session_keeps:
  assumes "gw_inv st" "channel_routes st k = Some sid" "cn_principal_id conn = Some (rk_principal_id k)"
  shows "keeps st conn (drop_mapped_session env k sid st) conn"
proof -
  have "session_owners st sid = Some (rk_principal_id k)" using gw_invD(2) assms(1,2) by blast
  then have "same_for p st (forget_session sid st)" if "p \<noteq> rk_principal_id k" for p
    using that assms(1) by (intro same_for_forget) auto
  moreover have "\<not> conn_lists p st conn \<Longrightarrow> \<not> conn_lists p (forget_session sid st) conn" for p
    by (auto simp: conn_lists_def forget_session_def Let_def split: if_splits)
  ultimately have "keeps st conn (forget_session sid st) conn"
    using assms(1,3) by (simp add: keeps_def gw_inv_forget)
  then show ?thesis using drop_mapped_session_eq [OF assms(1,2)] by simp
qed

text \<open>Binding a session without a route to a route without a session.\<close>

definition bind_route :: "channel_route_key \<Rightarrow> string \<Rightarrow> 'r app_state \<Rightarrow> 'r app_state" where
  "bind_route k sid st = st \<lparr> channel_routes := (channel_routes st)(k \<mapsto> sid),
     session_channel_routes := (session_channel_routes st)(sid \<mapsto> k) \<rparr>"

lemma bind_route_inv:
  assumes "gw_inv st" "session_owners st sid = Some (rk_principal_id k)"
    and "channel_routes st k = None" "session_channel_routes st sid = None"
  shows "gw_inv (bind_route k sid st)"
proof -
  note I = gw_invD [OF assms(1)]
  have "channel_outbox st k = None" using I(5) assms(3) .
  then have "outbox_inv (bind_route k sid st)"
    using assms(1) by (auto simp: gw_inv_def outbox_inv_def bind_route_def)
  moreover have "channel_routes st k' \<noteq> Some sid" for k' using I(1) assms(4) by simp
  then have "routes_inv (bind_route k sid st)"
    using I(1) [of k] I(1,2) assms(2,3) by (auto simp: routes_inv_def bind_route_def)
  ultimately show ?thesis using assms(1) by (simp add: gw_inv_def jobs_inv_def bind_route_def)
qed

lemma bind_route_keeps:
  assumes "session_owners st sid = Some (rk_principal_id k)" "channel_routes st k = None"
    and "session_channel_routes st sid = None" "cn_principal_id conn = Some (rk_principal_id k)"
  shows "keeps st conn (bind_route k sid st) conn"
proof -
  have "same_for p st (bind_route k sid st)" if "p \<noteq> rk_principal_id k" for p
    using assms(1) that by (auto simp: same_for_def bind_route_def)
  moreover have "conn_lists p (bind_route k sid st) conn = conn_lists p st conn" for p
    by (simp add: conn_lists_def bind_route_def)
  ultimately show ?thesis using assms bind_route_inv by (auto simp: keeps_def)
qed

text \<open>
  The session of an inbound message: the one bound to the route, or a new one. After it is
  entered into the second table all is as before for the others.
\<close>

lemma create_routed_session_ok:
  assumes asked: "creates_as_asked (ev_runner env)" and fresh: "session_owners st (am_uuid am) = None"
    and inv: "gw_inv st" and free: "channel_routes st k = None"
    and own: "cn_principal_id conn = Some (rk_principal_id k)"
    and res: "create_routed_session env am config k st conn a b = (res, st', conn')"
  obtains (failed) e where "res = Inl e" "keeps st conn st' conn'"
  | (created) "res = Inr (am_uuid am)" "channel_routes st' k = Some (am_uuid am)"
      "session_owners st' (am_uuid am) = Some (rk_principal_id k)"
      "keeps st conn (st' \<lparr> session_channel_routes := (session_channel_routes st')(am_uuid am \<mapsto> k) \<rparr>) conn'"
proof -
  obtain resp st1 conn1 where h: "handle_create_session_internal env am config st conn a b = (resp, st1, conn1)"
    by (metis prod_cases3)
  have k: "keeps st conn st1 conn1"
    using create_session_ok [OF asked fresh, of conn config a b] own h by simp
  from asked h show thesis
  proof (cases rule: create_session_cases)
    case (failed e r)
    with res h k show thesis by (intro that(1)) (auto simp: create_routed_session_def)
  next
    case (created r)
    have eq: "st' = st1 \<lparr> channel_routes := (channel_routes st1)(k \<mapsto> am_uuid am) \<rparr>" "conn' = conn1"
        "res = Inr (am_uuid am)"
      using res h created(1) by (auto simp: create_routed_session_def)
    have o: "session_owners st1 (am_uuid am) = Some (rk_principal_id k)"
      "channel_routes st1 k = None" "session_channel_routes st1 (am_uuid am) = None"
      unfolding created(2) using own free gw_invD(6) [OF inv fresh] by simp_all
    have "cn_principal_id conn1 = Some (rk_principal_id k)" using created(4) own by simp
    from bind_route_keeps [OF o this]
    have "keeps st conn (bind_route k (am_uuid am) st1) conn1" using k by (blast intro: keeps_trans)
    with eq o show thesis by (intro that(2)) (simp_all add: bind_route_def)
  qed
qed

text \<open>
  In a state that keeps the invariant the branch for a bound session without an owner is not
  taken; the route keeps its session unless the request asks for a new one.
\<close>

lemma inbound_session_ok:
  assumes asked: "creates_as_asked (ev_runner env)" and fresh: "session_owners st (am_uuid am) = None"
    and inv: "gw_inv st" and own: "cn_principal_id conn = Some (rk_principal_id k)"
    and res: "inbound_session env am request k st conn a b = (res, st', conn')"
  obtains (failed) e where "res = Inl e" "keeps st conn st' conn'"
  | (bound) sid where "res = Inr sid" "channel_routes st' k = Some sid"
      "session_owners st' sid = Some (rk_principal_id k)"
      "keeps st conn (st' \<lparr> session_channel_routes := (session_channel_routes st')(sid \<mapsto> k) \<rparr>) conn'"
      "sid = (case channel_routes st k of
                Some s \<Rightarrow> if ci_force_session_recreate request then am_uuid am else s
              | None \<Rightarrow> am_uuid am)"
proof (cases "channel_routes st k")
  case None
  with res have "create_routed_session env am (ci_session_config_on_create request) k st conn a b
      = (res, st', conn')"
    by (simp add: inbound_session_def split: if_splits)
  from create_routed_session_ok [OF asked fresh inv None own this] show thesis
    by cases (use that None in auto)
next
  case (Some s)
  have owner: "session_owners st s = Some (rk_principal_id k)" using gw_invD(2) [OF inv Some] .
  show thesis
  proof (cases "ci_force_session_recreate request")
    case False
    with Some res owner have eq: "res = Inr s" "st' = st" "conn' = conn"
      by (auto simp: inbound_session_def)
    have "session_channel_routes st s = Some k" using gw_invD(1) [OF inv] Some by blast
    then have "st \<lparr> session_channel_routes := (session_channel_routes st)(s \<mapsto> k) \<rparr> = st"
      by (simp add: fun_upd_idem)
    with eq Some owner False show thesis by (intro that(2) [of s]) auto
  next
    case True
    let ?st = "drop_mapped_session env k s st"
    note k0 = drop_mapped_session_keeps [OF inv Some own, of env]
    have inv1: "gw_inv ?st" using k0 inv by (simp add: keeps_def)
    have "session_owners ?st (am_uuid am) = None" "channel_routes ?st k = None"
      using fresh by (simp_all add: drop_mapped_session_def gw_simps Let_def)
    moreover have "create_routed_session env am (ci_session_config_on_create request) k ?st conn a b
        = (res, st', conn')"
      using res Some True by (simp add: inbound_session_def)
    ultimately have C: "session_owners ?st (am_uuid am) = None" "channel_routes ?st k = None"
      "create_routed_session env am (ci_session_config_on_create request) k ?st conn a b
        = (res, st', conn')" .
    from asked C(1) inv1 C(2) own C(3) show thesis
    proof (cases rule: create_routed_session_ok)
      case (failed e)
      with that(1) k0 show thesis by (blast intro: keeps_trans)
    next
      case created
      have "keeps st conn (st' \<lparr> session_channel_routes := (session_channel_routes st')(am_uuid am \<mapsto> k) \<rparr>) conn'"
        using k0 created(4) by (rule keeps_trans)
      with created Some True show thesis by (intro that(2) [of "am_uuid am"]) auto
    qed
  qed
qed

lemma forward_inbound_ok [simp]:
  "handled_ok st conn (forward_inbound env request route text sid st conn)"
  by (auto simp: forward_inbound_def gw_simps Let_def split: sum.split prod.split)

lemma handle_channel_inbound_ok:
  assumes "creates_as_asked (ev_runner env)" "session_owners st (am_uuid am) = None" "gw_inv st"
  shows "handled_ok st conn (handle_channel_inbound env am request st conn a b)"
proof (cases "cn_principal_id conn")
  case None
  then show ?thesis by (simp add: handle_channel_inbound_def)
next
  case (Some p)
  have body: "handled_ok st conn
      (case inbound_session env am request (route_key p route) st conn a b of
         (Inl resp, st, conn) \<Rightarrow> (resp, st, conn)
       | (Inr sid, st, conn) \<Rightarrow>
           (let st = st \<lparr> session_channel_routes := (session_channel_routes st)(sid \<mapsto> route_key p route) \<rparr>
            in with_access sid st conn a b (forward_inbound env request route tx sid)))"
    for route tx
  proof (cases "inbound_session env am request (route_key p route) st conn a b")
    case (fields res st' conn')
    have "cn_principal_id conn = Some (rk_principal_id (route_key p route))" using Some by simp
    from assms this fields show ?thesis
    proof (cases rule: inbound_session_ok)
      case (failed e)
      then show ?thesis using fields by simp
    next
      case (bound sid)
      let ?st = "st' \<lparr> session_channel_routes := (session_channel_routes st')(sid \<mapsto> route_key p route) \<rparr>"
      have "handled_ok ?st conn' (with_access sid ?st conn' a b (forward_inbound env request route tx sid))"
        by (rule with_access_keeps) simp
      with bound(4) fields bound(1) show ?thesis
        by (auto simp: handled_ok_def Let_def intro: keeps_trans)
    qed
  qed
  show ?thesis
    using Some body by (auto simp: handle_channel_inbound_def Let_def split: sum.split option.split)
qed

subsection \<open>What the job operations keep\<close>

lemma tables_frame_jobs [simp]:
  "routes_inv (st \<lparr> channel_jobs := js \<rparr>) = routes_inv st"
  "routes_inv (st \<lparr> job_tasks := ts \<rparr>) = routes_inv st"
  "outbox_inv (st \<lparr> channel_jobs := js \<rparr>) = outbox_inv st"
  "outbox_inv (st \<lparr> job_tasks := ts \<rparr>) = outbox_inv st"
  by (simp_all add: routes_inv_def outbox_inv_def)

lemma alist_remove_simps [simp]:
  "set (alist_remove i xs) = {x \<in> set xs. fst x \<noteq> i}"
  "fst ` {x \<in> set xs. fst x \<noteq> i} = fst ` set xs - {i}"
  by (auto simp: alist_remove_def)

lemma distinct_alist_remove:
  "distinct (map fst xs) \<Longrightarrow> distinct (map fst (alist_remove i xs))"
  by (simp add: alist_remove_def distinct_map_filter split_def)

lemma alist_remove_absent: "i \<notin> fst ` set xs \<Longrightarrow> alist_remove i xs = xs"
  by (force simp: alist_remove_def intro!: filter_True)

lemma filter_alist_remove:
  "(\<And>v. (i, v) \<in> set xs \<Longrightarrow> \<not> P v) \<Longrightarrow>
     filter (\<lambda>(_, v). P v) (alist_remove i xs) = filter (\<lambda>(_, v). P v) xs"
  by (auto simp: alist_remove_def filter_filter intro!: filter_cong)

lemma gw_inv_jobsD:
  assumes "gw_inv st" "(i, rt) \<in> set (channel_jobs st)"
  shows "job_id (jr_job rt) = i" "jr_cancel_tx rt"
    "job_tasks st i = Some \<lparr> jt_job = jr_job rt, jt_owner_principal_id = jr_owner_principal_id rt,
       jt_cancelled = False \<rparr>"
  using assms by (auto simp: gw_inv_def jobs_inv_def)

lemma gw_inv_tasksD:
  assumes "gw_inv st" "job_tasks st i = Some t"
  shows "job_id (jt_job t) = i" "jt_cancelled t \<longleftrightarrow> i \<notin> fst ` set (channel_jobs st)"
    "job_normal (jt_job t)"
  using assms by (auto simp: gw_inv_def jobs_inv_def)

lemma jobs_invI:
  assumes "distinct (map fst (channel_jobs st))"
    and "\<And>i rt. (i, rt) \<in> set (channel_jobs st) \<Longrightarrow> job_id (jr_job rt) = i \<and> jr_cancel_tx rt \<and>
      job_tasks st i = Some \<lparr> jt_job = jr_job rt, jt_owner_principal_id = jr_owner_principal_id rt,
        jt_cancelled = False \<rparr>"
    and "\<And>i t. job_tasks st i = Some t \<Longrightarrow>
      job_id (jt_job t) = i \<and> job_normal (jt_job t) \<and>
      jt_cancelled t = (i \<notin> fst ` set (channel_jobs st))"
  shows "jobs_inv st"
  using assms unfolding jobs_inv_def by fast

lemma gw_inv_jobs_distinct: "gw_inv st \<Longrightarrow> distinct (map fst (channel_jobs st))"
  by (simp add: gw_inv_def jobs_inv_def)

text \<open>Creating a job: refused with an error, or entered with its task.\<close>

definition job_added :: "string \<Rightarrow> channel_job \<Rightarrow> 'r app_state \<Rightarrow> 'r app_state" where
  "job_added p job st = st \<lparr> channel_jobs := (job_id job, \<lparr> jr_owner_principal_id = p, jr_job = job,
       jr_cancel_tx = True \<rparr>) # alist_remove (job_id job) (channel_jobs st),
     job_tasks := (job_tasks st)(job_id job \<mapsto>
       \<lparr> jt_job = job, jt_owner_principal_id = p, jt_cancelled = False \<rparr>) \<rparr>"

lemma create_channel_job_cases:
  obtains (refused) "snd (handle_create_channel_job am request st conn) = st"
      "\<forall>job. fst (handle_create_channel_job am request st conn) \<noteq> ChannelJobCreated job"
  | (created) p job where "cn_principal_id conn = Some p" "job_id job = am_uuid am" "job_normal job"
      "job_text job = trim (cj_text request)" "job_interval_seconds job = cj_interval_seconds request"
      "handle_create_channel_job am request st conn = (ChannelJobCreated job, job_added p job st)"
proof (cases "cn_principal_id conn")
  case None
  then show thesis
    by (intro refused) (auto simp: handle_create_channel_job_def auth_required_error_def)
next
  case (Some p)
  show thesis
  proof (cases "normalize_route (cj_channel request) (cj_account_id request) (cj_external_user_id request)")
    case (Inl e)
    then have "\<exists>x y. e = GwError x y" by (auto simp: normalize_route_def split: option.splits)
    with Inl Some show thesis by (intro refused) (auto simp: handle_create_channel_job_def)
  next
    case (Inr route)
    obtain c a u where route: "route = (c, a, u)" by (cases route)
    show thesis
    proof (cases "normalize_channel_component (cj_text request) = None \<or> cj_interval_seconds request = 0")
      case True
      with Inr route Some show thesis
        by (intro refused) (auto simp: handle_create_channel_job_def split: option.split)
    next
      case False
      then obtain tx where tx: "normalize_channel_component (cj_text request) = Some tx" by auto
      then have "trim (cj_text request) = tx" by (simp add: normalize_component_Some)
      with False Inr route Some tx normalize_route_idem [of _ _ _ c a u] normalize_component_idem [OF tx]
      show thesis
        by (intro created [of p "\<lparr> job_id = am_uuid am, job_channel = c, job_account_id = a,
            job_external_user_id = u, job_text = tx, job_interval_seconds = cj_interval_seconds request,
            job_create_response = cj_create_response request, job_created_at_unix_ms = now_unix_ms am \<rparr>"])
          (auto simp: handle_create_channel_job_def Let_def job_added_def job_normal_def)
    qed
  qed
qed

lemma handle_create_channel_job_ok:
  assumes "fresh_id st (am_uuid am)"
  shows "keeps st conn (snd (handle_create_channel_job am request st conn)) conn"
proof -
  let ?i = "am_uuid am"
  define add where "add p job = st \<lparr> channel_jobs := (?i, \<lparr> jr_owner_principal_id = p, jr_job = job, jr_cancel_tx = True \<rparr>)
      # alist_remove ?i (channel_jobs st), job_tasks := (job_tasks st)(?i \<mapsto>
      \<lparr> jt_job = job, jt_owner_principal_id = p, jt_cancelled = False \<rparr>) \<rparr>" for p job
  have "keeps st conn (add p job) conn" if p: "cn_principal_id conn = Some p" and job: "job_id job = ?i" "job_normal job" for p job
  proof (cases "gw_inv st")
    case True
    have absent: "?i \<notin> fst ` set (channel_jobs st)"
      using gw_inv_jobsD(3) [OF True] assms by (fastforce simp: fresh_id_def)
    then have absent': "(?i, rt) \<notin> set (channel_jobs st)" for rt by force
    have "jobs_inv (add p job)"
    proof (rule jobs_invI)
      show "distinct (map fst (channel_jobs (add p job)))"
        using absent gw_inv_jobs_distinct [OF True] by (simp add: add_def alist_remove_absent)
    qed (use job absent absent' gw_inv_jobsD [OF True] gw_inv_tasksD [OF True] in
         \<open>auto simp: add_def alist_remove_absent split: if_splits\<close>)
    then have "gw_inv (add p job)"
      using True by (simp add: gw_inv_def add_def)
    moreover have "same_for q st (add p job)" if "q \<noteq> p" for q
      using that absent assms by (auto simp: same_for_def add_def alist_remove_absent fresh_id_def)
    ultimately show ?thesis using p by (simp add: keeps_def conn_lists_def add_def)
  qed (simp add: keeps_def)
  then have add: "keeps st conn (job_added p job st) conn"
    if "cn_principal_id conn = Some p" "job_id job = ?i" "job_normal job" for p job
    using that by (simp add: add_def job_added_def)
  show ?thesis
    by (cases rule: create_channel_job_cases [of am request st conn]) (simp_all add: add)
qed

lemma handle_cancel_channel_job_ok:
  "keeps st conn (snd (handle_cancel_channel_job i st conn)) conn"
proof (cases "gw_inv st")
  case True
  have "keeps st conn (cancel_task i (st \<lparr> channel_jobs := alist_remove i (channel_jobs st) \<rparr>)) conn"
    if p: "cn_principal_id conn = Some (jr_owner_principal_id rt)" and rt: "(i, rt) \<in> set (channel_jobs st)" for rt
  proof -
    let ?st = "cancel_task i (st \<lparr> channel_jobs := alist_remove i (channel_jobs st) \<rparr>)"
    note J = gw_inv_jobsD [OF True]
    have "jobs_inv ?st"
    proof (rule jobs_invI)
      show "distinct (map fst (channel_jobs ?st))"
        using gw_inv_jobs_distinct [OF True] by (simp add: cancel_task_def distinct_alist_remove)
    qed (use J gw_inv_tasksD [OF True] gw_inv_tasksD(3) [OF True J(3) [OF rt]] J(3) [OF rt] J(1) [OF rt] in
         \<open>auto simp: cancel_task_def split: if_splits\<close>)
    then have "gw_inv ?st"
      using True by (simp add: gw_inv_def cancel_task_def)
    moreover have "same_for q st ?st" if "q \<noteq> jr_owner_principal_id rt" for q
    proof -
      have "\<not> jr_owner_principal_id v = q" if "(i, v) \<in> set (channel_jobs st)" for v
        using J(3) [OF that] J(3) [OF rt] \<open>q \<noteq> jr_owner_principal_id rt\<close> by simp
      from filter_alist_remove [OF this] show ?thesis
        using that J(3) [OF rt] by (auto simp: same_for_def cancel_task_def)
    qed
    ultimately show ?thesis using p by (simp add: keeps_def conn_lists_def cancel_task_def)
  qed
  moreover have "jr_cancel_tx rt" if "map_of (channel_jobs st) i = Some rt" for rt
    using gw_inv_jobsD(2) [OF True] map_of_SomeD [OF that] .
  ultimately show ?thesis
    by (auto simp: handle_cancel_channel_job_def Let_def split: option.split dest: map_of_SomeD)
qed (auto simp: keeps_def handle_cancel_channel_job_def Let_def split: option.split)

text \<open>A tick acts as its owner; the end of a task changes nothing of the routes.\<close>

lemma job_tick_ok:
  assumes "creates_as_asked (ev_runner env)" "session_owners st (am_uuid am) = None" "gw_inv st"
  shows "gw_inv (snd (run_channel_job_tick env am job p st))"
    and "q \<noteq> p \<Longrightarrow> same_for q st (snd (run_channel_job_tick env am job p st))"
proof -
  have "\<not> conn_lists q st (job_connection p)" "cn_principal_id (job_connection p) = Some p" for q
    by (simp_all add: conn_lists_def job_connection_def)
  with handle_channel_inbound_ok [OF assms, of "job_connection p" "job_request job" None None] assms(3)
  show "gw_inv (snd (run_channel_job_tick env am job p st))"
    "q \<noteq> p \<Longrightarrow> same_for q st (snd (run_channel_job_tick env am job p st))"
    by (auto simp: run_channel_job_tick_def handled_ok_def keeps_def split: prod.split)
qed

lemma run_channel_job_stop_inv:
  assumes "gw_inv st" "job_tasks st jid = Some t" "jt_cancelled t"
  shows "gw_inv (run_channel_job_stop jid st)"
    and "jt_owner_principal_id t \<noteq> p \<Longrightarrow> same_for p st (run_channel_job_stop jid st)"
proof -
  note T = gw_inv_tasksD [OF assms(1)]
  have absent: "jid \<notin> fst ` set (channel_jobs st)" using T(2) [OF assms(2)] assms(3) by simp
  then have same: "alist_remove jid (channel_jobs st) = channel_jobs st" by (rule alist_remove_absent)
  have ne: "(i, rt) \<in> set (channel_jobs st) \<Longrightarrow> i \<noteq> jid" for i rt using absent by force
  have "jobs_inv (run_channel_job_stop jid st)"
  proof (rule jobs_invI)
    show "distinct (map fst (channel_jobs (run_channel_job_stop jid st)))"
      using gw_inv_jobs_distinct [OF assms(1)] by (simp add: run_channel_job_stop_def same)
  qed (use ne gw_inv_jobsD [OF assms(1)] T in
       \<open>auto simp: run_channel_job_stop_def same split: if_splits\<close>)
  then show "gw_inv (run_channel_job_stop jid st)"
    using assms(1) by (simp add: gw_inv_def run_channel_job_stop_def)
  show "jt_owner_principal_id t \<noteq> p \<Longrightarrow> same_for p st (run_channel_job_stop jid st)"
    using assms(2) by (auto simp: same_for_def run_channel_job_stop_def same)
qed

lemma run_channel_job_inv:
  assumes "run_channel_job env am jid st st'" "gw_inv st"
    and "creates_as_asked (ev_runner env)" "session_owners st (am_uuid am) = None"
  shows "gw_inv st'"
  using assms(1)
proof cases
  case (tick task)
  then show ?thesis using job_tick_ok(1) [OF assms(3,4,2)] by simp
next
  case (stop task)
  then show ?thesis using run_channel_job_stop_inv(1) assms(2) by blast
qed

subsection \<open>What an inbound message does\<close>

text \<open>The responses of the step after the session is found.\<close>

lemma forward_inbound_resp:
  "fst (forward_inbound env request (c, a, u) tx sid st conn) =
     (case fst (rn_send_text (ev_runner env) sid tx (st_runner st)) of
        Inl e \<Rightarrow> GwError ''channel_inbound_failed'' (''Failed to forward channel message: '' @ e)
      | Inr _ \<Rightarrow>
         (if ci_create_response request
          then case fst (rn_create_response (ev_runner env) sid
                     (snd (rn_send_text (ev_runner env) sid tx (st_runner st)))) of
                 Inl e \<Rightarrow> GwError ''channel_response_failed''
                    (''Channel message routed, but response creation failed: '' @ e)
               | Inr _ \<Rightarrow> ChannelRouted c a u sid
          else ChannelRouted c a u sid))"
  by (auto simp: forward_inbound_def gw_simps Let_def split: sum.split)

lemma forward_inbound_tables:
  "channel_routes (fst (snd (forward_inbound env request r tx sid st conn))) = channel_routes st"
  "session_owners (fst (snd (forward_inbound env request r tx sid st conn))) = session_owners st"
  "session_channel_routes (fst (snd (forward_inbound env request r tx sid st conn))) = session_channel_routes st"
  by (auto simp: forward_inbound_def gw_simps Let_def split: sum.split)

text \<open>The message reaches the forwarding step whenever its session was found.\<close>

lemma inbound_access:
  assumes "session_owners st sid = Some p" "cn_principal_id conn = Some p"
  obtains st1 conn1 where "with_access sid st conn a b f = f st1 conn1"
    "channel_routes st1 = channel_routes st" "session_owners st1 = session_owners st"
    "session_channel_routes st1 = session_channel_routes st" "st_runner st1 = st_runner st"
proof (cases rule: authorize_cases [of conn sid st a b])
  case (listed q)
  then show thesis using that [of "bind_senders sid a b st" conn] by (simp add: with_access_def)
next
  case (owner q)
  then show thesis
    using that [of "bind_senders sid a b st" "conn \<lparr> cn_owned_sessions := cn_owned_sessions conn @ [sid] \<rparr>"]
    by (simp add: with_access_def)
qed (use assms in simp_all)

lemma create_internal_error:
  assumes "creates_as_asked (ev_runner env)"
    and "handle_create_session_internal env am config st conn a b = (resp, st', conn')"
    and "\<And>sid. resp \<noteq> SessionCreated sid"
  shows "\<exists>e. resp = GwError ''session_create_failed'' e"
  using assms by (cases rule: create_session_cases) auto

lemma inbound_session_error:
  assumes "creates_as_asked (ev_runner env)"
    and "inbound_session env am request k st conn a b = (Inl e, st', conn')"
  shows "\<exists>m. e = GwError ''session_create_failed'' m"
proof -
  have "\<exists>m. e = GwError ''session_create_failed'' m"
    if c: "create_routed_session env am config k st0 conn a b = (Inl e, st', conn')" for config st0
  proof -
    obtain resp st1 conn1 where h: "handle_create_session_internal env am config st0 conn a b = (resp, st1, conn1)"
      by (metis prod_cases3)
    with c have "e = resp" "\<And>sid. resp \<noteq> SessionCreated sid"
      by (auto simp: create_routed_session_def split: gateway_response.splits)
    with create_internal_error [OF assms(1) h] show ?thesis by blast
  qed
  with assms(2) show ?thesis
    by (auto simp: inbound_session_def Let_def split: option.splits if_splits)
qed

text \<open>
  A message that passes the checks: no session could be created for it, or it was forwarded to
  the session that its route is bound to from then on.
\<close>

lemma inbound_outcome:
  assumes asked: "creates_as_asked (ev_runner env)" and fresh: "session_owners st (am_uuid am) = None"
    and inv: "gw_inv st" and own: "cn_principal_id conn = Some p"
    and route: "normalize_route (ci_channel request) (ci_account_id request)
          (ci_external_user_id request) = Inr (c, a, u)"
    and tx: "normalize_channel_component (ci_text request) = Some tx"
    and h: "handle_channel_inbound env am request st conn x y = (resp, st', conn')"
  obtains (not_created) m where "resp = GwError ''session_create_failed'' m"
  | (forwarded) sid where
      "sid = (case channel_routes st (route_key p (c, a, u)) of
                Some s \<Rightarrow> if ci_force_session_recreate request then am_uuid am else s
              | None \<Rightarrow> am_uuid am)"
      "channel_routes st' (route_key p (c, a, u)) = Some sid"
      "session_channel_routes st' sid = Some (route_key p (c, a, u))"
      "session_owners st' sid = Some p"
      "resp = ChannelRouted c a u sid \<or> (\<exists>m. resp = GwError ''channel_inbound_failed'' m) \<or>
         (\<exists>m. resp = GwError ''channel_response_failed'' m)"
proof -
  let ?k = "route_key p (c, a, u)"
  have own': "cn_principal_id conn = Some (rk_principal_id ?k)" using own by simp
  obtain res st1 conn1 where i: "inbound_session env am request ?k st conn x y = (res, st1, conn1)"
    by (metis prod_cases3)
  from asked fresh inv own' i show thesis
  proof (cases rule: inbound_session_ok)
    case (failed e)
    with i have "inbound_session env am request ?k st conn x y = (Inl e, st1, conn1)" by simp
    from inbound_session_error [OF asked this] h i failed own route tx show thesis
      by (auto simp: handle_channel_inbound_def intro: not_created)
  next
    case (bound sid)
    let ?st = "st1 \<lparr> session_channel_routes := (session_channel_routes st1)(sid \<mapsto> ?k) \<rparr>"
    have "session_owners ?st sid = Some p" "cn_principal_id conn1 = Some p"
      using bound(3,4) own by (simp_all add: keeps_def)
    then obtain st2 conn2 where
      acc: "with_access sid ?st conn1 x y (forward_inbound env request (c, a, u) tx sid) =
         forward_inbound env request (c, a, u) tx sid st2 conn2"
      and tables: "channel_routes st2 = channel_routes ?st" "session_owners st2 = session_owners ?st"
        "session_channel_routes st2 = session_channel_routes ?st"
      by (rule inbound_access)
    have f: "forward_inbound env request (c, a, u) tx sid st2 conn2 = (resp, st', conn')"
      using h own route tx i bound(1) acc by (simp add: handle_channel_inbound_def Let_def)
    have t: "channel_routes st' = channel_routes st2" "session_owners st' = session_owners st2"
        "session_channel_routes st' = session_channel_routes st2"
      using forward_inbound_tables [of env request "(c, a, u)" tx sid st2 conn2] f by simp_all
    have "resp = fst (forward_inbound env request (c, a, u) tx sid st2 conn2)" using f by simp
    then have "resp = ChannelRouted c a u sid \<or> (\<exists>m. resp = GwError ''channel_inbound_failed'' m) \<or>
         (\<exists>m. resp = GwError ''channel_response_failed'' m)"
      unfolding forward_inbound_resp by (simp split: sum.splits if_splits)
    with forwarded [OF bound(5)] bound(2,3) t tables show thesis by simp
  qed
qed

subsection \<open>Properties\<close>

text \<open>a channel user keeps one session. When an inbound message is answered with a route, the
  route key of its principal, channel, account and user is bound to the session of the answer, in
  both tables, the session belongs to that principal, and it is the session bound before, unless
  there was none or the request asks for a new one.\<close>

theorem inbound_keeps_session:
  assumes "creates_as_asked (ev_runner env)" "session_owners st (am_uuid am) = None" "gw_inv st"
    and "cn_principal_id conn = Some p"
    and "handle_channel_inbound env am request st conn x y = (ChannelRouted c a u sid, st', conn')"
  shows "normalize_route (ci_channel request) (ci_account_id request) (ci_external_user_id request)
       = Inr (c, a, u) \<and>
     channel_routes st' (route_key p (c, a, u)) = Some sid \<and>
     session_channel_routes st' sid = Some (route_key p (c, a, u)) \<and>
     session_owners st' sid = Some p \<and>
     sid = (case channel_routes st (route_key p (c, a, u)) of
              Some s \<Rightarrow> if ci_force_session_recreate request then am_uuid am else s
            | None \<Rightarrow> am_uuid am)"
proof -
  obtain c' a' u' where route: "normalize_route (ci_channel request) (ci_account_id request)
      (ci_external_user_id request) = Inr (c', a', u')"
    using assms(4,5) by (cases "normalize_route (ci_channel request) (ci_account_id request)
      (ci_external_user_id request)") (auto simp: handle_channel_inbound_def normalize_route_def split: option.splits)
  obtain tx where tx: "normalize_channel_component (ci_text request) = Some tx"
    using assms(4,5) route
    by (cases "normalize_channel_component (ci_text request)") (auto simp: handle_channel_inbound_def)
  from assms(1-4) route tx assms(5) show ?thesis
    by (cases rule: inbound_outcome) (auto simp: route)
qed

text \<open>the ticks of a job are never refused. What a job stores was normalised when it was
  created, so a tick fails only where the runner fails: creating the session, forwarding the
  text or asking for the response.\<close>

theorem job_tick_not_refused:
  assumes "creates_as_asked (ev_runner env)" "session_owners st (am_uuid am) = None" "gw_inv st"
    and "job_tasks st jid = Some task"
    and "run_channel_job_tick env am (jt_job task) (jt_owner_principal_id task) st = (resp, st')"
  shows "(\<exists>sid. resp = ChannelRouted (job_channel (jt_job task)) (job_account_id (jt_job task))
            (job_external_user_id (jt_job task)) sid) \<or>
     (\<exists>code m. resp = GwError code m \<and>
        code \<in> {''session_create_failed'', ''channel_inbound_failed'', ''channel_response_failed''})"
proof -
  let ?j = "jt_job task" let ?p = "jt_owner_principal_id task"
  obtain conn' where h: "handle_channel_inbound env am (job_request ?j) st (job_connection ?p) None None
      = (resp, st', conn')"
    using assms(5) by (auto simp: run_channel_job_tick_def split: prod.splits)
  have own: "cn_principal_id (job_connection ?p) = Some ?p" by (simp add: job_connection_def)
  have "normalize_route (ci_channel (job_request ?j)) (ci_account_id (job_request ?j))
      (ci_external_user_id (job_request ?j)) =
        Inr (job_channel ?j, job_account_id ?j, job_external_user_id ?j)"
    "normalize_channel_component (ci_text (job_request ?j)) = Some (job_text ?j)"
    using gw_inv_tasksD(3) [OF assms(3,4)] by (simp_all add: job_normal_def job_request_def)
  from assms(1-3) own this h show ?thesis by (cases rule: inbound_outcome) auto
qed

text \<open>C11: polling is bounded and first in, first out. A poll of a valid route by a principal gives
  the first items of the queue of that principal's route key, at most \<open>bounded_max_items\<close> of them
  and never more than 500, leaves the rest in order, and touches no other queue.\<close>

theorem poll_is_fifo:
  assumes "cn_principal_id conn = Some p" "normalize_route channel account user = Inr (c, a, u)"
    and "handle_get_channel_outbound channel account user m st conn = (resp, st')"
  shows "\<exists>items. resp = ChannelOutboundBatch c a u items \<and>
     queue_of st (route_key p (c, a, u)) = items @ queue_of st' (route_key p (c, a, u)) \<and>
     length items = min (bounded_max_items m) (length (queue_of st (route_key p (c, a, u)))) \<and>
     length items \<le> 500 \<and>
     (\<forall>k. k \<noteq> route_key p (c, a, u) \<longrightarrow> queue_of st' k = queue_of st k)"
proof -
  let ?k = "route_key p (c, a, u)" and ?n = "bounded_max_items m"
  have r: "resp = ChannelOutboundBatch c a u (fst (take_outbox ?k ?n st))" "st' = snd (take_outbox ?k ?n st)"
    using assms by (auto simp: handle_get_channel_outbound_def drain_channel_outbox_def split_def Let_def)
  have "queue_of st' k = queue_of st k" if "k \<noteq> ?k" for k
    using take_outbox_split(3) [OF that, of ?n st] unfolding r queue_of_def by simp
  moreover have "?n \<le> 500" by (rule bounded_max_items_bounds)
  ultimately show ?thesis
    by (simp add: r take_outbox_split min.commute)
qed

text \<open>a polled item comes from a session of the polling principal: in a state that keeps the
  invariant, the session of every item in a batch belongs to the principal of the connection.\<close>

theorem polled_items_owned:
  assumes "gw_inv st" "cn_principal_id conn = Some p"
    and "handle_get_channel_outbound channel account user m st conn =
           (ChannelOutboundBatch c a u items, st')"
    and "i \<in> set items"
  shows "session_owners st (oi_session_id i) = Some p \<and>
     session_channel_routes st (oi_session_id i) = Some (route_key p (c, a, u))"
proof -
  have "items = fst (take_outbox (route_key p (c, a, u)) (bounded_max_items m) st)"
    using assms(2,3) by (auto simp: handle_get_channel_outbound_def drain_channel_outbox_def
        split_def Let_def auth_required_error_def normalize_route_def split: sum.splits option.splits)
  with assms(4) have "i \<in> set (queue_of st (route_key p (c, a, u)))"
    by (simp add: take_outbox_split(1)) (meson in_set_takeD)
  with gw_inv_queue [OF assms(1) this] gw_invD(1,2) [OF assms(1)] show ?thesis
    by (metis route_key_principal)
qed

text \<open>the job list shows the caller's jobs and no others, each once, ordered by time of creation
  and then by identifier.\<close>

theorem job_list_own_sorted:
  assumes "gw_inv st" "cn_principal_id conn = Some p"
  shows "\<exists>jobs. handle_list_channel_jobs st conn = ChannelJobs jobs \<and>
     sorted (map job_order jobs) \<and> distinct (map job_id jobs) \<and>
     (\<forall>j. j \<in> set jobs \<longleftrightarrow> (\<exists>rt. (job_id j, rt) \<in> set (channel_jobs st) \<and>
                             jr_job rt = j \<and> jr_owner_principal_id rt = p))"
proof -
  let ?own = "filter (\<lambda>(_, rt). jr_owner_principal_id rt = p) (channel_jobs st)"
  let ?js = "map (jr_job \<circ> snd) ?own"
  have "map job_id ?js = map fst ?own"
    using gw_inv_jobsD(1) [OF assms(1)] by auto
  moreover have "distinct (map fst ?own)"
    using gw_inv_jobs_distinct [OF assms(1)] by (simp add: distinct_map_filter)
  ultimately have "distinct (map job_id ?js)" by (simp only:)
  moreover have "mset (map job_id (sort_key job_order ?js)) = mset (map job_id ?js)"
    by (simp only: mset_map mset_sort)
  ultimately have "distinct (map job_id (sort_key job_order ?js))"
    using mset_eq_imp_distinct_iff by blast
  moreover have "j \<in> set ?js \<longleftrightarrow> (\<exists>rt. (job_id j, rt) \<in> set (channel_jobs st) \<and>
      jr_job rt = j \<and> jr_owner_principal_id rt = p)" (is "?l \<longleftrightarrow> ?r") for j
  proof
    assume ?l
    then obtain i rt where "(i, rt) \<in> set (channel_jobs st)" "jr_job rt = j" "jr_owner_principal_id rt = p"
      by auto
    with gw_inv_jobsD(1) [OF assms(1), of i rt] show ?r by auto
  next
    assume ?r
    then obtain rt where "(job_id j, rt) \<in> set ?own" "(jr_job \<circ> snd) (job_id j, rt) = j" by auto
    then show ?l unfolding set_map by (metis image_eqI)
  qed
  ultimately show ?thesis using assms(2) by (simp add: handle_list_channel_jobs_def)
qed

text \<open>the job list does not depend on the order in which the hash map is walked.\<close>

theorem job_list_order_independent:
  assumes "gw_inv st" "mset js = mset (channel_jobs st)"
  shows "handle_list_channel_jobs (st \<lparr> channel_jobs := js \<rparr>) conn = handle_list_channel_jobs st conn"
proof (cases "cn_principal_id conn")
  case (Some p)
  let ?own = "\<lambda>xs. map (jr_job \<circ> snd) (filter (\<lambda>(_, rt). jr_owner_principal_id rt = p) xs)"
  have m: "mset (?own js) = mset (?own (channel_jobs st))"
    using assms(2) by simp
  have "inj_on job_id (set (?own (channel_jobs st)))"
  proof (rule inj_onI)
    fix x y assume "x \<in> set (?own (channel_jobs st))" "y \<in> set (?own (channel_jobs st))" "job_id x = job_id y"
    then obtain a b where "(job_id x, a) \<in> set (channel_jobs st)" "jr_job a = x"
        "(job_id x, b) \<in> set (channel_jobs st)" "jr_job b = y"
      using gw_inv_jobsD(1) [OF assms(1)] by fastforce
    with gw_inv_jobsD(3) [OF assms(1), of "job_id x" a] gw_inv_jobsD(3) [OF assms(1), of "job_id x" b]
    show "x = y" by simp
  qed
  then have "inj_on job_order (set (?own js))"
    using mset_eq_setD [OF m] by (auto simp: inj_on_def job_order_def)
  with m have "sort_key job_order (?own js) = sort_key job_order (?own (channel_jobs st))"
    by (intro sort_key_inj_key_eq) simp_all
  with Some show ?thesis by (simp add: handle_list_channel_jobs_def)
qed (simp add: handle_list_channel_jobs_def)

text \<open>a job can be cancelled by its owner only. Another principal is refused and nothing
  changes; for the owner the job leaves the table, its task is told to stop and nothing else
  changes.\<close>

theorem cancel_by_owner_only:
  assumes "gw_inv st" "map_of (channel_jobs st) jid = Some rt" "cn_principal_id conn = Some p"
  shows "handle_cancel_channel_job jid st conn =
    (if jr_owner_principal_id rt = p
     then (ChannelJobCanceled jid,
           st \<lparr> channel_jobs := alist_remove jid (channel_jobs st),
                job_tasks := (job_tasks st)(jid \<mapsto> \<lparr> jt_job = jr_job rt,
                   jt_owner_principal_id = p, jt_cancelled = True \<rparr>) \<rparr>)
     else (GwError ''forbidden_channel_job''
             ''Channel job is not owned by the authenticated principal'', st))"
  using gw_inv_jobsD(2,3) [OF assms(1) map_of_SomeD [OF assms(2)]] assms(2,3)
  by (simp add: handle_cancel_channel_job_def cancel_task_def)

text \<open>The transcripts of a session, queued one after the other.\<close>

definition queue_transcripts ::
  "(ambient \<times> session_transcript_output) list \<Rightarrow> 'r app_state \<Rightarrow> 'r app_state" where
  "queue_transcripts outs st = fold (\<lambda>(am, out). queue_channel_outbound_transcript am out) outs st"

definition queued_texts :: "(ambient \<times> session_transcript_output) list \<Rightarrow> string list" where
  "queued_texts outs = filter (\<lambda>s. s \<noteq> []) (map (\<lambda>(_, out). trim (to_text out))
     (filter (\<lambda>(_, out). to_is_final out) outs))"

lemma queue_transcript_step:
  assumes "session_channel_routes st (to_session_id out) = Some k"
  shows "session_channel_routes (queue_channel_outbound_transcript am out st) = session_channel_routes st"
    and "map oi_text (queue_of (queue_channel_outbound_transcript am out st) k) =
      map oi_text (queue_of st k) @ queued_texts [(am, out)]"
  using assms by (auto simp: queue_channel_outbound_transcript_def queued_texts_def queue_of_def Let_def
      split: option.split)

text \<open>C12: nothing final is lost or reordered on the way to the outbox: the texts of the queue of a
  bound session are those it had, followed by the trimmed, non-empty final transcripts in the
  order in which they arrived.\<close>

theorem transcripts_in_order:
  assumes "\<forall>(am, out) \<in> set outs. to_session_id out = s" "session_channel_routes st s = Some k"
  shows "map oi_text (queue_of (queue_transcripts outs st) k) =
     map oi_text (queue_of st k) @ queued_texts outs"
  using assms
proof (induction outs arbitrary: st)
  case Nil
  then show ?case by (simp add: queue_transcripts_def queued_texts_def)
next
  case (Cons x outs)
  obtain am out where x: "x = (am, out)" by (cases x)
  let ?st = "queue_channel_outbound_transcript am out st"
  have s: "to_session_id out = s" using Cons.prems(1) x by simp
  then have step: "session_channel_routes ?st s = Some k"
      "map oi_text (queue_of ?st k) = map oi_text (queue_of st k) @ queued_texts [(am, out)]"
    using queue_transcript_step [of st out k am] Cons.prems(2) by simp_all
  have "queue_transcripts (x # outs) st = queue_transcripts outs ?st"
    by (simp add: queue_transcripts_def x)
  moreover have "queued_texts (x # outs) = queued_texts [(am, out)] @ queued_texts outs"
    by (simp add: queued_texts_def x)
  ultimately show ?case using Cons.IH [of ?st] Cons.prems(1) step by simp
qed

subsection \<open>Examples\<close>

definition sample_inbound :: channel_inbound_request where
  "sample_inbound = \<lparr> ci_channel = '' Slack '', ci_account_id = ''acme'', ci_external_user_id = ''u1'',
     ci_text = ''hello'', ci_create_response = True, ci_session_config_on_create = None,
     ci_force_session_recreate = False \<rparr>"

definition sample_routed :: "string list handled" where
  "sample_routed = handle_channel_inbound idle_env (idle_ambient ''s1'') sample_inbound idle_state
     (conn_of ''p'') None None"

lemma sample_routed_resp: "fst sample_routed = ChannelRouted ''slack'' ''acme'' ''u1'' ''s1''"
  by code_simp

lemma sample_routed_inv: "gw_inv (fst (snd sample_routed))"
  using handle_channel_inbound_ok [of idle_env idle_state "idle_ambient ''s1''" "conn_of ''p''" sample_inbound None None]
  by (auto simp: sample_routed_def handled_ok_def keeps_def)

text \<open>The state after the message and a transcript of its session, and one with a job.\<close>

definition sample_queued :: "string list app_state" where
  "sample_queued = queue_channel_outbound_transcript (idle_ambient ''i1'')
     \<lparr> to_session_id = ''s1'', to_text = '' hi '', to_is_final = True \<rparr> (fst (snd sample_routed))"

lemma sample_queued_inv: "gw_inv sample_queued"
  by (simp add: sample_queued_def queue_transcript_inv sample_routed_inv)

definition sample_job_request :: channel_job_create_request where
  "sample_job_request = \<lparr> cj_channel = ''teams'', cj_account_id = ''acme'',
     cj_external_user_id = '' u2'', cj_text = ''report '', cj_interval_seconds = 60,
     cj_create_response = True \<rparr>"

definition sample_with_job :: "string list app_state" where
  "sample_with_job = snd (handle_create_channel_job (idle_ambient ''j1'') sample_job_request idle_state
     (conn_of ''p''))"

lemma sample_with_job_inv: "gw_inv sample_with_job"
  using handle_create_channel_job_ok [of idle_state "idle_ambient ''j1''" "conn_of ''p''" sample_job_request]
  by (simp add: sample_with_job_def keeps_def fresh_id_def)

lemma sample_with_job_eq:
  "\<exists>job. job_id job = ''j1'' \<and> sample_with_job = job_added ''p'' job idle_state"
proof -
  have n: "normalize_route ''teams'' ''acme'' '' u2'' = Inr (''teams'', ''acme'', ''u2'')"
    "normalize_channel_component ''report '' = Some ''report''" by code_simp+
  show ?thesis
  proof (cases rule: create_channel_job_cases [of "idle_ambient ''j1''" sample_job_request idle_state "conn_of ''p''"])
    case refused
    then show ?thesis
      by (simp add: handle_create_channel_job_def sample_job_request_def n conn_of_def Let_def)
  next
    case (created p job)
    then show ?thesis by (auto simp: sample_with_job_def conn_of_def idle_ambient_def)
  qed
qed

theorem inbound_keeps_session_witness:
  "session_owners (fst (snd sample_routed)) ''s1'' = Some ''p''"
proof -
  have "handle_channel_inbound idle_env (idle_ambient ''s1'') sample_inbound idle_state (conn_of ''p'') None None
    = (ChannelRouted ''slack'' ''acme'' ''u1'' ''s1'', fst (snd sample_routed), snd (snd sample_routed))"
    using sample_routed_resp by (metis sample_routed_def prod.collapse)
  from inbound_keeps_session [OF _ _ _ _ this] show ?thesis by (simp add: conn_of_def)
qed

theorem job_tick_not_refused_witness:
  "fst (run_channel_job_tick idle_env (idle_ambient ''s9'')
      (jt_job (the (job_tasks sample_with_job ''j1''))) ''p'' sample_with_job) \<noteq> auth_required_error"
proof -
  let ?t = "the (job_tasks sample_with_job ''j1'')"
  obtain job where eq: "sample_with_job = job_added ''p'' job idle_state" "job_id job = ''j1''"
    using sample_with_job_eq by blast
  have t: "job_tasks sample_with_job ''j1'' = Some ?t" "jt_owner_principal_id ?t = ''p''"
    and "session_owners sample_with_job ''s9'' = None"
    unfolding eq(1) job_added_def by (simp_all add: eq(2))
  then have s9: "session_owners sample_with_job (am_uuid (idle_ambient ''s9'')) = None"
    by (simp add: idle_ambient_def)
  show ?thesis
    using job_tick_not_refused [OF idle_creates_as_asked s9 sample_with_job_inv t(1), unfolded t(2),
        OF prod.collapse [symmetric]]
    by (auto simp: auth_required_error_def)
qed

theorem poll_is_fifo_witness:
  "queue_of (snd (handle_get_channel_outbound ''slack'' ''acme'' ''u1'' None sample_queued (conn_of ''p'')))
     (route_key ''p'' (''slack'', ''acme'', ''u1'')) = []"
proof -
  let ?h = "handle_get_channel_outbound ''slack'' ''acme'' ''u1'' None sample_queued (conn_of ''p'')"
  let ?k = "route_key ''p'' (''slack'', ''acme'', ''u1'')"
  have n: "normalize_route ''slack'' ''acme'' ''u1'' = Inr (''slack'', ''acme'', ''u1'')" by code_simp
  have l: "length (queue_of sample_queued ?k) = 1" by code_simp
  have "cn_principal_id (conn_of ''p'') = Some ''p''" by (simp add: conn_of_def)
  from poll_is_fifo [OF this n prod.collapse [symmetric], of None sample_queued]
  obtain items where i: "queue_of sample_queued ?k = items @ queue_of (snd ?h) ?k"
      "length items = min (bounded_max_items None) (length (queue_of sample_queued ?k))"
    by blast
  have "length items = 1" unfolding i(2) l by (simp add: bounded_max_items_def)
  with i(1) l show ?thesis by simp
qed

theorem polled_items_owned_witness:
  "session_owners sample_queued ''s1'' = Some ''p''"
proof -
  let ?h = "handle_get_channel_outbound ''slack'' ''acme'' ''u1'' None sample_queued (conn_of ''p'')"
  have "case fst ?h of ChannelOutboundBatch c a u items \<Rightarrow> map oi_session_id items = [''s1''] | _ \<Rightarrow> False"
    by code_simp
  then obtain c a u i where "fst ?h = ChannelOutboundBatch c a u [i]" "oi_session_id i = ''s1''"
    by (auto split: gateway_response.splits)
  then have h: "?h = (ChannelOutboundBatch c a u [i], snd ?h)" "oi_session_id i = ''s1''"
    by (metis prod.collapse)+
  have "cn_principal_id (conn_of ''p'') = Some ''p''" by (simp add: conn_of_def)
  from polled_items_owned [OF sample_queued_inv this h(1), of i] h(2) show ?thesis by simp
qed

lemma sample_with_job_jobs:
  obtains job where "job_id job = ''j1''" "channel_jobs sample_with_job =
      [(''j1'', \<lparr> jr_owner_principal_id = ''p'', jr_job = job, jr_cancel_tx = True \<rparr>)]"
proof -
  obtain job where eq: "sample_with_job = job_added ''p'' job idle_state" "job_id job = ''j1''"
    using sample_with_job_eq by blast
  then have "channel_jobs sample_with_job =
      [(''j1'', \<lparr> jr_owner_principal_id = ''p'', jr_job = job, jr_cancel_tx = True \<rparr>)]"
    unfolding eq(1) job_added_def by (simp add: eq(2) alist_remove_def idle_state_def initial_state_def)
  with eq(2) that show thesis by blast
qed

theorem job_list_own_sorted_witness:
  "\<exists>jobs. handle_list_channel_jobs sample_with_job (conn_of ''p'') = ChannelJobs jobs \<and>
     job_id ` set jobs = {''j1''}"
proof -
  obtain job where job: "job_id job = ''j1''" "channel_jobs sample_with_job =
      [(''j1'', \<lparr> jr_owner_principal_id = ''p'', jr_job = job, jr_cancel_tx = True \<rparr>)]"
    by (rule sample_with_job_jobs)
  have "cn_principal_id (conn_of ''p'') = Some ''p''" by (simp add: conn_of_def)
  from job_list_own_sorted [OF sample_with_job_inv this] obtain js
    where js: "handle_list_channel_jobs sample_with_job (conn_of ''p'') = ChannelJobs js"
      "\<And>j. j \<in> set js \<longleftrightarrow> (\<exists>rt. (job_id j, rt) \<in> set (channel_jobs sample_with_job) \<and>
           jr_job rt = j \<and> jr_owner_principal_id rt = ''p'')" by blast
  have "set js = {job}" using js(2) job by auto
  with js(1) job(1) show ?thesis by auto
qed

theorem job_list_order_independent_witness:
  "handle_list_channel_jobs (sample_with_job \<lparr> channel_jobs := rev (channel_jobs sample_with_job) \<rparr>)
     (conn_of ''p'') = handle_list_channel_jobs sample_with_job (conn_of ''p'')"
  by (rule job_list_order_independent [OF sample_with_job_inv]) simp

theorem cancel_by_owner_only_witness:
  "fst (handle_cancel_channel_job ''j1'' sample_with_job (conn_of ''p'')) = ChannelJobCanceled ''j1'' \<and>
   snd (handle_cancel_channel_job ''j1'' sample_with_job (conn_of ''q'')) = sample_with_job"
proof -
  obtain job where "job_id job = ''j1''" "channel_jobs sample_with_job =
      [(''j1'', \<lparr> jr_owner_principal_id = ''p'', jr_job = job, jr_cancel_tx = True \<rparr>)]"
    by (rule sample_with_job_jobs)
  then have rt: "map_of (channel_jobs sample_with_job) ''j1'' =
      Some \<lparr> jr_owner_principal_id = ''p'', jr_job = job, jr_cancel_tx = True \<rparr>" by simp
  have "cn_principal_id (conn_of ''p'') = Some ''p''" "cn_principal_id (conn_of ''q'') = Some ''q''"
    by (simp_all add: conn_of_def)
  from cancel_by_owner_only [OF sample_with_job_inv rt this(1)]
    cancel_by_owner_only [OF sample_with_job_inv rt this(2)]
  show ?thesis by simp
qed

theorem transcripts_in_order_witness:
  "map oi_text (queue_of (queue_transcripts
      [(idle_ambient ''i1'', \<lparr> to_session_id = ''s1'', to_text = ''one'', to_is_final = True \<rparr>),
       (idle_ambient ''i2'', \<lparr> to_session_id = ''s1'', to_text = ''part'', to_is_final = False \<rparr>),
       (idle_ambient ''i3'', \<lparr> to_session_id = ''s1'', to_text = '' two '', to_is_final = True \<rparr>)]
      (fst (snd sample_routed))) (route_key ''p'' (''slack'', ''acme'', ''u1''))) = [''one'', ''two'']"
proof -
  have s: "session_channel_routes (fst (snd sample_routed)) ''s1'' =
      Some (route_key ''p'' (''slack'', ''acme'', ''u1''))" by code_simp
  have q: "queue_of (fst (snd sample_routed)) (route_key ''p'' (''slack'', ''acme'', ''u1'')) = []"
    by code_simp
  have t: "queued_texts
      [(idle_ambient ''i1'', \<lparr> to_session_id = ''s1'', to_text = ''one'', to_is_final = True \<rparr>),
       (idle_ambient ''i2'', \<lparr> to_session_id = ''s1'', to_text = ''part'', to_is_final = False \<rparr>),
       (idle_ambient ''i3'', \<lparr> to_session_id = ''s1'', to_text = '' two '', to_is_final = True \<rparr>)] =
      [''one'', ''two'']" by code_simp
  show ?thesis by (subst transcripts_in_order [OF _ s]) (simp_all add: q t)
qed

end
