(* ===== verification/Router.thy ===== *)
theory Router
  imports Channels
begin

section \<open>Routing of messages\<close>

text \<open>
  \<open>handle_message\<close> of \<open>liveclaw-gateway/src/server.rs\<close>: the dispatch of a client message with
  the check for authentication in each branch, in three parts along the kinds of messages.

  The lemmas say for a whole message what the handlers' lemmas say one by one; the properties
  are the authentication gate, the separation of principals and the end of a session.
\<close>

subsection \<open>Dispatch\<close>

definition authenticated_only ::
  "'r app_state \<Rightarrow> connection_state \<Rightarrow> 'r awaited \<Rightarrow> 'r awaited" where
  "authenticated_only st conn h =
     (if \<not> cn_authenticated conn then (Some auth_required_error, st, conn) else h)"

definition on_state :: "connection_state \<Rightarrow> gateway_response \<times> 'r app_state \<Rightarrow> 'r awaited" where
  "on_state conn h = (Some (fst h), snd h, conn)"

definition or_true :: "bool option \<Rightarrow> bool" where
  "or_true b = (case b of None \<Rightarrow> True | Some v \<Rightarrow> v)"

fun handle_session_message ::
  "'r env \<Rightarrow> ambient \<Rightarrow> gateway_message \<Rightarrow> 'r app_state \<Rightarrow> connection_state \<Rightarrow> chan \<Rightarrow> chan \<Rightarrow>
     'r awaited" where
  "handle_session_message env am (CreateSession config) st conn ws_tx ws_priority_tx =
     no_wait (handle_create_session env am config st conn ws_tx ws_priority_tx)"
| "handle_session_message env am (TerminateSession sid) st conn ws_tx ws_priority_tx =
     no_wait (handle_terminate_session env sid st conn)"
| "handle_session_message env am (SessionAudio sid audio) st conn ws_tx ws_priority_tx =
     no_wait (handle_session_audio env sid audio st conn ws_tx ws_priority_tx)"
| "handle_session_message env am (SessionAudioCommit sid) st conn ws_tx ws_priority_tx =
     no_wait (handle_session_audio_commit env sid st conn ws_tx ws_priority_tx)"
| "handle_session_message env am (SessionResponseCreate sid) st conn ws_tx ws_priority_tx =
     no_wait (handle_session_response_create env sid st conn ws_tx ws_priority_tx)"
| "handle_session_message env am (SessionResponseInterrupt sid) st conn ws_tx ws_priority_tx =
     no_wait (handle_session_response_interrupt env sid st conn ws_tx ws_priority_tx)"
| "handle_session_message env am (SessionPrompt sid prompt create_response) st conn ws_tx ws_priority_tx =
     handle_session_prompt env sid prompt (or_true create_response) st conn ws_tx ws_priority_tx"
| "handle_session_message env am (SessionToolCall sid tool_name arguments) st conn ws_tx ws_priority_tx =
     no_wait (handle_session_tool_call env sid tool_name arguments st conn ws_tx ws_priority_tx)"
| "handle_session_message env am _ st conn ws_tx ws_priority_tx = (None, st, conn)"

fun handle_channel_message ::
  "'r env \<Rightarrow> ambient \<Rightarrow> gateway_message \<Rightarrow> 'r app_state \<Rightarrow> connection_state \<Rightarrow> chan \<Rightarrow> chan \<Rightarrow>
     'r awaited" where
  "handle_channel_message env am (ChannelInbound channel account user body create_response) st conn
     ws_tx ws_priority_tx =
     no_wait (handle_channel_inbound env am
       \<lparr> ci_channel = channel, ci_account_id = account, ci_external_user_id = user, ci_text = body,
         ci_create_response = or_true create_response, ci_session_config_on_create = None,
         ci_force_session_recreate = False \<rparr> st conn (Some ws_tx) (Some ws_priority_tx))"
| "handle_channel_message env am (GetChannelOutbound channel account user max_items) st conn
     ws_tx ws_priority_tx =
     on_state conn (handle_get_channel_outbound channel account user max_items st conn)"
| "handle_channel_message env am (CreateChannelJob channel account user body interval create_response)
     st conn ws_tx ws_priority_tx =
     on_state conn (handle_create_channel_job am
       \<lparr> cj_channel = channel, cj_account_id = account, cj_external_user_id = user, cj_text = body,
         cj_interval_seconds = interval, cj_create_response = or_true create_response \<rparr> st conn)"
| "handle_channel_message env am (CancelChannelJob jid) st conn ws_tx ws_priority_tx =
     on_state conn (handle_cancel_channel_job jid st conn)"
| "handle_channel_message env am ListChannelJobs st conn ws_tx ws_priority_tx =
     (Some (handle_list_channel_jobs st conn), st, conn)"
| "handle_channel_message env am _ st conn ws_tx ws_priority_tx = (None, st, conn)"

fun handle_message ::
  "'r env \<Rightarrow> ambient \<Rightarrow> gateway_message \<Rightarrow> 'r app_state \<Rightarrow> connection_state \<Rightarrow> chan \<Rightarrow> chan \<Rightarrow>
     'r awaited" where
  "handle_message env am Ping st conn ws_tx ws_priority_tx = (Some Pong, st, conn)"
| "handle_message env am (PairMsg code) st conn ws_tx ws_priority_tx =
     no_wait (handle_pair env am code st conn)"
| "handle_message env am (Authenticate token) st conn ws_tx ws_priority_tx =
     no_wait (handle_authenticate env token st conn)"
| "handle_message env am PriorityProbe st conn ws_tx ws_priority_tx =
     authenticated_only st conn
       (case handle_priority_probe st conn ws_tx ws_priority_tx of (resp, st) \<Rightarrow> (resp, st, conn))"
| "handle_message env am GetGatewayHealth st conn ws_tx ws_priority_tx =
     (Some (handle_get_gateway_health env am st), st, conn)"
| "handle_message env am GetDiagnostics st conn ws_tx ws_priority_tx =
     authenticated_only st conn (on_state conn (handle_get_diagnostics env st))"
| "handle_message env am (ChannelInbound c a u t r) st conn ws_tx ws_priority_tx =
     authenticated_only st conn
       (handle_channel_message env am (ChannelInbound c a u t r) st conn ws_tx ws_priority_tx)"
| "handle_message env am (GetChannelOutbound c a u m) st conn ws_tx ws_priority_tx =
     authenticated_only st conn
       (handle_channel_message env am (GetChannelOutbound c a u m) st conn ws_tx ws_priority_tx)"
| "handle_message env am (CreateChannelJob c a u t i r) st conn ws_tx ws_priority_tx =
     authenticated_only st conn
       (handle_channel_message env am (CreateChannelJob c a u t i r) st conn ws_tx ws_priority_tx)"
| "handle_message env am (CancelChannelJob j) st conn ws_tx ws_priority_tx =
     authenticated_only st conn
       (handle_channel_message env am (CancelChannelJob j) st conn ws_tx ws_priority_tx)"
| "handle_message env am ListChannelJobs st conn ws_tx ws_priority_tx =
     authenticated_only st conn
       (handle_channel_message env am ListChannelJobs st conn ws_tx ws_priority_tx)"
| "handle_message env am msg st conn ws_tx ws_priority_tx =
     authenticated_only st conn
       (handle_session_message env am msg st conn ws_tx ws_priority_tx)"

text \<open>The messages that are answered without authentication.\<close>

definition open_message :: "gateway_message \<Rightarrow> bool" where
  "open_message msg =
     (case msg of Ping \<Rightarrow> True | PairMsg _ \<Rightarrow> True | Authenticate _ \<Rightarrow> True
      | GetGatewayHealth \<Rightarrow> True | _ \<Rightarrow> False)"

text \<open>The messages that can give the connection another principal.\<close>

definition login_message :: "gateway_message \<Rightarrow> bool" where
  "login_message msg = (case msg of PairMsg _ \<Rightarrow> True | Authenticate _ \<Rightarrow> True | _ \<Rightarrow> False)"

text \<open>The session a message is about.\<close>

definition message_session :: "gateway_message \<Rightarrow> string option" where
  "message_session msg =
     (case msg of TerminateSession s \<Rightarrow> Some s | SessionAudio s _ \<Rightarrow> Some s
      | SessionAudioCommit s \<Rightarrow> Some s | SessionResponseCreate s \<Rightarrow> Some s
      | SessionResponseInterrupt s \<Rightarrow> Some s | SessionPrompt s _ _ \<Rightarrow> Some s
      | SessionToolCall s _ _ \<Rightarrow> Some s | _ \<Rightarrow> None)"

subsection \<open>What a message keeps\<close>

text \<open>
  A connection has a principal as soon as it is authenticated.
\<close>

definition conn_named :: "connection_state \<Rightarrow> bool" where
  "conn_named conn \<longleftrightarrow> (cn_authenticated conn \<longrightarrow> cn_principal_id conn \<noteq> None)"

lemma conn_named_new [simp]: "conn_named new_connection"
  by (simp add: conn_named_def new_connection_def)

lemma no_wait_parts [simp]: "fst (no_wait h) = Some (fst h)" "snd (no_wait h) = snd h"
  by (simp_all add: no_wait_def)

lemma handle_session_message_ok:
  assumes "creates_as_asked (ev_runner env)" "fresh_id st (am_uuid am)" "cn_principal_id conn \<noteq> None"
  shows "awaited_ok st conn (handle_session_message env am msg st conn a b)"
  using assms
  by (cases "(env, am, msg, st, conn, a, b)" rule: handle_session_message.cases)
    (simp_all add: handle_create_session_def create_session_ok fresh_id_def handle_terminate_session_ok
      handle_session_audio_ok handle_session_audio_commit_ok handle_session_response_create_ok
      handle_session_response_interrupt_ok handle_session_prompt_ok handle_session_tool_call_ok)

lemma handle_channel_message_ok:
  assumes "creates_as_asked (ev_runner env)" "fresh_id st (am_uuid am)" "gw_inv st"
  shows "awaited_ok st conn (handle_channel_message env am msg st conn a b)"
  using assms
  by (cases "(env, am, msg, st, conn, a, b)" rule: handle_channel_message.cases)
    (simp_all add: handle_channel_inbound_ok fresh_id_def handle_get_channel_outbound_ok
      handle_create_channel_job_ok handle_cancel_channel_job_ok on_state_def)

lemma authenticated_only_ok:
  "(cn_authenticated conn \<Longrightarrow> awaited_ok st conn h) \<Longrightarrow> awaited_ok st conn (authenticated_only st conn h)"
  by (simp add: authenticated_only_def)

lemma handle_get_diagnostics_ok: "keeps st conn (snd (handle_get_diagnostics env st)) conn"
  by (auto simp: handle_get_diagnostics_def gw_simps split: sum.split)

lemma handle_message_ok:
  assumes "creates_as_asked (ev_runner env)" "fresh_id st (am_uuid am)" "gw_inv st" "conn_named conn"
    and "\<not> login_message msg"
  shows "awaited_ok st conn (handle_message env am msg st conn a b)"
proof -
  have p: "cn_authenticated conn \<Longrightarrow> cn_principal_id conn \<noteq> None"
    using assms(4) by (simp add: conn_named_def)
  show ?thesis
    using assms p handle_priority_probe_ok [of st conn a b] handle_get_diagnostics_ok [of st conn env]
    by (cases "(env, am, msg, st, conn, a, b)" rule: handle_message.cases)
      (auto simp del: handle_session_message.simps handle_channel_message.simps
        simp: login_message_def on_state_def split: prod.split
        intro!: authenticated_only_ok handle_session_message_ok handle_channel_message_ok)
qed

text \<open>A login changes the guard of the state at most, and of the connection who it is.\<close>

lemma handle_pair_parts:
  "fst (snd (handle_pair env am code st conn)) = st \<lparr> st_pairing := snd (try_pair (ev_sha env)
     (am_now am) (am_now_later am) (am_uuid am) (st_pairing st) code) \<rparr>"
  "cn_owned_sessions (snd (snd (handle_pair env am code st conn))) = cn_owned_sessions conn"
  "snd (snd (handle_pair env am code st conn)) = conn \<or>
     cn_principal_id (snd (snd (handle_pair env am code st conn))) \<noteq> None"
  by (auto simp: handle_pair_def Let_def split: prod.split sum.split option.split)

lemma handle_authenticate_parts:
  "cn_owned_sessions (snd (snd (handle_authenticate env t st conn))) = cn_owned_sessions conn"
  "snd (snd (handle_authenticate env t st conn)) = conn \<or>
     cn_principal_id (snd (snd (handle_authenticate env t st conn))) \<noteq> None"
  by (auto simp: handle_authenticate_def Let_def)

lemma login_state:
  assumes "login_message msg" "handle_message env am msg st conn a b = (resp, st', conn')"
  shows "\<exists>g. st' = st \<lparr> st_pairing := g \<rparr>" "resp \<noteq> None"
    "cn_owned_sessions conn' = cn_owned_sessions conn"
    "conn' = conn \<or> cn_principal_id conn' \<noteq> None"
proof -
  consider (pair) code where "msg = PairMsg code" | (auth) token where "msg = Authenticate token"
    using assms(1) by (cases msg) (simp_all add: login_message_def)
  then have "(\<exists>g. st' = st \<lparr> st_pairing := g \<rparr>) \<and> resp \<noteq> None \<and>
    cn_owned_sessions conn' = cn_owned_sessions conn \<and> (conn' = conn \<or> cn_principal_id conn' \<noteq> None)"
  proof cases
    case pair
    then have "st' = fst (snd (handle_pair env am code st conn))" "resp \<noteq> None"
        "conn' = snd (snd (handle_pair env am code st conn))"
      using assms(2) by (auto simp: no_wait_def)
    then show ?thesis using handle_pair_parts [of env am code st conn] by metis
  next
    case auth
    then have "st' = fst (snd (handle_authenticate env token st conn))" "resp \<noteq> None"
        "conn' = snd (snd (handle_authenticate env token st conn))"
      using assms(2) by (auto simp: no_wait_def)
    moreover have "\<exists>g. st = st \<lparr> st_pairing := g \<rparr>" by (rule exI [of _ "st_pairing st"]) simp
    ultimately show ?thesis using handle_authenticate_parts [of env token st conn] by auto
  qed
  then show "\<exists>g. st' = st \<lparr> st_pairing := g \<rparr>" "resp \<noteq> None"
    "cn_owned_sessions conn' = cn_owned_sessions conn" "conn' = conn \<or> cn_principal_id conn' \<noteq> None"
    by blast+
qed

text \<open>Every message keeps the invariant of the tables and leaves other principals alone.\<close>

lemma handle_message_keeps:
  assumes "creates_as_asked (ev_runner env)" "fresh_id st (am_uuid am)" "gw_inv st" "conn_named conn"
    and "handle_message env am msg st conn a b = (resp, st', conn')"
  shows "gw_inv st'" "conn_named conn'"
    "\<not> conn_lists p st conn \<Longrightarrow> cn_principal_id conn \<noteq> Some p \<Longrightarrow> same_for p st st' \<and> \<not> conn_lists p st' conn'"
    "\<not> login_message msg \<Longrightarrow> keeps st conn st' conn'"
proof -
  have k: "keeps st conn st' conn'" if "\<not> login_message msg"
    using handle_message_ok [OF assms(1-4) that, of a b] assms(5) by simp
  then show "\<not> login_message msg \<Longrightarrow> keeps st conn st' conn'" .
  have l: "\<exists>g. st' = st \<lparr> st_pairing := g \<rparr>" "conn' = conn \<or> cn_principal_id conn' \<noteq> None"
    if "login_message msg"
    using login_state [OF that assms(5)] by blast+
  show "gw_inv st'" using k l(1) assms(3) by (cases "login_message msg") (auto simp: keeps_def)
  show "conn_named conn'" using k l(2) assms(4)
    by (cases "login_message msg") (auto simp: keeps_def conn_named_def)
  show "same_for p st st' \<and> \<not> conn_lists p st' conn'"
    if "\<not> conn_lists p st conn" "cn_principal_id conn \<noteq> Some p"
  proof (cases "login_message msg")
    case True
    with that l(1) login_state(3) [OF True assms(5)] show ?thesis by (auto simp: conn_lists_def)
  next
    case False
    with that k assms(3) show ?thesis by (simp add: keeps_def)
  qed
qed

subsection \<open>Access to sessions\<close>

text \<open>What a handler for a session does when the access check refuses, and when it does not.\<close>

lemma with_access_granted:
  assumes "cn_principal_id conn = Some p" "session_owners st sid = Some p"
  obtains conn1 where "with_access sid st conn a b f = f (bind_senders sid a b st) conn1"
    "cn_principal_id conn1 = Some p" "sid \<in> set (cn_owned_sessions conn1)"
    "authorize_session_access sid st conn a b = (Inr (), bind_senders sid a b st, conn1)"
proof (cases rule: authorize_cases [of conn sid st a b])
  case (listed q)
  then show thesis using that [of conn] assms(1) by (simp add: with_access_def)
next
  case (owner q)
  then show thesis
    using that [of "conn \<lparr> cn_owned_sessions := cn_owned_sessions conn @ [sid] \<rparr>"] assms(1)
    by (simp add: with_access_def)
qed (use assms in simp_all)

lemma message_session_refused:
  assumes "message_session msg = Some sid" "cn_authenticated conn"
    and "\<And>x y. authorize_session_access sid st conn x y = (Inl e, st, conn)"
  shows "handle_message env am msg st conn a b = (Some e, st, conn)"
  using assms
  by (cases msg) (auto simp: message_session_def authenticated_only_def no_wait_def
      handle_terminate_session_def handle_session_audio_def handle_session_audio_commit_def
      handle_session_response_create_def handle_session_response_interrupt_def
      handle_session_prompt_def handle_session_tool_call_def with_access_def)

text \<open>What the handlers leave of the senders after the access check.\<close>

definition same_senders :: "'r app_state \<Rightarrow> 'r app_state \<Rightarrow> bool" where
  "same_senders st st' \<longleftrightarrow> ws_response_senders st' = ws_response_senders st \<and>
     ws_priority_senders st' = ws_priority_senders st \<and> session_owners st' = session_owners st"

lemma same_senders_simps [simp]:
  "same_senders st st" "same_senders st (st' \<lparr> st_runner := r \<rparr>) = same_senders st st'"
  "same_senders (st \<lparr> st_runner := r \<rparr>) st' = same_senders st st'"
  "same_senders st (snd (chan_send c m st')) = same_senders st st'"
  by (simp_all add: same_senders_def)

lemma chan_send_same_senders:
  "chan_send c m (st \<lparr> st_runner := r \<rparr>) = (out, st') \<Longrightarrow> same_senders st st'"
  using same_senders_simps(4) [of st c m "st \<lparr> st_runner := r \<rparr>"] by simp

lemma send_prompt_same_senders:
  "same_senders st st' \<Longrightarrow> same_senders st (fst (snd (send_prompt env sid t cr st' conn)))"
  by (auto simp: send_prompt_def gw_simps split: sum.split)

lemma send_prompt_conn [simp]: "snd (snd (send_prompt env sid t cr st conn)) = conn"
  by (auto simp: send_prompt_def gw_simps split: sum.split)

lemma prompt_body_same_senders:
  "same_senders st (fst (snd (prompt_body env sid t cr st conn c)))"
  "snd (snd (prompt_body env sid t cr st conn c)) = conn"
  by (auto simp: prompt_body_def gw_simps split: option.split sum.split prod.split send_outcome.split
      intro: send_prompt_same_senders chan_send_same_senders)

lemma with_access_senders:
  assumes "cn_principal_id conn = Some p" "session_owners st sid = Some p"
    and "\<And>st1 conn1. same_senders st1 (fst (snd (f st1 conn1))) \<and> snd (snd (f st1 conn1)) = conn1"
  shows "same_senders (bind_senders sid a b st) (fst (snd (with_access sid st conn a b f))) \<and>
    sid \<in> set (cn_owned_sessions (snd (snd (with_access sid st conn a b f))))"
proof -
  obtain conn1 where "with_access sid st conn a b f = f (bind_senders sid a b st) conn1"
    "sid \<in> set (cn_owned_sessions conn1)"
    using assms(1,2) by (rule with_access_granted)
  with assms(3) show ?thesis by simp
qed

lemma prompt_senders:
  assumes "cn_principal_id conn = Some p" "session_owners st sid = Some p"
  shows "same_senders (bind_senders sid (Some a) (Some b) st)
      (fst (snd (handle_session_prompt env sid t cr st conn a b))) \<and>
    sid \<in> set (cn_owned_sessions (snd (snd (handle_session_prompt env sid t cr st conn a b))))"
proof -
  let ?st = "bind_senders sid (Some a) (Some b) st"
  obtain conn1 where auth: "authorize_session_access sid st conn (Some a) (Some b) = (Inr (), ?st, conn1)"
      "sid \<in> set (cn_owned_sessions conn1)"
    using assms by (rule with_access_granted)
  then show ?thesis
    using prompt_body_same_senders [where st = ?st and conn = conn1]
    by (simp add: handle_session_prompt_def Let_def)
qed

lemma message_session_binds:
  assumes "message_session msg = Some sid" "cn_authenticated conn" "msg \<noteq> TerminateSession sid"
    and own: "cn_principal_id conn = Some p" "session_owners st sid = Some p"
    and "handle_message env am msg st conn a b = (resp, st', conn')"
  shows "same_senders (bind_senders sid (Some a) (Some b) st) st' \<and> sid \<in> set (cn_owned_sessions conn')"
proof -
  note W = with_access_senders [OF own, where a = "Some a" and b = "Some b"]
  have "same_senders (bind_senders sid (Some a) (Some b) st)
      (fst (snd (handle_session_message env am msg st conn a b))) \<and>
      sid \<in> set (cn_owned_sessions (snd (snd (handle_session_message env am msg st conn a b))))"
    using assms(1,3)
    by (cases msg) (auto simp: message_session_def prompt_senders [OF own] handle_session_audio_def
        handle_session_audio_commit_def handle_session_response_create_def
        handle_session_response_interrupt_def handle_session_tool_call_def gw_simps
        split: option.split sum.split intro!: W)
  moreover have "handle_message env am msg st conn a b = handle_session_message env am msg st conn a b"
    using assms(1,2) by (cases msg) (simp_all add: message_session_def authenticated_only_def)
  ultimately show ?thesis using assms(6) by (metis fst_conv snd_conv)
qed

subsection \<open>Properties\<close>

text \<open>C6: the authentication gate. A connection that is not authenticated gets the answer
  \<open>auth_required\<close> to every message but \<open>Ping\<close>, \<open>Pair\<close>, \<open>Authenticate\<close> and \<open>GetGatewayHealth\<close>, and
  neither the state of the gateway nor the connection changes.\<close>

theorem auth_gate:
  assumes "\<not> cn_authenticated conn" "\<not> open_message msg"
  shows "handle_message env am msg st conn a b = (Some auth_required_error, st, conn)"
  using assms by (cases msg) (simp_all add: open_message_def authenticated_only_def)



text \<open>the owner gets its session back on any connection. When the principal of an authenticated
  connection owns the session a message is about, the message (other than a termination) makes
  this connection the receiver of the session's output and the session is listed.\<close>

theorem owner_rebinds:
  assumes "cn_authenticated conn" "message_session msg = Some sid" "msg \<noteq> TerminateSession sid"
    and "cn_principal_id conn = Some p" "session_owners st sid = Some p"
    and "handle_message env am msg st conn a b = (resp, st', conn')"
  shows "ws_response_senders st' sid = Some a \<and> ws_priority_senders st' sid = Some b \<and>
     session_owners st' sid = Some p \<and> sid \<in> set (cn_owned_sessions conn')"
  using message_session_binds [OF assms(2,1,3,4,5,6)] assms(5)
  by (simp add: same_senders_def bind_senders_senders)


text \<open>a session is created for the principal of the connection. The answer names the new
  session or reports that the runner failed; in the first case the session belongs to the
  connection's principal, its output goes to this connection, and the runner was asked with
  that principal.\<close>

theorem create_session_owned:
  assumes "creates_as_asked (ev_runner env)" "cn_authenticated conn" "cn_principal_id conn = Some p"
    and "handle_message env am (CreateSession config) st conn a b = (resp, st', conn')"
  shows "(case fst (rn_create_session (ev_runner env) p (am_uuid am) config (st_runner st)) of
     Inr _ \<Rightarrow> resp = Some (SessionCreated (am_uuid am)) \<and>
        session_owners st' = (session_owners st)(am_uuid am \<mapsto> p) \<and>
        ws_response_senders st' = (ws_response_senders st)(am_uuid am \<mapsto> a) \<and>
        ws_priority_senders st' = (ws_priority_senders st)(am_uuid am \<mapsto> b) \<and>
        am_uuid am \<in> set (cn_owned_sessions conn')
   | Inl e \<Rightarrow> resp = Some (GwError ''session_create_failed'' (''Failed to create session: '' @ e)) \<and>
        session_owners st' = session_owners st \<and> conn' = conn) \<and>
   st_runner st' = snd (rn_create_session (ev_runner env) p (am_uuid am) config (st_runner st))"
proof -
  obtain res r where run: "rn_create_session (ev_runner env) p (am_uuid am) config (st_runner st) = (res, r)"
    by (cases "rn_create_session (ev_runner env) p (am_uuid am) config (st_runner st)")
  have "sid = am_uuid am" if "res = Inr sid" for sid
    using assms(1) run that unfolding creates_as_asked_def by blast
  then show ?thesis
    using assms(2-4) run
    by (auto simp: authenticated_only_def no_wait_def handle_create_session_def
        handle_create_session_internal_def gw_simps Let_def bind_senders_senders split: sum.splits)
qed

text \<open>logging in again does not end the access gained before. A connection that lists a
  session of p keeps its access to it after it has authenticated as another principal, although
  the check is meant to grant access to the owner of the session only.\<close>

theorem reauthentication_keeps_access:
  assumes "sid \<in> set (cn_owned_sessions conn)" "session_owners st sid = Some p"
    and "is_authenticated (ev_sha env) (st_pairing st) token"
    and "\<not> is_authenticated (ev_sha env) (st_pairing st) ''''"
    and "principal_from_token (ev_sha env) token \<noteq> p"
    and "handle_message env am (Authenticate token) st conn a b = (resp, st', conn')"
  shows "session_owners st' sid = Some p \<and> cn_principal_id conn' \<noteq> Some p \<and>
     fst (authorize_session_access sid st' conn' (Some a) (Some b)) = Inr ()"
proof -
  have "st' = st" "conn' = conn \<lparr> cn_authenticated := True, cn_token := Some token,
      cn_principal_id := Some (principal_from_token (ev_sha env) token) \<rparr>"
    using assms(3,4,6) by (simp_all add: handle_authenticate_def no_wait_def Let_def)
  with assms(1,2,5) show ?thesis by (auto simp: authorize_session_access_def list_ex_iff)
qed

subsection \<open>Examples\<close>

text \<open>A session \<open>s1\<close> of p, whose output goes to the channels 0 and 1.\<close>

definition sample_session :: "string list app_state" where
  "sample_session = idle_state \<lparr> session_owners := [''s1'' \<mapsto> ''p''],
     ws_response_senders := [''s1'' \<mapsto> 0], ws_priority_senders := [''s1'' \<mapsto> 1], st_runner := [''s1''] \<rparr>"

lemma sample_session_inv [simp]: "gw_inv sample_session"
proof -
  have "gw_inv (idle_state \<lparr> session_owners := (session_owners idle_state)(''s1'' \<mapsto> ''p'') \<rparr>)"
    by (rule gw_inv_new_owner) simp_all
  moreover have "gw_inv (st \<lparr> ws_response_senders := f, ws_priority_senders := g \<rparr>) = gw_inv st"
    for st :: "string list app_state" and f g
    by (simp add: gw_inv_def routes_inv_def outbox_inv_def jobs_inv_def)
  ultimately have "gw_inv (idle_state \<lparr> session_owners := [''s1'' \<mapsto> ''p''],
     ws_response_senders := [''s1'' \<mapsto> 0], ws_priority_senders := [''s1'' \<mapsto> 1] \<rparr>)" by simp
  then show ?thesis unfolding sample_session_def by simp
qed

lemma sample_session_simps [simp]:
  "session_owners sample_session = [''s1'' \<mapsto> ''p'']" "job_tasks sample_session = Map.empty"
  "st_pairing sample_session = idle_guard"
  by (simp_all add: sample_session_def idle_state_def initial_state_def)

lemma conn_of_simps [simp]:
  "cn_authenticated (conn_of p)" "cn_principal_id (conn_of p) = Some p" "cn_owned_sessions (conn_of p) = []"
  "conn_named (conn_of p)" "\<not> conn_lists q st (conn_of p)"
  by (simp_all add: conn_of_def conn_named_def conn_lists_def)

theorem auth_gate_witness:
  "handle_message idle_env (idle_ambient ''u'') ListChannelJobs sample_session new_connection 0 1 =
     (Some auth_required_error, sample_session, new_connection)"
  by (rule auth_gate) (simp_all add: new_connection_def open_message_def)



theorem owner_rebinds_witness:
  "ws_response_senders (fst (snd (handle_message idle_env (idle_ambient ''u'') (SessionAudioCommit ''s1'')
     sample_session (conn_of ''p'') 2 3))) ''s1'' = Some 2"
proof -
  let ?h = "handle_message idle_env (idle_ambient ''u'') (SessionAudioCommit ''s1'') sample_session (conn_of ''p'') 2 3"
  have "?h = (fst ?h, fst (snd ?h), snd (snd ?h))" by (metis prod.collapse)
  from owner_rebinds [OF _ _ _ _ _ this] show ?thesis by (simp add: message_session_def)
qed


theorem create_session_owned_witness:
  "fst (handle_message idle_env (idle_ambient ''s2'') (CreateSession None) sample_session (conn_of ''p'') 2 3) =
     Some (SessionCreated ''s2'')"
proof -
  let ?h = "handle_message idle_env (idle_ambient ''s2'') (CreateSession None) sample_session (conn_of ''p'') 2 3"
  have "?h = (fst ?h, fst (snd ?h), snd (snd ?h))" by (metis prod.collapse)
  from create_session_owned [OF idle_creates_as_asked _ _ this] show ?thesis
    by (simp add: idle_env_def idle_runner_def idle_ambient_def)
qed

theorem reauthentication_keeps_access_witness:
  "let st = sample_session \<lparr> st_pairing := idle_guard \<lparr> token_hashes := [hash_token (\<lambda>b. b) ''q''] \<rparr> \<rparr>;
       conn = (conn_of ''p'') \<lparr> cn_owned_sessions := [''s1''] \<rparr>;
       conn' = snd (snd (handle_message idle_env (idle_ambient ''u'') (Authenticate ''q'') st conn 2 3))
   in cn_principal_id conn' \<noteq> Some ''p'' \<and>
      fst (authorize_session_access ''s1'' st conn' (Some 2) (Some 3)) = Inr ()"
proof -
  let ?st = "sample_session \<lparr> st_pairing := idle_guard \<lparr> token_hashes := [hash_token (\<lambda>b. b) ''q''] \<rparr> \<rparr>"
  let ?conn = "(conn_of ''p'') \<lparr> cn_owned_sessions := [''s1''] \<rparr>"
  let ?h = "handle_message idle_env (idle_ambient ''u'') (Authenticate ''q'') ?st ?conn 2 3"
  have h: "?h = (fst ?h, fst (snd ?h), snd (snd ?h))" by (metis prod.collapse)
  have s: "fst (snd ?h) = ?st" by (simp add: no_wait_def)
  have st: "st_pairing ?st = idle_guard \<lparr> token_hashes := [hash_token (\<lambda>b. b) ''q''] \<rparr>" by simp
  have "is_authenticated (\<lambda>b. b) (st_pairing ?st) ''q''" "\<not> is_authenticated (\<lambda>b. b) (st_pairing ?st) ''''"
    "principal_from_token (\<lambda>b. b) ''q'' \<noteq> ''p''"
    by (simp_all only: st) code_simp+
  from reauthentication_keeps_access [OF _ _ _ _ _ h, of "''s1''" "''p''"] this s
  show ?thesis by (simp add: Let_def idle_env_def)
qed

end
