(* ===== verification/Websocket.thy ===== *)
theory Websocket
  imports Router
begin

section \<open>Connections and the tasks that push output\<close>

text \<open>
  \<open>handle_ws\<close>, \<open>recv_message\<close> and the two forwarding tasks of \<open>Gateway::start\<close> in
  \<open>liveclaw-gateway/src/server.rs\<close>. The loop of \<open>handle_ws\<close> is one function per turn: its
  \<open>select!\<close> is biased, so which branch is taken depends only on what is ready. A turn is given
  the frames that have arrived and whether the socket accepts what is sent in it.

  \<open>serde_json::from_str\<close> is a parameter: it gives the message or the text of the error.
\<close>

subsection \<open>The connection task\<close>

datatype ws_frame = FText string | FClose | FPing | FOther | FError | FEnd

text \<open>
  \<open>recv_message\<close>: the next text, the end of the connection (\<open>Inl\<close>), or nothing so far;
  pings, binary frames and the like are skipped.
\<close>

fun recv_message :: "ws_frame list \<Rightarrow> (unit + string) option \<times> ws_frame list" where
  "recv_message [] = (None, [])"
| "recv_message (FText t # fs) = (Some (Inr t), fs)"
| "recv_message (FClose # fs) = (Some (Inl ()), fs)"
| "recv_message (FError # fs) = (Some (Inl ()), fs)"
| "recv_message (FEnd # fs) = (Some (Inl ()), fs)"
| "recv_message (FPing # fs) = recv_message fs"
| "recv_message (FOther # fs) = recv_message fs"

definition chan_recv :: "chan \<Rightarrow> 'r app_state \<Rightarrow> (gateway_response \<times> 'r app_state) option" where
  "chan_recv c st =
     (case chans st c of
        None \<Rightarrow> None
      | Some q \<Rightarrow> (case mq_items q of
          [] \<Rightarrow> None
        | m # ms \<Rightarrow> Some (m, st \<lparr> chans := (chans st)(c \<mapsto> q \<lparr> mq_items := ms \<rparr>) \<rparr>)))"

text \<open>The locals of \<open>handle_ws\<close>, and what has been sent to the client.\<close>

record ws_task =
  wt_conn :: connection_state
  wt_standard :: chan
  wt_priority :: chan
  wt_sent :: "gateway_response list"

definition new_channel :: "nat \<Rightarrow> mpsc" where
  "new_channel n = \<lparr> mq_items = [], mq_capacity = n, mq_open = True \<rparr>"

text \<open>The start of \<open>handle_ws\<close>, with the identities of its two new channels.\<close>

definition ws_open :: "'r env \<Rightarrow> chan \<Rightarrow> chan \<Rightarrow> 'r app_state \<Rightarrow> ws_task \<times> 'r app_state" where
  "ws_open env standard priority st =
     (let conn = (if is_authenticated (ev_sha env) (st_pairing st) ''''
                  then new_connection \<lparr> cn_authenticated := True, cn_principal_id := Some ''anonymous'' \<rparr>
                  else new_connection)
      in (\<lparr> wt_conn = conn, wt_standard = standard, wt_priority = priority, wt_sent = [] \<rparr>,
          st \<lparr> chans := (chans st)(standard \<mapsto> new_channel 256, priority \<mapsto> new_channel 64) \<rparr>))"

text \<open>
  How a turn ends: the loop goes on, nothing was ready, the loop was left, or the handler waits
  for ever for its own channel.
\<close>

datatype turn_end = GoesOn | Idle | Left | Stuck

definition send_response ::
  "bool \<Rightarrow> gateway_response \<Rightarrow> ws_task \<Rightarrow> turn_end \<times> ws_task" where
  "send_response ok resp t =
     (if ok then (GoesOn, t \<lparr> wt_sent := wt_sent t @ [resp] \<rparr>) else (Left, t))"

text \<open>The middle branch: a text frame is parsed, handled and answered.\<close>

definition ws_text ::
  "'r env \<Rightarrow> (string \<Rightarrow> gateway_message result) \<Rightarrow> ambient \<Rightarrow> bool \<Rightarrow> string \<Rightarrow> ws_task \<Rightarrow>
     'r app_state \<Rightarrow> turn_end \<times> ws_task \<times> 'r app_state" where
  "ws_text env from_str am ok txt t st =
     (case from_str txt of
        Inl e \<Rightarrow>
          (let (r, t) = send_response ok
             (GwError ''invalid_message'' (''Failed to parse message: '' @ e)) t in (r, t, st))
      | Inr msg \<Rightarrow>
          (case handle_message env am msg st (wt_conn t) (wt_standard t) (wt_priority t) of
             (None, st, conn) \<Rightarrow> (Stuck, t \<lparr> wt_conn := conn \<rparr>, st)
           | (Some resp, st, conn) \<Rightarrow>
               (let (r, t) = send_response ok resp (t \<lparr> wt_conn := conn \<rparr>) in (r, t, st))))"

definition ws_turn ::
  "'r env \<Rightarrow> (string \<Rightarrow> gateway_message result) \<Rightarrow> ambient \<Rightarrow> bool \<Rightarrow> ws_frame list \<Rightarrow> ws_task \<Rightarrow>
     'r app_state \<Rightarrow> turn_end \<times> ws_frame list \<times> ws_task \<times> 'r app_state" where
  "ws_turn env from_str am ok frames t st =
     (case chan_recv (wt_priority t) st of
        Some (resp, st) \<Rightarrow>
          (let (r, t) = send_response ok resp t in (r, frames, t, st))
      | None \<Rightarrow>
          (case recv_message frames of
             (Some (Inl _), frames) \<Rightarrow> (Left, frames, t, st)
           | (Some (Inr txt), frames) \<Rightarrow>
               (case ws_text env from_str am ok txt t st of (r, t, st) \<Rightarrow> (r, frames, t, st))
           | (None, frames) \<Rightarrow>
               (case chan_recv (wt_standard t) st of
                  Some (resp, st) \<Rightarrow>
                    (let (r, t) = send_response ok resp t in (r, frames, t, st))
                | None \<Rightarrow> (Idle, frames, t, st))))"

text \<open>After the loop: the senders of the listed sessions go, and the receivers are dropped.\<close>

definition close_chan :: "chan \<Rightarrow> 'r app_state \<Rightarrow> 'r app_state" where
  "close_chan c st = st \<lparr> chans := (chans st)(c := map_option
     (\<lambda>q. q \<lparr> mq_items := [], mq_open := False \<rparr>) (chans st c)) \<rparr>"

definition ws_cleanup :: "ws_task \<Rightarrow> 'r app_state \<Rightarrow> 'r app_state" where
  "ws_cleanup t st =
     (let owned = set (cn_owned_sessions (wt_conn t));
          st = st \<lparr> ws_response_senders := ws_response_senders st |` (- owned),
                    ws_priority_senders := ws_priority_senders st |` (- owned) \<rparr>
      in close_chan (wt_priority t) (close_chan (wt_standard t) st))"

text \<open>A number of turns on frames that have all arrived; the socket accepts everything.\<close>

fun ws_run ::
  "'r env \<Rightarrow> (string \<Rightarrow> gateway_message result) \<Rightarrow> ambient list \<Rightarrow> ws_frame list \<Rightarrow> ws_task \<Rightarrow>
     'r app_state \<Rightarrow> turn_end \<times> ws_frame list \<times> ws_task \<times> 'r app_state" where
  "ws_run env from_str [] frames t st = (GoesOn, frames, t, st)"
| "ws_run env from_str (am # ams) frames t st =
     (case ws_turn env from_str am True frames t st of
        (GoesOn, frames, t, st) \<Rightarrow> ws_run env from_str ams frames t st
      | r \<Rightarrow> r)"

subsection \<open>The forwarding tasks\<close>

record session_audio_output =
  ao_session_id :: string
  ao_data :: bytes

text \<open>
  Forwarding gives \<open>None\<close> while the channel of the session is full: the task waits, and holds
  the read lock on the senders while it does.
\<close>

definition forward_to_session ::
  "string \<Rightarrow> gateway_response \<Rightarrow> 'r app_state \<Rightarrow> 'r app_state option" where
  "forward_to_session sid resp st =
     (case ws_response_senders st sid of
        None \<Rightarrow> Some st
      | Some c \<Rightarrow>
          (case chan_send c resp st of (SendBlocked, _) \<Rightarrow> None | (_, st) \<Rightarrow> Some st))"

definition forward_audio :: "session_audio_output \<Rightarrow> 'r app_state \<Rightarrow> 'r app_state option" where
  "forward_audio output st =
     forward_to_session (ao_session_id output)
       (AudioOutput (ao_session_id output) (base64_encode (ao_data output))) st"

definition forward_transcript ::
  "ambient \<Rightarrow> session_transcript_output \<Rightarrow> 'r app_state \<Rightarrow> 'r app_state option" where
  "forward_transcript am output st =
     map_option (queue_channel_outbound_transcript am output)
       (forward_to_session (to_session_id output)
         (TranscriptUpdate (to_session_id output) (to_text output) (to_is_final output)) st)"

subsection \<open>Facts\<close>

lemma gw_inv_senders [simp]:
  "gw_inv (st \<lparr> ws_response_senders := f \<rparr>) = gw_inv st"
  "gw_inv (st \<lparr> ws_priority_senders := f \<rparr>) = gw_inv st"
  by (simp_all add: gw_inv_def routes_inv_def outbox_inv_def jobs_inv_def)

lemma chan_recv_Some:
  assumes "chan_recv c st = Some (m, st')"
  obtains q ms where "chans st c = Some q" "mq_items q = m # ms"
    "st' = st \<lparr> chans := (chans st)(c \<mapsto> q \<lparr> mq_items := ms \<rparr>) \<rparr>"
  using assms by (auto simp: chan_recv_def split: option.splits list.splits)

lemma ws_cleanup_frame [simp]:
  "session_owners (ws_cleanup t st) = session_owners st"
  "gw_inv (ws_cleanup t st) = gw_inv st"
  "job_tasks (ws_cleanup t st) = job_tasks st"
  by (simp_all add: ws_cleanup_def close_chan_def Let_def)

text \<open>A turn is the handling of one message, or changes the channels at most.\<close>

definition only_chans :: "'r app_state \<Rightarrow> 'r app_state \<Rightarrow> bool" where
  "only_chans st st' \<longleftrightarrow> (\<exists>q. st' = st \<lparr> chans := q \<rparr>)"

lemma only_chans_refl [simp]: "only_chans st st"
  unfolding only_chans_def by (rule exI [of _ "chans st"]) simp

lemma chan_recv_only_chans: "chan_recv c st = Some (m, st') \<Longrightarrow> only_chans st st'"
  by (erule chan_recv_Some) (auto simp: only_chans_def)

lemma send_response_parts [simp]:
  "wt_conn (snd (send_response ok resp t)) = wt_conn t" "fst (send_response ok resp t) \<noteq> Stuck"
  by (simp_all add: send_response_def)

lemma ws_text_cases:
  assumes "ws_text env from_str am ok txt t st = (r, t', st')"
  shows "(st' = st \<and> wt_conn t' = wt_conn t) \<or>
    (\<exists>msg resp. handle_message env am msg st (wt_conn t) (wt_standard t) (wt_priority t) = (resp, st', wt_conn t') \<and>
      from_str txt = Inr msg \<and> (r = Stuck \<longleftrightarrow> resp = None))"
proof (cases "from_str txt")
  case (Inl e)
  with assms show ?thesis by (auto simp: ws_text_def split_def Let_def)
next
  case (Inr msg)
  obtain resp st1 conn1 where h:
    "handle_message env am msg st (wt_conn t) (wt_standard t) (wt_priority t) = (resp, st1, conn1)"
    by (metis prod_cases3)
  have "st1 = st' \<and> wt_conn t' = conn1 \<and> (r = Stuck \<longleftrightarrow> resp = None)"
  proof (cases resp)
    case None
    with assms Inr h show ?thesis by (auto simp: ws_text_def)
  next
    case (Some m)
    with assms Inr h show ?thesis by (auto simp: ws_text_def split_def Let_def)
  qed
  with h Inr show ?thesis by blast
qed

lemma ws_turn_cases:
  assumes "ws_turn env from_str am ok frames t st = (r, frames', t', st')"
  obtains (quiet) "only_chans st st'" "wt_conn t' = wt_conn t"
  | (message) msg resp where
      "handle_message env am msg st (wt_conn t) (wt_standard t) (wt_priority t) = (resp, st', wt_conn t')"
      "\<exists>txt. from_str txt = Inr msg" "r = Stuck \<longleftrightarrow> resp = None"
proof (cases "chan_recv (wt_priority t) st")
  case (Some p)
  then have "only_chans st st'" "wt_conn t' = wt_conn t"
    using assms chan_recv_only_chans [of "wt_priority t" st "fst p" "snd p"]
    by (auto simp: ws_turn_def split_def Let_def)
  with quiet show thesis .
next
  case None
  obtain f fs where rec: "recv_message frames = (f, fs)" by (cases "recv_message frames")
  consider (nothing) "f = None" | (closed) u where "f = Some (Inl u)" | (body) b where "f = Some (Inr b)"
    by (metis not_None_eq old.sum.exhaust)
  then show thesis
  proof cases
    case nothing
    with assms None rec have "only_chans st st' \<and> wt_conn t' = wt_conn t"
      by (auto simp: ws_turn_def split_def Let_def intro: chan_recv_only_chans split: option.splits)
    with quiet show thesis by blast
  next
    case closed
    with assms None rec have "st' = st" "t' = t" by (simp_all add: ws_turn_def)
    with quiet show thesis by simp
  next
    case (body b)
    with assms None rec have "ws_text env from_str am ok b t st = (r, t', st')"
      by (simp add: ws_turn_def split: prod.splits)
    from ws_text_cases [OF this] quiet message show thesis by (metis only_chans_refl)
  qed
qed

subsection \<open>A connection that fills its own channel\<close>

text \<open>
  The connection is authenticated, its priority channel is empty and n responses wait in its
  standard channel.
\<close>

definition waiting :: "nat \<Rightarrow> ws_task \<Rightarrow> 'r app_state \<Rightarrow> bool" where
  "waiting n t st \<longleftrightarrow>
     cn_authenticated (wt_conn t) \<and> wt_standard t \<noteq> wt_priority t \<and>
     chans st (wt_priority t) = Some (new_channel 64) \<and>
     (\<exists>q. chans st (wt_standard t) = Some q \<and> mq_open q \<and> mq_capacity q = 256 \<and> length (mq_items q) = n)"

lemma probe_outcome:
  assumes "waiting n t st"
  shows "n \<ge> 256 \<Longrightarrow> handle_message env am PriorityProbe st (wt_conn t) (wt_standard t) (wt_priority t) =
      (None, st, wt_conn t)"
    and "n < 256 \<Longrightarrow> \<exists>resp p q st'. handle_message env am PriorityProbe st (wt_conn t) (wt_standard t)
        (wt_priority t) = (Some resp, st', wt_conn t) \<and>
      chans st' (wt_priority t) = Some ((new_channel 64) \<lparr> mq_items := [p] \<rparr>) \<and>
      chans st' (wt_standard t) = Some q \<and> mq_open q \<and> mq_capacity q = 256 \<and> length (mq_items q) = Suc n"
  using assms
  by (auto simp: waiting_def authenticated_only_def handle_priority_probe_def chan_send_def Let_def
      new_channel_def)

lemma probe_stuck:
  assumes "waiting 256 t st" "from_str txt = Inr PriorityProbe"
  shows "fst (ws_turn env from_str am True (FText txt # fs) t st) = Stuck"
  using assms probe_outcome(1) [OF assms(1), of env am]
  by (simp add: ws_turn_def ws_text_def chan_recv_def waiting_def new_channel_def)

text \<open>Below the capacity a probe takes two turns: its answer, and the notice on the priority channel.\<close>

lemma probe_two_turns:
  assumes w: "waiting n t st" "n < 256" and probe: "from_str txt = Inr PriorityProbe"
  obtains t1 t2 st1 st2 where "ws_turn env from_str am True (FText txt # fs) t st = (GoesOn, fs, t1, st1)"
    "ws_turn env from_str am' True fs t1 st1 = (GoesOn, fs, t2, st2)" "waiting (Suc n) t2 st2"
proof -
  let ?s = "wt_standard t" and ?p = "wt_priority t"
  obtain resp p q st1 where
    h: "handle_message env am PriorityProbe st (wt_conn t) ?s ?p = (Some resp, st1, wt_conn t)"
    and c: "chans st1 ?p = Some ((new_channel 64) \<lparr> mq_items := [p] \<rparr>)"
      "chans st1 ?s = Some q" "mq_open q" "mq_capacity q = 256" "length (mq_items q) = Suc n"
    using probe_outcome(2) [OF w, of env am] by blast
  let ?t1 = "t \<lparr> wt_sent := wt_sent t @ [resp] \<rparr>"
  have "ws_turn env from_str am True (FText txt # fs) t st = (GoesOn, fs, ?t1, st1)"
    using w(1) probe h
    by (simp add: ws_turn_def ws_text_def chan_recv_def waiting_def new_channel_def send_response_def Let_def)
  moreover have "ws_turn env from_str am' True fs ?t1 st1 =
     (GoesOn, fs, ?t1 \<lparr> wt_sent := wt_sent ?t1 @ [p] \<rparr>,
      st1 \<lparr> chans := (chans st1)(?p \<mapsto> new_channel 64) \<rparr>)"
    using c by (simp add: ws_turn_def chan_recv_def send_response_def new_channel_def Let_def)
  moreover have "waiting (Suc n) (?t1 \<lparr> wt_sent := wt_sent ?t1 @ [p] \<rparr>)
      (st1 \<lparr> chans := (chans st1)(?p \<mapsto> new_channel 64) \<rparr>)"
    using c w(1) by (auto simp: waiting_def)
  ultimately show thesis by (rule that)
qed

lemma probes_stuck:
  assumes "waiting n t st" "n + k = 256" "from_str txt = Inr PriorityProbe" "length ams = 2 * k + 1"
  shows "fst (ws_run env from_str ams (replicate (Suc k) (FText txt)) t st) = Stuck"
  using assms
proof (induction k arbitrary: n t st ams)
  case 0
  then obtain am where "ams = [am]" by (auto simp: length_Suc_conv)
  moreover have "fst (ws_turn env from_str am True [FText txt] t st) = Stuck"
    using 0 by (intro probe_stuck) simp_all
  ultimately show ?case by (auto split: prod.splits turn_end.splits)
next
  case (Suc k)
  then obtain am am' ams' where ams: "ams = am # am' # ams'" "length ams' = 2 * k + 1"
    by (auto simp: length_Suc_conv)
  obtain t1 t2 st1 st2 where
    "ws_turn env from_str am True (FText txt # replicate (Suc k) (FText txt)) t st =
       (GoesOn, replicate (Suc k) (FText txt), t1, st1)"
    "ws_turn env from_str am' True (replicate (Suc k) (FText txt)) t1 st1 =
       (GoesOn, replicate (Suc k) (FText txt), t2, st2)" "waiting (Suc n) t2 st2"
  proof (rule probe_two_turns)
    show "waiting n t st" "n < 256" "from_str txt = Inr PriorityProbe" using Suc.prems(1-3) by simp_all
  qed
  moreover from this(3) have "fst (ws_run env from_str ams' (replicate (Suc k) (FText txt)) t2 st2) = Stuck"
    using Suc.IH [of "Suc n" t2 st2 ams'] Suc.prems(2,3) ams(2) by simp
  ultimately show ?case unfolding ams(1) by simp
qed

subsection \<open>Properties\<close>

text \<open>priority before everything else. While a response waits in the priority channel of a
  connection, the next thing sent is the oldest one there; no frame of the client is read and
  the standard channel is not touched.\<close>

theorem priority_first:
  assumes "chans st (wt_priority t) = Some q" "mq_items q = m # ms"
  shows "ws_turn env from_str am True frames t st =
    (GoesOn, frames, t \<lparr> wt_sent := wt_sent t @ [m] \<rparr>,
     st \<lparr> chans := (chans st)(wt_priority t \<mapsto> q \<lparr> mq_items := ms \<rparr>) \<rparr>)"
  using assms by (simp add: ws_turn_def chan_recv_def send_response_def Let_def)

text \<open>every text frame is answered once. When no priority response waits, a text frame that
  is read is answered with exactly one response, the error \<open>invalid_message\<close> or the answer to its
  message, unless the handler waits for ever.\<close>

theorem frame_answered_once:
  assumes "chan_recv (wt_priority t) st = None" "recv_message frames = (Some (Inr txt), rest)"
    and "ws_turn env from_str am True frames t st = (r, rest', t', st')" "r \<noteq> Stuck"
  shows "r = GoesOn \<and> rest' = rest \<and>
    (case from_str txt of
       Inl e \<Rightarrow> wt_sent t' = wt_sent t @
         [GwError ''invalid_message'' (''Failed to parse message: '' @ e)] \<and> st' = st
     | Inr msg \<Rightarrow> \<exists>resp. wt_sent t' = wt_sent t @ [resp] \<and>
         handle_message env am msg st (wt_conn t) (wt_standard t) (wt_priority t) =
           (Some resp, st', wt_conn t'))"
  using assms
  by (auto simp: ws_turn_def ws_text_def send_response_def Let_def split: sum.splits prod.splits option.splits)

text \<open>257 priority probes in a row stop a connection. On a fresh authenticated connection whose
  client has sent them all, the probes are read before the standard channel is drained; the
  last one waits for room in the standard channel, which only the waiting task could make.\<close>

theorem probe_flood_stops_connection:
  assumes "cn_authenticated (wt_conn t)" "wt_standard t \<noteq> wt_priority t"
    and "chans st (wt_standard t) = Some (new_channel 256)"
    and "chans st (wt_priority t) = Some (new_channel 64)"
    and "from_str txt = Inr PriorityProbe" "length ams = 513"
  shows "fst (ws_run env from_str ams (replicate 257 (FText txt)) t st) = Stuck"
proof -
  have "waiting 0 t st" using assms(1-4) by (simp add: waiting_def new_channel_def)
  moreover have "replicate 257 (FText txt) = replicate (Suc 256) (FText txt)" by simp
  ultimately show ?thesis using probes_stuck [of 0 t st 256 from_str _ ams env] assms(5,6) by simp
qed

text \<open>closing an old connection silences the new one. The cleanup of a connection removes the
  senders of every session it lists, also where another connection of the owner has taken the
  session over, whose output is then lost until it sends another message.\<close>

theorem cleanup_unbinds_successor:
  assumes "sid \<in> set (cn_owned_sessions (wt_conn old))" "wt_standard new \<noteq> wt_standard old"
    and "session_owners st sid = Some p" "cn_principal_id (wt_conn new) = Some p"
      "cn_authenticated (wt_conn new)" "message_session msg = Some sid" "msg \<noteq> TerminateSession sid"
    and "handle_message env am msg st (wt_conn new) (wt_standard new) (wt_priority new) = (resp, st', conn')"
  shows "ws_response_senders st' sid = Some (wt_standard new) \<and>
    ws_response_senders (ws_cleanup old st') sid = None \<and>
    forward_to_session sid m (ws_cleanup old st') = Some (ws_cleanup old st')"
proof -
  have "ws_response_senders st' sid = Some (wt_standard new)"
    using message_session_binds [OF assms(6,5,7,4,3,8)]
    by (simp add: same_senders_def bind_senders_senders)
  moreover have "ws_response_senders (ws_cleanup old st') sid = None"
    using assms(1) by (simp add: ws_cleanup_def close_chan_def Let_def restrict_map_def)
  ultimately show ?thesis by (simp add: forward_to_session_def)
qed

text \<open>audio reaches the connection of its session and no other. When the channel that a session
  is bound to has room, the audio is appended to it as an \<open>AudioOutput\<close> whose text decodes to the
  bytes that the runner gave; every other channel is left alone.\<close>

theorem audio_reaches_connection:
  assumes "ws_response_senders st (ao_session_id output) = Some c" "chans st c = Some q"
    and "mq_open q" "length (mq_items q) < mq_capacity q"
  shows "\<exists>b64 st'. forward_audio output st = Some st' \<and> base64_decode b64 = Some (ao_data output) \<and>
    chans st' = (chans st)(c \<mapsto> q \<lparr> mq_items := mq_items q @ [AudioOutput (ao_session_id output) b64] \<rparr>)"
  using assms
  by (intro exI [of _ "base64_encode (ao_data output)"])
    (simp add: forward_audio_def forward_to_session_def chan_send_def b64.dec_enc)

subsection \<open>Examples\<close>

definition sample_task :: ws_task where
  "sample_task = \<lparr> wt_conn = conn_of ''p'', wt_standard = 0, wt_priority = 1, wt_sent = [] \<rparr>"

definition sample_open :: "string list app_state" where
  "sample_open = sample_session \<lparr> chans := [0 \<mapsto> new_channel 256, 1 \<mapsto> new_channel 64] \<rparr>"

text \<open>A reading of the client's text that knows the probe and the ping.\<close>

definition sample_from_str :: "string \<Rightarrow> gateway_message result" where
  "sample_from_str s = (if s = ''probe'' then Inr PriorityProbe else if s = ''ping'' then Inr Ping
     else Inl ''unknown'')"

theorem priority_first_witness:
  "wt_sent (fst (snd (snd (ws_turn idle_env sample_from_str (idle_ambient ''u'') True [FText ''ping''] sample_task
     (sample_open \<lparr> chans := [1 \<mapsto> (new_channel 64) \<lparr> mq_items := [Pong] \<rparr>] \<rparr>))))) = [Pong]"
  by (subst priority_first [where q = "(new_channel 64) \<lparr> mq_items := [Pong] \<rparr>" and m = Pong and ms = "[]"])
    (simp_all add: sample_task_def)

theorem frame_answered_once_witness:
  "wt_sent (fst (snd (snd (ws_turn idle_env sample_from_str (idle_ambient ''u'') True [FPing, FText ''hi''] sample_task
     sample_open)))) = [GwError ''invalid_message'' ''Failed to parse message: unknown'']"
proof -
  let ?h = "ws_turn idle_env sample_from_str (idle_ambient ''u'') True [FPing, FText ''hi''] sample_task sample_open"
  have h: "?h = (fst ?h, fst (snd ?h), fst (snd (snd ?h)), snd (snd (snd ?h)))" by (metis prod.collapse)
  have "fst ?h \<noteq> Stuck"
    by (simp add: ws_turn_def ws_text_def chan_recv_def sample_open_def sample_task_def new_channel_def
        sample_from_str_def send_response_def)
  from frame_answered_once [OF _ _ h this, of "''hi''" "[]"] show ?thesis
    by (simp add: chan_recv_def sample_open_def sample_task_def new_channel_def sample_from_str_def)
qed

theorem probe_flood_stops_connection_witness:
  "fst (ws_run idle_env sample_from_str (replicate 513 (idle_ambient ''u'')) (replicate 257 (FText ''probe''))
     sample_task sample_open) = Stuck"
  by (rule probe_flood_stops_connection) (simp_all add: sample_task_def sample_open_def sample_from_str_def)

theorem cleanup_unbinds_successor_witness:
  "\<exists>st' :: string list app_state. session_owners st' ''s1'' = Some ''p'' \<and>
     forward_to_session ''s1'' Pong (ws_cleanup (sample_task \<lparr> wt_conn := (conn_of ''p'')
        \<lparr> cn_owned_sessions := [''s1''] \<rparr> \<rparr>) st') =
     Some (ws_cleanup (sample_task \<lparr> wt_conn := (conn_of ''p'') \<lparr> cn_owned_sessions := [''s1''] \<rparr> \<rparr>) st')"
proof -
  let ?old = "sample_task \<lparr> wt_conn := (conn_of ''p'') \<lparr> cn_owned_sessions := [''s1''] \<rparr> \<rparr>"
  let ?new = "sample_task \<lparr> wt_standard := 2, wt_priority := 3 \<rparr>"
  let ?h = "handle_message idle_env (idle_ambient ''u'') (SessionAudioCommit ''s1'') sample_session
    (wt_conn ?new) (wt_standard ?new) (wt_priority ?new)"
  have h: "?h = (fst ?h, fst (snd ?h), snd (snd ?h))" by (metis prod.collapse)
  have "session_owners (fst (snd ?h)) ''s1'' = Some ''p''"
    using message_session_binds [OF _ _ _ _ _ h, of "''s1''" "''p''"]
    by (simp add: sample_task_def message_session_def same_senders_def)
  moreover have "forward_to_session ''s1'' Pong (ws_cleanup ?old (fst (snd ?h))) = Some (ws_cleanup ?old (fst (snd ?h)))"
    using cleanup_unbinds_successor [OF _ _ _ _ _ _ _ h, of "''s1''" ?old "''p''" Pong]
    by (simp add: sample_task_def message_session_def)
  ultimately show ?thesis by blast
qed

theorem audio_reaches_connection_witness:
  "\<exists>b64 st'. forward_audio \<lparr> ao_session_id = ''s1'', ao_data = [1, 2, 3, 4] \<rparr> sample_open = Some st' \<and>
     base64_decode b64 = Some [1, 2, 3, 4] \<and>
     chans st' 0 = Some ((new_channel 256) \<lparr> mq_items := [AudioOutput ''s1'' b64] \<rparr>)"
proof -
  have "ws_response_senders sample_open (ao_session_id \<lparr> ao_session_id = ''s1'', ao_data = [1, 2, 3, 4] \<rparr>) = Some 0"
    "chans sample_open 0 = Some (new_channel 256)" "mq_open (new_channel 256)"
    "length (mq_items (new_channel 256)) < mq_capacity (new_channel 256)"
    by (simp_all add: sample_open_def sample_session_def new_channel_def)
  from audio_reaches_connection [OF this] show ?thesis by (auto simp: new_channel_def)
qed

end
