(* ===== verification/Http.thy ===== *)
theory Http
  imports Websocket
begin

section \<open>The HTTP endpoints\<close>

text \<open>
  The HTTP side of \<open>liveclaw-gateway/src/server.rs\<close>: the payloads, the token of a request, one
  handler per endpoint, the translation of gateway responses to status and body, and the routes
  of \<open>build_router\<close>. Extracting and deserialising a request (axum, serde) is not modelled: a
  handler is given the payload, the query and the value of the authorization header.

  A status is its number. The JSON form of the responses is in this theory as well, since only
  the HTTP side looks into it.
\<close>

subsection \<open>JSON form of responses\<close>

definition json_of_notice :: "priority_notice \<Rightarrow> json" where
  "json_of_notice n = JObj
     [(''level'', JStr (pn_level n)), (''code'', JStr (pn_code n)),
      (''message'', JStr (pn_message n)), (''session_id'', json_opt JStr (pn_session_id n))]"

definition json_of_health :: "gateway_health \<Rightarrow> json" where
  "json_of_health h = JObj
     [(''protocol_version'', JStr (gh_protocol_version h)),
      (''uptime_seconds'', JNum (int (gh_uptime_seconds h))),
      (''require_pairing'', JBool (gh_require_pairing h)),
      (''active_sessions'', JNum (int (gh_active_sessions h))),
      (''active_ws_bindings'', JNum (int (gh_active_ws_bindings h))),
      (''active_priority_bindings'', JNum (int (gh_active_priority_bindings h))),
      (''active_channel_jobs'', JNum (int (gh_active_channel_jobs h)))]"

definition json_of_diagnostics :: "runtime_diagnostics \<Rightarrow> json" where
  "json_of_diagnostics d = JObj
     [(''protocol_version'', JStr (rd_protocol_version d)),
      (''supported_client_messages'', JArr (map JStr (rd_supported_client_messages d))),
      (''supported_server_responses'', JArr (map JStr (rd_supported_server_responses d))),
      (''runtime_kind'', JStr (rd_runtime_kind d)),
      (''provider_profile'', JStr (rd_provider_profile d)),
      (''provider_kind'', JStr (rd_provider_kind d)),
      (''provider_model'', JStr (rd_provider_model d)),
      (''provider_base_url'', json_opt JStr (rd_provider_base_url d)),
      (''reconnect_enabled'', JBool (rd_reconnect_enabled d)),
      (''reconnect_max_attempts'', JNum (uint (rd_reconnect_max_attempts d))),
      (''reconnect_attempts_total'', json_u64 (rd_reconnect_attempts_total d)),
      (''reconnect_successes_total'', json_u64 (rd_reconnect_successes_total d)),
      (''reconnect_failures_total'', json_u64 (rd_reconnect_failures_total d)),
      (''compaction_enabled'', JBool (rd_compaction_enabled d)),
      (''compaction_max_events_threshold'', JNum (int (rd_compaction_max_events_threshold d))),
      (''compactions_applied_total'', json_u64 (rd_compactions_applied_total d)),
      (''security_workspace_root'', JStr (rd_security_workspace_root d)),
      (''security_forbidden_tool_paths'', JArr (map JStr (rd_security_forbidden_tool_paths d))),
      (''security_deny_by_default_principal_allowlist'',
         JBool (rd_security_deny_by_default_principal_allowlist d)),
      (''security_principal_allowlist_size'', JNum (int (rd_security_principal_allowlist_size d))),
      (''security_allow_public_bind'', JBool (rd_security_allow_public_bind d)),
      (''active_sessions'', JNum (int (rd_active_sessions d)))]"

definition json_session :: "string \<Rightarrow> string \<Rightarrow> json" where
  "json_session tag sid = tagged tag [(''session_id'', JStr sid)]"

fun json_of_response :: "gateway_response \<Rightarrow> json" where
  "json_of_response (PairSuccess token) = tagged ''PairSuccess'' [(''token'', JStr token)]"
| "json_of_response (Authenticated p) = tagged ''Authenticated'' [(''principal_id'', JStr p)]"
| "json_of_response (PairFailure r) = tagged ''PairFailure'' [(''reason'', JStr r)]"
| "json_of_response (SessionCreated s) = json_session ''SessionCreated'' s"
| "json_of_response (SessionTerminated s) = json_session ''SessionTerminated'' s"
| "json_of_response (AudioAccepted s) = json_session ''AudioAccepted'' s"
| "json_of_response (AudioCommitted s) = json_session ''AudioCommitted'' s"
| "json_of_response (ResponseCreateAccepted s) = json_session ''ResponseCreateAccepted'' s"
| "json_of_response (ResponseInterruptAccepted s) = json_session ''ResponseInterruptAccepted'' s"
| "json_of_response (PromptAccepted s) = json_session ''PromptAccepted'' s"
| "json_of_response (ChannelRouted c a u s) = tagged ''ChannelRouted''
     [(''channel'', JStr c), (''account_id'', JStr a), (''external_user_id'', JStr u),
      (''session_id'', JStr s)]"
| "json_of_response (ChannelOutboundBatch c a u items) = tagged ''ChannelOutboundBatch''
     [(''channel'', JStr c), (''account_id'', JStr a), (''external_user_id'', JStr u),
      (''items'', JArr (map json_of_item items))]"
| "json_of_response (ChannelJobCreated j) = tagged ''ChannelJobCreated'' [(''job'', json_of_job j)]"
| "json_of_response (ChannelJobCanceled j) = tagged ''ChannelJobCanceled'' [(''job_id'', JStr j)]"
| "json_of_response (ChannelJobs js) = tagged ''ChannelJobs'' [(''jobs'', JArr (map json_of_job js))]"
| "json_of_response (SessionToolResult s n r g) = tagged ''SessionToolResult''
     [(''session_id'', JStr s), (''tool_name'', JStr n), (''result'', r), (''graph'', json_of_report g)]"
| "json_of_response (AudioOutput s a) = tagged ''AudioOutput''
     [(''session_id'', JStr s), (''audio'', JStr a)]"
| "json_of_response (TranscriptUpdate s t f) = tagged ''TranscriptUpdate''
     [(''session_id'', JStr s), (''text'', JStr t), (''is_final'', JBool f)]"
| "json_of_response (PriorityProbeAccepted a b) = tagged ''PriorityProbeAccepted''
     [(''queued_standard'', JBool a), (''queued_priority'', JBool b)]"
| "json_of_response (PriorityNoticeMsg n) = tagged ''PriorityNotice'' [(''data'', json_of_notice n)]"
| "json_of_response (GatewayHealthMsg h) = tagged ''GatewayHealth'' [(''data'', json_of_health h)]"
| "json_of_response (Diagnostics d) = tagged ''Diagnostics'' [(''data'', json_of_diagnostics d)]"
| "json_of_response (GwError code m) = tagged ''Error'' [(''code'', JStr code), (''message'', JStr m)]"
| "json_of_response Pong = tagged ''Pong'' []"

subsection \<open>Responses\<close>

type_synonym http_response = "nat \<times> json"

definition http_json_error :: "nat \<Rightarrow> string \<Rightarrow> string \<Rightarrow> http_response" where
  "http_json_error status code message =
     (status, tagged ''Error'' [(''code'', JStr code), (''message'', JStr message)])"

definition error_status :: "string \<Rightarrow> nat" where
  "error_status code =
     (if code \<in> {''auth_required'', ''invalid_token''} then 401
      else if code \<in> {''invalid_channel'', ''invalid_channel_route'', ''invalid_channel_message''} then 400
      else if code = ''invalid_channel_job'' then 400
      else if code = ''forbidden_channel_job'' then 403
      else if code = ''channel_job_not_found'' then 404
      else 500)"

definition http_response_from_gateway :: "gateway_response \<Rightarrow> http_response" where
  "http_response_from_gateway resp =
     (case resp of
        GwError code message \<Rightarrow> http_json_error (error_status code) code message
      | ChannelRouted c a u s \<Rightarrow> (200, tagged ''ChannelRouted''
          [(''channel'', JStr c), (''account_id'', JStr a), (''external_user_id'', JStr u),
           (''session_id'', JStr s)])
      | ChannelOutboundBatch c a u items \<Rightarrow> (200, tagged ''ChannelOutboundBatch''
          [(''channel'', JStr c), (''account_id'', JStr a), (''external_user_id'', JStr u),
           (''items'', JArr (map json_of_item items))])
      | ChannelJobCreated job \<Rightarrow> (200, tagged ''ChannelJobCreated'' [(''job'', json_of_job job)])
      | ChannelJobCanceled jid \<Rightarrow> (200, tagged ''ChannelJobCanceled'' [(''job_id'', JStr jid)])
      | ChannelJobs jobs \<Rightarrow> (200, tagged ''ChannelJobs'' [(''jobs'', JArr (map json_of_job jobs))])
      | other \<Rightarrow> (200, tagged ''UnexpectedResponse'' [(''payload'', json_of_response other)]))"

definition ignored :: "string \<Rightarrow> http_response" where
  "ignored reason = (202, JObj [(''status'', JStr ''ignored''), (''reason'', JStr reason)])"

subsection \<open>The token of a request\<close>

record channel_ingress_query =
  iq_token :: "string option"
  iq_create_response :: "bool option"

text \<open>\<open>HeaderValue::to_str\<close> accepts visible ASCII, space and tab.\<close>

definition header_to_str :: "string \<Rightarrow> string option" where
  "header_to_str v =
     (if list_all (\<lambda>c. (32 \<le> byte_of c \<and> byte_of c < 127) \<or> byte_of c = 9) v then Some v else None)"

definition nonempty_trimmed :: "string \<Rightarrow> string option" where
  "nonempty_trimmed v = (let t = trim v in if t = [] then None else Some t)"

definition extract_channel_token ::
  "string option \<Rightarrow> channel_ingress_query \<Rightarrow> string option" where
  "extract_channel_token authorization query =
     (let from_header = Option.bind (Option.bind authorization header_to_str)
            (\<lambda>raw. Option.bind
               (case strip_prefix ''Bearer '' raw of Some r \<Rightarrow> Some r | None \<Rightarrow> strip_prefix ''bearer '' raw)
               nonempty_trimmed)
      in case from_header of
           Some t \<Rightarrow> Some t
         | None \<Rightarrow> Option.bind (iq_token query) nonempty_trimmed)"

definition authenticate_http_principal ::
  "'r env \<Rightarrow> string option \<Rightarrow> 'r app_state \<Rightarrow> gateway_response + string" where
  "authenticate_http_principal env token st =
     (if is_authenticated (ev_sha env) (st_pairing st) '''' then Inr ''anonymous''
      else case token of
        None \<Rightarrow> Inl auth_required_error
      | Some token \<Rightarrow>
          (if \<not> is_authenticated (ev_sha env) (st_pairing st) token
           then Inl (GwError ''invalid_token'' ''Token authentication failed'')
           else Inr (principal_from_token (ev_sha env) token)))"

definition http_connection :: "string option \<Rightarrow> string \<Rightarrow> connection_state" where
  "http_connection token principal_id =
     \<lparr> cn_authenticated = True, cn_token = token, cn_principal_id = Some principal_id,
       cn_owned_sessions = [] \<rparr>"

subsection \<open>The operations behind the endpoints\<close>

definition handle_channel_http_route ::
  "'r env \<Rightarrow> ambient \<Rightarrow> channel_inbound_request \<Rightarrow> string option \<Rightarrow> 'r app_state \<Rightarrow>
     gateway_response \<times> 'r app_state" where
  "handle_channel_http_route env am request token st =
     (case authenticate_http_principal env token st of
        Inl resp \<Rightarrow> (resp, st)
      | Inr principal_id \<Rightarrow>
          (case handle_channel_inbound env am request st (http_connection token principal_id) None None of
             (resp, st, _) \<Rightarrow> (resp, st)))"

record channel_outbound_poll_request =
  po_channel :: string
  po_account_id :: string
  po_external_user_id :: string
  po_max_items :: "u64 option"

definition handle_channel_http_outbound_poll ::
  "'r env \<Rightarrow> channel_outbound_poll_request \<Rightarrow> string option \<Rightarrow> 'r app_state \<Rightarrow>
     gateway_response \<times> 'r app_state" where
  "handle_channel_http_outbound_poll env request token st =
     (case authenticate_http_principal env token st of
        Inl resp \<Rightarrow> (resp, st)
      | Inr principal_id \<Rightarrow>
          (case drain_channel_outbox st principal_id (po_channel request) (po_account_id request)
                  (po_external_user_id request) (po_max_items request) of
             (Inr (c, a, u, items), st) \<Rightarrow> (ChannelOutboundBatch c a u items, st)
           | (Inl resp, st) \<Rightarrow> (resp, st)))"

definition handle_channel_http_create_job ::
  "'r env \<Rightarrow> ambient \<Rightarrow> channel_job_create_request \<Rightarrow> string option \<Rightarrow> 'r app_state \<Rightarrow>
     gateway_response \<times> 'r app_state" where
  "handle_channel_http_create_job env am request token st =
     (case authenticate_http_principal env token st of
        Inl resp \<Rightarrow> (resp, st)
      | Inr principal_id \<Rightarrow>
          handle_create_channel_job am request st (http_connection token principal_id))"

definition handle_channel_http_cancel_job ::
  "'r env \<Rightarrow> string \<Rightarrow> string option \<Rightarrow> 'r app_state \<Rightarrow> gateway_response \<times> 'r app_state" where
  "handle_channel_http_cancel_job env jid token st =
     (case authenticate_http_principal env token st of
        Inl resp \<Rightarrow> (resp, st)
      | Inr principal_id \<Rightarrow> handle_cancel_channel_job jid st (http_connection token principal_id))"

definition handle_channel_http_list_jobs ::
  "'r env \<Rightarrow> string option \<Rightarrow> 'r app_state \<Rightarrow> gateway_response" where
  "handle_channel_http_list_jobs env token st =
     (case authenticate_http_principal env token st of
        Inl resp \<Rightarrow> resp
      | Inr principal_id \<Rightarrow> handle_list_channel_jobs st (http_connection token principal_id))"

subsection \<open>Payloads\<close>

record webhook_inbound_payload =
  wh_channel :: "string option"
  wh_account_id :: string
  wh_external_user_id :: string
  wh_text :: string
  wh_create_response :: "bool option"

record channel_job_create_payload =
  cp_channel :: string
  cp_account_id :: string
  cp_external_user_id :: string
  cp_text :: string
  cp_interval_seconds :: u64
  cp_create_response :: "bool option"

record webhook_supervised_action_payload =
  wa_channel :: "string option"
  wa_account_id :: string
  wa_external_user_id :: string
  wa_text :: "string option"
  wa_tool_name :: string
  wa_arguments :: json
  wa_create_response :: "bool option"
  wa_force_session_recreate :: "bool option"

record slack_event =
  se_event_type :: "string option"
  se_user :: "string option"
  se_text :: "string option"
  se_bot_id :: "string option"

record slack_envelope =
  sl_envelope_type :: "string option"
  sl_challenge :: "string option"
  sl_team_id :: "string option"
  sl_event :: "slack_event option"

text \<open>The identifiers of Telegram are \<open>i64\<close>: words, read as signed.\<close>

record telegram_chat =
  tc_id :: u64

record telegram_user =
  tr_id :: u64

record telegram_message =
  tm_text :: "string option"
  tm_chat :: "telegram_chat option"
  tm_from :: "telegram_user option"

record telegram_update =
  tu_message :: "telegram_message option"
  tu_edited_message :: "telegram_message option"
  tu_channel_post :: "telegram_message option"

record discord_author =
  da_id :: "string option"
  da_bot :: "bool option"

record discord_message_event =
  dm_event_type :: "string option"
  dm_guild_id :: "string option"
  dm_channel_id :: "string option"
  dm_author :: "discord_author option"
  dm_content :: "string option"

record matrix_event_content =
  mc_msgtype :: "string option"
  mc_body :: "string option"

record matrix_event_payload =
  me_event_type :: "string option"
  me_room_id :: "string option"
  me_sender :: "string option"
  me_content :: "matrix_event_content option"

record teams_conversation =
  tv_id :: "string option"

record teams_user =
  tf_id :: "string option"

record teams_activity_event =
  ta_activity_type :: "string option"
  ta_conversation :: "teams_conversation option"
  ta_from :: "teams_user option"
  ta_text :: "string option"

subsection \<open>What a payload asks for\<close>

text \<open>
  The checks of a channel endpoint on its payload, before the token is used: an answer, or the
  message to route.
\<close>

definition or_else :: "'a option \<Rightarrow> 'a option \<Rightarrow> 'a option" where
  "or_else x y = (case x of None \<Rightarrow> y | Some v \<Rightarrow> Some v)"

definition plain_inbound ::
  "string \<Rightarrow> string \<Rightarrow> string \<Rightarrow> string \<Rightarrow> bool \<Rightarrow> channel_inbound_request" where
  "plain_inbound channel account_id external_user_id body create_response =
     \<lparr> ci_channel = channel, ci_account_id = account_id, ci_external_user_id = external_user_id,
       ci_text = body, ci_create_response = create_response, ci_session_config_on_create = None,
       ci_force_session_recreate = False \<rparr>"

definition slack_inbound ::
  "channel_ingress_query \<Rightarrow> slack_envelope \<Rightarrow> http_response + channel_inbound_request" where
  "slack_inbound query payload =
     (if sl_envelope_type payload = Some ''url_verification''
      then Inl (200, JObj [(''challenge'', JStr (case sl_challenge payload of None \<Rightarrow> '''' | Some c \<Rightarrow> c))])
      else case sl_event payload of
        None \<Rightarrow> Inl (http_json_error 400 ''invalid_slack_payload'' (''Slack event payload is missing '' @ quoted ''event''))
      | Some event \<Rightarrow>
     (if se_event_type event \<noteq> Some ''message'' then Inl (ignored ''unsupported_event_type'')
      else if se_bot_id event \<noteq> None then Inl (ignored ''bot_message'')
      else case sl_team_id payload of
        None \<Rightarrow> Inl (http_json_error 400 ''invalid_slack_payload'' (''Slack event payload is missing '' @ quoted ''team_id''))
      | Some account_id \<Rightarrow>
     (case se_user event of
        None \<Rightarrow> Inl (http_json_error 400 ''invalid_slack_payload'' (''Slack message payload is missing '' @ quoted ''event.user''))
      | Some external_user_id \<Rightarrow>
     (case se_text event of
        None \<Rightarrow> Inl (http_json_error 400 ''invalid_slack_payload'' (''Slack message payload is missing '' @ quoted ''event.text''))
      | Some body \<Rightarrow>
          Inr (plain_inbound ''slack'' account_id external_user_id body (or_true (iq_create_response query)))))))"

definition telegram_inbound ::
  "channel_ingress_query \<Rightarrow> telegram_update \<Rightarrow> http_response + channel_inbound_request" where
  "telegram_inbound query payload =
     (case or_else (or_else (tu_message payload) (tu_edited_message payload)) (tu_channel_post payload) of
        None \<Rightarrow> Inl (ignored ''no_message'')
      | Some msg \<Rightarrow>
     (case tm_text msg of
        None \<Rightarrow> Inl (ignored ''no_text'')
      | Some body \<Rightarrow>
     (case tm_chat msg of
        None \<Rightarrow> Inl (http_json_error 400 ''invalid_telegram_payload'' (''Telegram payload is missing '' @ quoted ''message.chat.id''))
      | Some chat \<Rightarrow>
     (case tm_from msg of
        None \<Rightarrow> Inl (http_json_error 400 ''invalid_telegram_payload'' (''Telegram payload is missing '' @ quoted ''message.from.id''))
      | Some sender \<Rightarrow>
          Inr (plain_inbound ''telegram'' (show_int (sint (tc_id chat))) (show_int (sint (tr_id sender))) body
                 (or_true (iq_create_response query)))))))"

definition discord_inbound ::
  "channel_ingress_query \<Rightarrow> discord_message_event \<Rightarrow> http_response + channel_inbound_request" where
  "discord_inbound query payload =
     (if (case dm_event_type payload of None \<Rightarrow> False
          | Some t \<Rightarrow> \<not> eq_ignore_ascii_case t ''MESSAGE_CREATE'')
      then Inl (ignored ''unsupported_event_type'')
      else case dm_author payload of
        None \<Rightarrow> Inl (http_json_error 400 ''invalid_discord_payload'' (''Discord payload is missing '' @ quoted ''author''))
      | Some author \<Rightarrow>
     (if da_bot author = Some True then Inl (ignored ''bot_message'')
      else case da_id author of
        None \<Rightarrow> Inl (http_json_error 400 ''invalid_discord_payload'' (''Discord payload is missing '' @ quoted ''author.id''))
      | Some external_user_id \<Rightarrow>
     (case dm_content payload of
        None \<Rightarrow> Inl (ignored ''no_text'')
      | Some text_raw \<Rightarrow>
          (let body = trim text_raw in
           if body = [] then Inl (ignored ''no_text'')
           else case or_else (dm_guild_id payload) (dm_channel_id payload) of
             None \<Rightarrow> Inl (http_json_error 400 ''invalid_discord_payload''
                       (''Discord payload is missing '' @ quoted ''guild_id'' @ '' or '' @ quoted ''channel_id''))
           | Some account_id \<Rightarrow>
               Inr (plain_inbound ''discord'' account_id external_user_id body
                      (or_true (iq_create_response query)))))))"

definition matrix_inbound ::
  "channel_ingress_query \<Rightarrow> matrix_event_payload \<Rightarrow> http_response + channel_inbound_request" where
  "matrix_inbound query payload =
     (if (case me_event_type payload of None \<Rightarrow> False
          | Some t \<Rightarrow> \<not> eq_ignore_ascii_case t ''m.room.message'')
      then Inl (ignored ''unsupported_event_type'')
      else case me_room_id payload of
        None \<Rightarrow> Inl (http_json_error 400 ''invalid_matrix_payload'' (''Matrix payload is missing '' @ quoted ''room_id''))
      | Some account_id \<Rightarrow>
     (case me_sender payload of
        None \<Rightarrow> Inl (http_json_error 400 ''invalid_matrix_payload'' (''Matrix payload is missing '' @ quoted ''sender''))
      | Some external_user_id \<Rightarrow>
     (case me_content payload of
        None \<Rightarrow> Inl (ignored ''no_text'')
      | Some content \<Rightarrow>
     (if (case mc_msgtype content of None \<Rightarrow> False
          | Some t \<Rightarrow> \<not> eq_ignore_ascii_case t ''m.text'' \<and> \<not> eq_ignore_ascii_case t ''m.notice'')
      then Inl (ignored ''unsupported_message_type'')
      else case mc_body content of
        None \<Rightarrow> Inl (ignored ''no_text'')
      | Some text_raw \<Rightarrow>
          (let body = trim text_raw in
           if body = [] then Inl (ignored ''no_text'')
           else Inr (plain_inbound ''matrix'' account_id external_user_id body
                       (or_true (iq_create_response query))))))))"

definition teams_inbound ::
  "channel_ingress_query \<Rightarrow> teams_activity_event \<Rightarrow> http_response + channel_inbound_request" where
  "teams_inbound query payload =
     (if (case ta_activity_type payload of None \<Rightarrow> False
          | Some t \<Rightarrow> \<not> eq_ignore_ascii_case t ''message'')
      then Inl (ignored ''unsupported_event_type'')
      else case ta_conversation payload of
        None \<Rightarrow> Inl (http_json_error 400 ''invalid_teams_payload'' (''Teams payload is missing '' @ quoted ''conversation''))
      | Some conversation \<Rightarrow>
     (case tv_id conversation of
        None \<Rightarrow> Inl (http_json_error 400 ''invalid_teams_payload'' (''Teams payload is missing '' @ quoted ''conversation.id''))
      | Some account_id \<Rightarrow>
     (case ta_from payload of
        None \<Rightarrow> Inl (http_json_error 400 ''invalid_teams_payload'' (''Teams payload is missing '' @ quoted ''from''))
      | Some sender \<Rightarrow>
     (case tf_id sender of
        None \<Rightarrow> Inl (http_json_error 400 ''invalid_teams_payload'' (''Teams payload is missing '' @ quoted ''from.id''))
      | Some external_user_id \<Rightarrow>
     (case ta_text payload of
        None \<Rightarrow> Inl (ignored ''no_text'')
      | Some text_raw \<Rightarrow>
          (let body = trim text_raw in
           if body = [] then Inl (ignored ''no_text'')
           else Inr (plain_inbound ''teams'' account_id external_user_id body
                       (or_true (iq_create_response query)))))))))"

subsection \<open>Endpoints\<close>

text \<open>Answer, or route the message with the token of the request.\<close>

definition answer_or_route ::
  "'r env \<Rightarrow> ambient \<Rightarrow> string option \<Rightarrow> channel_ingress_query \<Rightarrow>
     http_response + channel_inbound_request \<Rightarrow> 'r app_state \<Rightarrow> http_response \<times> 'r app_state" where
  "answer_or_route env am authorization query asked st =
     (case asked of
        Inl answer \<Rightarrow> (answer, st)
      | Inr request \<Rightarrow>
          (let (resp, st) = handle_channel_http_route env am request
                              (extract_channel_token authorization query) st
           in (http_response_from_gateway resp, st)))"

definition channel_webhook_handler ::
  "'r env \<Rightarrow> ambient \<Rightarrow> string option \<Rightarrow> channel_ingress_query \<Rightarrow> webhook_inbound_payload \<Rightarrow>
     'r app_state \<Rightarrow> http_response \<times> 'r app_state" where
  "channel_webhook_handler env am authorization query payload st =
     (let create_response = or_true (or_else (wh_create_response payload) (iq_create_response query));
          channel = (case wh_channel payload of None \<Rightarrow> ''webhook'' | Some c \<Rightarrow> c)
      in answer_or_route env am authorization query
           (Inr (plain_inbound channel (wh_account_id payload) (wh_external_user_id payload)
                   (wh_text payload) create_response)) st)"

definition channel_outbound_poll_handler ::
  "'r env \<Rightarrow> string option \<Rightarrow> channel_ingress_query \<Rightarrow> channel_outbound_poll_request \<Rightarrow>
     'r app_state \<Rightarrow> http_response \<times> 'r app_state" where
  "channel_outbound_poll_handler env authorization query payload st =
     (let (resp, st) = handle_channel_http_outbound_poll env payload
                         (extract_channel_token authorization query) st
      in (http_response_from_gateway resp, st))"

definition channel_job_create_handler ::
  "'r env \<Rightarrow> ambient \<Rightarrow> string option \<Rightarrow> channel_ingress_query \<Rightarrow> channel_job_create_payload \<Rightarrow>
     'r app_state \<Rightarrow> http_response \<times> 'r app_state" where
  "channel_job_create_handler env am authorization query payload st =
     (let (resp, st) = handle_channel_http_create_job env am
            \<lparr> cj_channel = cp_channel payload, cj_account_id = cp_account_id payload,
              cj_external_user_id = cp_external_user_id payload, cj_text = cp_text payload,
              cj_interval_seconds = cp_interval_seconds payload,
              cj_create_response = or_true (cp_create_response payload) \<rparr>
            (extract_channel_token authorization query) st
      in (http_response_from_gateway resp, st))"

definition channel_job_cancel_handler ::
  "'r env \<Rightarrow> string option \<Rightarrow> channel_ingress_query \<Rightarrow> string \<Rightarrow> 'r app_state \<Rightarrow>
     http_response \<times> 'r app_state" where
  "channel_job_cancel_handler env authorization query jid st =
     (let (resp, st) = handle_channel_http_cancel_job env jid
                         (extract_channel_token authorization query) st
      in (http_response_from_gateway resp, st))"

definition channel_job_list_handler ::
  "'r env \<Rightarrow> string option \<Rightarrow> channel_ingress_query \<Rightarrow> 'r app_state \<Rightarrow> http_response" where
  "channel_job_list_handler env authorization query st =
     http_response_from_gateway
       (handle_channel_http_list_jobs env (extract_channel_token authorization query) st)"

text \<open>
  The supervised action: the message is routed, by default to a new supervised session, and the
  tool is called in it. The call is given two channels of its own, a and b, which take the place
  of the session's senders; their receivers are dropped when the handler returns.
\<close>

definition supervised_inbound ::
  "channel_ingress_query \<Rightarrow> webhook_supervised_action_payload \<Rightarrow> channel_inbound_request" where
  "supervised_inbound query payload =
     \<lparr> ci_channel = (case wa_channel payload of None \<Rightarrow> ''webhook'' | Some c \<Rightarrow> c),
       ci_account_id = wa_account_id payload, ci_external_user_id = wa_external_user_id payload,
       ci_text = (case wa_text payload of None \<Rightarrow> ''Webhook supervised action trigger'' | Some t \<Rightarrow> t),
       ci_create_response = (case or_else (wa_create_response payload) (iq_create_response query) of
          None \<Rightarrow> False | Some b \<Rightarrow> b),
       ci_session_config_on_create = Some \<lparr> sc_model = None, sc_voice = None, sc_instructions = None,
          sc_role = Some ''supervised'', sc_enable_graph = Some True \<rparr>,
       ci_force_session_recreate = or_true (wa_force_session_recreate payload) \<rparr>"

definition supervised_response ::
  "string \<times> string \<times> string \<times> string \<Rightarrow> gateway_response \<Rightarrow> http_response" where
  "supervised_response routed tool_resp =
     (case (routed, tool_resp) of
        ((c, a, u, sid), SessionToolResult _ tool_name res graph) \<Rightarrow>
          (200, tagged ''WebhookSupervisedActionResult''
             [(''channel'', JStr c), (''account_id'', JStr a), (''external_user_id'', JStr u),
              (''session_id'', JStr sid), (''tool_name'', JStr tool_name), (''result'', res),
              (''graph'', json_of_report graph)])
      | (_, other) \<Rightarrow> http_response_from_gateway other)"

definition channel_webhook_supervised_action_handler ::
  "'r env \<Rightarrow> ambient \<Rightarrow> chan \<Rightarrow> chan \<Rightarrow> string option \<Rightarrow> channel_ingress_query \<Rightarrow>
     webhook_supervised_action_payload \<Rightarrow> 'r app_state \<Rightarrow> http_response \<times> 'r app_state" where
  "channel_webhook_supervised_action_handler env am a b authorization query payload st =
     (let token = extract_channel_token authorization query in
      case authenticate_http_principal env token st of
        Inl resp \<Rightarrow> (http_response_from_gateway resp, st)
      | Inr principal_id \<Rightarrow>
          (case handle_channel_inbound env am (supervised_inbound query payload) st
                  (http_connection token principal_id) None None of
             (ChannelRouted c ac u sid, st, conn) \<Rightarrow>
               (let st = st \<lparr> chans := (chans st)(a \<mapsto> new_channel 4, b \<mapsto> new_channel 4) \<rparr>;
                    (tool_resp, st, conn) = handle_session_tool_call env sid (wa_tool_name payload)
                       (wa_arguments payload) st conn a b;
                    st = close_chan b (close_chan a st)
                in (supervised_response (c, ac, u, sid) tool_resp, st))
           | (other, st, conn) \<Rightarrow> (http_response_from_gateway other, st)))"

subsection \<open>Routes\<close>

text \<open>\<open>build_router\<close>: a request by its endpoint, with the payload that the endpoint takes.\<close>

datatype http_request =
    GetHealth
  | PostWebhook webhook_inbound_payload
  | PostSlack slack_envelope
  | PostTelegram telegram_update
  | PostDiscord discord_message_event
  | PostMatrix matrix_event_payload
  | PostTeams teams_activity_event
  | PostOutboundPoll channel_outbound_poll_request
  | PostJobCreate channel_job_create_payload
  | PostJobCancel string
  | GetJobList
  | PostSupervisedAction webhook_supervised_action_payload

definition health_handler :: http_response where
  "health_handler = (200, JObj [(''status'', JStr ''ok''), (''service'', JStr ''liveclaw-gateway'')])"

fun route_request ::
  "'r env \<Rightarrow> ambient \<Rightarrow> chan \<Rightarrow> chan \<Rightarrow> string option \<Rightarrow> channel_ingress_query \<Rightarrow> http_request \<Rightarrow>
     'r app_state \<Rightarrow> http_response \<times> 'r app_state" where
  "route_request env am a b auth query GetHealth st = (health_handler, st)"
| "route_request env am a b auth query (PostWebhook p) st = channel_webhook_handler env am auth query p st"
| "route_request env am a b auth query (PostSlack p) st =
     answer_or_route env am auth query (slack_inbound query p) st"
| "route_request env am a b auth query (PostTelegram p) st =
     answer_or_route env am auth query (telegram_inbound query p) st"
| "route_request env am a b auth query (PostDiscord p) st =
     answer_or_route env am auth query (discord_inbound query p) st"
| "route_request env am a b auth query (PostMatrix p) st =
     answer_or_route env am auth query (matrix_inbound query p) st"
| "route_request env am a b auth query (PostTeams p) st =
     answer_or_route env am auth query (teams_inbound query p) st"
| "route_request env am a b auth query (PostOutboundPoll p) st =
     channel_outbound_poll_handler env auth query p st"
| "route_request env am a b auth query (PostJobCreate p) st =
     channel_job_create_handler env am auth query p st"
| "route_request env am a b auth query (PostJobCancel j) st =
     channel_job_cancel_handler env auth query j st"
| "route_request env am a b auth query GetJobList st = (channel_job_list_handler env auth query st, st)"
| "route_request env am a b auth query (PostSupervisedAction p) st =
     channel_webhook_supervised_action_handler env am a b auth query p st"

subsection \<open>What a request keeps\<close>

lemma http_connection_simps [simp]:
  "cn_principal_id (http_connection token p) = Some p" "\<not> conn_lists q st (http_connection token p)"
  by (simp_all add: http_connection_def conn_lists_def)

text \<open>The principal of a request: what its token gives.\<close>

abbreviation request_principal ::
  "'r env \<Rightarrow> string option \<Rightarrow> channel_ingress_query \<Rightarrow> 'r app_state \<Rightarrow> gateway_response + string" where
  "request_principal env authorization query st \<equiv>
     authenticate_http_principal env (extract_channel_token authorization query) st"

text \<open>
  A request without a principal leaves the state as it is; one with the principal q keeps the
  invariant of the tables and what belongs to the others.
\<close>

definition request_ok :: "gateway_response + string \<Rightarrow> 'r app_state \<Rightarrow> 'r app_state \<Rightarrow> bool" where
  "request_ok auth st st' \<longleftrightarrow>
     (case auth of
        Inl _ \<Rightarrow> st' = st
      | Inr q \<Rightarrow> gw_inv st' \<and> (\<forall>p. p \<noteq> q \<longrightarrow> same_for p st st'))"

lemma request_ok_same [simp]: "gw_inv st \<Longrightarrow> request_ok auth st st"
  by (simp add: request_ok_def split: sum.split)

lemma request_ok_keeps:
  assumes "gw_inv st" "keeps st (http_connection token q) st' conn'"
  shows "request_ok (Inr q) st st'"
  using assms by (simp add: request_ok_def keeps_def)

lemma answer_or_route_ok:
  assumes "creates_as_asked (ev_runner env)" "fresh_id st (am_uuid am)" "gw_inv st"
  shows "request_ok (request_principal env auth query st) st (snd (answer_or_route env am auth query asked st))"
proof (cases asked)
  case (Inl answer)
  with assms show ?thesis by (simp add: answer_or_route_def)
next
  case (Inr request)
  show ?thesis
  proof (cases "request_principal env auth query st")
    case (Inl e)
    with Inr show ?thesis
      by (simp add: answer_or_route_def handle_channel_http_route_def request_ok_def)
  next
    case q: (Inr q)
    let ?conn = "http_connection (extract_channel_token auth query) q"
    have "handled_ok st ?conn (handle_channel_inbound env am request st ?conn None None)"
      using assms by (intro handle_channel_inbound_ok) (simp_all add: fresh_id_def)
    then have "request_ok (Inr q) st (fst (snd (handle_channel_inbound env am request st ?conn None None)))"
      using assms(3) by (simp add: handled_ok_def request_ok_keeps)
    with Inr q show ?thesis
      by (simp add: answer_or_route_def handle_channel_http_route_def split_def)
  qed
qed

lemma poll_handler_ok:
  assumes "gw_inv st"
  shows "request_ok (request_principal env auth query st) st
    (snd (channel_outbound_poll_handler env auth query payload st))"
proof (cases "request_principal env auth query st")
  case (Inl e)
  then show ?thesis
    by (simp add: channel_outbound_poll_handler_def handle_channel_http_outbound_poll_def request_ok_def)
next
  case (Inr q)
  have "request_ok (Inr q) st (snd (take_outbox (route_key q r) n st))" for r n
    using assms by (simp add: request_ok_def take_outbox_inv take_outbox_same_for)
  with Inr assms show ?thesis
    by (auto simp: channel_outbound_poll_handler_def handle_channel_http_outbound_poll_def
        drain_channel_outbox_def Let_def split_def split: sum.split)
qed

lemma job_create_handler_ok:
  assumes "fresh_id st (am_uuid am)" "gw_inv st"
  shows "request_ok (request_principal env auth query st) st
    (snd (channel_job_create_handler env am auth query payload st))"
proof (cases "request_principal env auth query st")
  case (Inl e)
  then show ?thesis
    by (simp add: channel_job_create_handler_def handle_channel_http_create_job_def request_ok_def)
next
  case (Inr q)
  then show ?thesis
    using request_ok_keeps [OF assms(2) handle_create_channel_job_ok [OF assms(1)]]
    by (simp add: channel_job_create_handler_def handle_channel_http_create_job_def split_def Let_def)
qed

lemma job_cancel_handler_ok:
  assumes "gw_inv st"
  shows "request_ok (request_principal env auth query st) st
    (snd (channel_job_cancel_handler env auth query jid st))"
proof (cases "request_principal env auth query st")
  case (Inl e)
  then show ?thesis
    by (simp add: channel_job_cancel_handler_def handle_channel_http_cancel_job_def request_ok_def)
next
  case (Inr q)
  then show ?thesis
    using request_ok_keeps [OF assms handle_cancel_channel_job_ok]
    by (simp add: channel_job_cancel_handler_def handle_channel_http_cancel_job_def split_def Let_def)
qed

lemma close_chan_keeps [simp]: "keeps st conn (close_chan c st') conn' = keeps st conn st' conn'"
  by (simp add: close_chan_def)

lemma supervised_handler_ok:
  assumes "creates_as_asked (ev_runner env)" "fresh_id st (am_uuid am)" "gw_inv st"
  shows "request_ok (request_principal env auth query st) st
    (snd (channel_webhook_supervised_action_handler env am a b auth query payload st))"
proof (cases "request_principal env auth query st")
  case (Inl e)
  then show ?thesis
    by (simp add: channel_webhook_supervised_action_handler_def request_ok_def)
next
  case (Inr q)
  let ?conn = "http_connection (extract_channel_token auth query) q"
  obtain resp st1 conn1 where
    i: "handle_channel_inbound env am (supervised_inbound query payload) st ?conn None None = (resp, st1, conn1)"
    by (metis prod_cases3)
  have k1: "keeps st ?conn st1 conn1"
    using handle_channel_inbound_ok [of env st am ?conn "supervised_inbound query payload" None None] assms i
    by (simp add: fresh_id_def)
  have k2: "keeps st ?conn (fst (snd h)) (snd (snd h))"
    if "h = handle_session_tool_call env sid n v (st1 \<lparr> chans := q' \<rparr>) conn1 a b" for h sid n v q'
  proof (rule keeps_trans)
    show "keeps st ?conn (st1 \<lparr> chans := q' \<rparr>) conn1" using k1 by simp
    show "keeps (st1 \<lparr> chans := q' \<rparr>) conn1 (fst (snd h)) (snd (snd h))"
      using handle_session_tool_call_ok unfolding that by (simp add: handled_ok_def)
  qed
  have "\<exists>conn'. keeps st ?conn (snd (channel_webhook_supervised_action_handler env am a b auth query payload st)) conn'"
  proof (cases resp)
    case (ChannelRouted c ac u sid)
    with Inr i k2 [OF refl, of sid "wa_tool_name payload" "wa_arguments payload"
        "(chans st1)(a \<mapsto> new_channel 4, b \<mapsto> new_channel 4)"]
    show ?thesis
      by (auto simp: channel_webhook_supervised_action_handler_def Let_def split_def)
  qed (use Inr i k1 in \<open>auto simp: channel_webhook_supervised_action_handler_def\<close>)
  with Inr request_ok_keeps [OF assms(3)] show ?thesis by auto
qed

lemma route_request_ok:
  assumes "creates_as_asked (ev_runner env)" "fresh_id st (am_uuid am)" "gw_inv st"
  shows "request_ok (request_principal env auth query st) st
    (snd (route_request env am a b auth query req st))"
  using assms
  by (cases req) (simp_all add: channel_webhook_handler_def Let_def answer_or_route_ok poll_handler_ok
      job_create_handler_ok job_cancel_handler_ok supervised_handler_ok)

subsection \<open>Properties\<close>

text \<open>Whether a request gets as far as its token: the events that a platform is only answered do not.\<close>

definition reads_token :: "channel_ingress_query \<Rightarrow> http_request \<Rightarrow> bool" where
  "reads_token query req =
     (case req of
        GetHealth \<Rightarrow> False
      | PostSlack p \<Rightarrow> \<not> isl (slack_inbound query p)
      | PostTelegram p \<Rightarrow> \<not> isl (telegram_inbound query p)
      | PostDiscord p \<Rightarrow> \<not> isl (discord_inbound query p)
      | PostMatrix p \<Rightarrow> \<not> isl (matrix_inbound query p)
      | PostTeams p \<Rightarrow> \<not> isl (teams_inbound query p)
      | _ \<Rightarrow> True)"

lemma authenticate_http_error:
  "authenticate_http_principal env token st = Inl e \<Longrightarrow>
     \<exists>code m. e = GwError code m \<and> code \<in> {''auth_required'', ''invalid_token''}"
  by (auto simp: authenticate_http_principal_def auth_required_error_def split: if_splits option.splits)

text \<open>The answer to a platform event that is answered before its token is read: the challenge, an
  ignored event or a malformed one.\<close>

definition early_status :: "http_response + channel_inbound_request \<Rightarrow> bool" where
  "early_status asked = (case asked of Inl answer \<Rightarrow> fst answer \<in> {200, 202, 400} | Inr _ \<Rightarrow> True)"

lemma platform_answers_early:
  "early_status (slack_inbound query p1)" "early_status (telegram_inbound query p2)"
  "early_status (discord_inbound query p3)" "early_status (matrix_inbound query p4)"
  "early_status (teams_inbound query p5)"
  by (simp_all add: early_status_def slack_inbound_def telegram_inbound_def discord_inbound_def
      matrix_inbound_def teams_inbound_def Let_def ignored_def http_json_error_def split: option.split)

lemma early_answer:
  assumes "isl asked" "early_status asked"
  shows "fst (fst (answer_or_route env am auth query asked st)) \<in> {200, 202, 400} \<and>
    fst (answer_or_route env' am' auth' query asked st') = fst (answer_or_route env am auth query asked st)"
  using assms by (cases asked) (simp_all add: early_status_def answer_or_route_def)

lemma unread_token_answer:
  assumes "\<not> reads_token query req"
  shows "fst (fst (route_request env am a b auth query req st)) \<in> {200, 202, 400} \<and>
    fst (route_request env' am' a b auth' query req st') = fst (route_request env am a b auth query req st)"
  using assms early_answer [of _ env am auth query st env' am' auth' st'] platform_answers_early [of query]
  by (cases req) (simp_all add: reads_token_def health_handler_def)


text \<open>the principals of HTTP requests are separated. A request keeps the invariant of the
  tables, and nothing that belongs to a principal other than its own changes.\<close>

theorem http_principals_separated:
  assumes "creates_as_asked (ev_runner env)" "fresh_id st (am_uuid am)" "gw_inv st"
    and "authenticate_http_principal env (extract_channel_token auth query) st = Inr q"
  shows "gw_inv (snd (route_request env am a b auth query req st)) \<and>
    (\<forall>p. p \<noteq> q \<longrightarrow> same_for p st (snd (route_request env am a b auth query req st)))"
  using route_request_ok [OF assms(1-3), of auth query a b req] assms(4) by (simp add: request_ok_def)

text \<open>one token, one principal. A token that is accepted over the WebSocket gives the connection
  the same principal as it gives an HTTP request, so both see the same sessions, routes and jobs.\<close>

theorem token_same_principal:
  assumes "is_authenticated (ev_sha env) (st_pairing st) token"
  shows "\<exists>p. authenticate_http_principal env (Some token) st = Inr p \<and>
    fst (handle_message env am (Authenticate token) st conn a b) = Some (Authenticated p) \<and>
    cn_principal_id (snd (snd (handle_message env am (Authenticate token) st conn a b))) = Some p"
  using assms by (auto simp: authenticate_http_principal_def handle_authenticate_def Let_def)

text \<open>the token of the authorization header wins over the one of the query, both are trimmed, and
  an empty one counts as none.\<close>

theorem token_of_request:
  assumes "header_to_str raw = Some raw"
    and "raw = ''Bearer '' @ token \<or> raw = ''bearer '' @ token"
  shows "extract_channel_token (Some raw) query =
    (if trim token \<noteq> [] then Some (trim token)
     else case iq_token query of
       None \<Rightarrow> None
     | Some t \<Rightarrow> if trim t = [] then None else Some (trim t))"
  using assms
  by (auto simp: extract_channel_token_def strip_prefix_def starts_with_def nonempty_trimmed_def Let_def
      split: option.split)

text \<open>The responses that the channel operations give.\<close>

definition channel_answer :: "gateway_response \<Rightarrow> bool" where
  "channel_answer resp = (case resp of GwError _ _ \<Rightarrow> True | ChannelRouted _ _ _ _ \<Rightarrow> True
     | ChannelOutboundBatch _ _ _ _ \<Rightarrow> True | ChannelJobCreated _ \<Rightarrow> True | ChannelJobCanceled _ \<Rightarrow> True
     | ChannelJobs _ \<Rightarrow> True | _ \<Rightarrow> False)"

lemma channel_answer_simps [simp]:
  "channel_answer (GwError x y)" "channel_answer (ChannelRouted c a u s)"
  by (simp_all add: channel_answer_def)

lemma authorize_Inl_error:
  "authorize_session_access sid st conn a b = (Inl e, st', conn') \<Longrightarrow> \<exists>x y. e = GwError x y"
  by (auto simp: authorize_session_access_def auth_required_error_def split: option.splits if_splits)

lemma create_internal_answer:
  "handle_create_session_internal env am config st conn a b = (resp, st', conn') \<Longrightarrow>
     (\<exists>s. resp = SessionCreated s) \<or> (\<exists>x y. resp = GwError x y)"
  by (auto simp: handle_create_session_internal_def gw_simps Let_def split: sum.splits)

lemma create_routed_answer:
  assumes "create_routed_session env am config k st conn a b = (Inl e, st', conn')"
  shows "\<exists>x y. e = GwError x y"
proof -
  obtain resp st1 conn1 where "handle_create_session_internal env am config st conn a b = (resp, st1, conn1)"
    by (metis prod_cases3)
  with create_internal_answer [OF this] assms show ?thesis by (auto simp: create_routed_session_def)
qed

lemma inbound_session_answer:
  assumes "inbound_session env am request k st conn a b = (Inl e, st', conn')"
  shows "\<exists>x y. e = GwError x y"
  using assms create_routed_answer
  by (auto simp: inbound_session_def Let_def split: option.splits if_splits)

lemma forward_inbound_answer: "channel_answer (fst (forward_inbound env request r tx sid st conn))"
  by (cases r) (auto simp: forward_inbound_def gw_simps Let_def split: sum.split)

lemma with_access_answer:
  assumes "\<And>st conn. channel_answer (fst (f st conn))"
  shows "channel_answer (fst (with_access sid st conn a b f))"
proof (cases "authorize_session_access sid st conn a b")
  case (fields res st1 conn1)
  show ?thesis
  proof (cases res)
    case (Inl e)
    with fields authorize_Inl_error [of sid st conn a b e st1 conn1] show ?thesis
      by (auto simp: with_access_def)
  qed (use fields assms in \<open>simp add: with_access_def\<close>)
qed

lemma handle_channel_inbound_answer:
  "channel_answer (fst (handle_channel_inbound env am request st conn a b))"
proof (cases "cn_principal_id conn")
  case None
  then show ?thesis by (simp add: handle_channel_inbound_def auth_required_error_def)
next
  case (Some p)
  have e: "channel_answer e" if "normalize_route c ac u = Inl e" for c ac u e
    using that by (auto simp: normalize_route_def split: option.splits)
  have "channel_answer (fst (case inbound_session env am request k st conn a b of
       (Inl resp, st, conn) \<Rightarrow> (resp, st, conn)
     | (Inr sid, st, conn) \<Rightarrow>
         (let st = st \<lparr> session_channel_routes := (session_channel_routes st)(sid \<mapsto> k) \<rparr>
          in with_access sid st conn a b (forward_inbound env request route tx sid))))" for k route tx
  proof (cases "inbound_session env am request k st conn a b")
    case (fields res st' conn')
    then show ?thesis
      by (cases res) (auto simp: Let_def dest!: inbound_session_answer
          intro!: with_access_answer forward_inbound_answer)
  qed
  with Some e show ?thesis
    by (auto simp: handle_channel_inbound_def Let_def split: sum.split option.split)
qed

lemma http_answer_status:
  assumes "channel_answer resp"
  shows "fst (http_response_from_gateway resp) \<in> {200, 400, 401, 403, 404, 500}"
    and "field_str (snd (http_response_from_gateway resp)) ''type'' \<noteq> Some ''UnexpectedResponse''"
  using assms
  by (cases resp; auto simp: channel_answer_def http_response_from_gateway_def http_json_error_def
      error_status_def field_str_def tagged_def json_get_def json_as_str_def)+

definition known_status :: "http_response \<Rightarrow> bool" where
  "known_status r \<longleftrightarrow> fst r \<in> {200, 202, 400, 401, 403, 404, 500} \<and>
     field_str (snd r) ''type'' \<noteq> Some ''UnexpectedResponse''"

lemma known_answer: "channel_answer resp \<Longrightarrow> known_status (http_response_from_gateway resp)"
  using http_answer_status [of resp] by (auto simp: known_status_def)

lemma known_status_plain [simp]:
  "known_status (ignored reason)" "known_status (http_json_error 400 code m)" "known_status health_handler"
  by (simp_all add: known_status_def ignored_def http_json_error_def health_handler_def tagged_def
      field_str_def json_get_def json_as_str_def)

lemma authenticate_http_answer:
  "authenticate_http_principal env token st = Inl e \<Longrightarrow> channel_answer e"
  using authenticate_http_error by fastforce

lemma tool_call_answer:
  "(\<exists>x y. fst (handle_session_tool_call env sid n v st conn a b) = GwError x y) \<or>
   (\<exists>s m r g. fst (handle_session_tool_call env sid n v st conn a b) = SessionToolResult s m r g)"
proof (cases "authorize_session_access sid st conn (Some a) (Some b)")
  case (fields res st1 conn1)
  with authorize_Inl_error [of sid st conn "Some a" "Some b"] show ?thesis
    by (cases res; cases "fst (rn_session_tool_call (ev_runner env) sid n v (st_runner st1))")
      (auto simp: handle_session_tool_call_def with_access_def gw_simps)
qed

lemma supervised_known:
  "known_status (fst (channel_webhook_supervised_action_handler env am a b auth query payload st))"
proof (cases "request_principal env auth query st")
  case (Inl e)
  then show ?thesis
    by (auto simp: channel_webhook_supervised_action_handler_def intro: known_answer authenticate_http_answer)
next
  case (Inr q)
  let ?conn = "http_connection (extract_channel_token auth query) q"
  obtain resp st1 conn1 where
    i: "handle_channel_inbound env am (supervised_inbound query payload) st ?conn None None = (resp, st1, conn1)"
    by (metis prod_cases3)
  have "channel_answer resp"
    using handle_channel_inbound_answer [of env am "supervised_inbound query payload" st ?conn None None] i by simp
  moreover have "known_status (supervised_response r (fst (handle_session_tool_call env s n v st' conn' a b)))"
    for r s n v st' conn'
  proof -
    have "known_status (supervised_response r (GwError x y))" for x y
      by (cases r) (simp add: supervised_response_def known_answer)
    moreover have "known_status (supervised_response r (SessionToolResult s' m res g))" for s' m res g
      by (cases r) (simp add: supervised_response_def known_status_def tagged_def field_str_def
          json_get_def json_as_str_def)
    ultimately show ?thesis using tool_call_answer [of env s n v st' conn' a b] by auto
  qed
  ultimately show ?thesis using Inr i known_answer
    by (cases resp) (auto simp: channel_webhook_supervised_action_handler_def Let_def split_def)
qed

lemma job_answers:
  "channel_answer (fst (handle_create_channel_job am request st conn))"
  "channel_answer (fst (handle_cancel_channel_job jid st conn))"
  "channel_answer (handle_list_channel_jobs st conn)"
  by (auto simp: handle_create_channel_job_def handle_cancel_channel_job_def handle_list_channel_jobs_def
      Let_def auth_required_error_def channel_answer_def normalize_route_def split: option.splits sum.splits)

lemma poll_answer: "channel_answer (fst (handle_channel_http_outbound_poll env request token st))"
  using authenticate_http_answer
  by (auto simp: handle_channel_http_outbound_poll_def drain_channel_outbox_def Let_def split_def
      channel_answer_def normalize_route_def split: option.splits sum.splits)

definition known_if_answered :: "http_response + channel_inbound_request \<Rightarrow> bool" where
  "known_if_answered asked = (case asked of Inl answer \<Rightarrow> known_status answer | Inr _ \<Rightarrow> True)"

lemma known_if_answered_simps [simp]:
  "known_if_answered (Inl answer) = known_status answer" "known_if_answered (Inr request)"
  by (simp_all add: known_if_answered_def)

lemma known_status_challenge [simp]: "known_status (200, JObj [(''challenge'', j)])"
  by (simp add: known_status_def field_str_def json_get_def)

lemma platform_answers_known:
  "known_if_answered (slack_inbound query p1)" "known_if_answered (telegram_inbound query p2)"
  "known_if_answered (discord_inbound query p3)" "known_if_answered (matrix_inbound query p4)"
  "known_if_answered (teams_inbound query p5)"
  by (simp_all add: slack_inbound_def telegram_inbound_def discord_inbound_def matrix_inbound_def
      teams_inbound_def Let_def split: option.split)

lemma answer_or_route_known:
  assumes "known_if_answered asked"
  shows "known_status (fst (answer_or_route env am auth query asked st))"
proof -
  have "channel_answer (fst (handle_channel_http_route env am request token st))" for request token
    using handle_channel_inbound_answer authenticate_http_answer
    by (auto simp: handle_channel_http_route_def split_def split: sum.split)
  with assms known_answer show ?thesis
    by (auto simp: answer_or_route_def split_def Let_def split: sum.split)
qed

text \<open>HTTP answers are well formed. Every request is answered with one of the statuses 200, 202,
  400, 401, 403, 404 and 500, and never with the body for a response that the HTTP side does not
  expect.\<close>

theorem http_answers_known:
  "fst (fst (route_request env am a b auth query req st)) \<in> {200, 202, 400, 401, 403, 404, 500} \<and>
   field_str (snd (fst (route_request env am a b auth query req st))) ''type'' \<noteq> Some ''UnexpectedResponse''"
proof -
  have "known_status (fst (route_request env am a b auth query req st))"
    by (cases req) (auto simp: channel_webhook_handler_def Let_def split_def channel_outbound_poll_handler_def
      channel_job_create_handler_def handle_channel_http_create_job_def channel_job_cancel_handler_def
      handle_channel_http_cancel_job_def channel_job_list_handler_def handle_channel_http_list_jobs_def
      supervised_known split: sum.split
      intro!: answer_or_route_known platform_answers_known known_answer poll_answer job_answers
        authenticate_http_answer)
  then show ?thesis by (simp add: known_status_def)
qed

lemma with_access_chans:
  assumes "\<And>st conn. chans (fst (snd (f st conn))) = chans st"
  shows "chans (fst (snd (with_access sid st conn a b f))) = chans st"
  using assms
  by (cases rule: authorize_cases [of conn sid st a b]) (simp_all add: with_access_def)

text \<open>a supervised action takes the session's output away. After a tool call answered through the
  endpoint, the sender of the session is a channel of the request whose receiver is gone, so that
  what the session says next reaches no connection, although one may have been bound before.\<close>

theorem supervised_action_unbinds:
  assumes "authenticate_http_principal env (extract_channel_token auth query) st = Inr q" "a \<noteq> b"
    and "handle_channel_inbound env am (supervised_inbound query payload) st
           (http_connection (extract_channel_token auth query) q) None None = (ChannelRouted c ac u sid, st1, conn1)"
    and "session_owners st1 sid = Some q" "cn_principal_id conn1 = Some q"
    and "channel_webhook_supervised_action_handler env am a b auth query payload st = (resp, st')"
  shows "ws_response_senders st' sid = Some a \<and> (\<forall>m. forward_to_session sid m st' = Some st')"
proof -
  let ?st = "st1 \<lparr> chans := (chans st1)(a \<mapsto> new_channel 4, b \<mapsto> new_channel 4) \<rparr>"
  let ?h = "handle_session_tool_call env sid (wa_tool_name payload) (wa_arguments payload) ?st conn1 a b"
  have own: "session_owners ?st sid = Some q" using assms(4) by simp
  have s: "same_senders (bind_senders sid (Some a) (Some b) ?st) (fst (snd ?h))"
    unfolding handle_session_tool_call_def
    by (rule conjunct1 [OF with_access_senders [OF assms(5) own]]) (auto simp: gw_simps split: sum.split)
  have st': "st' = close_chan b (close_chan a (fst (snd ?h)))"
    using assms(1,3,6) by (auto simp: channel_webhook_supervised_action_handler_def Let_def split_def)
  have "chans (fst (snd ?h)) = chans ?st"
    unfolding handle_session_tool_call_def
    by (subst with_access_chans) (auto simp: gw_simps split: sum.split)
  then have "chans st' a = Some \<lparr> mq_items = [], mq_capacity = 4, mq_open = False \<rparr>"
    using assms(2) by (simp add: st' close_chan_def new_channel_def)
  moreover have "ws_response_senders st' sid = Some a"
    using s by (simp add: st' close_chan_def same_senders_def bind_senders_senders)
  ultimately show ?thesis by (simp add: forward_to_session_def chan_send_def)
qed

subsection \<open>Examples\<close>

text \<open>A gateway that has issued one token, \<open>tok\<close>.\<close>

definition sample_paired :: "string list app_state" where
  "sample_paired = idle_state \<lparr> st_pairing := idle_guard \<lparr> token_hashes := [hash_token (\<lambda>b. b) ''tok''] \<rparr> \<rparr>"

definition no_query :: channel_ingress_query where
  "no_query = \<lparr> iq_token = None, iq_create_response = None \<rparr>"

definition bearer :: "string option" where
  "bearer = Some ''Bearer tok ''"

lemma sample_paired_simps [simp]:
  "gw_inv sample_paired" "session_owners sample_paired = Map.empty" "job_tasks sample_paired = Map.empty"
  by (simp_all add: sample_paired_def)

lemma sample_token: "extract_channel_token bearer no_query = Some ''tok''"
  "is_authenticated (\<lambda>b. b) (st_pairing sample_paired) ''tok''"
  "\<not> is_authenticated (\<lambda>b. b) (st_pairing sample_paired) ''''"
  by code_simp+

lemma sample_principal:
  "authenticate_http_principal idle_env (extract_channel_token bearer no_query) sample_paired =
     Inr (principal_from_token (\<lambda>b. b) ''tok'')"
  using sample_token by (simp add: authenticate_http_principal_def idle_env_def)


theorem http_principals_separated_witness:
  "same_for ''anonymous'' sample_paired (snd (route_request idle_env (idle_ambient ''s1'') 4 5 bearer no_query
     (PostWebhook \<lparr> wh_channel = None, wh_account_id = ''a'', wh_external_user_id = ''u'', wh_text = ''hi'',
        wh_create_response = None \<rparr>) sample_paired))"
proof -
  have ne: "''anonymous'' \<noteq> principal_from_token (\<lambda>b. b) ''tok''" by code_simp
  have "fresh_id sample_paired (am_uuid (idle_ambient ''s1''))" by (simp add: fresh_id_def)
  from http_principals_separated [OF idle_creates_as_asked this sample_paired_simps(1) sample_principal] ne
  show ?thesis by blast
qed

theorem token_same_principal_witness:
  "authenticate_http_principal idle_env (Some ''tok'') sample_paired =
     Inr (the (cn_principal_id (snd (snd (handle_message idle_env (idle_ambient ''u'') (Authenticate ''tok'')
        sample_paired new_connection 0 1)))))"
proof -
  have "is_authenticated (ev_sha idle_env) (st_pairing sample_paired) ''tok''"
    using sample_token(2) by (simp add: idle_env_def)
  from token_same_principal [OF this, of "idle_ambient ''u''" new_connection 0 1] show ?thesis by auto
qed

theorem token_of_request_witness:
  "extract_channel_token (Some ''bearer  abc '') (no_query \<lparr> iq_token := Some ''other'' \<rparr>) = Some ''abc''"
proof -
  have "header_to_str ''bearer  abc '' = Some ''bearer  abc ''" "trim '' abc '' = ''abc''" by code_simp+
  with token_of_request [of "''bearer  abc ''" "'' abc ''"] show ?thesis by simp
qed

definition sample_action :: webhook_supervised_action_payload where
  "sample_action = \<lparr> wa_channel = None, wa_account_id = ''a'', wa_external_user_id = ''u'', wa_text = None,
     wa_tool_name = ''echo'', wa_arguments = JNull, wa_create_response = None,
     wa_force_session_recreate = Some False \<rparr>"

theorem supervised_action_unbinds_witness:
  "ws_response_senders (snd (channel_webhook_supervised_action_handler idle_env (idle_ambient ''s1'') 4 5 bearer
     no_query sample_action sample_paired)) ''s1'' = Some 4"
proof -
  let ?q = "principal_from_token (\<lambda>b. b) ''tok''"
  let ?conn = "http_connection (extract_channel_token bearer no_query) ?q"
  let ?h = "handle_channel_inbound idle_env (idle_ambient ''s1'') (supervised_inbound no_query sample_action)
    sample_paired ?conn None None"
  let ?r = "channel_webhook_supervised_action_handler idle_env (idle_ambient ''s1'') 4 5 bearer no_query
    sample_action sample_paired"
  have "fst ?h = ChannelRouted ''webhook'' ''a'' ''u'' ''s1''" by code_simp
  then have h: "?h = (ChannelRouted ''webhook'' ''a'' ''u'' ''s1'', fst (snd ?h), snd (snd ?h))"
    by (metis prod.collapse)
  have fresh: "session_owners sample_paired (am_uuid (idle_ambient ''s1'')) = None" by simp
  have p: "cn_principal_id ?conn = Some ?q" by simp
  have "handled_ok sample_paired ?conn ?h"
    by (rule handle_channel_inbound_ok [OF idle_creates_as_asked fresh sample_paired_simps(1)])
  then have p': "cn_principal_id (snd (snd ?h)) = Some ?q" by (simp add: handled_ok_def keeps_def)
  have o: "session_owners (fst (snd ?h)) ''s1'' = Some ?q" by code_simp
  have "(4::chan) \<noteq> 5" by simp
  from supervised_action_unbinds [OF sample_principal this h o p' prod.collapse [symmetric]]
  show ?thesis by blast
qed

end
