(* ===== verification/System.thy ===== *)
theory System
  imports Http
begin

section \<open>The gateway as a system\<close>

text \<open>
  The parts of \<open>liveclaw-gateway/src/server.rs\<close> put together: the state of the gateway, the
  connections with their tasks, and the steps that the tasks take in any order. A step is a new
  connection, a turn of a connection's loop, the end of a connection, a piece of audio or a
  transcript of the runner, a step of a job's task, or an HTTP request.

  Each step draws an identifier that is not in use. The lemmas show the invariants that every
  reachable state has.
\<close>

record 'r world =
  wo_state :: "'r app_state"
  wo_conns :: "nat \<rightharpoonup> ws_task"

definition unused :: "'r world \<Rightarrow> string \<Rightarrow> bool" where
  "unused w u \<longleftrightarrow> fresh_id (wo_state w) u \<and>
     (\<forall>i t. wo_conns w i = Some t \<longrightarrow> u \<notin> set (cn_owned_sessions (wt_conn t)))"

inductive gateway_step ::
  "'r env \<Rightarrow> (string \<Rightarrow> gateway_message result) \<Rightarrow> 'r world \<Rightarrow> 'r world \<Rightarrow> bool"
  for env from_str where
  connect: "wo_conns w i = None \<Longrightarrow> chans (wo_state w) s = None \<Longrightarrow> chans (wo_state w) p = None \<Longrightarrow>
    s \<noteq> p \<Longrightarrow> ws_open env s p (wo_state w) = (t, st) \<Longrightarrow>
    gateway_step env from_str w \<lparr> wo_state = st, wo_conns = (wo_conns w)(i \<mapsto> t) \<rparr>"
| turn: "wo_conns w i = Some t \<Longrightarrow> unused w (am_uuid am) \<Longrightarrow>
    ws_turn env from_str am ok frames t (wo_state w) = (r, rest, t', st) \<Longrightarrow> r = GoesOn \<or> r = Idle \<Longrightarrow>
    gateway_step env from_str w \<lparr> wo_state = st, wo_conns = (wo_conns w)(i \<mapsto> t') \<rparr>"
| leave: "wo_conns w i = Some t \<Longrightarrow> unused w (am_uuid am) \<Longrightarrow>
    ws_turn env from_str am ok frames t (wo_state w) = (Left, rest, t', st) \<Longrightarrow>
    gateway_step env from_str w \<lparr> wo_state = ws_cleanup t' st, wo_conns = (wo_conns w)(i := None) \<rparr>"
| stick: "wo_conns w i = Some t \<Longrightarrow> unused w (am_uuid am) \<Longrightarrow>
    ws_turn env from_str am ok frames t (wo_state w) = (Stuck, rest, t', st) \<Longrightarrow>
    gateway_step env from_str w \<lparr> wo_state = st, wo_conns = (wo_conns w)(i := None) \<rparr>"
| audio: "forward_audio out (wo_state w) = Some st \<Longrightarrow>
    gateway_step env from_str w (w \<lparr> wo_state := st \<rparr>)"
| transcript: "forward_transcript am out (wo_state w) = Some st \<Longrightarrow>
    gateway_step env from_str w (w \<lparr> wo_state := st \<rparr>)"
| job: "unused w (am_uuid am) \<Longrightarrow> run_channel_job env am jid (wo_state w) st \<Longrightarrow>
    gateway_step env from_str w (w \<lparr> wo_state := st \<rparr>)"
| request: "unused w (am_uuid am) \<Longrightarrow> chans (wo_state w) a = None \<Longrightarrow> chans (wo_state w) b = None \<Longrightarrow>
    route_request env am a b auth query req (wo_state w) = (resp, st) \<Longrightarrow>
    gateway_step env from_str w (w \<lparr> wo_state := st \<rparr>)"

definition initial_world :: "pairing_guard \<Rightarrow> 'r \<Rightarrow> nat \<Rightarrow> 'r world" where
  "initial_world pairing r now =
     \<lparr> wo_state = initial_state pairing r now, wo_conns = Map.empty \<rparr>"

text \<open>
  A step is loyal when no connection that lists sessions logs in as somebody else in it.
\<close>

definition loyal :: "'r world \<Rightarrow> 'r world \<Rightarrow> bool" where
  "loyal w w' \<longleftrightarrow>
     (\<forall>i t t'. wo_conns w i = Some t \<longrightarrow> wo_conns w' i = Some t' \<longrightarrow>
        cn_owned_sessions (wt_conn t) \<noteq> [] \<longrightarrow>
        cn_principal_id (wt_conn t') = cn_principal_id (wt_conn t))"

inductive reachable ::
  "'r env \<Rightarrow> (string \<Rightarrow> gateway_message result) \<Rightarrow> 'r world \<Rightarrow> 'r world \<Rightarrow> bool"
  for env from_str w0 where
  start: "reachable env from_str w0 w0"
| step: "reachable env from_str w0 w \<Longrightarrow> gateway_step env from_str w w' \<Longrightarrow> reachable env from_str w0 w'"

inductive loyally_reachable ::
  "'r env \<Rightarrow> (string \<Rightarrow> gateway_message result) \<Rightarrow> 'r world \<Rightarrow> 'r world \<Rightarrow> bool"
  for env from_str w0 where
  start: "loyally_reachable env from_str w0 w0"
| step: "loyally_reachable env from_str w0 w \<Longrightarrow> gateway_step env from_str w w' \<Longrightarrow> loyal w w' \<Longrightarrow>
    loyally_reachable env from_str w0 w'"

subsection \<open>Which sessions a handler adds\<close>

definition owners_grow :: "string \<Rightarrow> 'r app_state \<Rightarrow> 'r app_state \<Rightarrow> bool" where
  "owners_grow u st st' \<longleftrightarrow>
     (\<forall>s p. session_owners st' s = Some p \<longrightarrow> session_owners st s = Some p \<or> s = u)"

lemma owners_grow_same [simp]:
  "session_owners st' = session_owners st \<Longrightarrow> owners_grow u st st'"
  by (simp add: owners_grow_def)

lemma owners_grow_trans: "owners_grow u a b \<Longrightarrow> owners_grow u b c \<Longrightarrow> owners_grow u a c"
  by (auto simp: owners_grow_def)

lemma with_access_grow:
  assumes "\<And>st conn. owners_grow u st (fst (snd (f st conn)))"
  shows "owners_grow u st (fst (snd (with_access sid st conn a b f)))"
proof -
  have *: "owners_grow u st (fst (snd (f (bind_senders sid a b st) conn')))" for conn'
    using owners_grow_trans [OF _ assms, where a = st and b = "bind_senders sid a b st"] by simp
  show ?thesis
    by (cases rule: authorize_cases [of conn sid st a b]) (simp_all add: with_access_def *)
qed

lemma forget_grow [simp]: "owners_grow u st (forget_session sid st)"
  by (auto simp: owners_grow_def forget_session_def Let_def split: if_splits)

lemma terminate_grow: "owners_grow u st (fst (snd (handle_terminate_session env sid st conn)))"
proof -
  have "owners_grow u st ((forget_session sid st) \<lparr> st_runner := r \<rparr>)" for st :: "'a app_state" and r
    using forget_grow [of u st sid] by (simp add: owners_grow_def)
  then show ?thesis unfolding handle_terminate_session_def
    by (intro with_access_grow) (auto simp: gw_simps Let_def split: sum.split)
qed

lemma send_prompt_owners [simp]:
  "session_owners (fst (snd (send_prompt env sid t cr st conn))) = session_owners st"
  by (auto simp: send_prompt_def gw_simps split: sum.split)

lemma prompt_grow: "owners_grow u st (fst (snd (handle_session_prompt env sid p cr st conn a b)))"
proof -
  have b: "session_owners (fst (snd (prompt_body env sid t cr st conn c))) = session_owners st" for t st conn c
    using prompt_body_same_senders(1) [where st = st] by (simp add: same_senders_def)
  show ?thesis
    by (cases rule: authorize_cases [of conn sid st "Some a" "Some b"])
      (simp_all add: handle_session_prompt_def Let_def b)
qed

lemma create_grow:
  assumes "creates_as_asked (ev_runner env)"
  shows "owners_grow (am_uuid am) st (fst (snd (handle_create_session_internal env am config st conn a b)))"
proof (cases "handle_create_session_internal env am config st conn a b")
  case (fields resp st' conn')
  from assms fields show ?thesis
    by (cases rule: create_session_cases) (use fields in \<open>auto simp: owners_grow_def split: if_splits\<close>)
qed

lemma inbound_grow:
  assumes "creates_as_asked (ev_runner env)"
  shows "owners_grow (am_uuid am) st (fst (snd (handle_channel_inbound env am request st conn a b)))"
proof -
  have c: "owners_grow (am_uuid am) st (fst (snd (create_routed_session env am config k st conn a b)))"
    for config k st conn
    using create_grow [OF assms, of am st config conn a b]
    by (auto simp: create_routed_session_def owners_grow_def split: prod.split gateway_response.split)
  have d: "owners_grow (am_uuid am) st (drop_mapped_session env k s st)" for k s st
    by (auto simp: owners_grow_def drop_mapped_session_def gw_simps Let_def split: if_splits)
  have m: "owners_grow (am_uuid am) st (st \<lparr> channel_routes := x, session_channel_routes := y \<rparr>)" for st :: "'a app_state" and x y
    by simp
  have i: "owners_grow (am_uuid am) st (fst (snd (inbound_session env am request k st conn a b)))" for k st conn
    using c owners_grow_trans [OF d c] owners_grow_trans [OF m c]
    by (auto simp: inbound_session_def Let_def split: option.split)
  have f: "owners_grow (am_uuid am) st (fst (snd (forward_inbound env request r tx sid st conn)))" for r tx sid st conn
    by (simp add: forward_inbound_tables)
  have w: "owners_grow (am_uuid am) st (fst (snd (with_access sid (st' \<lparr> session_channel_routes := x \<rparr>) conn' a b
      (forward_inbound env request r tx sid))))" if "owners_grow (am_uuid am) st st'" for r tx sid st st' conn' x
  proof (rule owners_grow_trans [OF that])
    show "owners_grow (am_uuid am) st' (fst (snd (with_access sid (st' \<lparr> session_channel_routes := x \<rparr>) conn' a b
      (forward_inbound env request r tx sid))))"
      using with_access_grow [OF f, where st = "st' \<lparr> session_channel_routes := x \<rparr>" and sid = sid
          and conn = conn' and a = a and b = b]
      by (simp add: owners_grow_def)
  qed
  have body: "owners_grow (am_uuid am) st (fst (snd (case inbound_session env am request k st conn a b of
         (Inl resp, st, conn) \<Rightarrow> (resp, st, conn)
       | (Inr sid, st, conn) \<Rightarrow>
           (let st = st \<lparr> session_channel_routes := (session_channel_routes st)(sid \<mapsto> k) \<rparr>
            in with_access sid st conn a b (forward_inbound env request r tx sid)))))" for k r tx
  proof (cases "inbound_session env am request k st conn a b")
    case (fields res st' conn')
    with i [of st k conn] have "owners_grow (am_uuid am) st st'" by simp
    with fields w show ?thesis by (cases res) (simp_all add: Let_def)
  qed
  show ?thesis
    using body by (auto simp: handle_channel_inbound_def Let_def split: option.split sum.split)
qed

lemma jobs_owners [simp]:
  "session_owners (snd (handle_create_channel_job am req st conn)) = session_owners st"
  "session_owners (snd (handle_cancel_channel_job jid st conn)) = session_owners st"
  "session_owners (snd (drain_channel_outbox st p c a u m)) = session_owners st"
  "session_owners (snd (handle_get_channel_outbound c a u m st conn)) = session_owners st"
  "session_owners (queue_channel_outbound_transcript am out st) = session_owners st"
  "session_owners (run_channel_job_stop jid st) = session_owners st"
  "session_owners (close_chan ch st) = session_owners st"
  by (auto simp: handle_create_channel_job_def handle_cancel_channel_job_def drain_channel_outbox_def
      handle_get_channel_outbound_def queue_channel_outbound_transcript_def run_channel_job_stop_def
      close_chan_def cancel_task_def Let_def split_def split: option.split sum.split)

lemma probe_owners [simp]:
  "session_owners (snd (handle_priority_probe st conn a b)) = session_owners st"
  "session_owners (snd (handle_get_diagnostics env st)) = session_owners st"
proof -
  have "session_owners st' = session_owners st" if "chan_send c m st = (r, st')" for c m r st' and st :: "'a app_state"
    using chan_send_frame(3) [of c m st] that by simp
  then show "session_owners (snd (handle_priority_probe st conn a b)) = session_owners st"
    by (auto simp: handle_priority_probe_def Let_def split: prod.split send_outcome.split)
  show "session_owners (snd (handle_get_diagnostics env st)) = session_owners st"
    by (auto simp: handle_get_diagnostics_def gw_simps split: sum.split)
qed

lemma session_message_grow:
  assumes "creates_as_asked (ev_runner env)"
  shows "owners_grow (am_uuid am) st (fst (snd (handle_session_message env am msg st conn a b)))"
  by (cases msg) (auto simp: handle_create_session_def create_grow [OF assms] terminate_grow prompt_grow
      handle_session_audio_def handle_session_audio_commit_def handle_session_response_create_def
      handle_session_response_interrupt_def handle_session_tool_call_def gw_simps
      split: option.split sum.split intro!: with_access_grow)

lemma message_grow:
  assumes "creates_as_asked (ev_runner env)" "handle_message env am msg st conn a b = (resp, st', conn')"
  shows "owners_grow (am_uuid am) st st'"
proof -
  have "owners_grow (am_uuid am) st (fst (snd (handle_message env am msg st conn a b)))"
    using session_message_grow [OF assms(1), of am st msg conn a b]
    by (cases msg) (auto simp: authenticated_only_def on_state_def inbound_grow [OF assms(1)] handle_pair_parts(1)
        split_def simp del: handle_session_message.simps)
  with assms(2) show ?thesis by simp
qed

text \<open>A new session is listed nowhere else, so the other connections stay well kept.\<close>

lemma conn_ok_grow:
  assumes "owners_grow u st st'" "u \<notin> set (cn_owned_sessions conn)" "conn_ok st conn"
  shows "conn_ok st' conn"
  using assms by (fastforce simp: conn_ok_def owners_grow_def)

lemma request_grow:
  assumes "creates_as_asked (ev_runner env)"
  shows "owners_grow (am_uuid am) st (snd (route_request env am a b auth query req st))"
proof -
  have r: "owners_grow (am_uuid am) st (snd (answer_or_route env am auth query asked st))" for asked
    using inbound_grow [OF assms, of am st]
    by (auto simp: answer_or_route_def handle_channel_http_route_def split_def Let_def split: sum.split)
  have t: "owners_grow (am_uuid am) st (fst (snd (handle_session_tool_call env sid n v st conn a b)))" for sid n v st conn
    unfolding handle_session_tool_call_def by (rule with_access_grow) (auto simp: gw_simps split: sum.split)
  have s: "owners_grow (am_uuid am) st
    (snd (channel_webhook_supervised_action_handler env am a b auth query payload st))" for payload
  proof (cases "request_principal env auth query st")
    case (Inr q)
    let ?conn = "http_connection (extract_channel_token auth query) q"
    obtain resp st1 conn1 where
      i: "handle_channel_inbound env am (supervised_inbound query payload) st ?conn None None = (resp, st1, conn1)"
      by (metis prod_cases3)
    have g: "owners_grow (am_uuid am) st st1"
      using inbound_grow [OF assms, of am st "supervised_inbound query payload" ?conn None None] i by simp
    have "owners_grow (am_uuid am) st (close_chan x (close_chan y (fst (snd
        (handle_session_tool_call env sid n v (st1 \<lparr> chans := c \<rparr>) conn1 a b)))))" for x y sid n v c
    proof (rule owners_grow_trans [OF g])
      show "owners_grow (am_uuid am) st1 (close_chan x (close_chan y (fst (snd
        (handle_session_tool_call env sid n v (st1 \<lparr> chans := c \<rparr>) conn1 a b)))))"
        using t [of "st1 \<lparr> chans := c \<rparr>" sid n v conn1] by (simp add: owners_grow_def)
    qed
    with Inr i g show ?thesis
      by (cases resp) (simp_all add: channel_webhook_supervised_action_handler_def Let_def split_def)
  qed (simp add: channel_webhook_supervised_action_handler_def)
  show ?thesis
    by (cases req) (auto simp: r s channel_webhook_handler_def Let_def split_def channel_outbound_poll_handler_def
      handle_channel_http_outbound_poll_def drain_channel_outbox_def channel_job_create_handler_def
      handle_channel_http_create_job_def channel_job_cancel_handler_def handle_channel_http_cancel_job_def
      split: sum.split)
qed

subsection \<open>Invariants of the reachable states\<close>

definition world_inv :: "'r world \<Rightarrow> bool" where
  "world_inv w \<longleftrightarrow>
     gw_inv (wo_state w) \<and> (\<forall>i t. wo_conns w i = Some t \<longrightarrow> conn_named (wt_conn t))"

definition world_ok :: "'r world \<Rightarrow> bool" where
  "world_ok w \<longleftrightarrow>
     world_inv w \<and> (\<forall>i t. wo_conns w i = Some t \<longrightarrow> conn_ok (wo_state w) (wt_conn t))"

lemma initial_world_ok [simp]: "world_ok (initial_world pairing r now)"
  by (simp add: world_ok_def world_inv_def initial_world_def)

lemma ws_open_parts:
  assumes "ws_open env s p st = (t, st')"
  shows "only_chans st st'" "conn_named (wt_conn t)" "cn_owned_sessions (wt_conn t) = []"
  using assms
  by (auto simp: ws_open_def only_chans_def conn_named_def new_connection_def Let_def split: if_splits)

lemma forward_only_chans: "forward_to_session sid m st = Some st' \<Longrightarrow> only_chans st st'"
proof -
  assume a: "forward_to_session sid m st = Some st'"
  have "only_chans st (snd (chan_send c m st))" for c
    unfolding chan_send_def only_chans_def
    by (auto split: option.split intro: exI [of _ "chans st"])
  then have "chan_send c m st = (r, st1) \<Longrightarrow> only_chans st st1" for c r st1 by (metis snd_conv)
  with a show ?thesis
    by (auto simp: forward_to_session_def split: option.splits prod.splits send_outcome.splits)
qed

lemma only_chansD:
  assumes "only_chans st st'"
  shows "gw_inv st' = gw_inv st" "session_owners st' = session_owners st" "same_for p st st'"
    "conn_ok st' conn = conn_ok st conn" "conn_lists p st' conn = conn_lists p st conn"
  using assms by (auto simp: only_chans_def conn_ok_def conn_lists_def)

text \<open>A turn of a connection, whichever way it ends.\<close>

lemma turn_keeps:
  assumes asked: "creates_as_asked (ev_runner env)" and fresh: "fresh_id st (am_uuid am)"
    and inv: "gw_inv st" "conn_named (wt_conn t)"
    and t: "ws_turn env from_str am ok frames t st = (r, rest, t', st')"
  shows "gw_inv st'" "conn_named (wt_conn t')" "owners_grow (am_uuid am) st st'"
    "\<not> conn_lists p st (wt_conn t) \<Longrightarrow> cn_principal_id (wt_conn t) \<noteq> Some p \<Longrightarrow>
       same_for p st st' \<and> \<not> conn_lists p st' (wt_conn t')"
    "conn_ok st (wt_conn t) \<Longrightarrow> cn_principal_id (wt_conn t') = cn_principal_id (wt_conn t) \<or>
       cn_owned_sessions (wt_conn t) = [] \<Longrightarrow> conn_ok st' (wt_conn t')"
proof -
  have "gw_inv st' \<and> conn_named (wt_conn t') \<and> owners_grow (am_uuid am) st st' \<and>
    (\<forall>p. \<not> conn_lists p st (wt_conn t) \<longrightarrow> cn_principal_id (wt_conn t) \<noteq> Some p \<longrightarrow>
       same_for p st st' \<and> \<not> conn_lists p st' (wt_conn t')) \<and>
    (conn_ok st (wt_conn t) \<longrightarrow>
      (cn_principal_id (wt_conn t') = cn_principal_id (wt_conn t) \<or> cn_owned_sessions (wt_conn t) = [] \<longrightarrow>
        conn_ok st' (wt_conn t')))"
    using t
  proof (cases rule: ws_turn_cases)
    case quiet
    then show ?thesis using inv only_chansD [OF quiet(1)] by simp
  next
    case (message msg resp)
    note K = handle_message_keeps [OF asked fresh inv message(1)]
    have "conn_ok st' (wt_conn t')" if "conn_ok st (wt_conn t)"
      "cn_principal_id (wt_conn t') = cn_principal_id (wt_conn t) \<or> cn_owned_sessions (wt_conn t) = []"
    proof (cases "login_message msg")
      case True
      then have "session_owners st' = session_owners st" "cn_owned_sessions (wt_conn t') = cn_owned_sessions (wt_conn t)"
        using login_state [OF True message(1)] by auto
      with that show ?thesis by (auto simp: conn_ok_def)
    next
      case False
      then show ?thesis using keeps_conn_ok [OF K(4) inv(1) that(1)] by simp
    qed
    with K message_grow [OF asked message(1)] show ?thesis by blast
  qed
  then show "gw_inv st'" "conn_named (wt_conn t')" "owners_grow (am_uuid am) st st'"
    "\<not> conn_lists p st (wt_conn t) \<Longrightarrow> cn_principal_id (wt_conn t) \<noteq> Some p \<Longrightarrow>
       same_for p st st' \<and> \<not> conn_lists p st' (wt_conn t')"
    "conn_ok st (wt_conn t) \<Longrightarrow> cn_principal_id (wt_conn t') = cn_principal_id (wt_conn t) \<or>
       cn_owned_sessions (wt_conn t) = [] \<Longrightarrow> conn_ok st' (wt_conn t')"
    by blast+
qed

lemma transcript_keeps:
  assumes "forward_transcript am out st = Some st'" "gw_inv st"
  shows "gw_inv st'" "session_owners st' = session_owners st"
    "session_owners st (to_session_id out) \<noteq> Some p \<Longrightarrow> same_for p st st'"
proof -
  obtain st1 where f: "forward_to_session (to_session_id out)
      (TranscriptUpdate (to_session_id out) (to_text out) (to_is_final out)) st = Some st1"
    and st': "st' = queue_channel_outbound_transcript am out st1"
    using assms(1) by (auto simp: forward_transcript_def)
  note C = only_chansD [OF forward_only_chans [OF f]]
  show "gw_inv st'" using assms(2) C(1) by (simp add: st' queue_transcript_inv)
  show "session_owners st' = session_owners st" by (simp add: st' C(2))
  show "session_owners st (to_session_id out) \<noteq> Some p \<Longrightarrow> same_for p st st'"
    using same_for_trans [OF C(3) queue_transcript_same_for [of st1 out p am]] assms(2) C(1,2)
    by (simp add: st')
qed

lemma job_keeps:
  assumes "run_channel_job env am jid st st'" "gw_inv st" "creates_as_asked (ev_runner env)"
    "fresh_id st (am_uuid am)"
  shows "gw_inv st'" "owners_grow (am_uuid am) st st'" "\<exists>q. \<forall>p. p \<noteq> q \<longrightarrow> same_for p st st'"
proof -
  show "gw_inv st'" using run_channel_job_inv [OF assms(1-3)] assms(4) by (simp add: fresh_id_def)
  show "owners_grow (am_uuid am) st st'"
    using assms(1) inbound_grow [OF assms(3), of am st]
    by cases (auto simp: run_channel_job_tick_def split_def)
  show "\<exists>q. \<forall>p. p \<noteq> q \<longrightarrow> same_for p st st'"
    using assms(1)
  proof cases
    case (tick task)
    have "session_owners st (am_uuid am) = None" using assms(4) by (simp add: fresh_id_def)
    from job_tick_ok(2) [OF assms(3) this assms(2)] tick show ?thesis by blast
  next
    case (stop task)
    have "\<forall>p. p \<noteq> jt_owner_principal_id task \<longrightarrow> same_for p st st'"
      unfolding stop(1) using run_channel_job_stop_inv(2) [OF assms(2) stop(2,3)] by simp
    then show ?thesis by blast
  qed
qed

lemma cleanup_same_for:
  assumes "\<not> conn_lists p st (wt_conn t)"
  shows "same_for p st (ws_cleanup t st)"
  using assms by (auto simp: conn_lists_def same_for_def ws_cleanup_def close_chan_def Let_def restrict_map_def)

lemma step_world_inv:
  assumes "gateway_step env from_str w w'" "world_inv w" "creates_as_asked (ev_runner env)"
  shows "world_inv w'"
proof -
  have inv: "gw_inv (wo_state w)" "\<And>i t. wo_conns w i = Some t \<Longrightarrow> conn_named (wt_conn t)"
    using assms(2) by (auto simp: world_inv_def)
  have upd: "world_inv \<lparr> wo_state = st, wo_conns = (wo_conns w)(i := c) \<rparr>"
    if "gw_inv st" "\<And>t. c = Some t \<Longrightarrow> conn_named (wt_conn t)" for st i c
    using that inv(2) by (auto simp: world_inv_def)
  have same: "world_inv (w \<lparr> wo_state := st \<rparr>)" if "gw_inv st" for st
    using that inv(2) by (simp add: world_inv_def)
  show ?thesis
  using assms(1)
proof cases
  case (connect i s p t st)
  note P = ws_open_parts [OF connect(6)]
  have "gw_inv st" using only_chansD(1) [OF P(1)] inv(1) by simp
  then show ?thesis unfolding connect(1) by (rule upd) (use P(2) in simp)
next
  case (turn i t am ok frames r rest t' st)
  have fresh: "fresh_id (wo_state w) (am_uuid am)" using turn(3) by (simp add: unused_def)
  note K = turn_keeps(1,2) [OF assms(3) fresh inv(1) inv(2) [OF turn(2)] turn(4)]
  from K(1) show ?thesis unfolding turn(1) by (rule upd) (use K(2) in simp)
next
  case (leave i t am ok frames rest t' st)
  have fresh: "fresh_id (wo_state w) (am_uuid am)" using leave(3) by (simp add: unused_def)
  have "gw_inv (ws_cleanup t' st)"
    using turn_keeps(1) [OF assms(3) fresh inv(1) inv(2) [OF leave(2)] leave(4)] by simp
  then show ?thesis unfolding leave(1) by (rule upd) simp
next
  case (stick i t am ok frames rest t' st)
  have fresh: "fresh_id (wo_state w) (am_uuid am)" using stick(3) by (simp add: unused_def)
  show ?thesis unfolding stick(1)
    using turn_keeps(1) [OF assms(3) fresh inv(1) inv(2) [OF stick(2)] stick(4)] by (rule upd) simp
next
  case (audio out st)
  have "only_chans (wo_state w) st"
    using audio(2) unfolding forward_audio_def by (rule forward_only_chans)
  then show ?thesis unfolding audio(1) using only_chansD(1) inv(1) by (intro same) blast
next
  case (transcript am out st)
  show ?thesis unfolding transcript(1) using transcript_keeps(1) [OF transcript(2) inv(1)] by (rule same)
next
  case (job am st jid)
  have fresh: "fresh_id (wo_state w) (am_uuid am)" using job(2) by (simp add: unused_def)
  show ?thesis unfolding job(1) using job_keeps(1) [OF job(3) inv(1) assms(3) fresh] by (rule same)
next
  case (request am a b auth query req resp st)
  have "request_ok (request_principal env auth query (wo_state w)) (wo_state w) st"
    using route_request_ok [OF assms(3), of "wo_state w" am auth query a b req] request inv(1)
    by (simp add: unused_def)
  then have "gw_inv st" using inv(1) by (auto simp: request_ok_def split: sum.splits)
  then show ?thesis unfolding request(1) by (rule same)
qed
qed

lemma others_ok:
  assumes "world_ok w" "owners_grow u (wo_state w) st" "unused w u" "wo_conns w j = Some t"
  shows "conn_ok st (wt_conn t)"
  using assms by (intro conn_ok_grow [OF assms(2)]) (auto simp: unused_def world_ok_def)

lemma step_conns_ok:
  assumes "gateway_step env from_str w w'" "world_ok w" "loyal w w'" "creates_as_asked (ev_runner env)"
    and "wo_conns w' j = Some tj"
  shows "conn_ok (wo_state w') (wt_conn tj)"
proof -
  have inv: "gw_inv (wo_state w)" "\<And>i t. wo_conns w i = Some t \<Longrightarrow> conn_named (wt_conn t)"
    "\<And>i t. wo_conns w i = Some t \<Longrightarrow> conn_ok (wo_state w) (wt_conn t)"
    using assms(2) by (auto simp: world_ok_def world_inv_def)
  show ?thesis
    using assms(1)
  proof cases
    case (connect i s p t st)
    note P = ws_open_parts [OF connect(6)]
    have "conn_ok st (wt_conn t)" using P(3) by (simp add: conn_ok_def)
    with connect(1) assms(5) only_chansD(4) [OF P(1)] inv(3) show ?thesis by (auto split: if_splits)
  next
    case (turn i t am ok frames r rest t' st)
    have fresh: "fresh_id (wo_state w) (am_uuid am)" using turn(3) by (simp add: unused_def)
    note K = turn_keeps [OF assms(4) fresh inv(1) inv(2) [OF turn(2)] turn(4)]
    have "wo_conns w' i = Some t'" using turn(1) by simp
    with assms(3) turn(2)
    have "cn_principal_id (wt_conn t') = cn_principal_id (wt_conn t) \<or> cn_owned_sessions (wt_conn t) = []"
      unfolding loyal_def by blast
    with K(5) inv(3) [OF turn(2)] have "conn_ok st (wt_conn t')" by blast
    with turn(1) assms(5) others_ok [OF assms(2) K(3) turn(3)] show ?thesis by (auto split: if_splits)
  next
    case (leave i t am ok frames rest t' st)
    have fresh: "fresh_id (wo_state w) (am_uuid am)" using leave(3) by (simp add: unused_def)
    note K = turn_keeps(3) [OF assms(4) fresh inv(1) inv(2) [OF leave(2)] leave(4)]
    have "wo_conns w j = Some tj" using leave(1) assms(5) by (simp split: if_splits)
    from others_ok [OF assms(2) K leave(3) this] show ?thesis
      using leave(1) conn_ok_owners [of "ws_cleanup t' st" st "wt_conn tj"] by simp
  next
    case (stick i t am ok frames rest t' st)
    have fresh: "fresh_id (wo_state w) (am_uuid am)" using stick(3) by (simp add: unused_def)
    note K = turn_keeps(3) [OF assms(4) fresh inv(1) inv(2) [OF stick(2)] stick(4)]
    have "wo_conns w j = Some tj" using stick(1) assms(5) by (simp split: if_splits)
    from others_ok [OF assms(2) K stick(3) this] show ?thesis using stick(1) by simp
  next
    case (audio out st)
    have "only_chans (wo_state w) st"
      using audio(2) unfolding forward_audio_def by (rule forward_only_chans)
    from only_chansD(4) [OF this] inv(3) [of j tj] audio(1) assms(5) show ?thesis by simp
  next
    case (transcript am out st)
    from conn_ok_owners [OF transcript_keeps(2) [OF transcript(2) inv(1)]] inv(3) [of j tj]
      transcript(1) assms(5)
    show ?thesis by simp
  next
    case (job am st jid)
    have fresh: "fresh_id (wo_state w) (am_uuid am)" using job(2) by (simp add: unused_def)
    from others_ok [OF assms(2) job_keeps(2) [OF job(3) inv(1) assms(4) fresh] job(2), of j tj] job(1) assms(5)
    show ?thesis by simp
  next
    case (request am a b auth query req resp st)
    have "owners_grow (am_uuid am) (wo_state w) st"
      using request_grow [OF assms(4), of am "wo_state w" a b auth query req] request(5) by simp
    from others_ok [OF assms(2) this request(2), of j tj] request(1) assms(5) show ?thesis by simp
  qed
qed

lemma step_world_ok:
  assumes "gateway_step env from_str w w'" "world_ok w" "loyal w w'" "creates_as_asked (ev_runner env)"
  shows "world_ok w'"
  using step_conns_ok [OF assms] step_world_inv [OF assms(1) _ assms(4)] assms(2)
  by (simp add: world_ok_def)

lemma loyally_reachable_ok:
  assumes "loyally_reachable env from_str w0 w" "world_ok w0" "creates_as_asked (ev_runner env)"
  shows "world_ok w"
  using assms by (induction rule: loyally_reachable.induct) (auto intro: step_world_ok)

lemma reachable_world_inv:
  assumes "reachable env from_str (initial_world pairing r now) w" "creates_as_asked (ev_runner env)"
  shows "world_inv w"
  using assms(1)
proof induction
  case start
  show ?case using initial_world_ok [of pairing r now] by (simp only: world_ok_def)
next
  case (step w w')
  then show ?case using step_world_inv assms(2) by blast
qed

lemma loyally_reachable_reachable:
  "loyally_reachable env from_str w0 w \<Longrightarrow> reachable env from_str w0 w"
  by (induction rule: loyally_reachable.induct) (auto intro: reachable.intros)

lemma at_most_one:
  assumes "\<And>p. x \<noteq> Some p \<Longrightarrow> P p"
  obtains q :: string where "\<forall>p. p \<noteq> q \<longrightarrow> P p"
proof (cases x)
  case None
  with assms show thesis by (intro that) simp
next
  case (Some q)
  with assms show thesis by (intro that [of q]) simp
qed

text \<open>
  Whom a step acts for: one principal q, and whoever owns a session that the connection lists which
  takes the step.
\<close>

lemma step_acts_for:
  assumes "gateway_step env from_str w w'" "world_inv w" "creates_as_asked (ev_runner env)"
  obtains (conn) i t where "wo_conns w i = Some t"
      "\<And>p. cn_principal_id (wt_conn t) \<noteq> Some p \<Longrightarrow> \<not> conn_lists p (wo_state w) (wt_conn t) \<Longrightarrow>
         same_for p (wo_state w) (wo_state w')"
  | (one) q where "\<forall>p. p \<noteq> q \<longrightarrow> same_for p (wo_state w) (wo_state w')"
proof -
  have inv: "gw_inv (wo_state w)" "\<And>i t. wo_conns w i = Some t \<Longrightarrow> conn_named (wt_conn t)"
    using assms(2) by (auto simp: world_inv_def)
  show thesis
    using assms(1)
  proof cases
    case (connect i s p t st)
    with only_chansD(3) [OF ws_open_parts(1) [OF connect(6)]] show thesis by (auto intro: one)
  next
    case (turn i t am ok frames r rest t' st)
    have fresh: "fresh_id (wo_state w) (am_uuid am)" using turn(3) by (simp add: unused_def)
    show thesis
      using turn_keeps(4) [OF assms(3) fresh inv(1) inv(2) [OF turn(2)] turn(4)] turn(1)
      by (intro conn [OF turn(2)]) simp
  next
    case (stick i t am ok frames rest t' st)
    have fresh: "fresh_id (wo_state w) (am_uuid am)" using stick(3) by (simp add: unused_def)
    show thesis
      using turn_keeps(4) [OF assms(3) fresh inv(1) inv(2) [OF stick(2)] stick(4)] stick(1)
      by (intro conn [OF stick(2)]) simp
  next
    case (leave i t am ok frames rest t' st)
    have fresh: "fresh_id (wo_state w) (am_uuid am)" using leave(3) by (simp add: unused_def)
    note K = turn_keeps(4) [OF assms(3) fresh inv(1) inv(2) [OF leave(2)] leave(4)]
    show thesis
      using K cleanup_same_for [of _ st t'] same_for_trans leave(1)
      by (intro conn [OF leave(2)]) (simp, blast)
  next
    case (audio out st)
    have "only_chans (wo_state w) st"
      using audio(2) unfolding forward_audio_def by (rule forward_only_chans)
    from only_chansD(3) [OF this] audio(1) show thesis by (auto intro: one)
  next
    case (transcript am out st)
    with transcript_keeps(3) [OF transcript(2) inv(1)]
    have "session_owners (wo_state w) (to_session_id out) \<noteq> Some p \<Longrightarrow> same_for p (wo_state w) (wo_state w')" for p
      by simp
    then show thesis using one by (rule at_most_one [where P = "\<lambda>p. same_for p (wo_state w) (wo_state w')"])
  next
    case (job am st jid)
    with job_keeps(3) [OF job(3) inv(1) assms(3)]
    have "\<exists>q. \<forall>p. p \<noteq> q \<longrightarrow> same_for p (wo_state w) (wo_state w')" by (simp add: unused_def)
    then show thesis using one by (rule exE)
  next
    case (request am a b auth query req resp st)
    have "request_ok (request_principal env auth query (wo_state w)) (wo_state w) st"
      using route_request_ok [OF assms(3), of "wo_state w" am auth query a b req] request inv(1)
      by (simp add: unused_def)
    with request inv(1) have "\<exists>q. \<forall>p. p \<noteq> q \<longrightarrow> same_for p (wo_state w) (wo_state w')"
      by (auto simp: request_ok_def split: sum.splits)
    then show thesis using one by (rule exE)
  qed
qed

subsection \<open>Properties\<close>



subsection \<open>Examples\<close>

text \<open>The first step of a gateway: somebody connects.\<close>

definition sample_world :: "string list world" where
  "sample_world = initial_world idle_guard [] 0"

definition sample_connected :: "string list world" where
  "sample_connected = \<lparr> wo_state = snd (ws_open idle_env 0 1 (wo_state sample_world)),
     wo_conns = [0 \<mapsto> fst (ws_open idle_env 0 1 (wo_state sample_world))] \<rparr>"

lemma sample_connects: "gateway_step idle_env sample_from_str sample_world sample_connected"
  using connect [of sample_world 0 0 1 idle_env "fst (ws_open idle_env 0 1 (wo_state sample_world))"
      "snd (ws_open idle_env 0 1 (wo_state sample_world))" sample_from_str]
  by (simp add: sample_world_def sample_connected_def initial_world_def initial_state_def)



end
