(* ===== verification/Security.thy ===== *)
theory Security
  imports Prelude
begin

section \<open>Rate limits, shell injection and roles\<close>

text \<open>
  \<open>liveclaw-app/src/security.rs\<close> and the callback of \<open>liveclaw-app/src/agent.rs\<close> that uses it.
  The rate limiter is modelled twice: as a function that runs a check to its end, and as a step
  relation in which the atomic instructions of several threads interleave, since a denied check
  raises the shared 32-bit counter and lowers it again.
\<close>

subsection \<open>Shell injection patterns\<close>

definition SHELL_PATTERNS :: "string list" where
  "SHELL_PATTERNS = ['';'', ''`'', ''$('', ''|'', ''&&'', ''||'', ''>'', ''<'', [CHR 10]]"

definition contains_shell_injection :: "string \<Rightarrow> bool" where
  "contains_shell_injection input = list_ex (\<lambda>pattern. str_contains input pattern) SHELL_PATTERNS"

subsection \<open>The rate limiter\<close>

record rate_limiter =
  rl_limit :: "32 word"
  rl_counts :: "string \<rightharpoonup> 32 word"

definition rate_limiter_new :: "32 word \<Rightarrow> rate_limiter" where
  "rate_limiter_new limit = \<lparr> rl_limit = limit, rl_counts = Map.empty \<rparr>"

text \<open>
  A check that no other thread interferes with. The second look-up under the write lock finds what
  the first one found.
\<close>

definition check_and_increment :: "rate_limiter \<Rightarrow> string \<Rightarrow> bool \<times> rate_limiter" where
  "check_and_increment rl sid =
     (case rl_counts rl sid of
        Some current \<Rightarrow>
          (let added = current + 1
           in if rl_limit rl \<le> current
              then (False, rl \<lparr> rl_counts := (rl_counts rl)(sid \<mapsto> added - 1) \<rparr>)
              else (True, rl \<lparr> rl_counts := (rl_counts rl)(sid \<mapsto> added) \<rparr>))
      | None \<Rightarrow> (True, rl \<lparr> rl_counts := (rl_counts rl)(sid \<mapsto> 1) \<rparr>))"

definition rate_limiter_reset :: "rate_limiter \<Rightarrow> string \<Rightarrow> rate_limiter" where
  "rate_limiter_reset rl sid =
     (case rl_counts rl sid of
        Some _ \<Rightarrow> rl \<lparr> rl_counts := (rl_counts rl)(sid \<mapsto> 0) \<rparr>
      | None \<Rightarrow> rl)"

subsection \<open>The limiter under interleaving\<close>

text \<open>
  Threads are counted, not named: for each session how many stand between the lock phases
  (\<open>missed\<close>: the read-locked look-up found nothing) and how many are past an addition that went over
  the limit and still have to undo it (\<open>over\<close>: they hold the read lock). \<open>allowed\<close> counts the checks
  that were let through. A thread with the write lock excludes all that hold the read lock, so its
  branch is one step, and so is a reset, which stores under the read lock.
\<close>

record limiter_state =
  ls_limiter :: rate_limiter
  ls_missed :: "string \<Rightarrow> nat"
  ls_over :: "string \<Rightarrow> nat"
  ls_allowed :: "string \<Rightarrow> nat"

inductive limiter_step :: "limiter_state \<Rightarrow> limiter_state \<Rightarrow> bool" where
  read_hit:
    "rl_counts (ls_limiter s) sid = Some c \<Longrightarrow> c < rl_limit (ls_limiter s) \<Longrightarrow>
     limiter_step s (s \<lparr> ls_limiter := (ls_limiter s)
         \<lparr> rl_counts := (rl_counts (ls_limiter s))(sid \<mapsto> c + 1) \<rparr>,
       ls_allowed := (ls_allowed s)(sid := ls_allowed s sid + 1) \<rparr>)"
| read_over:
    "rl_counts (ls_limiter s) sid = Some c \<Longrightarrow> rl_limit (ls_limiter s) \<le> c \<Longrightarrow>
     limiter_step s (s \<lparr> ls_limiter := (ls_limiter s)
         \<lparr> rl_counts := (rl_counts (ls_limiter s))(sid \<mapsto> c + 1) \<rparr>,
       ls_over := (ls_over s)(sid := ls_over s sid + 1) \<rparr>)"
| undo:
    "0 < ls_over s sid \<Longrightarrow> rl_counts (ls_limiter s) sid = Some c \<Longrightarrow>
     limiter_step s (s \<lparr> ls_limiter := (ls_limiter s)
         \<lparr> rl_counts := (rl_counts (ls_limiter s))(sid \<mapsto> c - 1) \<rparr>,
       ls_over := (ls_over s)(sid := ls_over s sid - 1) \<rparr>)"
| read_miss:
    "rl_counts (ls_limiter s) sid = None \<Longrightarrow>
     limiter_step s (s \<lparr> ls_missed := (ls_missed s)(sid := ls_missed s sid + 1) \<rparr>)"
| write_locked:
    "0 < ls_missed s sid \<Longrightarrow> ls_over s = (\<lambda>_. 0) \<Longrightarrow>
     check_and_increment (ls_limiter s) sid = (ok, rl') \<Longrightarrow>
     limiter_step s (s \<lparr> ls_limiter := rl',
       ls_missed := (ls_missed s)(sid := ls_missed s sid - 1),
       ls_allowed := (if ok then (ls_allowed s)(sid := ls_allowed s sid + 1) else ls_allowed s) \<rparr>)"

text \<open>The same steps together with resets.\<close>

inductive limiter_step_reset :: "limiter_state \<Rightarrow> limiter_state \<Rightarrow> bool" where
  check: "limiter_step s s' \<Longrightarrow> limiter_step_reset s s'"
| reset: "limiter_step_reset s (s \<lparr> ls_limiter := rate_limiter_reset (ls_limiter s) sid \<rparr>)"

definition limiter_start :: "32 word \<Rightarrow> limiter_state" where
  "limiter_start limit = \<lparr> ls_limiter = rate_limiter_new limit, ls_missed = (\<lambda>_. 0),
     ls_over = (\<lambda>_. 0), ls_allowed = (\<lambda>_. 0) \<rparr>"

inductive limiter_reachable :: "nat \<Rightarrow> 32 word \<Rightarrow> limiter_state \<Rightarrow> bool" for n limit where
  start: "limiter_reachable n limit (limiter_start limit)"
| step: "limiter_reachable n limit s \<Longrightarrow> limiter_step s s' \<Longrightarrow> (\<forall>sid. ls_over s' sid \<le> n) \<Longrightarrow>
    limiter_reachable n limit s'"

inductive_cases limiter_stepE: "limiter_step s s'"

subsection \<open>Roles\<close>

datatype permission = PermTool string | PermAllTools

record role_def =
  ro_name :: string
  ro_permissions :: "permission list"

text \<open>The three roles that \<open>build_access_control\<close> hands to the access control library.\<close>

definition access_roles :: "string list \<Rightarrow> role_def list" where
  "access_roles tool_allowlist =
     [\<lparr> ro_name = ''readonly'', ro_permissions = [] \<rparr>,
      \<lparr> ro_name = ''supervised'', ro_permissions = map PermTool tool_allowlist \<rparr>,
      \<lparr> ro_name = ''full'', ro_permissions = [PermAllTools] \<rparr>]"

subsection \<open>The check before a tool runs\<close>

text \<open>
  The callback is given the session and the texts of the parts of the user's content, in order.
\<close>

definition before_tool_callback ::
  "rate_limiter \<Rightarrow> string \<Rightarrow> string list \<Rightarrow> unit result \<times> rate_limiter" where
  "before_tool_callback rl session_id texts =
     (case check_and_increment rl session_id of
        (False, rl) \<Rightarrow> (Inl (''Rate limit exceeded for session '' @ session_id), rl)
      | (True, rl) \<Rightarrow>
          if list_ex contains_shell_injection texts
          then (Inl ''Shell injection detected in tool arguments'', rl)
          else (Inr (), rl))"

subsection \<open>Shell injection: which texts are caught\<close>

lemma starts_with_single: "starts_with s [c] \<longleftrightarrow> s \<noteq> [] \<and> hd s = c"
  by (cases s) (auto simp: starts_with_def)

lemma str_contains_single [simp]: "str_contains s [c] \<longleftrightarrow> c \<in> set s"
  by (induction s) (auto simp: starts_with_single)

lemma str_contains_infix: "str_contains s p \<longleftrightarrow> (\<exists>a b. s = a @ p @ b)"
proof (induction s)
  case (Cons c s)
  have "starts_with (c # s) p \<longleftrightarrow> (\<exists>b. c # s = p @ b)"
    by (metis append_eq_conv_conj append_take_drop_id starts_with_def)
  moreover have "(\<exists>a b. c # s = a @ p @ b) \<longleftrightarrow> (\<exists>b. c # s = p @ b) \<or> (\<exists>a b. s = a @ p @ b)"
    by (metis append_Cons append_Nil list.exhaust list.inject)
  ultimately show ?case using Cons.IH by simp
qed auto

subsection \<open>The limiter without interference\<close>

lemma rl_limit_check [simp]: "rl_limit (snd (check_and_increment rl sid)) = rl_limit rl"
  by (auto simp: check_and_increment_def Let_def split: option.split)

lemma check_other_session:
  "sid \<noteq> sid' \<Longrightarrow> rl_counts (snd (check_and_increment rl sid)) sid' = rl_counts rl sid'"
  by (auto simp: check_and_increment_def Let_def split: option.split)

text \<open>How many calls of a session have been counted so far.\<close>

definition used :: "rate_limiter \<Rightarrow> string \<Rightarrow> nat" where
  "used rl sid = (case rl_counts rl sid of None \<Rightarrow> 0 | Some c \<Rightarrow> unat c)"

definition limiter_ok :: "rate_limiter \<Rightarrow> bool" where
  "limiter_ok rl \<longleftrightarrow> 0 < rl_limit rl \<and> (\<forall>sid. used rl sid \<le> unat (rl_limit rl))"

lemma used_other [simp]:
  "sid \<noteq> sid' \<Longrightarrow> used (snd (check_and_increment rl sid)) sid' = used rl sid'"
  by (simp add: used_def check_other_session)

lemma check_used:
  assumes "limiter_ok rl"
  shows "fst (check_and_increment rl sid) \<longleftrightarrow> used rl sid < unat (rl_limit rl)"
    and "used (snd (check_and_increment rl sid)) sid =
      (if used rl sid < unat (rl_limit rl) then used rl sid + 1 else used rl sid)"
  using assms
  by (auto simp: check_and_increment_def used_def limiter_ok_def Let_def unat_Suc_below
      word_less_nat_alt word_le_nat_alt split: option.splits)

lemma limiter_ok_check:
  assumes "limiter_ok rl" shows "limiter_ok (snd (check_and_increment rl sid))"
proof -
  have "used (snd (check_and_increment rl sid)) s \<le> unat (rl_limit rl)" for s
    using assms check_used(2) [OF assms, of sid] used_other [of sid s rl]
    by (cases "sid = s") (auto simp: limiter_ok_def)
  then show ?thesis using assms by (simp add: limiter_ok_def)
qed

lemma limiter_ok_new: "0 < limit \<Longrightarrow> limiter_ok (rate_limiter_new limit)"
  by (simp add: limiter_ok_def rate_limiter_new_def used_def)

text \<open>A sequence of checks, each of its own session.\<close>

fun run_checks :: "rate_limiter \<Rightarrow> string list \<Rightarrow> bool list \<times> rate_limiter" where
  "run_checks rl [] = ([], rl)"
| "run_checks rl (sid # sids) =
     (let (ok, rl) = check_and_increment rl sid; (oks, rl) = run_checks rl sids in (ok # oks, rl))"

lemma run_checks_Cons [simp]:
  "fst (run_checks rl (sid # sids)) =
     fst (check_and_increment rl sid) # fst (run_checks (snd (check_and_increment rl sid)) sids)"
  "snd (run_checks rl (sid # sids)) = snd (run_checks (snd (check_and_increment rl sid)) sids)"
  by (simp_all add: Let_def split_def)

lemmas [simp del] = run_checks.simps(2)

text \<open>The answers that concern one session.\<close>

definition answers :: "string \<Rightarrow> string list \<Rightarrow> bool list \<Rightarrow> bool list" where
  "answers sid sids oks = map snd (filter (\<lambda>(s, _). s = sid) (zip sids oks))"

lemma run_checks_answers:
  assumes "limiter_ok rl"
  shows "answers sid sids (fst (run_checks rl sids)) =
    map (\<lambda>i. used rl sid + i < unat (rl_limit rl)) [0 ..< count_list sids sid]"
  using assms
proof (induction sids arbitrary: rl)
  case (Cons s sids)
  let ?rl = "snd (check_and_increment rl s)"
  note IH = Cons.IH [OF limiter_ok_check [OF Cons.prems], of s]
  show ?case
  proof (cases "s = sid")
    case True
    have "answers sid (s # sids) (fst (run_checks rl (s # sids))) =
        fst (check_and_increment rl sid) # answers sid sids (fst (run_checks ?rl sids))"
      by (simp add: answers_def True)
    also have "\<dots> = map (\<lambda>i. used rl sid + i < unat (rl_limit rl)) (0 # map Suc [0 ..< count_list sids sid])"
      using IH check_used [OF Cons.prems, of sid] by (simp add: True)
    finally show ?thesis by (simp add: True upt_conv_Cons map_Suc_upt del: upt_Suc)
  next
    case False
    with IH show ?thesis by (simp add: answers_def)
  qed
qed (simp add: answers_def)

subsection \<open>The limiter under interleaving\<close>

text \<open>
  Without resets the counter of a session is the number of checks let through plus the number of
  threads that have yet to undo their addition, and such a thread exists only when the limit is used up.
\<close>

definition counter_inv :: "32 word \<Rightarrow> limiter_state \<Rightarrow> bool" where
  "counter_inv limit s \<longleftrightarrow> rl_limit (ls_limiter s) = limit \<and>
     (\<forall>sid. used (ls_limiter s) sid = ls_allowed s sid + ls_over s sid \<and>
        ls_allowed s sid \<le> unat limit \<and> (0 < ls_over s sid \<longrightarrow> ls_allowed s sid = unat limit))"

lemma used_update [simp]:
  "used (rl \<lparr> rl_counts := (rl_counts rl)(sid \<mapsto> c) \<rparr>) sid' = (if sid' = sid then unat c else used rl sid')"
  by (simp add: used_def)

lemma counter_inv_ok: "counter_inv limit s \<Longrightarrow> 0 < limit \<Longrightarrow> ls_over s = (\<lambda>_. 0) \<Longrightarrow> limiter_ok (ls_limiter s)"
  by (simp add: counter_inv_def limiter_ok_def)

lemma counter_inv_step:
  assumes "limiter_step s s'" "counter_inv limit s" "0 < limit"
    and "\<forall>sid. ls_over s' sid \<le> n" "unat limit + n < 2 ^ 32"
  shows "counter_inv limit s'"
  using assms(1)
proof cases
  case (read_hit sid c)
  then show ?thesis using assms(2)
    by (auto simp: counter_inv_def used_def unat_Suc_below word_less_nat_alt dest: spec [of _ sid])
next
  case (read_over sid c)
  have inv: "unat c = ls_allowed s sid + ls_over s sid" "ls_allowed s sid \<le> unat limit"
    "0 < ls_over s sid \<longrightarrow> ls_allowed s sid = unat limit" "unat limit \<le> unat c"
    using assms(2) read_over(2,3)
    by (auto simp: counter_inv_def used_def word_le_nat_alt dest!: spec [of _ sid])
  moreover have "ls_over s sid + 1 \<le> n" using assms(4) read_over(1) by (auto dest: spec [of _ sid])
  ultimately have "ls_allowed s sid = unat limit" "unat (c + 1) = unat c + 1"
    using assms(5) by (auto simp: unat_word_ariths(1))
  with inv show ?thesis using assms(2) read_over(1) by (auto simp: counter_inv_def)
next
  case (undo sid c)
  have inv: "unat c = ls_allowed s sid + ls_over s sid"
    using assms(2) undo(3) by (auto simp: counter_inv_def used_def dest!: spec [of _ sid])
  then have "unat (c - 1) = unat c - 1" using undo(2) by (intro unat_pred) simp
  with inv show ?thesis using assms(2) undo(1,2) by (auto simp: counter_inv_def)
next
  case (read_miss sid)
  then show ?thesis using assms(2) by (simp add: counter_inv_def)
next
  case (write_locked sid ok rl')
  have ok: "limiter_ok (ls_limiter s)" using assms(2,3) write_locked(3) by (rule counter_inv_ok)
  have lim: "rl_limit (ls_limiter s) = limit" using assms(2) by (simp add: counter_inv_def)
  have rl': "ok = fst (check_and_increment (ls_limiter s) sid)" "rl' = snd (check_and_increment (ls_limiter s) sid)"
    using write_locked(4) by simp_all
  have "used rl' t = (if ok \<and> t = sid then used (ls_limiter s) t + 1 else used (ls_limiter s) t)" for t
    using check_used [OF ok, of sid] used_other [of sid t] by (cases "t = sid") (auto simp: rl')
  moreover have "ok \<longrightarrow> used (ls_limiter s) sid < unat limit"
    using check_used(1) [OF ok, of sid] by (simp add: rl' lim)
  ultimately show ?thesis using assms(2) write_locked(1,3) rl'(2) lim
    by (auto simp: counter_inv_def)
qed

lemma reachable_counter_inv:
  assumes "limiter_reachable n limit s" "0 < limit" "unat limit + n < 2 ^ 32"
  shows "counter_inv limit s"
  using assms(1)
proof induction
  case start
  show ?case by (simp add: counter_inv_def limiter_start_def rate_limiter_new_def used_def)
next
  case (step s s')
  from counter_inv_step [OF step.hyps(2) step.IH assms(2) step.hyps(3) assms(3)] show ?case .
qed

subsection \<open>Properties\<close>

text \<open>the rate limit. On a limiter that was used with any number of sessions, of n further checks
  of a session exactly the first ones are allowed, as many as the limit has left, whatever checks of
  other sessions come between them.\<close>

theorem rate_limit_exact:
  assumes "0 < limit"
    and "rl = snd (run_checks (rate_limiter_new limit) earlier)"
  shows "answers sid sids (fst (run_checks rl sids)) =
    map (\<lambda>i. used rl sid + i < unat limit) [0 ..< count_list sids sid] \<and>
    used rl sid = min (unat limit) (count_list earlier sid)"
proof -
  have ok: "limiter_ok (snd (run_checks rl0 cs)) \<and> rl_limit (snd (run_checks rl0 cs)) = rl_limit rl0 \<and>
      used (snd (run_checks rl0 cs)) sid = min (unat (rl_limit rl0)) (used rl0 sid + count_list cs sid)"
    if "limiter_ok rl0" for rl0 cs
    using that
  proof (induction cs arbitrary: rl0)
    case (Cons c cs)
    show ?case
      using Cons.IH [OF limiter_ok_check [OF Cons.prems], of c] check_used(2) [OF Cons.prems, of c]
        used_other [of c sid rl0] by (cases "c = sid") auto
  qed (auto simp: limiter_ok_def)
  from ok [OF limiter_ok_new [OF assms(1)], of earlier] run_checks_answers [of rl sid sids]
  show ?thesis by (simp add: assms(2) rate_limiter_new_def used_def)
qed


text \<open>a reset can lock a session out. When the limit is used up, a check that is turned away while
  another thread resets the session lowers the counter below zero: it wraps to the largest 32-bit
  number, and every later check of the session is turned away.\<close>

theorem reset_race_locks_out:
  assumes "rl_counts (ls_limiter s) sid = Some (rl_limit (ls_limiter s))"
  shows "\<exists>s'. limiter_step_reset\<^sup>*\<^sup>* s s' \<and> ls_over s' = ls_over s \<and>
    fst (run_checks (ls_limiter s') (replicate k sid)) = replicate k False"
proof -
  let ?rl = "ls_limiter s"
  let ?s1 = "s \<lparr> ls_limiter := ?rl \<lparr> rl_counts := (rl_counts ?rl)(sid \<mapsto> rl_limit ?rl + 1) \<rparr>,
       ls_over := (ls_over s)(sid := ls_over s sid + 1) \<rparr>"
  let ?s2 = "?s1 \<lparr> ls_limiter := rate_limiter_reset (ls_limiter ?s1) sid \<rparr>"
  let ?s3 = "?s2 \<lparr> ls_limiter := (ls_limiter ?s2) \<lparr> rl_counts := (rl_counts (ls_limiter ?s2))(sid \<mapsto> 0 - 1) \<rparr>,
       ls_over := (ls_over ?s2)(sid := ls_over ?s2 sid - 1) \<rparr>"
  have "limiter_step_reset s ?s1" using assms by (intro check read_over) simp_all
  moreover have "limiter_step_reset ?s1 ?s2" by (rule reset)
  moreover have "limiter_step_reset ?s2 ?s3"
    by (intro check undo) (simp_all add: rate_limiter_reset_def)
  ultimately have "limiter_step_reset\<^sup>*\<^sup>* s ?s3"
    by (meson converse_rtranclp_into_rtranclp rtranclp.rtrancl_refl)
  moreover have "ls_over ?s3 = ls_over s" by (simp add: fun_upd_idem)
  moreover have stuck: "fst (run_checks rl (replicate k sid)) = replicate k False"
    if "rl_counts rl sid = Some (0 - 1)" for rl
  proof -
    have "check_and_increment rl sid = (False, rl)"
      using that by (simp add: check_and_increment_def fun_upd_idem)
    then show ?thesis by (induction k) simp_all
  qed
  have "rl_counts (ls_limiter ?s3) sid = Some (0 - 1)" by simp
  note stuck [OF this]
  ultimately show ?thesis by blast
qed

text \<open>shell injection is caught. A tool call that passes the check has no user text with a
  semicolon, a back quote, a pipe, a redirection, a line feed, \<open>$(\<close> or \<open>&&\<close> in it, and a text without any
  of these is never what refuses it.\<close>

theorem tool_check_exact:
  "before_tool_callback rl sid texts =
     (if \<not> fst (check_and_increment rl sid)
      then (Inl (''Rate limit exceeded for session '' @ sid), snd (check_and_increment rl sid))
      else if \<exists>t \<in> set texts. (set t \<inter> set '';`|><'' \<noteq> {} \<or> CHR 10 \<in> set t \<or>
          (\<exists>a b. t = a @ ''$('' @ b \<or> t = a @ ''&&'' @ b))
      then (Inl ''Shell injection detected in tool arguments'', snd (check_and_increment rl sid))
      else (Inr (), snd (check_and_increment rl sid)))"
proof -
  have "contains_shell_injection t \<longleftrightarrow> set t \<inter> set '';`|><'' \<noteq> {} \<or> CHR 10 \<in> set t \<or>
      (\<exists>a b. t = a @ ''$('' @ b \<or> t = a @ ''&&'' @ b)" for t
  proof -
    have "str_contains t ''||'' \<Longrightarrow> CHR ''|'' \<in> set t" by (auto simp: str_contains_infix)
    then show ?thesis
      by (auto simp: contains_shell_injection_def SHELL_PATTERNS_def str_contains_infix [of t "[_, _]"])
  qed
  then show ?thesis by (simp add: before_tool_callback_def split_def list_ex_iff split: bool.split)
qed

subsection \<open>Examples\<close>

theorem rate_limit_exact_witness:
  "answers ''a'' [''a'', ''b'', ''a'', ''a''] (fst (run_checks (rate_limiter_new 2) [''a'', ''b'', ''a'', ''a'']))
     = [True, True, False]"
proof -
  have "rate_limiter_new 2 = snd (run_checks (rate_limiter_new 2) [])" by simp
  from rate_limit_exact [OF _ this, of "''a''" "[''a'', ''b'', ''a'', ''a'']"]
  show ?thesis by (simp add: upt_rec)
qed

lemma one_check_reachable:
  "limiter_reachable 1 1 (limiter_start 1 \<lparr> ls_missed := (\<lambda>_. 0)(''a'' := 1) \<rparr>)"
proof -
  have "limiter_step (limiter_start 1) (limiter_start 1 \<lparr> ls_missed := (ls_missed (limiter_start 1))(''a'' :=
      ls_missed (limiter_start 1) ''a'' + 1) \<rparr>)"
    by (rule read_miss) (simp add: limiter_start_def rate_limiter_new_def)
  from limiter_reachable.step [OF limiter_reachable.start this] show ?thesis
    by (simp add: limiter_start_def)
qed


theorem reset_race_locks_out_witness:
  "let s = \<lparr> ls_limiter = \<lparr> rl_limit = 3, rl_counts = [''a'' \<mapsto> 3] \<rparr>, ls_missed = (\<lambda>_. 0), ls_over = (\<lambda>_. 0),
       ls_allowed = (\<lambda>_. 3) \<rparr>
   in \<exists>s'. limiter_step_reset\<^sup>*\<^sup>* s s' \<and> ls_over s' = ls_over s \<and>
        fst (run_checks (ls_limiter s') (replicate 2 ''a'')) = replicate 2 False"
  unfolding Let_def by (rule reset_race_locks_out) simp

theorem tool_check_exact_witness:
  "fst (before_tool_callback (rate_limiter_new 2) ''s'' [''ls; rm'']) = Inl ''Shell injection detected in tool arguments''"
  using tool_check_exact [of "rate_limiter_new 2" "''s''" "[''ls; rm'']"]
  by (simp add: check_and_increment_def rate_limiter_new_def)

end
