(* ===== verification/Resilience.thy ===== *)
theory Resilience
  imports Prelude
begin

unbundle bit_operations_syntax

section \<open>Reconnecting a lost session\<close>

text \<open>
  \<open>ReconnectPolicy\<close>, \<open>reconnect_with_backoff\<close> and \<open>spawn_runtime_loop\<close> of
  \<open>liveclaw-app/src/main.rs\<close>, and \<open>ResilienceConfig\<close> of \<open>liveclaw-app/src/config.rs\<close>.
  A duration that was made from milliseconds is its number of milliseconds, a 64-bit word. The
  session's runtime and the shutdown flag are parameters: what connecting and running give, and what
  the flag is when it is read for the k-th time. Sleeping is recorded. The loop of the session's task
  may run forever, so it is a partial function.
\<close>

record resilience_config =
  rc_enable_reconnect :: bool
  rc_max_reconnect_attempts :: "32 word"
  rc_initial_backoff_ms :: "64 word"
  rc_max_backoff_ms :: "64 word"

text \<open>The values of fields that a file does not give.\<close>

definition default_true :: bool where
  [simp]: "default_true = True"

definition default_reconnect_max_attempts :: "32 word" where
  [simp]: "default_reconnect_max_attempts = 5"

definition default_reconnect_initial_backoff_ms :: "64 word" where
  [simp]: "default_reconnect_initial_backoff_ms = 250"

definition default_reconnect_max_backoff_ms :: "64 word" where
  [simp]: "default_reconnect_max_backoff_ms = 4000"

definition resilience_default :: resilience_config where
  "resilience_default = \<lparr> rc_enable_reconnect = default_true, rc_max_reconnect_attempts = default_reconnect_max_attempts,
     rc_initial_backoff_ms = default_reconnect_initial_backoff_ms, rc_max_backoff_ms = default_reconnect_max_backoff_ms \<rparr>"

record reconnect_policy =
  rp_enable_reconnect :: bool
  rp_max_attempts :: "32 word"
  rp_initial_backoff :: "64 word"
  rp_max_backoff :: "64 word"

definition reconnect_policy_from :: "resilience_config \<Rightarrow> reconnect_policy" where
  "reconnect_policy_from c =
     (let initial_backoff_ms = max (rc_initial_backoff_ms c) 1;
          max_backoff_ms = max (rc_max_backoff_ms c) initial_backoff_ms
      in \<lparr> rp_enable_reconnect = rc_enable_reconnect c, rp_max_attempts = rc_max_reconnect_attempts c,
           rp_initial_backoff = initial_backoff_ms, rp_max_backoff = max_backoff_ms \<rparr>)"

definition saturating_mul :: "'a::len word \<Rightarrow> 'a word \<Rightarrow> 'a word" where
  "saturating_mul a b = (if unat a * unat b < 2 ^ LENGTH('a) then a * b else - 1)"

definition saturating_sub :: "'a::len word \<Rightarrow> 'a word \<Rightarrow> 'a word" where
  "saturating_sub a b = (if b \<le> a then a - b else 0)"

definition backoff_for_attempt :: "reconnect_policy \<Rightarrow> 32 word \<Rightarrow> 64 word" where
  "backoff_for_attempt p attempt =
     (if attempt = 0 then 0
      else
        let exponent = min (saturating_sub attempt 1) 16;
            multiplier = push_bit (unat exponent) (1 :: 128 word);
            backoff_ms = saturating_mul (ucast (rp_initial_backoff p)) multiplier;
            bounded_ms = min backoff_ms (ucast (rp_max_backoff p))
        in ucast bounded_ms)"

subsection \<open>The reconnect loop\<close>

record 'r runtime_env =
  re_shutdown :: "nat \<Rightarrow> bool"
  re_connect :: "'r \<Rightarrow> unit result \<times> 'r"
  re_run :: "'r \<Rightarrow> unit result \<times> 'r"

record 'r runtime_state =
  rs_runtime :: 'r
  rs_reads :: nat
  rs_slept :: "64 word list"
  rs_attempts_total :: "64 word"
  rs_successes_total :: "64 word"
  rs_failures_total :: "64 word"

definition read_shutdown :: "'r runtime_env \<Rightarrow> 'r runtime_state \<Rightarrow> bool \<times> 'r runtime_state" where
  "read_shutdown env s = (re_shutdown env (rs_reads s), s \<lparr> rs_reads := rs_reads s + 1 \<rparr>)"

fun reconnect_attempts ::
  "'r runtime_env \<Rightarrow> reconnect_policy \<Rightarrow> 32 word list \<Rightarrow> 'r runtime_state \<Rightarrow> bool \<times> 'r runtime_state" where
  "reconnect_attempts env p [] s = (False, s)"
| "reconnect_attempts env p (attempt # attempts) s =
     (let (stop, s) = read_shutdown env s
      in if stop then (False, s)
         else
           let s = s \<lparr> rs_attempts_total := rs_attempts_total s + 1 \<rparr>;
               s = s \<lparr> rs_slept := rs_slept s @ [backoff_for_attempt p attempt] \<rparr>;
               (stop, s) = read_shutdown env s
           in if stop then (False, s)
              else
                let (res, r) = re_connect env (rs_runtime s); s = s \<lparr> rs_runtime := r \<rparr>
                in case res of
                     Inr _ \<Rightarrow> (True, s \<lparr> rs_successes_total := rs_successes_total s + 1 \<rparr>)
                   | Inl _ \<Rightarrow> reconnect_attempts env p attempts
                        (s \<lparr> rs_failures_total := rs_failures_total s + 1 \<rparr>))"

definition attempt_range :: "32 word \<Rightarrow> 32 word list" where
  "attempt_range n = map of_nat [1 ..< unat n + 1]"

definition reconnect_with_backoff ::
  "'r runtime_env \<Rightarrow> reconnect_policy \<Rightarrow> 'r runtime_state \<Rightarrow> bool \<times> 'r runtime_state" where
  "reconnect_with_backoff env p s =
     (if \<not> rp_enable_reconnect p \<or> rp_max_attempts p = 0 then (False, s)
      else reconnect_attempts env p (attempt_range (rp_max_attempts p)) s)"

text \<open>The session's task: the state when it ends, \<open>None\<close> when it does not.\<close>

partial_function (option) runtime_loop ::
  "'r runtime_env \<Rightarrow> reconnect_policy \<Rightarrow> 'r runtime_state \<Rightarrow> 'r runtime_state option" where
  "runtime_loop env p s =
     (let (stop, s) = read_shutdown env s
      in if stop then Some s
         else
           let (res, r) = re_run env (rs_runtime s); s = s \<lparr> rs_runtime := r \<rparr>
           in case res of
                Inr _ \<Rightarrow> Some s
              | Inl _ \<Rightarrow>
                  let (recovered, s) = reconnect_with_backoff env p s
                  in if \<not> recovered then Some s else runtime_loop env p s)"

subsection \<open>The schedule\<close>

lemma policy_from_bounds:
  "1 \<le> rp_initial_backoff (reconnect_policy_from c)"
  "rp_initial_backoff (reconnect_policy_from c) \<le> rp_max_backoff (reconnect_policy_from c)"
  by (simp_all add: reconnect_policy_from_def Let_def)

text \<open>In natural numbers: twice as long after every attempt, seventeen attempts long, and at most the bound.\<close>

definition schedule :: "reconnect_policy \<Rightarrow> nat \<Rightarrow> nat" where
  "schedule p a = (if a = 0 then 0
     else min (unat (rp_initial_backoff p) * 2 ^ min (a - 1) 16) (unat (rp_max_backoff p)))"

lemma backoff_schedule: "unat (backoff_for_attempt p a) = schedule p (unat a)"
proof (cases "a = 0")
  case False
  define e where "e = min (saturating_sub a 1) 16"
  define m :: "128 word" where "m = push_bit (unat e) 1"
  define i :: "128 word" where "i = ucast (rp_initial_backoff p)"
  have pos: "0 < unat a" using False by (simp add: unat_gt_0)
  then have "(1 :: 32 word) \<le> a" by (simp add: word_le_nat_alt)
  then have e: "unat e = min (unat a - 1) 16"
    using unat_pred [OF pos] by (simp add: e_def saturating_sub_def unat_min)
  then have "unat e < 128" by simp
  then have m: "unat m = 2 ^ unat e"
    unfolding m_def unsigned_push_bit_eq by (simp add: push_bit_eq_mult take_bit_nat_eq_self)
  have i: "unat i = unat (rp_initial_backoff p)" by (simp add: i_def unat_ucast_up)
  have "unat i * unat m < 2 ^ 64 * 2 ^ 17"
  proof (rule mult_strict_mono)
    show "unat i < 2 ^ 64" using unsigned_less [of "rp_initial_backoff p", where 'a = nat] by (simp add: i)
    have "unat m \<le> 2 ^ 16" unfolding m by (rule power_increasing) (simp_all add: e)
    then show "unat m < 2 ^ 17" by simp
  qed simp_all
  then have "unat i * unat m < 2 ^ 128" by simp
  then have prod: "unat (saturating_mul i m) = unat (rp_initial_backoff p) * 2 ^ min (unat a - 1) 16"
    using m e i by (simp add: saturating_mul_def unat_mult_lem [THEN iffD1])
  have "unat (min (saturating_mul i m) (ucast (rp_max_backoff p))) =
      min (unat (rp_initial_backoff p) * 2 ^ min (unat a - 1) 16) (unat (rp_max_backoff p))"
    by (simp add: unat_min prod unat_ucast_up)
  moreover have "unat (rp_max_backoff p) < 2 ^ 64"
    using unsigned_less [of "rp_max_backoff p", where 'a = nat] by simp
  moreover from calculation have "unat (min (saturating_mul i m) (ucast (rp_max_backoff p))) < 2 ^ 64"
    by linarith
  moreover have "backoff_for_attempt p a = ucast (min (saturating_mul i m) (ucast (rp_max_backoff p)))"
    by (simp only: backoff_for_attempt_def False if_False Let_def e_def m_def i_def)
  ultimately show ?thesis using pos
    by (simp add: schedule_def unsigned_ucast_eq take_bit_nat_eq_self)
qed (simp add: backoff_for_attempt_def schedule_def)

lemma schedule_mono:
  assumes "a \<le> b" shows "schedule p a \<le> schedule p b"
proof -
  have "(2 :: nat) ^ min (a - 1) 16 \<le> 2 ^ min (b - 1) 16"
    using assms by (intro power_increasing) simp_all
  then have "unat (rp_initial_backoff p) * 2 ^ min (a - 1) 16 \<le> unat (rp_initial_backoff p) * 2 ^ min (b - 1) 16"
    by (rule mult_le_mono2)
  then have "min (unat (rp_initial_backoff p) * 2 ^ min (a - 1) 16) (unat (rp_max_backoff p))
      \<le> min (unat (rp_initial_backoff p) * 2 ^ min (b - 1) 16) (unat (rp_max_backoff p))"
    by (rule min.mono) (rule order_refl)
  then show ?thesis using assms by (cases "a = 0") (simp_all add: schedule_def)
qed

lemma attempt_range_schedule:
  "map (\<lambda>a. unat (backoff_for_attempt p a)) (attempt_range n) = map (schedule p) [1 ..< unat n + 1]"
proof -
  have "unat (of_nat a :: 32 word) = a" if "a \<in> set [1 ..< unat n + 1]" for a
    using that unsigned_less [of n, where 'a = nat] by (auto simp: unat_of_nat)
  then show ?thesis unfolding attempt_range_def map_map
    by (intro map_cong refl) (simp only: comp_def backoff_schedule)
qed

subsection \<open>The reconnect loop\<close>

lemma read_shutdown_simps [simp]:
  "fst (read_shutdown env s) = re_shutdown env (rs_reads s)"
  "snd (read_shutdown env s) = s \<lparr> rs_reads := rs_reads s + 1 \<rparr>"
  by (simp_all add: read_shutdown_def)

text \<open>What a run of the loop over the attempts \<open>as\<close> that slept k times has counted.\<close>

definition counted :: "reconnect_policy \<Rightarrow> 32 word list \<Rightarrow> 'r runtime_state \<Rightarrow> nat \<Rightarrow> bool \<Rightarrow> 'r runtime_state \<Rightarrow> bool" where
  "counted p as s k ok s' \<longleftrightarrow> k \<le> length as \<and>
     rs_slept s' = rs_slept s @ map (backoff_for_attempt p) (take k as) \<and>
     rs_attempts_total s' = rs_attempts_total s + of_nat k \<and>
     (if ok then 0 < k \<and> rs_successes_total s' = rs_successes_total s + 1 \<and>
               rs_failures_total s' = rs_failures_total s + of_nat (k - 1)
      else rs_successes_total s' = rs_successes_total s \<and>
           rs_failures_total s' \<in> {rs_failures_total s + of_nat k, rs_failures_total s + of_nat (k - 1)})"

lemma counted_Cons:
  assumes "counted p as s1 k ok s'" "rs_slept s1 = rs_slept s @ [backoff_for_attempt p a]"
    and "rs_attempts_total s1 = rs_attempts_total s + 1" "rs_successes_total s1 = rs_successes_total s"
    and "rs_failures_total s1 = rs_failures_total s + 1"
  shows "counted p (a # as) s (Suc k) ok s'"
proof (cases k)
  case 0
  with assms show ?thesis by (cases ok) (auto simp: counted_def)
next
  case (Suc n)
  with assms show ?thesis by (cases ok) (auto simp: counted_def algebra_simps)
qed

lemma reconnect_attempts_counted:
  "\<exists>k. counted p as s k (fst (reconnect_attempts env p as s)) (snd (reconnect_attempts env p as s))"
proof (induction as arbitrary: s)
  case Nil
  show ?case by (rule exI [of _ 0]) (simp add: counted_def)
next
  case (Cons a as)
  let ?s1 = "s \<lparr> rs_reads := rs_reads s + 1 \<rparr>"
  let ?s2 = "?s1 \<lparr> rs_attempts_total := rs_attempts_total s + 1,
      rs_slept := rs_slept s @ [backoff_for_attempt p a], rs_reads := rs_reads s + 2 \<rparr>"
  obtain res r where conn: "re_connect env (rs_runtime s) = (res, r)" by fastforce
  consider "re_shutdown env (rs_reads s)"
    | "\<not> re_shutdown env (rs_reads s)" "re_shutdown env (rs_reads s + 1)"
    | u where "\<not> re_shutdown env (rs_reads s)" "\<not> re_shutdown env (rs_reads s + 1)" "res = Inr u"
    | e where "\<not> re_shutdown env (rs_reads s)" "\<not> re_shutdown env (rs_reads s + 1)" "res = Inl e"
    by (cases res) auto
  then show ?case
  proof cases
    case 1
    then show ?thesis by (intro exI [of _ 0]) (simp add: counted_def Let_def split_def)
  next
    case 2
    then show ?thesis by (intro exI [of _ 1]) (simp add: counted_def Let_def split_def)
  next
    case 3
    then show ?thesis by (intro exI [of _ 1]) (simp add: counted_def Let_def split_def conn)
  next
    case 4
    let ?s3 = "?s2 \<lparr> rs_runtime := r, rs_failures_total := rs_failures_total s + 1 \<rparr>"
    obtain k where k: "counted p as ?s3 k (fst (reconnect_attempts env p as ?s3)) (snd (reconnect_attempts env p as ?s3))"
      using Cons.IH by blast
    have "reconnect_attempts env p (a # as) s = reconnect_attempts env p as ?s3"
      using 4 by (simp add: Let_def split_def conn numeral_2_eq_2)
    moreover from k have "counted p (a # as) s (Suc k) (fst (reconnect_attempts env p as ?s3)) (snd (reconnect_attempts env p as ?s3))"
      by (rule counted_Cons) simp_all
    ultimately show ?thesis by metis
  qed
qed

lemma reconnect_reads: "rs_reads s \<le> rs_reads (snd (reconnect_with_backoff env p s))"
proof -
  have "rs_reads s \<le> rs_reads (snd (reconnect_attempts env p as s))" for as
  proof (induction as arbitrary: s)
    case (Cons a as)
    show ?case by (auto simp: Let_def split_def split: sum.split intro: order.trans [OF _ Cons.IH])
  qed simp
  then show ?thesis by (simp add: reconnect_with_backoff_def)
qed

text \<open>The first n connects fail.\<close>

fun connect_fails :: "'r runtime_env \<Rightarrow> nat \<Rightarrow> 'r \<Rightarrow> bool" where
  "connect_fails env 0 r = True"
| "connect_fails env (Suc n) r =
     (case re_connect env r of (Inl _, r') \<Rightarrow> connect_fails env n r' | (Inr _, _) \<Rightarrow> False)"

lemma reconnect_attempts_ok:
  assumes "\<forall>k. \<not> re_shutdown env k"
  shows "fst (reconnect_attempts env p as s) \<longleftrightarrow> \<not> connect_fails env (length as) (rs_runtime s)"
proof (induction as arbitrary: s)
  case (Cons a as)
  show ?case
    by (cases "re_connect env (rs_runtime s)"; cases "fst (re_connect env (rs_runtime s))")
      (auto simp: Let_def split_def assms Cons.IH)
qed simp

subsection \<open>The end of the session's task\<close>

text \<open>
  What the session's task does to the runtime when nobody shuts it down: up to \<open>budget\<close> connects in a row, the
  first that succeeds ends them; the task ends when the run closes or when no connect succeeded, and goes on
  after one that did.
\<close>

fun try_connects :: "'r runtime_env \<Rightarrow> nat \<Rightarrow> 'r \<Rightarrow> bool \<times> 'r" where
  "try_connects env 0 r = (False, r)"
| "try_connects env (Suc n) r =
     (case re_connect env r of (Inr _, r') \<Rightarrow> (True, r') | (Inl _, r') \<Rightarrow> try_connects env n r')"

inductive task_ends :: "'r runtime_env \<Rightarrow> nat \<Rightarrow> 'r \<Rightarrow> 'r \<Rightarrow> bool" for env budget where
  closed: "re_run env r = (Inr u, r') \<Longrightarrow> task_ends env budget r r'"
| exhausted: "re_run env r = (Inl e, r1) \<Longrightarrow> try_connects env budget r1 = (False, r') \<Longrightarrow> task_ends env budget r r'"
| recovered: "re_run env r = (Inl e, r1) \<Longrightarrow> try_connects env budget r1 = (True, r2) \<Longrightarrow>
    task_ends env budget r2 r' \<Longrightarrow> task_ends env budget r r'"

definition reconnect_budget_of :: "reconnect_policy \<Rightarrow> nat" where
  "reconnect_budget_of p = (if rp_enable_reconnect p then unat (rp_max_attempts p) else 0)"

lemma reconnect_attempts_tries:
  assumes "\<forall>k. \<not> re_shutdown env k"
  shows "fst (reconnect_attempts env p as s) = fst (try_connects env (length as) (rs_runtime s)) \<and>
    rs_runtime (snd (reconnect_attempts env p as s)) = snd (try_connects env (length as) (rs_runtime s))"
proof (induction as arbitrary: s)
  case (Cons a as)
  show ?case
    by (cases "re_connect env (rs_runtime s)"; cases "fst (re_connect env (rs_runtime s))")
      (auto simp: Let_def split_def assms Cons.IH)
qed simp

lemma reconnect_tries:
  assumes "\<forall>k. \<not> re_shutdown env k" "reconnect_with_backoff env p s = (ok, s')"
  shows "try_connects env (reconnect_budget_of p) (rs_runtime s) = (ok, rs_runtime s')"
proof (cases "\<not> rp_enable_reconnect p \<or> rp_max_attempts p = 0")
  case True
  with assms(2) show ?thesis by (auto simp: reconnect_with_backoff_def reconnect_budget_of_def)
next
  case False
  then have "length (attempt_range (rp_max_attempts p)) = reconnect_budget_of p"
    by (simp add: attempt_range_def reconnect_budget_of_def)
  with reconnect_attempts_tries [OF assms(1), of p "attempt_range (rp_max_attempts p)" s] assms(2) False
  show ?thesis by (simp add: reconnect_with_backoff_def prod_eq_iff)
qed

lemma runtime_loop_unfold:
  assumes "\<forall>k. \<not> re_shutdown env k" "re_run env (rs_runtime s) = (res, r)"
    and "reconnect_with_backoff env p (s \<lparr> rs_reads := Suc (rs_reads s), rs_runtime := r \<rparr>) = (ok, s3)"
  shows "runtime_loop env p s =
    (case res of Inr _ \<Rightarrow> Some (s \<lparr> rs_reads := Suc (rs_reads s), rs_runtime := r \<rparr>)
     | Inl _ \<Rightarrow> if ok then runtime_loop env p s3 else Some s3)"
  using assms by (subst runtime_loop.simps) (simp add: Let_def split_def split: sum.split)

lemma runtime_loop_sound:
  assumes on: "\<forall>k. \<not> re_shutdown env k" and y: "runtime_loop env p s = Some s'"
  shows "task_ends env (reconnect_budget_of p) (rs_runtime s) (rs_runtime s')"
proof -
  have "\<forall>k. \<not> re_shutdown env k \<Longrightarrow> task_ends env (reconnect_budget_of p) (rs_runtime s) (rs_runtime s')"
  proof (rule runtime_loop.raw_induct [of "\<lambda>env p s s'. (\<forall>k. \<not> re_shutdown env k) \<longrightarrow>
      task_ends env (reconnect_budget_of p) (rs_runtime s) (rs_runtime s')", OF _ y, THEN mp])
    fix loop env p s s'
    assume IH: "\<And>env p s s'. loop env p s = Some s' \<Longrightarrow> (\<forall>k. \<not> re_shutdown env k) \<longrightarrow>
        task_ends env (reconnect_budget_of p) (rs_runtime s) (rs_runtime s')"
      and body: "(let (stop, s) = read_shutdown env s
        in if stop then Some s
           else let (res, r) = re_run env (rs_runtime s); s = s \<lparr> rs_runtime := r \<rparr>
             in case res of Inr _ \<Rightarrow> Some s
                | Inl _ \<Rightarrow> let (recovered, s) = reconnect_with_backoff env p s
                    in if \<not> recovered then Some s else loop env p s) = Some s'"
    show "(\<forall>k. \<not> re_shutdown env k) \<longrightarrow> task_ends env (reconnect_budget_of p) (rs_runtime s) (rs_runtime s')"
    proof
      assume on: "\<forall>k. \<not> re_shutdown env k"
      obtain res r where run: "re_run env (rs_runtime s) = (res, r)" by fastforce
      let ?s2 = "s \<lparr> rs_reads := Suc (rs_reads s), rs_runtime := r \<rparr>"
      obtain ok s3 where rec: "reconnect_with_backoff env p ?s2 = (ok, s3)" by fastforce
      then have "try_connects env (reconnect_budget_of p) r = (ok, rs_runtime s3)"
        using reconnect_tries [of env p ?s2 ok s3] on by simp
      with body on run rec IH [of env p s3 s'] show "task_ends env (reconnect_budget_of p) (rs_runtime s) (rs_runtime s')"
        by (cases res; cases ok) (auto simp: Let_def split_def intro: task_ends.intros)
    qed
  qed
  with on show ?thesis by blast
qed

lemma runtime_loop_complete:
  assumes "\<forall>k. \<not> re_shutdown env k"
  shows "task_ends env (reconnect_budget_of p) r r' \<Longrightarrow> rs_runtime s = r \<Longrightarrow>
    \<exists>s'. runtime_loop env p s = Some s' \<and> rs_runtime s' = r'"
proof (induction arbitrary: s rule: task_ends.induct)
  case (closed r u r')
  obtain ok s3 where "reconnect_with_backoff env p (s \<lparr> rs_reads := Suc (rs_reads s), rs_runtime := r' \<rparr>) = (ok, s3)"
    by fastforce
  from runtime_loop_unfold [OF assms _ this] closed show ?case by auto
next
  case (exhausted r e r1 r')
  obtain ok s3 where *: "reconnect_with_backoff env p (s \<lparr> rs_reads := Suc (rs_reads s), rs_runtime := r1 \<rparr>) = (ok, s3)"
    by fastforce
  from runtime_loop_unfold [OF assms _ this] reconnect_tries [OF assms *] exhausted show ?case by auto
next
  case (recovered r e r1 r2 r')
  obtain ok s3 where *: "reconnect_with_backoff env p (s \<lparr> rs_reads := Suc (rs_reads s), rs_runtime := r1 \<rparr>) = (ok, s3)"
    by fastforce
  from runtime_loop_unfold [OF assms _ this] reconnect_tries [OF assms *] recovered show ?case by auto
qed

lemma runtime_loop_shut_down:
  assumes "\<forall>k \<ge> n. re_shutdown env k"
  shows "\<exists>s'. runtime_loop env p s = Some s'"
proof (induction "n - rs_reads s" arbitrary: s rule: less_induct)
  case less
  obtain res r where run: "re_run env (rs_runtime s) = (res, r)" by fastforce
  let ?s2 = "s \<lparr> rs_reads := Suc (rs_reads s), rs_runtime := r \<rparr>"
  obtain ok s3 where rec: "reconnect_with_backoff env p ?s2 = (ok, s3)" by fastforce
  show ?case
  proof (cases "re_shutdown env (rs_reads s)")
    case True
    then show ?thesis by (subst runtime_loop.simps) (simp add: Let_def split_def)
  next
    case False
    then have "rs_reads s < n" using assms by (meson not_less)
    moreover have "rs_reads s < rs_reads s3" using reconnect_reads [of ?s2 env p] unfolding rec by simp
    ultimately have "\<exists>s'. runtime_loop env p s3 = Some s'" by (intro less) simp
    with False show ?thesis
      by (subst runtime_loop.simps) (auto simp: Let_def split_def run rec split: sum.split)
  qed
qed

subsection \<open>Properties\<close>

text \<open>the backoff. No arithmetic overflows: for every configuration and every attempt the pause is
  the first pause doubled with each further attempt, seventeen attempts long and never above the bound; it
  is at least one millisecond and does not shrink.\<close>

theorem backoff_exact:
  "let p = reconnect_policy_from c
   in unat (backoff_for_attempt p a) = schedule p (unat a) \<and>
      (a \<noteq> 0 \<longrightarrow> 1 \<le> backoff_for_attempt p a \<and> rp_initial_backoff p \<le> backoff_for_attempt p a \<and>
         backoff_for_attempt p a \<le> rp_max_backoff p) \<and>
      (a \<le> b \<longrightarrow> backoff_for_attempt p a \<le> backoff_for_attempt p b)"
proof -
  let ?p = "reconnect_policy_from c"
  have le: "unat (rp_initial_backoff ?p) \<le> unat (rp_max_backoff ?p)" "1 \<le> unat (rp_initial_backoff ?p)"
    using policy_from_bounds [of c] by (simp_all add: word_le_nat_alt)
  have low: "unat (rp_initial_backoff ?p) \<le> unat (rp_initial_backoff ?p) * 2 ^ k" for k :: nat by simp
  have "a \<noteq> 0 \<Longrightarrow> unat (rp_initial_backoff ?p) \<le> schedule ?p (unat a) \<and> schedule ?p (unat a) \<le> unat (rp_max_backoff ?p)"
    using le low by (auto simp: schedule_def unat_eq_0)
  with le show ?thesis
    by (auto simp: Let_def backoff_schedule word_le_nat_alt schedule_mono)
qed

text \<open>the reconnect budget. A reconnection sleeps at most as often as the policy allows, each time for
  the scheduled pause; it counts one attempt for every pause, one success if it succeeds, and one
  failure for every connect that failed. Unless the session is shut down it succeeds exactly when one of
  the allowed connects does.\<close>

theorem reconnect_budget:
  assumes "reconnect_with_backoff env p s = (ok, s')"
  shows "(\<exists>k \<le> unat (rp_max_attempts p).
      map unat (rs_slept s') = map unat (rs_slept s) @ map (schedule p) [1 ..< k + 1] \<and>
      rs_attempts_total s' = rs_attempts_total s + of_nat k \<and>
      (if ok then 0 < k \<and> rs_successes_total s' = rs_successes_total s + 1 \<and>
                rs_failures_total s' = rs_failures_total s + of_nat (k - 1)
       else rs_successes_total s' = rs_successes_total s \<and>
            rs_failures_total s' \<in> {rs_failures_total s + of_nat k, rs_failures_total s + of_nat (k - 1)})) \<and>
    ((\<forall>k. \<not> re_shutdown env k) \<longrightarrow> rp_enable_reconnect p \<longrightarrow>
       (ok \<longleftrightarrow> \<not> connect_fails env (unat (rp_max_attempts p)) (rs_runtime s)))"
proof (cases "\<not> rp_enable_reconnect p \<or> rp_max_attempts p = 0")
  case True
  with assms show ?thesis by (auto simp: reconnect_with_backoff_def intro!: exI [of _ 0])
next
  case False
  let ?as = "attempt_range (rp_max_attempts p)"
  have r: "reconnect_attempts env p ?as s = (ok, s')" using assms False by (simp add: reconnect_with_backoff_def)
  obtain k where k: "counted p ?as s k ok s'" using reconnect_attempts_counted [of p ?as s env] by (auto simp: r)
  have len: "length ?as = unat (rp_max_attempts p)" by (simp add: attempt_range_def)
  have "map unat (map (backoff_for_attempt p) (take k ?as)) =
      take k (map (\<lambda>a. unat (backoff_for_attempt p a)) ?as)" by (simp add: take_map comp_def)
  also have "\<dots> = map (schedule p) [1 ..< k + 1]"
    using k len unfolding attempt_range_schedule by (simp add: counted_def take_map del: upt_Suc)
  finally have "map unat (rs_slept s') = map unat (rs_slept s) @ map (schedule p) [1 ..< k + 1]"
    using k by (simp add: counted_def)
  moreover have "ok \<longleftrightarrow> \<not> connect_fails env (unat (rp_max_attempts p)) (rs_runtime s)"
    if "\<forall>k. \<not> re_shutdown env k"
    using reconnect_attempts_ok [OF that, of p ?as s] by (simp add: r len)
  ultimately show ?thesis using k unfolding counted_def len by blast
qed

text \<open>C18: when the session's task ends. Once the shutdown flag is set and stays set, the loop returns, whatever
  the runtime answers to running and connecting. When the flag is never set, it returns with the runtime in a
  state r' exactly when the run closes in r', or the run fails and no connect of the budget succeeds, which
  leaves r', or the run fails, a connect of the budget succeeds and the task ends in r' from there (so a task
  whose runs fail and whose reconnects succeed for ever does not end). The budget is the policy's number
  of attempts, none when reconnecting is off.\<close>

theorem runtime_loop_ends:
  "((\<exists>n. \<forall>k \<ge> n. re_shutdown env k) \<longrightarrow> (\<exists>s'. runtime_loop env p s = Some s')) \<and>
   ((\<forall>k. \<not> re_shutdown env k) \<longrightarrow>
     (\<forall>r'. (\<exists>s'. runtime_loop env p s = Some s' \<and> rs_runtime s' = r') \<longleftrightarrow>
        task_ends env (reconnect_budget_of p) (rs_runtime s) r'))"
proof (intro conjI impI allI iffI)
  show "\<exists>s'. runtime_loop env p s = Some s'" if "\<exists>n. \<forall>k \<ge> n. re_shutdown env k"
    using that runtime_loop_shut_down by blast
next
  fix r'
  assume on: "\<forall>k. \<not> re_shutdown env k"
  show "task_ends env (reconnect_budget_of p) (rs_runtime s) r'"
    if "\<exists>s'. runtime_loop env p s = Some s' \<and> rs_runtime s' = r'"
    using that runtime_loop_sound [OF on] by blast
  show "\<exists>s'. runtime_loop env p s = Some s' \<and> rs_runtime s' = r'"
    if "task_ends env (reconnect_budget_of p) (rs_runtime s) r'"
    using runtime_loop_complete [OF on that refl] .
qed

subsection \<open>Examples\<close>

text \<open>A runtime whose connect succeeds when its counter has reached zero, and whose run always fails.\<close>

definition sample_runtime :: "nat runtime_env" where
  "sample_runtime = \<lparr> re_shutdown = (\<lambda>k. 9 \<le> k),
     re_connect = (\<lambda>r. if r = 0 then (Inr (), 0) else (Inl ''refused'', r - 1)),
     re_run = (\<lambda>r. (Inl ''lost'', r)) \<rparr>"

definition sample_run :: "nat runtime_state" where
  "sample_run = \<lparr> rs_runtime = 1, rs_reads = 0, rs_slept = [], rs_attempts_total = 0,
     rs_successes_total = 0, rs_failures_total = 0 \<rparr>"

theorem backoff_exact_witness:
  "1 \<le> backoff_for_attempt (reconnect_policy_from resilience_default) 3"
  using backoff_exact [of resilience_default 3 3] by (simp add: Let_def)

theorem reconnect_budget_witness:
  "\<exists>k \<le> unat (5 :: 32 word).
     map unat (rs_slept (snd (reconnect_with_backoff sample_runtime (reconnect_policy_from resilience_default) sample_run)))
     = map (schedule (reconnect_policy_from resilience_default)) [1 ..< k + 1]"
proof -
  let ?p = "reconnect_policy_from resilience_default"
  let ?r = "reconnect_with_backoff sample_runtime ?p sample_run"
  have "?r = (fst ?r, snd ?r)" by simp
  from conjunct1 [OF reconnect_budget [OF this]]
  obtain k where "k \<le> unat (rp_max_attempts ?p)"
    "map unat (rs_slept (snd ?r)) = map unat (rs_slept sample_run) @ map (schedule ?p) [1 ..< k + 1]" by blast
  moreover have "rp_max_attempts ?p = 5"
    by (simp only: reconnect_policy_from_def resilience_default_def default_reconnect_max_attempts_def Let_def reconnect_policy.simps resilience_config.simps)
  moreover have "rs_slept sample_run = []" by (simp only: sample_run_def runtime_state.simps)
  ultimately show ?thesis by (metis append_Nil list.map(1))
qed

theorem runtime_loop_ends_witness:
  "(\<exists>s'. runtime_loop sample_runtime (reconnect_policy_from resilience_default) sample_run = Some s') \<and>
   (\<exists>s'. runtime_loop (sample_runtime \<lparr> re_shutdown := \<lambda>k. False, re_run := \<lambda>r. (Inr (), Suc r) \<rparr>)
     (reconnect_policy_from resilience_default) sample_run = Some s' \<and> rs_runtime s' = 2)"
proof -
  let ?e = "sample_runtime \<lparr> re_shutdown := \<lambda>k. False, re_run := \<lambda>r. (Inr (), Suc r) \<rparr>"
  have "task_ends ?e (reconnect_budget_of (reconnect_policy_from resilience_default)) (rs_runtime sample_run) 2"
    by (rule task_ends.closed [where u = "()"]) (simp add: sample_run_def)
  moreover have "\<forall>k. \<not> re_shutdown ?e k" by simp
  moreover have "\<forall>k \<ge> 9. re_shutdown sample_runtime k" by (simp add: sample_runtime_def)
  ultimately show ?thesis
    using runtime_loop_ends [of sample_runtime "reconnect_policy_from resilience_default" sample_run]
      runtime_loop_ends [of ?e "reconnect_policy_from resilience_default" sample_run] by blast
qed

end
