(* ===== verification/Transcripts.thy ===== *)
theory Transcripts
  imports Prelude
begin

section \<open>Transcript memory and its compaction\<close>

text \<open>
  The memory of a session's transcripts in \<open>liveclaw-app/src/main.rs\<close> (\<open>compact_memory_entries\<close>,
  \<open>TranscriptCompactionSummarizer\<close>, \<open>memory_entries_from_session_events\<close>) and the search adapter of
  \<open>liveclaw-app/src/memory.rs\<close>. Contents, parts, events and entries are the structures of the agent library
  as far as the source reads and writes them. A function whose \<open>String::truncate\<close> may
  panic gives \<open>None\<close> for the panic. A time is its distance from an epoch in nanoseconds.
\<close>

subsection \<open>Contents, entries and events\<close>

text \<open>\<open>OtherPart\<close> stands for the variants of a part that the source never builds nor looks into.\<close>

datatype part = TextPart string | InlineData string bytes | OtherPart string

record content =
  co_role :: string
  co_parts :: "part list"

record memory_entry =
  me_content :: content
  me_author :: string
  me_timestamp :: int

record event_compaction =
  ec_start_timestamp :: int
  ec_end_timestamp :: int
  ec_compacted_content :: content

record session_event =
  se_author :: string
  se_timestamp :: int
  se_content :: "content option"
  se_compaction :: "event_compaction option"

definition part_text :: "part \<Rightarrow> string option" where
  "part_text p = (case p of TextPart t \<Rightarrow> Some t | _ \<Rightarrow> None)"

definition text_content :: "string \<Rightarrow> string \<Rightarrow> content" where
  "text_content role t = \<lparr> co_role = role, co_parts = [TextPart t] \<rparr>"

definition first_text :: "part list \<Rightarrow> string option" where
  "first_text parts = (case List.map_filter part_text parts of [] \<Rightarrow> None | t # _ \<Rightarrow> Some t)"

text \<open>The first text of a content, trimmed, unless it is blank.\<close>

definition summary_chunk :: "content \<Rightarrow> string option" where
  "summary_chunk c =
     (case first_text (co_parts c) of
        None \<Rightarrow> None
      | Some t \<Rightarrow> (let t = trim t in if t = [] then None else Some t))"

definition join_with :: "string \<Rightarrow> string list \<Rightarrow> string" where
  "join_with sep ts = (case ts of [] \<Rightarrow> [] | t # ts \<Rightarrow> concat (t # map (\<lambda>u. sep @ u) ts))"

text \<open>\<open>is_char_boundary\<close>: a byte 10xxxxxx continues a character.\<close>

definition is_char_boundary :: "string \<Rightarrow> nat \<Rightarrow> bool" where
  "is_char_boundary s i \<longleftrightarrow> i = 0 \<or> i = length s \<or>
     (i < length s \<and> \<not> (128 \<le> byte_of (s ! i) \<and> byte_of (s ! i) < 192))"

text \<open>\<open>String::truncate\<close>: no effect on a short string, a panic inside a character.\<close>

definition string_truncate :: "nat \<Rightarrow> string \<Rightarrow> string option" where
  "string_truncate n s =
     (if length s \<le> n then Some s else if is_char_boundary s n then Some (take n s) else None)"

definition summary_text :: "string list \<Rightarrow> nat \<Rightarrow> string option" where
  "summary_text texts n =
     (let s = (if texts = [] then ''compaction_summary: compacted '' @ show_nat n @ '' events''
               else ''compaction_summary: '' @ join_with '' '' texts)
      in if 4096 < length s then string_truncate 4096 s else Some s)"

subsection \<open>Compaction of the local memory\<close>

definition compact_memory_entries ::
  "int \<Rightarrow> memory_entry list \<Rightarrow> nat \<Rightarrow> (bool \<times> memory_entry list) option" where
  "compact_memory_entries now entries max_events_threshold =
     (if max_events_threshold < 2 \<or> length entries \<le> max_events_threshold then Some (False, entries)
      else
        let keep_recent = max 1 (max_events_threshold div 2);
            compact_count = length entries - keep_recent
        in if compact_count = 0 then Some (False, entries)
           else
             let summary_chunks = List.map_filter (summary_chunk \<circ> me_content) (take compact_count entries)
             in map_option (\<lambda>t.
                  (True, \<lparr> me_content = text_content ''system'' t, me_author = ''system'', me_timestamp = now \<rparr>
                         # drop compact_count entries))
                  (summary_text summary_chunks compact_count))"

record compaction_policy =
  cp_enabled :: bool
  cp_max_events_threshold :: nat

text \<open>
  The local path of \<open>persist_transcript_memory\<close>: the entry is added and the entries are compacted. The
  flag says that a compaction was applied.
\<close>

definition push_transcript ::
  "compaction_policy \<Rightarrow> int \<Rightarrow> int \<Rightarrow> memory_entry list \<Rightarrow> string \<Rightarrow> (bool \<times> memory_entry list) option" where
  "push_transcript policy now now' entries transcript =
     (let entries = entries @ [\<lparr> me_content = text_content ''assistant'' transcript,
            me_author = ''assistant'', me_timestamp = now \<rparr>]
      in if cp_enabled policy then compact_memory_entries now' entries (cp_max_events_threshold policy)
         else Some (False, entries))"

subsection \<open>Compaction of session events\<close>

text \<open>The outer option is the panic, the inner one the absence of a summary.\<close>

definition summarize_events :: "int \<Rightarrow> session_event list \<Rightarrow> session_event option option" where
  "summarize_events now events =
     (if events = [] then Some None
      else
        let summary_chunks = List.map_filter (\<lambda>e. Option.bind (se_content e) summary_chunk) events
        in map_option (\<lambda>t.
             let compacted_content = text_content ''system'' t
             in Some \<lparr> se_author = ''system'', se_timestamp = now, se_content = Some compacted_content,
                  se_compaction = Some \<lparr> ec_start_timestamp = se_timestamp (hd events),
                    ec_end_timestamp = se_timestamp (last events),
                    ec_compacted_content = compacted_content \<rparr> \<rparr>)
             (summary_text summary_chunks (length events)))"

definition has_text :: "content \<Rightarrow> bool" where
  "has_text c = list_ex (\<lambda>p. case part_text p of None \<Rightarrow> False | Some t \<Rightarrow> trim t \<noteq> []) (co_parts c)"

definition entry_of_event :: "int option \<Rightarrow> session_event \<Rightarrow> memory_entry option" where
  "entry_of_event boundary e =
     (if se_compaction e \<noteq> None then None
      else if (case boundary of Some b \<Rightarrow> se_timestamp e \<le> b | None \<Rightarrow> False) then None
      else case se_content e of
        None \<Rightarrow> None
      | Some c \<Rightarrow>
          if \<not> has_text c then None
          else Some \<lparr> me_content = c,
                 me_author = (if trim (se_author e) = [] then ''assistant'' else se_author e),
                 me_timestamp = se_timestamp e \<rparr>)"

definition latest_compaction :: "session_event list \<Rightarrow> event_compaction option" where
  "latest_compaction events =
     (case List.map_filter se_compaction (rev events) of [] \<Rightarrow> None | c # _ \<Rightarrow> Some c)"

definition memory_entries_from_session_events :: "session_event list \<Rightarrow> memory_entry list" where
  "memory_entries_from_session_events events =
     (let latest = latest_compaction events;
          boundary = map_option ec_end_timestamp latest
      in (case latest of
            Some c \<Rightarrow> [\<lparr> me_content = ec_compacted_content c, me_author = ''system'',
                         me_timestamp = ec_end_timestamp c \<rparr>]
          | None \<Rightarrow> []) @
         List.map_filter (entry_of_event boundary) events)"

definition current_compaction_count :: "session_event list \<Rightarrow> nat" where
  "current_compaction_count events = length (filter (\<lambda>e. se_compaction e \<noteq> None) events)"

subsection \<open>The summary written at the end of a session\<close>

definition session_summary :: "memory_entry list \<Rightarrow> string" where
  "session_summary entries =
     join_with '' '' (List.map_filter (\<lambda>e. first_text (co_parts (me_content e))) entries)"

definition entries_at_termination :: "int \<Rightarrow> memory_entry list \<Rightarrow> memory_entry list" where
  "entries_at_termination now entries =
     (let summary = session_summary entries
      in if trim summary = [] then entries
         else entries @ [\<lparr> me_content = text_content ''assistant'' (''session_summary: '' @ summary),
                me_author = ''system'', me_timestamp = now \<rparr>])"

subsection \<open>The search adapter\<close>

text \<open>The store's search is a parameter; the user and the application of the request are empty.\<close>

definition memory_adapter_search ::
  "(string \<Rightarrow> string \<Rightarrow> string \<Rightarrow> memory_entry list result) \<Rightarrow> nat \<Rightarrow> string \<Rightarrow> (content \<times> string) list result" where
  "memory_adapter_search store_search recall_limit query =
     (case store_search query '''' '''' of
        Inl e \<Rightarrow> Inl e
      | Inr memories \<Rightarrow> Inr (map (\<lambda>e. (me_content e, me_author e)) (take recall_limit memories)))"

subsection \<open>Facts about summaries\<close>

lemma string_truncate_length: "string_truncate n s = Some t \<Longrightarrow> length t \<le> n \<and> (\<exists>u. s = t @ u)"
  by (auto simp: string_truncate_def split: if_splits intro: exI [of _ "drop n s"])

lemma summary_text_Some:
  "summary_text texts n = Some t \<Longrightarrow> length t \<le> 4096"
  by (auto simp: summary_text_def Let_def dest: string_truncate_length split: if_splits)

lemma compact_unchanged:
  "max_events_threshold < 2 \<or> length entries \<le> max_events_threshold \<Longrightarrow>
     compact_memory_entries now entries max_events_threshold = Some (False, entries)"
  by (auto simp: compact_memory_entries_def)

lemma compact_applied:
  assumes "2 \<le> n" "n < length entries"
  shows "compact_memory_entries now entries n =
    map_option (\<lambda>t. (True, \<lparr> me_content = text_content ''system'' t, me_author = ''system'', me_timestamp = now \<rparr>
        # drop (length entries - n div 2) entries))
      (summary_text (List.map_filter (summary_chunk \<circ> me_content) (take (length entries - n div 2) entries))
        (length entries - n div 2))"
proof -
  have "max 1 (n div 2) = n div 2" "length entries - n div 2 \<noteq> 0" "\<not> (n < 2 \<or> length entries \<le> n)"
    using assms by linarith+
  then show ?thesis by (simp only: compact_memory_entries_def Let_def if_False)
qed

lemma compact_length:
  assumes "compact_memory_entries now entries n = Some (applied, entries')" "2 \<le> n"
  shows "length entries' \<le> max n (length entries) \<and> (applied \<longrightarrow> length entries' = n div 2 + 1) \<and>
    (n < length entries \<longrightarrow> applied)"
proof (cases "n < length entries")
  case True
  with assms(2) have "n div 2 \<le> length entries" "n div 2 + 1 \<le> n" by linarith+
  with assms True show ?thesis by (auto simp: compact_applied)
next
  case False
  with assms show ?thesis by (auto simp: compact_unchanged)
qed

text \<open>Blank and missing texts aside, the summary is made of the compacted texts in their order.\<close>

lemma map_filter_cong: "(\<And>x. x \<in> set xs \<Longrightarrow> f x = g x) \<Longrightarrow> List.map_filter f xs = List.map_filter g xs"
  by (induction xs) (auto split: option.split)

lemma map_filter_append: "List.map_filter f (xs @ ys) = List.map_filter f xs @ List.map_filter f ys"
  by (induction xs) (auto split: option.split)

subsection \<open>The bounded memory\<close>

definition transcript_entry :: "int \<Rightarrow> string \<Rightarrow> memory_entry" where
  "transcript_entry now t = \<lparr> me_content = text_content ''assistant'' t, me_author = ''assistant'', me_timestamp = now \<rparr>"

text \<open>A run of transcripts, each with the two times that are read for it.\<close>

fun push_all ::
  "compaction_policy \<Rightarrow> memory_entry list \<Rightarrow> (int \<times> int \<times> string) list \<Rightarrow> memory_entry list option" where
  "push_all policy es [] = Some es"
| "push_all policy es ((now, now', t) # ps) =
     (case push_transcript policy now now' es t of
        None \<Rightarrow> None
      | Some (_, es) \<Rightarrow> push_all policy es ps)"

text \<open>The last k entries are the last k transcripts \<open>ts\<close>.\<close>

definition recent :: "nat \<Rightarrow> (int \<times> string) list \<Rightarrow> memory_entry list \<Rightarrow> bool" where
  "recent k ts es \<longleftrightarrow> (\<exists>pre. es = pre @ map (\<lambda>(now, t). transcript_entry now t) (drop (length ts - k) ts))"

lemma recent_snoc: "recent k ts es \<Longrightarrow> recent k (ts @ [(now, t)]) (es @ [transcript_entry now t])"
proof -
  assume "recent k ts es"
  then obtain pre where "es = pre @ map (\<lambda>(now, t). transcript_entry now t) (drop (length ts - k) ts)"
    unfolding recent_def by blast
  then have "es @ [transcript_entry now t] =
      pre @ map (\<lambda>(now, t). transcript_entry now t) (drop (length ts - k) (ts @ [(now, t)]))" by simp
  moreover obtain d where "drop (length ts - k) (ts @ [(now, t)]) = d @ drop (length (ts @ [(now, t)]) - k) (ts @ [(now, t)])"
  proof -
    have "length ts - k \<le> length (ts @ [(now, t)]) - k" by simp
    then have "drop (length (ts @ [(now, t)]) - k) (ts @ [(now, t)])
        = drop (length (ts @ [(now, t)]) - k - (length ts - k)) (drop (length ts - k) (ts @ [(now, t)]))"
      by (metis drop_drop le_add_diff_inverse2)
    then show thesis using that by (metis append_take_drop_id)
  qed
  ultimately show ?thesis unfolding recent_def by (metis append_assoc map_append)
qed

lemma recent_drop: "recent k ts es \<Longrightarrow> recent k ts (s # drop (length es - k) es)"
proof -
  assume "recent k ts es"
  then obtain pre where es: "es = pre @ map (\<lambda>(now, t). transcript_entry now t) (drop (length ts - k) ts)" (is "_ = pre @ ?r")
    unfolding recent_def by blast
  have "length ?r \<le> k" by simp
  then have "drop (length es - k) es = drop (length es - k) pre @ ?r" by (simp add: es)
  then show ?thesis unfolding recent_def by (metis append_Cons)
qed

lemma push_transcript_recent:
  assumes "push_transcript policy now now' es t = Some (applied, es')" "cp_enabled policy"
    and "2 \<le> cp_max_events_threshold policy" "recent (cp_max_events_threshold policy div 2) ts es"
  shows "recent (cp_max_events_threshold policy div 2) (ts @ [(now, t)]) es'"
proof -
  let ?n = "cp_max_events_threshold policy" and ?es = "es @ [transcript_entry now t]"
  have r: "recent (?n div 2) (ts @ [(now, t)]) ?es" using assms(4) by (rule recent_snoc)
  have c: "compact_memory_entries now' ?es ?n = Some (applied, es')"
    using assms(1,2) by (simp add: push_transcript_def transcript_entry_def)
  show ?thesis
  proof (cases "?n < length ?es")
    case True
    with c assms(3) obtain s where "es' = s # drop (length ?es - ?n div 2) ?es"
      by (auto simp: compact_applied simp del: length_append)
    with r show ?thesis by (metis recent_drop)
  next
    case False
    with c r show ?thesis by (simp add: compact_unchanged)
  qed
qed

lemma push_transcript_length:
  assumes "push_transcript policy now now' es t = Some (applied, es')" "cp_enabled policy"
    and "2 \<le> cp_max_events_threshold policy" "length es \<le> cp_max_events_threshold policy"
  shows "length es' \<le> cp_max_events_threshold policy"
proof -
  let ?n = "cp_max_events_threshold policy" and ?es = "es @ [transcript_entry now t]"
  have c: "compact_memory_entries now' ?es ?n = Some (applied, es')"
    using assms(1,2) by (simp add: push_transcript_def transcript_entry_def)
  have "?n div 2 + 1 \<le> ?n" using assms(3) by linarith
  with compact_length [OF c assms(3)] assms(4) c show ?thesis
    by (cases "?n < length ?es") (auto simp: compact_unchanged)
qed

lemma push_all_facts:
  assumes "push_all policy es ps = Some es'" "cp_enabled policy" "2 \<le> cp_max_events_threshold policy"
    and "length es \<le> cp_max_events_threshold policy" "recent (cp_max_events_threshold policy div 2) ts es"
  shows "length es' \<le> cp_max_events_threshold policy \<and>
    recent (cp_max_events_threshold policy div 2) (ts @ map (\<lambda>(now, _, t). (now, t)) ps) es'"
  using assms
proof (induction ps arbitrary: es ts)
  case (Cons p ps)
  obtain now now' t where p: "p = (now, now', t)" by (cases p)
  obtain applied es1 where s: "push_transcript policy now now' es t = Some (applied, es1)" "push_all policy es1 ps = Some es'"
    using Cons.prems(1) by (auto simp: p split: option.splits)
  from Cons.IH [OF s(2) Cons.prems(2,3) push_transcript_length [OF s(1) Cons.prems(2,3,4)]
      push_transcript_recent [OF s(1) Cons.prems(2,3,5)]]
  show ?case by (simp add: p)
qed simp

subsection \<open>Texts whose summaries cannot panic\<close>

lemma set_drop_ws: "set (drop_ws w s) \<subseteq> set s"
  using drop_ws_suffix [of s w] by (metis Un_upper2 set_append)

lemma set_trim: "set (trim s) \<subseteq> set s"
proof -
  have "set (trim_end t) \<subseteq> set t" for t using set_drop_ws [of ws_len_rev "rev t"] by (simp add: trim_end_def)
  moreover have "set (trim_start s) \<subseteq> set s" unfolding trim_start_def by (rule set_drop_ws)
  ultimately show ?thesis unfolding trim_def by blast
qed

definition ascii_text :: "string \<Rightarrow> bool" where
  "ascii_text s \<longleftrightarrow> list_all (\<lambda>c. byte_of c < 128) s"

definition ascii_entry :: "memory_entry \<Rightarrow> bool" where
  "ascii_entry e \<longleftrightarrow> (\<exists>t. co_parts (me_content e) = [TextPart t] \<and> ascii_text t)"

lemma ascii_text_simps [simp]:
  "ascii_text []" "ascii_text (s @ t) \<longleftrightarrow> ascii_text s \<and> ascii_text t"
  "ascii_text s \<Longrightarrow> ascii_text (take n s)" "ascii_text s \<Longrightarrow> ascii_text (trim s)"
  "ascii_text (show_nat n)"
  "list_all ascii_text ts \<Longrightarrow> ascii_text (concat ts)"
proof -
  show "ascii_text s \<Longrightarrow> ascii_text (trim s)" "ascii_text s \<Longrightarrow> ascii_text (take n s)"
    using set_trim [of s] set_take_subset [of n s] by (auto simp: ascii_text_def list_all_iff)
  have "list_all is_dec_digit (show_nat n)" using parse_show_nat by blast
  then show "ascii_text (show_nat n)" by (auto simp: ascii_text_def list_all_iff is_dec_digit_def)
qed (auto simp: ascii_text_def list_all_iff)

lemma join_with_ascii: "list_all ascii_text ts \<Longrightarrow> ascii_text sep \<Longrightarrow> ascii_text (join_with sep ts)"
  by (auto simp: join_with_def list_all_iff split: list.split intro!: ascii_text_simps(6))

lemma truncate_ascii: "ascii_text s \<Longrightarrow> \<exists>t. string_truncate k s = Some t \<and> ascii_text t"
  by (auto simp: string_truncate_def is_char_boundary_def ascii_text_def list_all_length) (metis not_le)

lemma summary_text_ascii:
  assumes "list_all ascii_text ts"
  shows "\<exists>t. summary_text ts n = Some t \<and> ascii_text t"
proof -
  have lit: "ascii_text ''compaction_summary: compacted ''" "ascii_text '' events''" "ascii_text '' ''"
    "ascii_text ''compaction_summary: ''"
    by (simp_all add: ascii_text_def byte_of_def)
  have fin: "\<exists>t. (if 4096 < length s then string_truncate 4096 s else Some s) = Some t \<and> ascii_text t"
    if "ascii_text s" for s
    using truncate_ascii [OF that] that by simp
  show ?thesis
    unfolding summary_text_def Let_def
    by (rule fin) (simp add: lit join_with_ascii [OF assms] del: append_Cons append_Nil)
qed

lemma ascii_chunks: "list_all ascii_entry es \<Longrightarrow> list_all ascii_text (List.map_filter (summary_chunk \<circ> me_content) es)"
  by (induction es) (auto simp: ascii_entry_def summary_chunk_def first_text_def part_text_def Let_def)

lemma compact_ascii:
  assumes "list_all ascii_entry es"
  shows "\<exists>applied es'. compact_memory_entries now es n = Some (applied, es') \<and> list_all ascii_entry es'"
proof (cases "2 \<le> n \<and> n < length es")
  case True
  have "list_all ascii_entry (take k es)" "list_all ascii_entry (drop k es)" for k
    using assms by (meson list_all_iff in_set_takeD in_set_dropD)+
  moreover from this(1) obtain s where "summary_text (List.map_filter (summary_chunk \<circ> me_content)
      (take (length es - n div 2) es)) (length es - n div 2) = Some s" "ascii_text s"
    using summary_text_ascii [OF ascii_chunks] by blast
  ultimately show ?thesis
    using True by (auto simp: compact_applied ascii_entry_def text_content_def)
next
  case False
  with assms show ?thesis using compact_unchanged [of n es now] by auto
qed

lemma push_transcript_ascii:
  assumes "list_all ascii_entry es" "ascii_text t"
  shows "\<exists>applied es'. push_transcript policy now now' es t = Some (applied, es') \<and> list_all ascii_entry es'"
proof -
  have es: "list_all ascii_entry (es @ [transcript_entry now t])"
    using assms by (simp add: ascii_entry_def transcript_entry_def text_content_def)
  with compact_ascii [OF es, of now' "cp_max_events_threshold policy"] show ?thesis
    by (auto simp: push_transcript_def transcript_entry_def Let_def)
qed

lemma push_all_ascii:
  "list_all ascii_entry es \<Longrightarrow> list_all (\<lambda>(_, _, t). ascii_text t) ps \<Longrightarrow> push_all policy es ps \<noteq> None"
proof (induction ps arbitrary: es)
  case (Cons p ps)
  obtain now now' t where p: "p = (now, now', t)" by (cases p)
  with Cons.prems push_transcript_ascii [OF Cons.prems(1), of t policy now now'] Cons.IH
  show ?case by (auto simp: p)
qed simp

lemma push_all_panic:
  "push_all policy es ps = None \<Longrightarrow> \<exists>qs now now' t rest es'. ps = qs @ (now, now', t) # rest \<and>
     push_all policy es qs = Some es' \<and> push_transcript policy now now' es' t = None"
proof (induction ps arbitrary: es)
  case (Cons p ps)
  obtain now now' t where p: "p = (now, now', t)" by (cases p)
  show ?case
  proof (cases "push_transcript policy now now' es t")
    case None
    then show ?thesis unfolding p by (intro exI [of _ "[]"]) auto
  next
    case (Some r)
    then obtain applied es1 where s: "push_transcript policy now now' es t = Some (applied, es1)" by (cases r) simp
    then have "push_all policy es1 ps = None" using Cons.prems by (simp add: p)
    from Cons.IH [OF this] obtain qs m m' u rest es' where "ps = qs @ (m, m', u) # rest"
      "push_all policy es1 qs = Some es'" "push_transcript policy m m' es' u = None" by blast
    then have "p # ps = ((now, now', t) # qs) @ (m, m', u) # rest" "push_all policy es ((now, now', t) # qs) = Some es'"
      using s by (simp_all add: p)
    with \<open>push_transcript policy m m' es' u = None\<close> show ?thesis by blast
  qed
qed simp

subsection \<open>A text whose summary is cut inside a character\<close>

definition accented :: string where
  "accented = ''a'' @ concat (replicate 2100 [CHR 0xC3, CHR 0xA9]) @ ''z''"

lemma nth_concat_pairs: "k < n \<Longrightarrow> concat (replicate n [a, b]) ! (2 * k + 1) = b"
  by (induction k arbitrary: n) (case_tac n; simp)+

lemma length_concat_pairs: "length (concat (replicate n [a, b])) = 2 * n"
  by (induction n) simp_all

lemma trim_accented: "trim accented = accented"
  by (rule trim_fix) (simp_all add: accented_def ws_len_ascii ws_len_rev_ascii ws1_def byte_of_def)

subsection \<open>Properties\<close>


text \<open>a summary may panic. The summary is cut at byte 4096, and \<open>String::truncate\<close> panics when that is
  inside a character: three transcripts, the first one a letter and 2100 accented letters, are enough.\<close>

theorem compaction_panics:
  "push_all \<lparr> cp_enabled = True, cp_max_events_threshold = 2 \<rparr> [] [(0, 0, accented), (1, 1, u), (2, 2, v)] = None"
proof -
  let ?e = "transcript_entry 0 accented" and ?f = "transcript_entry 1 u" and ?g = "transcript_entry 2 v"
  have chunk: "summary_chunk (me_content ?e) = Some accented"
    by (simp add: summary_chunk_def transcript_entry_def text_content_def first_text_def part_text_def
        trim_accented) (simp add: accented_def)
  obtain rest where join: "join_with '' '' (List.map_filter (summary_chunk \<circ> me_content) [?e, ?f]) = accented @ rest"
    by (auto simp: chunk join_with_def split: option.split)
  let ?s = "''compaction_summary: '' @ accented @ rest"
  have pre: "?s = (''compaction_summary: a'' @ concat (replicate 2100 [CHR 0xC3, CHR 0xA9])) @ ''z'' @ rest"
    by (simp add: accented_def)
  have len: "length (''compaction_summary: a'' @ concat (replicate 2100 [CHR 0xC3, CHR 0xA9])) = 4221"
    by (simp only: length_append length_concat_pairs) simp
  have "?s ! 4096 = (''compaction_summary: a'' @ concat (replicate 2100 [CHR 0xC3, CHR 0xA9])) ! 4096"
    unfolding pre nth_append [of _ "''z'' @ rest"] len by simp
  also have "\<dots> = concat (replicate 2100 [CHR 0xC3, CHR 0xA9]) ! (2 * 2037 + 1)"
    by (subst nth_append) simp
  finally have "?s ! 4096 = CHR 0xA9" using nth_concat_pairs [of 2037 2100] by simp
  moreover have "4096 < length ?s" unfolding pre length_append [of _ "''z'' @ rest"] len by simp
  ultimately have "string_truncate 4096 ?s = None" "4096 < length ?s"
    by (auto simp: string_truncate_def is_char_boundary_def byte_of_def)
  moreover have "List.map_filter (summary_chunk \<circ> me_content) [?e, ?f] \<noteq> []"
    by (simp add: chunk split: option.split)
  ultimately have "summary_text (List.map_filter (summary_chunk \<circ> me_content) [?e, ?f]) 2 = None"
    by (simp only: summary_text_def join Let_def if_True if_False)
  then have "compact_memory_entries 2 [?e, ?f, ?g] 2 = None" by (simp add: compact_applied numeral_2_eq_2)
  then show ?thesis
    by (simp add: push_transcript_def compact_unchanged transcript_entry_def)
qed

text \<open>a compaction replaces exactly what it sums up. When the events so far are summed up into a
  compaction event and further events follow, the memory of the session is the summary and the entries
  of the further events, and one more compaction is counted.\<close>

theorem snapshot_after_compaction:
  assumes "summarize_events now events = Some (Some c)"
    and "list_all (\<lambda>e. se_timestamp e \<le> se_timestamp (last events)) events"
    and "list_all (\<lambda>e. se_timestamp (last events) < se_timestamp e \<and> se_compaction e = None) later"
  shows "memory_entries_from_session_events (events @ c # later) =
      \<lparr> me_content = the (se_content c), me_author = ''system'', me_timestamp = se_timestamp (last events) \<rparr>
      # memory_entries_from_session_events later \<and>
    current_compaction_count (events @ c # later) = current_compaction_count events + 1"
proof -
  obtain t where c: "se_content c = Some t"
    "se_compaction c = Some \<lparr> ec_start_timestamp = se_timestamp (hd events),
        ec_end_timestamp = se_timestamp (last events), ec_compacted_content = t \<rparr>"
    using assms(1) by (auto simp: summarize_events_def Let_def split: if_splits)
  have later: "List.map_filter se_compaction (rev later) = []" "filter (\<lambda>e. se_compaction e \<noteq> None) later = []"
    using assms(3) by (auto simp: List.map_filter_def list_all_iff filter_empty_conv)
  then have latest: "latest_compaction (events @ c # later) = se_compaction c" "latest_compaction later = None"
    by (simp_all add: latest_compaction_def map_filter_append c)
  let ?b = "Some (se_timestamp (last events))"
  have "List.map_filter (entry_of_event ?b) events = []"
    using assms(2) by (auto simp: List.map_filter_def list_all_iff filter_empty_conv entry_of_event_def)
  moreover have "entry_of_event ?b c = None" by (simp add: entry_of_event_def c)
  moreover have "List.map_filter (entry_of_event ?b) later = List.map_filter (entry_of_event None) later"
    using assms(3) by (intro map_filter_cong) (auto simp: list_all_iff entry_of_event_def dest!: bspec)
  ultimately show ?thesis
    by (simp add: memory_entries_from_session_events_def latest map_filter_append c
        current_compaction_count_def later [simplified])
qed

subsection \<open>Examples\<close>


theorem snapshot_after_compaction_witness:
  "\<exists>c. summarize_events 9 [\<lparr> se_author = ''u'', se_timestamp = 1, se_content = None, se_compaction = None \<rparr>] = Some (Some c) \<and>
     memory_entries_from_session_events [\<lparr> se_author = ''u'', se_timestamp = 1, se_content = None, se_compaction = None \<rparr>, c]
       = [\<lparr> me_content = the (se_content c), me_author = ''system'', me_timestamp = 1 \<rparr>]"
proof -
  let ?es = "[\<lparr> se_author = ''u'', se_timestamp = 1, se_content = None, se_compaction = None \<rparr>]"
  have "length (show_nat 1) = 1" by (simp add: show_nat.simps)
  then obtain t where "summary_text [] 1 = Some t" by (auto simp: summary_text_def)
  then have "\<exists>c. summarize_events 9 ?es = Some (Some c)"
    by (simp add: summarize_events_def Let_def)
  then obtain c where c: "summarize_events 9 ?es = Some (Some c)" by blast
  from snapshot_after_compaction [OF c, of "[]"] c show ?thesis
    by (auto simp: memory_entries_from_session_events_def latest_compaction_def)
qed

end
