(* ===== verification/Utf8.thy ===== *)
theory Utf8
  imports Prelude
begin

section \<open>UTF-8\<close>

text \<open>
  \<open>String::from_utf8_lossy\<close> and \<open>chars().count()\<close> of the standard library, which the tools of
  \<open>liveclaw-app/src/tools.rs\<close> call, on byte strings. One step reads one character or the longest
  piece of a broken one, which is replaced by U+FFFD.
\<close>

definition utf8_cont :: "char \<Rightarrow> bool" where
  "utf8_cont c \<longleftrightarrow> 128 \<le> byte_of c \<and> byte_of c < 192"

definition in_range :: "nat \<Rightarrow> nat \<Rightarrow> char \<Rightarrow> bool" where
  "in_range a b c \<longleftrightarrow> a \<le> byte_of c \<and> byte_of c \<le> b"

definition utf8_second3 :: "char \<Rightarrow> char \<Rightarrow> bool" where
  "utf8_second3 a b \<longleftrightarrow>
     (byte_of a = 224 \<and> in_range 160 191 b) \<or> (in_range 225 236 a \<and> in_range 128 191 b) \<or>
     (byte_of a = 237 \<and> in_range 128 159 b) \<or> (in_range 238 239 a \<and> in_range 128 191 b)"

definition utf8_second4 :: "char \<Rightarrow> char \<Rightarrow> bool" where
  "utf8_second4 a b \<longleftrightarrow>
     (byte_of a = 240 \<and> in_range 144 191 b) \<or> (in_range 241 243 a \<and> in_range 128 191 b) \<or>
     (byte_of a = 244 \<and> in_range 128 143 b)"

text \<open>Whether a string starts with a whole character, and how many bytes are read.\<close>

definition utf8_step :: "string \<Rightarrow> bool \<times> nat" where
  "utf8_step s =
     (case s of
        [] \<Rightarrow> (False, 0)
      | a # r \<Rightarrow>
          if byte_of a < 128 then (True, 1)
          else if in_range 194 223 a then
            (case r of b # _ \<Rightarrow> (if utf8_cont b then (True, 2) else (False, 1)) | [] \<Rightarrow> (False, 1))
          else if in_range 224 239 a then
            (case r of [] \<Rightarrow> (False, 1)
             | b # r \<Rightarrow>
                 if \<not> utf8_second3 a b then (False, 1)
                 else (case r of c # _ \<Rightarrow> (if utf8_cont c then (True, 3) else (False, 2)) | [] \<Rightarrow> (False, 2)))
          else if in_range 240 244 a then
            (case r of [] \<Rightarrow> (False, 1)
             | b # r \<Rightarrow>
                 if \<not> utf8_second4 a b then (False, 1)
                 else (case r of [] \<Rightarrow> (False, 2)
                       | c # r \<Rightarrow>
                           if \<not> utf8_cont c then (False, 2)
                           else (case r of d # _ \<Rightarrow> (if utf8_cont d then (True, 4) else (False, 3))
                                 | [] \<Rightarrow> (False, 3))))
          else (False, 1))"

definition replacement_char :: string where
  "replacement_char = [CHR 0xEF, CHR 0xBF, CHR 0xBD]"

lemma utf8_step_pos: "s \<noteq> [] \<Longrightarrow> 0 < snd (utf8_step s)"
  by (auto simp: utf8_step_def split: list.splits)

lemma utf8_step_le: "snd (utf8_step s) \<le> length s"
  by (auto simp: utf8_step_def split: list.splits)

function from_utf8_lossy :: "string \<Rightarrow> string" where
  "from_utf8_lossy s =
     (if s = [] then []
      else (if fst (utf8_step s) then take (snd (utf8_step s)) s else replacement_char) @
           from_utf8_lossy (drop (snd (utf8_step s)) s))"
  by pat_completeness auto
termination
  by (relation "measure length") (auto simp: utf8_step_pos)

function valid_utf8 :: "string \<Rightarrow> bool" where
  "valid_utf8 s =
     (if s = [] then True else fst (utf8_step s) \<and> valid_utf8 (drop (snd (utf8_step s)) s))"
  by pat_completeness auto
termination
  by (relation "measure length") (auto simp: utf8_step_pos)

declare from_utf8_lossy.simps [simp del] valid_utf8.simps [simp del]

text \<open>The characters of a string are its bytes that do not continue one.\<close>

definition chars_count :: "string \<Rightarrow> nat" where
  "chars_count s = length (filter (\<lambda>c. \<not> utf8_cont c) s)"

subsection \<open>Facts\<close>

lemma utf8_step_whole:
  "utf8_step s = (True, n) \<Longrightarrow> utf8_step (take n s @ t) = (True, n)"
  by (auto simp: utf8_step_def split: list.splits if_splits)

lemma valid_utf8_take:
  assumes "utf8_step s = (True, n)"
  shows "valid_utf8 (take n s @ t) \<longleftrightarrow> valid_utf8 t"
proof -
  have n: "0 < n" "n \<le> length s"
    using assms utf8_step_pos [of s] utf8_step_le [of s] by (auto simp: utf8_step_def split: list.splits)
  then have "take n s @ t \<noteq> []" by auto
  with n show ?thesis using utf8_step_whole [OF assms, of t] by (subst valid_utf8.simps) auto
qed

lemma valid_replacement: "valid_utf8 (replacement_char @ t) \<longleftrightarrow> valid_utf8 t"
proof -
  have "utf8_step (replacement_char @ u) = (True, 3)" for u
    by (simp add: replacement_char_def utf8_step_def in_range_def utf8_second3_def utf8_cont_def byte_of_def)
  from valid_utf8_take [OF this, of "[]" t] show ?thesis by (simp add: replacement_char_def)
qed

lemma lossy_valid: "valid_utf8 (from_utf8_lossy s)"
proof (induction s rule: from_utf8_lossy.induct)
  case (1 s)
  show ?case
  proof (cases "s = []")
    case True
    then show ?thesis by (simp add: from_utf8_lossy.simps valid_utf8.simps)
  next
    case False
    obtain ok n where step: "utf8_step s = (ok, n)" by fastforce
    with 1 False show ?thesis
      by (subst from_utf8_lossy.simps) (cases ok; simp add: valid_utf8_take valid_replacement)
  qed
qed

lemma lossy_of_valid: "valid_utf8 s \<Longrightarrow> from_utf8_lossy s = s"
proof (induction s rule: from_utf8_lossy.induct)
  case (1 s)
  then show ?case by (subst from_utf8_lossy.simps) (auto simp: valid_utf8.simps [of s])
qed

end
