(* ===== verification/Floats.thy ===== *)
theory Floats
  imports Prelude
begin

section \<open>Floating point numbers\<close>

text \<open>
  The \<open>f64\<close> of the language, as far as \<open>liveclaw-app/src/tools.rs\<close> uses it: the conversion of an integer and the
  addition, on the 64 bits of a number. Every finite \<open>f64\<close> is an integer multiple of 2 to the power -1074, so its
  value is an integer here, counted in that unit; a result is the exact one, rounded once, to the nearest number and to
  the even one of two. \<open>None\<close> stands for a result that is not finite.
\<close>

subsection \<open>Value and rounding\<close>

definition f64_limit :: nat where
  "f64_limit = 2047 * 2 ^ 52"

definition f64_magnitude :: "nat \<Rightarrow> nat" where
  "f64_magnitude p = (let e = p div 2 ^ 52; m = p mod 2 ^ 52 in if e = 0 then m else (2 ^ 52 + m) * 2 ^ (e - 1))"

definition f64_negative :: "64 word \<Rightarrow> bool" where
  "f64_negative b \<longleftrightarrow> 2 ^ 63 \<le> unat b"

definition f64_finite :: "64 word \<Rightarrow> bool" where
  "f64_finite b \<longleftrightarrow> unat b mod 2 ^ 63 < f64_limit"

definition f64_units :: "64 word \<Rightarrow> int" where
  "f64_units b = (let k = int (f64_magnitude (unat b mod 2 ^ 63)) in if f64_negative b then - k else k)"

fun bit_len :: "nat \<Rightarrow> nat" where
  "bit_len n = (if n = 0 then 0 else Suc (bit_len (n div 2)))"

declare bit_len.simps [simp del]

text \<open>The quotient by \<open>2 ^ s\<close>, to the nearest and to the even one of two.\<close>

definition round_quotient :: "nat \<Rightarrow> nat \<Rightarrow> nat" where
  "round_quotient k s =
     (let q = k div 2 ^ s; r = k mod 2 ^ s
      in if 2 ^ s < 2 * r \<or> (2 * r = 2 ^ s \<and> odd q) then q + 1 else q)"

text \<open>The pattern of exponent and fraction for a magnitude: a carry out of the fraction goes into the exponent.\<close>

definition f64_round :: "nat \<Rightarrow> nat" where
  "f64_round k = (let s = bit_len k - 53 in if s = 0 then k else s * 2 ^ 52 + round_quotient k s)"

definition f64_make :: "bool \<Rightarrow> nat \<Rightarrow> 64 word option" where
  "f64_make negative k =
     (let p = f64_round k
      in if p < f64_limit then Some (of_nat (p + (if negative then 2 ^ 63 else 0))) else None)"

text \<open>The number one, in units.\<close>

definition f64_one :: nat where
  "f64_one = 2 ^ 1074"

definition f64_of_int :: "int \<Rightarrow> 64 word option" where
  "f64_of_int i = f64_make (i < 0) (nat \<bar>i\<bar> * f64_one)"

text \<open>The sum of two zeros, and of a number and its opposite, is the positive zero but for two negative zeros.\<close>

definition f64_add :: "64 word \<Rightarrow> 64 word \<Rightarrow> 64 word option" where
  "f64_add x y =
     (if f64_finite x \<and> f64_finite y
      then (let v = f64_units x + f64_units y
            in f64_make (if v = 0 then f64_negative x \<and> f64_negative y else v < 0) (nat \<bar>v\<bar>))
      else None)"

subsection \<open>Facts\<close>

lemma bit_len_bounds: "k \<noteq> 0 \<Longrightarrow> 2 ^ (bit_len k - 1) \<le> k \<and> k < 2 ^ bit_len k"
proof (induction k rule: bit_len.induct)
  case (1 n)
  show ?case
  proof (cases "n div 2 = 0")
    case True
    with 1(2) have "n = 1" by simp
    then show ?thesis by (simp add: bit_len.simps)
  next
    case False
    from 1(1) [OF 1(2) False] have IH: "2 ^ (bit_len (n div 2) - 1) \<le> n div 2" "n div 2 < 2 ^ bit_len (n div 2)" by auto
    have b: "bit_len n = Suc (bit_len (n div 2))" using 1(2) by (simp add: bit_len.simps [of n])
    have "bit_len (n div 2) \<noteq> 0" using False by (simp add: bit_len.simps [of "n div 2"])
    then obtain j where j: "bit_len (n div 2) = Suc j" using not0_implies_Suc by blast
    show ?thesis using IH unfolding b j by simp linarith
  qed
qed

lemma bit_len_le:
  assumes "k < 2 ^ n"
  shows "bit_len k \<le> n"
proof (cases "k = 0")
  case False
  have "(2 :: nat) ^ (bit_len k - 1) < 2 ^ n" using bit_len_bounds [OF False] assms by linarith
  then show ?thesis by (simp add: power_strict_increasing_iff)
qed (simp add: bit_len.simps)

text \<open>No multiple of the power is nearer than the rounded quotient.\<close>

lemma nearest_multiple:
  fixes k q r P t v :: int
  assumes k: "k = q * P + r" "0 \<le> r" "r < P" and v: "v = q * P + P \<and> P \<le> 2 * r \<or> v = q * P \<and> 2 * r \<le> P"
  shows "\<bar>v - k\<bar> \<le> \<bar>t * P - k\<bar>"
proof (cases "t \<le> q")
  case True
  have "t * P \<le> q * P" using True k(2,3) by (intro mult_right_mono) simp_all
  with k v show ?thesis by linarith
next
  case False
  have "(q + 1) * P \<le> t * P" using False k(2,3) by (intro mult_right_mono) simp_all
  then have "q * P + P \<le> t * P" by (simp only: distrib_right mult_1)
  with k v show ?thesis by linarith
qed

lemma nearest_multiple_nat:
  fixes k q r P t v :: nat
  assumes "k = q * P + r" "r < P" "v = q * P + P \<and> P \<le> 2 * r \<or> v = q * P \<and> 2 * r \<le> P"
  shows "\<bar>int v - int k\<bar> \<le> \<bar>int (t * P) - int k\<bar>"
proof -
  have "int k = int q * int P + int r" using assms(1) by simp
  moreover have "0 \<le> int r" "int r < int P" using assms(2) by simp_all
  moreover have "int v = int q * int P + int P \<and> int P \<le> 2 * int r \<or> int v = int q * int P \<and> 2 * int r \<le> int P"
    using assms(3) by auto
  ultimately show ?thesis unfolding of_nat_mult by (rule nearest_multiple)
qed

lemma round_quotient_nearest: "\<bar>int (round_quotient k s * 2 ^ s) - int k\<bar> \<le> \<bar>int (t * 2 ^ s) - int k\<bar>"
proof (rule nearest_multiple_nat)
  show "k = k div 2 ^ s * 2 ^ s + k mod 2 ^ s" by (simp only: div_mult_mod_eq)
  show "k mod 2 ^ s < 2 ^ s" by simp
  show "round_quotient k s * 2 ^ s = k div 2 ^ s * 2 ^ s + 2 ^ s \<and> 2 ^ s \<le> 2 * (k mod 2 ^ s) \<or>
      round_quotient k s * 2 ^ s = k div 2 ^ s * 2 ^ s \<and> 2 * (k mod 2 ^ s) \<le> 2 ^ s"
    by (simp only: round_quotient_def Let_def distrib_right mult_1 split: if_split) linarith
qed

lemma round_quotient_bounds: "k div 2 ^ s \<le> round_quotient k s" "round_quotient k s \<le> k div 2 ^ s + 1"
  by (simp_all add: round_quotient_def Let_def)

lemma f64_magnitude_eq:
  "p div 2 ^ 52 = e \<Longrightarrow> p mod 2 ^ 52 = m \<Longrightarrow> f64_magnitude p = (if e = 0 then m else (2 ^ 52 + m) * 2 ^ (e - 1))"
  by (simp only: f64_magnitude_def Let_def)

lemma f64_magnitude_small: "k < 2 ^ 53 \<Longrightarrow> f64_magnitude k = k"
proof -
  assume "k < 2 ^ 53"
  then have "k div 2 ^ 52 < 2" by (simp add: div_less_iff_less_mult)
  then have "k div 2 ^ 52 = 0 \<or> k div 2 ^ 52 = 1" by linarith
  then show ?thesis
  proof
    assume e: "k div 2 ^ 52 = 1"
    have "k = 2 ^ 52 + k mod 2 ^ 52" using div_mult_mod_eq [of k "2 ^ 52"] unfolding e by simp
    then show ?thesis by (simp add: f64_magnitude_def e Let_def)
  next
    assume e: "k div 2 ^ 52 = 0"
    have "k = k mod 2 ^ 52" using div_mult_mod_eq [of k "2 ^ 52"] unfolding e by simp
    then show ?thesis by (simp add: f64_magnitude_def e Let_def)
  qed
qed

text \<open>The pattern of an exponent and a fraction in full, a carry included.\<close>

lemma f64_magnitude_pattern:
  assumes "2 ^ 52 \<le> q" "q \<le> 2 ^ 53"
  shows "f64_magnitude (s * 2 ^ 52 + q) = q * 2 ^ s"
proof (cases "q = 2 ^ 53")
  case True
  have "s * 2 ^ 52 + q = (s + 2) * 2 ^ 52" by (simp add: True)
  then show ?thesis by (simp add: f64_magnitude_def True Let_def)
next
  case False
  define m where "m = q - 2 ^ 52"
  have m: "q = 2 ^ 52 + m" "m < 2 ^ 52" using assms False by (simp_all add: m_def)
  have at: "((s + 1) * P + m) div P = s + 1 \<and> ((s + 1) * P + m) mod P = m" if "m < P" for P :: nat
    using that by (simp only: div_mult_self3 mod_mult_self3) simp
  have p: "s * 2 ^ 52 + q = (s + 1) * 2 ^ 52 + m" by (simp add: m(1))
  have "f64_magnitude (s * 2 ^ 52 + q) = (2 ^ 52 + m) * 2 ^ (s + 1 - 1)"
    unfolding p using f64_magnitude_eq [OF at [OF m(2), THEN conjunct1] at [OF m(2), THEN conjunct2]] by (simp only: add_is_0 one_neq_zero simp_thms if_False)
  then show ?thesis by (simp only: m(1) add_diff_cancel_right')
qed

lemma f64_round_parts:
  assumes "2 ^ 53 \<le> k" "s = bit_len k - 53"
  shows "0 < s" "2 ^ 52 * 2 ^ s \<le> k" "f64_magnitude (f64_round k) = round_quotient k s * 2 ^ s"
proof -
  have "k \<noteq> 0" using assms(1) by auto
  note b = bit_len_bounds [OF this]
  have "(2 :: nat) ^ 53 < 2 ^ bit_len k" using b assms(1) by linarith
  then have len: "53 < bit_len k" using power_strict_increasing_iff [of "2 :: nat" 53 "bit_len k"] by simp
  then show s: "0 < s" using assms(2) by simp
  have l: "bit_len k = s + 53" using len assms(2) by simp
  show low: "2 ^ 52 * 2 ^ s \<le> k" using b unfolding l by (simp add: power_add mult.commute)
  have "k < 2 ^ 53 * 2 ^ s" using b unfolding l by (simp add: power_add mult.commute)
  then have "k div 2 ^ s < 2 ^ 53" by (simp add: div_less_iff_less_mult)
  moreover have "2 ^ 52 \<le> k div 2 ^ s" using low by (simp add: less_eq_div_iff_mult_less_eq)
  ultimately have "2 ^ 52 \<le> round_quotient k s" "round_quotient k s \<le> 2 ^ 53"
    using round_quotient_bounds [of k s] by linarith+
  from f64_magnitude_pattern [OF this, of s] show "f64_magnitude (f64_round k) = round_quotient k s * 2 ^ s"
    using s by (simp only: f64_round_def Let_def assms(2) [symmetric] split: if_split) simp
qed

lemma f64_round_small: "k < 2 ^ 53 \<Longrightarrow> f64_round k = k"
  using bit_len_le [of k 53] by (simp add: f64_round_def)

text \<open>No number is nearer than the rounded one.\<close>

lemma f64_round_nearest: "\<bar>int (f64_magnitude (f64_round k)) - int k\<bar> \<le> \<bar>int (f64_magnitude p) - int k\<bar>"
proof (cases "k < 2 ^ 53")
  case True
  then show ?thesis by (simp add: f64_round_small f64_magnitude_small)
next
  case False
  define s where "s = bit_len k - 53"
  note r = f64_round_parts [OF _ s_def] and near = round_quotient_nearest [of k s]
  let ?e = "p div 2 ^ 52" and ?m = "p mod 2 ^ 52"
  show ?thesis
  proof (cases "s < ?e")
    case True
    then obtain d where d: "?e - 1 = s + d" by (metis Suc_diff_1 Suc_leI diff_Suc_1 le_Suc_ex less_Suc_eq_le less_imp_Suc_add)
    have "f64_magnitude p = (2 ^ 52 + ?m) * 2 ^ d * 2 ^ s"
      using True d power_add [of "2 :: nat" s d] by (simp only: f64_magnitude_def Let_def) (simp add: mult.commute)
    then show ?thesis using near [of "(2 ^ 52 + ?m) * 2 ^ d"] r False by simp
  next
    case small: False
    have "f64_magnitude p \<le> 2 ^ 53 * 2 ^ (s - 1)"
    proof -
      have "?m < 2 ^ 52" by simp
      then have "2 ^ 52 + ?m \<le> 2 ^ 53" by simp
      moreover have "(2 :: nat) ^ (?e - 1) \<le> 2 ^ (s - 1)" using small by (intro power_increasing) auto
      ultimately have "(2 ^ 52 + ?m) * 2 ^ (?e - 1) \<le> 2 ^ 53 * 2 ^ (s - 1)" by (rule mult_le_mono)
      moreover have "?m \<le> 2 ^ 53 * 2 ^ (s - 1)"
        using \<open>2 ^ 52 + ?m \<le> 2 ^ 53\<close> by (metis add_leD2 mult_le_mono nat_mult_1_right one_le_numeral one_le_power)
      ultimately show ?thesis by (simp only: f64_magnitude_eq [OF refl refl] split: if_split) simp
    qed
    also have "\<dots> = 2 ^ 52 * 2 ^ s" using r(1) False by (cases s) simp_all
    finally have "\<bar>int (2 ^ 52 * 2 ^ s) - int k\<bar> \<le> \<bar>int (f64_magnitude p) - int k\<bar>" using r(2) False by linarith
    with near [of "2 ^ 52"] show ?thesis using r(3) False by linarith
  qed
qed

lemma f64_make_Some:
  assumes "f64_make negative k = Some z"
  shows "f64_finite z" "f64_negative z = negative"
    "f64_units z = (if negative then - int (f64_magnitude (f64_round k)) else int (f64_magnitude (f64_round k)))"
proof -
  let ?p = "f64_round k"
  from assms have p: "?p < f64_limit" and z: "z = of_nat (?p + (if negative then 2 ^ 63 else 0))"
    by (simp_all add: f64_make_def Let_def split: if_splits)
  have small: "?p < 2 ^ 63" using p by (simp add: f64_limit_def)
  have u: "unat z = ?p + (if negative then 2 ^ 63 else 0)" using small unfolding z by (subst unat_of_nat) simp
  have m: "unat z mod 2 ^ 63 = ?p" using small unfolding u by simp
  show "f64_finite z" "f64_negative z = negative"
    using p small by (simp_all only: f64_finite_def f64_negative_def m u) auto
  then show "f64_units z = (if negative then - int (f64_magnitude ?p) else int (f64_magnitude ?p))"
    by (simp only: f64_units_def Let_def m)
qed

lemma f64_units_magnitude: "\<exists>p. \<bar>f64_units w\<bar> = int (f64_magnitude p)"
  by (intro exI [of _ "unat w mod 2 ^ 63"]) (simp add: f64_units_def Let_def)

text \<open>The sum is a number nearest to the exact sum.\<close>

theorem f64_add_nearest:
  assumes "f64_add x y = Some z"
  shows "f64_finite z \<and> \<bar>f64_units z - (f64_units x + f64_units y)\<bar> \<le> \<bar>f64_units w - (f64_units x + f64_units y)\<bar>"
proof -
  let ?v = "f64_units x + f64_units y"
  from assms have m: "f64_make (if ?v = 0 then f64_negative x \<and> f64_negative y else ?v < 0) (nat \<bar>?v\<bar>) = Some z"
    by (simp add: f64_add_def Let_def split: if_splits)
  obtain p where p: "\<bar>f64_units w\<bar> = int (f64_magnitude p)" using f64_units_magnitude by blast
  define r where "r = int (f64_magnitude (f64_round (nat \<bar>?v\<bar>)))"
  have r0: "0 \<le> r" by (simp add: r_def)
  have near: "\<bar>r - \<bar>?v\<bar>\<bar> \<le> \<bar>\<bar>f64_units w\<bar> - \<bar>?v\<bar>\<bar>"
    using f64_round_nearest [of "nat \<bar>?v\<bar>" p] unfolding p r_def by simp
  have zero: "r = 0" if "?v = 0" unfolding r_def that by (simp add: f64_round_small f64_magnitude_small)
  have "f64_units z = (if ?v < 0 then - r else r)"
    using f64_make_Some(3) [OF m] zero unfolding r_def [symmetric] by (auto split: if_splits)
  then have "\<bar>f64_units z - ?v\<bar> = \<bar>r - \<bar>?v\<bar>\<bar>" by (simp split: if_splits)
  also note near
  also have "\<bar>\<bar>f64_units w\<bar> - \<bar>?v\<bar>\<bar> \<le> \<bar>f64_units w - ?v\<bar>" by linarith
  finally show ?thesis using f64_make_Some(1) [OF m] by simp
qed

subsection \<open>Integers\<close>

lemma round_quotient_multiple: "round_quotient (a * 2 ^ s) s = a"
  by (simp add: round_quotient_def Let_def)

lemma f64_round_exact:
  assumes "q < 2 ^ 53"
  shows "f64_magnitude (f64_round (q * 2 ^ n)) = q * 2 ^ n"
proof (cases "q * 2 ^ n < 2 ^ 53")
  case True
  then show ?thesis by (simp add: f64_round_small f64_magnitude_small)
next
  case False
  define s where "s = bit_len (q * 2 ^ n) - 53"
  have "q * 2 ^ n < 2 ^ (53 + n)" unfolding power_add using assms by (intro mult_strict_right_mono) simp_all
  then have "s \<le> n" using bit_len_le unfolding s_def by fastforce
  then have "q * 2 ^ n = q * 2 ^ (n - s) * 2 ^ s" by (simp flip: power_add)
  with f64_round_parts(3) [OF _ s_def] False show ?thesis by (metis linorder_not_less round_quotient_multiple)
qed

lemma f64_round_limit:
  assumes "k < 2 ^ 1138"
  shows "f64_round k < f64_limit"
proof (cases "k < 2 ^ 53")
  case True
  then show ?thesis by (simp add: f64_round_small f64_limit_def)
next
  case False
  define s where "s = bit_len k - 53"
  have "k \<noteq> 0" using False by auto
  have s: "s \<le> 1085" using bit_len_le [OF assms] by (simp add: s_def)
  have "k < 2 ^ bit_len k" "bit_len k \<le> s + 53" using bit_len_bounds [OF \<open>k \<noteq> 0\<close>] by (simp_all add: s_def)
  then have "k < 2 ^ (s + 53)" by (meson less_le_trans one_le_numeral power_increasing)
  then have "k < 2 ^ 53 * 2 ^ s" by (simp only: power_add mult.commute)
  then have "k div 2 ^ s < 2 ^ 53" by (simp only: div_less_iff_less_mult zero_less_power zero_less_numeral)
  then have "round_quotient k s \<le> 2 ^ 53" using round_quotient_bounds(2) [of k s] by linarith
  then have "s * 2 ^ 52 + round_quotient k s \<le> 1085 * 2 ^ 52 + 2 ^ 53"
    using s by (intro add_mono mult_right_mono) simp_all
  moreover have "k < 2 ^ 53 \<or> f64_round k = s * 2 ^ 52 + round_quotient k s \<or> s = 0"
    by (simp add: f64_round_def Let_def flip: s_def)
  moreover have "s \<noteq> 0" using f64_round_parts(1) [OF _ s_def] False by simp
  ultimately show ?thesis using False by (simp add: f64_limit_def)
qed

lemma f64_of_int_exact:
  assumes "\<bar>i\<bar> \<le> 2 ^ 53"
  obtains x where "f64_of_int i = Some x" "f64_finite x" "f64_negative x = (i < 0)" "f64_units x = i * int f64_one"
proof -
  let ?k = "nat \<bar>i\<bar> * f64_one"
  have le: "nat \<bar>i\<bar> \<le> 2 ^ 53" using assms by simp
  then have "?k \<le> 2 ^ 53 * 2 ^ 1074" unfolding f64_one_def by (rule mult_right_mono) simp
  also have "\<dots> < 2 ^ 1138" unfolding power_add [symmetric] by (rule power_strict_increasing) simp_all
  finally have "f64_round ?k < f64_limit" by (rule f64_round_limit)
  then obtain x where x: "f64_make (i < 0) ?k = Some x" by (simp add: f64_make_def Let_def)
  have "f64_magnitude (f64_round ?k) = ?k"
  proof (cases "nat \<bar>i\<bar> < 2 ^ 53")
    case False
    with le have "nat \<bar>i\<bar> = 2 ^ 53" by linarith
    then have "?k = 2 ^ 52 * 2 ^ 1075" unfolding f64_one_def by (simp only: flip: power_add) simp
    then show ?thesis using f64_round_exact [of "2 ^ 52" 1075] by (simp only:) simp
  qed (simp only: f64_one_def f64_round_exact)
  then have "f64_units x = i * int f64_one" unfolding f64_make_Some(3) [OF x] by auto
  with f64_make_Some(1,2) [OF x] x that show ?thesis unfolding f64_of_int_def by blast
qed

lemma f64_add_ints:
  assumes "\<bar>a\<bar> \<le> 2 ^ 53" "\<bar>b\<bar> \<le> 2 ^ 53" "f64_of_int a = Some x" "f64_of_int b = Some y"
  shows "f64_add x y = f64_of_int (a + b)"
proof -
  obtain x' y' where "f64_of_int a = Some x'" "f64_finite x'" "f64_negative x' = (a < 0)" "f64_units x' = a * int f64_one"
    "f64_of_int b = Some y'" "f64_finite y'" "f64_negative y' = (b < 0)" "f64_units y' = b * int f64_one"
    using f64_of_int_exact [OF assms(1)] f64_of_int_exact [OF assms(2)] by metis
  then have x: "f64_finite x" "f64_negative x = (a < 0)" "f64_units x = a * int f64_one"
    and y: "f64_finite y" "f64_negative y = (b < 0)" "f64_units y = b * int f64_one" using assms(3,4) by simp_all
  define P where "P = int f64_one"
  have P: "0 < P" "nat P = f64_one" by (simp_all add: P_def f64_one_def)
  have "(a * P + b * P = 0) = (a + b = 0)" "(a * P + b * P < 0) = (a + b < 0)" "nat \<bar>a * P + b * P\<bar> = nat \<bar>a + b\<bar> * nat P"
    using P(1) by (simp_all add: mult_less_0_iff abs_mult nat_mult_distrib flip: distrib_right)
  moreover have zero: "\<not> (a < 0 \<and> b < 0)" if "a + b = 0" using that by simp
  ultimately show ?thesis
    using x(1) y(1) by (simp add: f64_add_def f64_of_int_def Let_def x(2,3) y(2,3) P(2) flip: P_def) (metis (full_types) zero)
qed

end
