(* ===== verification/Workspace.thy ===== *)
theory Workspace
  imports Protocol Utf8 Floats
begin

section \<open>The workspace tools\<close>

text \<open>
  \<open>liveclaw-app/src/tools.rs\<close>: the path policy of the file-reading tool, that tool, the echo
  tool, the adding tool and the answer of the clock tool. Paths are those of Unix. The file system is a parameter: \<open>canon\<close> gives the canonical absolute
  path as the list of its names, or the text of the error, and \<open>read\<close> gives the bytes of a file. The
  arguments of a tool are the JSON value that the model of the provider sends.
\<close>

subsection \<open>Paths\<close>

datatype component = RootDir | CurDir | ParentDir | NormalName string

fun split_on :: "char \<Rightarrow> string \<Rightarrow> string list" where
  "split_on c [] = [[]]"
| "split_on c (x # xs) =
     (if x = c then [] # split_on c xs
      else case split_on c xs of [] \<Rightarrow> [[x]] | y # ys \<Rightarrow> (x # y) # ys)"

definition normal_components :: "string list \<Rightarrow> component list" where
  "normal_components ss =
     map (\<lambda>s. if s = ''..'' then ParentDir else NormalName s) (filter (\<lambda>s. s \<noteq> [] \<and> s \<noteq> ''.'') ss)"

definition is_absolute :: "string \<Rightarrow> bool" where
  "is_absolute p \<longleftrightarrow> starts_with p ''/''"

definition path_components :: "string \<Rightarrow> component list" where
  "path_components p =
     (let ss = split_on (CHR ''/'') p
      in (if is_absolute p then [RootDir] else if hd ss = ''.'' then [CurDir] else []) @ normal_components ss)"

definition path_string :: "string list \<Rightarrow> string" where
  "path_string names = (if names = [] then ''/'' else concat (map (\<lambda>n. CHR ''/'' # n) names))"

definition path_join :: "string \<Rightarrow> string \<Rightarrow> string" where
  "path_join base rel =
     (if is_absolute rel then rel else if base = [] \<or> last base = CHR ''/'' then base @ rel
      else base @ ''/'' @ rel)"

text \<open>\<open>Path::starts_with\<close> compares whole components.\<close>

definition components_start :: "component list \<Rightarrow> component list \<Rightarrow> bool" where
  "components_start cs ps \<longleftrightarrow> take (length ps) cs = ps"

subsection \<open>The policy\<close>

record workspace_policy =
  wp_workspace_root :: string
  wp_forbidden_paths :: "string list"
  wp_max_read_bytes :: "64 word"

definition workspace_policy_default :: workspace_policy where
  "workspace_policy_default =
     \<lparr> wp_workspace_root = ''.'', wp_forbidden_paths = [''.git'', ''target''], wp_max_read_bytes = 16384 \<rparr>"

definition forbidden_blocks :: "string list \<Rightarrow> string list \<Rightarrow> string \<Rightarrow> bool" where
  "forbidden_blocks resolved relative trimmed =
     (if is_absolute trimmed
      then components_start (RootDir # map NormalName resolved) (path_components trimmed)
      else components_start (map NormalName relative) (path_components trimmed))"

fun check_forbidden :: "string list \<Rightarrow> string list \<Rightarrow> string list \<Rightarrow> unit result" where
  "check_forbidden resolved relative [] = Inr ()"
| "check_forbidden resolved relative (forbidden # rest) =
     (let trimmed = trim forbidden
      in if trimmed = [] then check_forbidden resolved relative rest
         else if forbidden_blocks resolved relative trimmed
         then Inl (''Path is forbidden by policy '' @ quoted trimmed)
         else check_forbidden resolved relative rest)"

definition resolve_workspace_file_path ::
  "(string \<Rightarrow> string list result) \<Rightarrow> workspace_policy \<Rightarrow> string \<Rightarrow> string list result" where
  "resolve_workspace_file_path canon policy requested_path =
     (let trimmed = trim requested_path
      in if trimmed = [] then Inl ''Path is empty''
         else if is_absolute trimmed then Inl ''Absolute paths are forbidden''
         else if list_ex (\<lambda>c. c = ParentDir) (path_components trimmed)
         then Inl (''Parent path traversal '' @ quoted ''..'' @ '' is forbidden'')
         else case canon (wp_workspace_root policy) of
           Inl e \<Rightarrow> Inl (''Workspace root is not accessible: '' @ e)
         | Inr workspace_root \<Rightarrow>
             (let candidate = path_join (path_string workspace_root) trimmed
              in case canon candidate of
                   Inl e \<Rightarrow> Inl (''Failed to access '' @ quoted candidate @ '': '' @ e)
                 | Inr resolved \<Rightarrow>
                     if take (length workspace_root) resolved \<noteq> workspace_root
                     then Inl ''Resolved path escapes workspace root''
                     else
                       let relative = drop (length workspace_root) resolved
                       in (case check_forbidden resolved relative (wp_forbidden_paths policy) of
                             Inl e \<Rightarrow> Inl e
                           | Inr _ \<Rightarrow> Inr resolved)))"

subsection \<open>The tools\<close>

record read_file_args =
  ra_path :: string
  ra_max_bytes :: "64 word option"

record read_file_response =
  rr_path :: string
  rr_bytes_read :: nat
  rr_truncated :: bool
  rr_content :: string

text \<open>
  \<open>serde_json::from_value(..).unwrap_or_default()\<close> on an object: a missing field has its default, and a
  field of the wrong type gives the default of the whole structure. On an array its elements are the first fields.
\<close>

definition defaulted_struct_json :: "string list \<Rightarrow> json \<Rightarrow> json" where
  "defaulted_struct_json ks v = (case v of
      JArr xs \<Rightarrow> (if length xs \<le> length ks then JObj (zip ks xs) else JNull)
    | _ \<Rightarrow> v)"

definition field_or_default :: "(json \<Rightarrow> 'a option) \<Rightarrow> 'a \<Rightarrow> json \<Rightarrow> string \<Rightarrow> 'a option" where
  "field_or_default f d v k = (case json_get k v of None \<Rightarrow> Some d | Some w \<Rightarrow> f w)"

definition read_file_args_of_json :: "json \<Rightarrow> read_file_args" where
  "read_file_args_of_json args =
     (let d = \<lparr> ra_path = [], ra_max_bytes = None \<rparr>;
          v = defaulted_struct_json [''path'', ''max_bytes''] args
      in if \<not> json_is_obj v then d
         else case (field_or_default json_as_str [] v ''path'', field_opt json_as_u64 v ''max_bytes'') of
           (Some p, Some m) \<Rightarrow> \<lparr> ra_path = p, ra_max_bytes = m \<rparr>
         | _ \<Rightarrow> d)"

definition read_workspace_file ::
  "(string \<Rightarrow> string list result) \<Rightarrow> (string list \<Rightarrow> string result) \<Rightarrow> workspace_policy \<Rightarrow> json \<Rightarrow>
     read_file_response result" where
  "read_workspace_file canon read policy args =
     (let parsed = read_file_args_of_json args
      in case resolve_workspace_file_path canon policy (ra_path parsed) of
           Inl e \<Rightarrow> Inl e
         | Inr resolved_path \<Rightarrow>
             (case read resolved_path of
                Inl e \<Rightarrow> Inl (''Failed to read '' @ quoted (path_string resolved_path) @ '': '' @ e)
              | Inr bytes \<Rightarrow>
                  let wanted = (case ra_max_bytes parsed of None \<Rightarrow> wp_max_read_bytes policy | Some n \<Rightarrow> n);
                      max_bytes = min (max wanted 1) (wp_max_read_bytes policy);
                      take_len = min (length bytes) (unat max_bytes)
                  in Inr \<lparr> rr_path = ra_path parsed, rr_bytes_read = take_len,
                           rr_truncated = (take_len < length bytes),
                           rr_content = from_utf8_lossy (take take_len bytes) \<rparr>))"

definition json_of_read_response :: "read_file_response \<Rightarrow> json" where
  "json_of_read_response r = JObj
     [(''path'', JStr (rr_path r)), (''bytes_read'', JNum (int (rr_bytes_read r))),
      (''truncated'', JBool (rr_truncated r)), (''content'', JStr (rr_content r))]"

definition echo_text :: "json \<Rightarrow> json" where
  "echo_text args =
     (let v = defaulted_struct_json [''text''] args;
          t = (if \<not> json_is_obj v then []
               else case field_or_default json_as_str [] v ''text'' of Some s \<Rightarrow> s | None \<Rightarrow> [])
      in JObj [(''text'', JStr t), (''length'', JNum (int (chars_count t)))])"

text \<open>A number of any kind is read as an \<open>f64\<close>; a sum that is not finite is written as \<open>null\<close>.\<close>

definition json_as_f64 :: "json \<Rightarrow> u64 option" where
  "json_as_f64 v = (case v of JNum i \<Rightarrow> f64_of_int i | JFloat b \<Rightarrow> Some b | _ \<Rightarrow> None)"

definition json_of_f64 :: "u64 option \<Rightarrow> json" where
  "json_of_f64 x = (case x of None \<Rightarrow> JNull | Some b \<Rightarrow> JFloat b)"

definition add_args_of_json :: "json \<Rightarrow> u64 \<times> u64" where
  "add_args_of_json args =
     (let v = defaulted_struct_json [''a'', ''b''] args
      in if \<not> json_is_obj v then (0, 0)
         else case (field_or_default json_as_f64 0 v ''a'', field_or_default json_as_f64 0 v ''b'') of
           (Some a, Some b) \<Rightarrow> (a, b)
         | _ \<Rightarrow> (0, 0))"

definition add_numbers :: "json \<Rightarrow> json" where
  "add_numbers args = (let (a, b) = add_args_of_json args in JObj [(''sum'', json_of_f64 (f64_add a b))])"

text \<open>The clock tool reads the wall clock, of which the library gives the text and the seconds since 1970.\<close>

definition utc_time :: "string \<times> int \<Rightarrow> json" where
  "utc_time now = JObj [(''utc_rfc3339'', JStr (fst now)), (''unix_seconds'', JNum (snd now))]"

definition baseline_tool_names :: "string list" where
  "baseline_tool_names = [''echo_text'', ''add_numbers'', ''utc_time'', ''read_workspace_file'']"

subsection \<open>Facts about the adding tool\<close>

text \<open>Integers are added exactly as long as they and their sum have at most 53 bits.\<close>

lemma add_numbers_exact:
  assumes "\<bar>a\<bar> \<le> 2 ^ 53" "\<bar>b\<bar> \<le> 2 ^ 53" "\<bar>a + b\<bar> \<le> 2 ^ 53"
  shows "\<exists>s. add_numbers (JObj [(''a'', JNum a), (''b'', JNum b)]) = JObj [(''sum'', JFloat s)] \<and>
     f64_finite s \<and> f64_units s = (a + b) * int f64_one"
proof -
  obtain x y z where x: "f64_of_int a = Some x" and y: "f64_of_int b = Some y" and z: "f64_of_int (a + b) = Some z"
    and v: "f64_finite z" "f64_units z = (a + b) * int f64_one"
    using f64_of_int_exact [OF assms(1)] f64_of_int_exact [OF assms(2)] f64_of_int_exact [OF assms(3)] by metis
  have "add_args_of_json (JObj [(''a'', JNum a), (''b'', JNum b)]) = (x, y)"
    by (simp add: add_args_of_json_def defaulted_struct_json_def json_is_obj_def field_or_default_def json_get_def
        json_as_f64_def x y)
  then show ?thesis using f64_add_ints [OF assms(1,2) x y] z v by (simp add: add_numbers_def json_of_f64_def)
qed

subsection \<open>Facts about the policy\<close>

lemma check_forbidden_Inr:
  "check_forbidden resolved relative fs = Inr () \<longleftrightarrow>
     list_all (\<lambda>f. trim f \<noteq> [] \<longrightarrow> \<not> forbidden_blocks resolved relative (trim f)) fs"
  by (induction fs) (auto simp: Let_def)

lemma check_forbidden_skip:
  "\<not> forbidden_blocks resolved relative (trim f) \<Longrightarrow>
     check_forbidden resolved relative (xs @ f # ys) = check_forbidden resolved relative (xs @ ys)"
  by (induction xs) (auto simp: Let_def)

lemma components_start_map:
  "components_start (map NormalName xs) (map NormalName ns) \<longleftrightarrow> (\<exists>more. xs = ns @ more)"
proof -
  have "map NormalName (take (length ns) xs) = map NormalName ns \<longleftrightarrow> take (length ns) xs = ns"
    by (rule inj_map_eq_map) (simp add: inj_def)
  then show ?thesis
    by (simp add: components_start_def take_map) (metis append_eq_conv_conj append_take_drop_id)
qed

lemma components_start_strange:
  assumes "c \<in> set ps" "\<And>n. c \<noteq> NormalName n"
  shows "\<not> components_start (map NormalName xs) ps"
proof
  assume "components_start (map NormalName xs) ps"
  then have "ps = map NormalName (take (length ps) xs)" by (simp add: components_start_def take_map)
  with assms show False by (metis (no_types, lifting) ex_map_conv)
qed

lemma split_on_not_Nil [simp]: "split_on c s \<noteq> []"
  by (induction s) (auto split: list.split)

lemma hd_split_on: "c \<notin> set a \<Longrightarrow> hd (split_on c (a @ c # b)) = a"
  by (induction a) (auto split: list.split)

lemma is_absolute_Cons [simp]: "is_absolute (c # s) \<longleftrightarrow> c = CHR ''/''" "\<not> is_absolute []"
  by (auto simp: is_absolute_def starts_with_def)

lemma dot_slash_components: "CurDir \<in> set (path_components (''./'' @ rest))"
  using hd_split_on [of "CHR ''/''" "''.''" rest] by (simp add: path_components_def Let_def)

lemma resolve_Inr:
  assumes "resolve_workspace_file_path canon policy requested = Inr p"
  shows "trim requested \<noteq> [] \<and> \<not> is_absolute (trim requested) \<and>
    ParentDir \<notin> set (path_components (trim requested)) \<and>
    (\<exists>root rel. canon (wp_workspace_root policy) = Inr root \<and> p = root @ rel \<and>
       canon (path_join (path_string root) (trim requested)) = Inr p \<and>
       check_forbidden p rel (wp_forbidden_paths policy) = Inr ())"
proof -
  obtain root where root: "trim requested \<noteq> []" "\<not> is_absolute (trim requested)"
    "ParentDir \<notin> set (path_components (trim requested))" "canon (wp_workspace_root policy) = Inr root"
    using assms by (auto simp: resolve_workspace_file_path_def Let_def list_ex_iff split: if_splits sum.splits)
  with assms have p: "canon (path_join (path_string root) (trim requested)) = Inr p"
    "take (length root) p = root" "check_forbidden p (drop (length root) p) (wp_forbidden_paths policy) = Inr ()"
    by (auto simp: resolve_workspace_file_path_def Let_def list_ex_iff split: if_splits sum.splits)
  from p(2) have "p = root @ drop (length root) p" by (metis append_take_drop_id)
  with root p show ?thesis by blast
qed

subsection \<open>Properties\<close>

text \<open>The names a policy entry spells: what is between its slashes, without empty parts and single dots.\<close>

definition entry_names :: "string \<Rightarrow> string list" where
  "entry_names f = filter (\<lambda>s. s \<noteq> [] \<and> s \<noteq> ''.'') (split_on (CHR ''/'') f)"

lemma normal_components_names:
  "normal_components ss =
     map (\<lambda>s. if s = ''..'' then ParentDir else NormalName s) (filter (\<lambda>s. s \<noteq> [] \<and> s \<noteq> ''.'') ss)"
  by (simp add: normal_components_def)

lemma components_start_names:
  "components_start (map NormalName xs) (map (\<lambda>s. if s = ''..'' then ParentDir else NormalName s) ns) \<longleftrightarrow>
     ''..'' \<notin> set ns \<and> (\<exists>more. xs = ns @ more)"
proof (cases "''..'' \<in> set ns")
  case True
  then have "ParentDir \<in> set (map (\<lambda>s. if s = ''..'' then ParentDir else NormalName s) ns)" by force
  with True components_start_strange [OF this] show ?thesis by blast
next
  case False
  then have "map (\<lambda>s. if s = ''..'' then ParentDir else NormalName s) ns = map NormalName ns"
    by (intro map_cong) auto
  then show ?thesis using False components_start_map [of xs ns] by (simp only: simp_thms)
qed

lemma forbidden_blocks_spelled:
  "forbidden_blocks resolved relative f \<longleftrightarrow> ''..'' \<notin> set (entry_names f) \<and>
     (if take 1 f = ''/'' then \<exists>more. resolved = entry_names f @ more
      else take 2 (f @ ''/'') \<noteq> ''./'' \<and> (\<exists>more. relative = entry_names f @ more))"
proof -
  have abs: "is_absolute f \<longleftrightarrow> take 1 f = ''/''" by (cases f) auto
  have dot: "hd (split_on (CHR ''/'') f) = ''.'' \<longleftrightarrow> take 2 (f @ ''/'') = ''./''"
  proof (cases f)
    case (Cons c g)
    then show ?thesis
      by (cases g) (auto split: list.split)
  qed simp
  have root: "components_start (RootDir # xs) (RootDir # ys) = components_start xs ys" for xs ys
    by (simp add: components_start_def)
  have cur: "\<not> components_start (map NormalName xs) (CurDir # ys)" for xs ys
    by (rule components_start_strange [of CurDir]) simp_all
  show ?thesis
    using components_start_names
    by (simp add: forbidden_blocks_def path_components_def Let_def normal_components_names entry_names_def [symmetric]
        root cur abs dot)
qed

text \<open>C20: what the file tool may read. A path is resolved to p exactly when it is not blank, does not start
  with a slash and has no \<open>..\<close> between its slashes, its canonical form p is inside the canonical
  workspace root, and no policy entry forbids it. An entry that is not blank and spells no \<open>..\<close>
  forbids p when it starts with a slash and its names are the first names of the whole of p, or when
  it starts neither with a slash nor with a lone dot and its names are the first ones of p
  below the root. (An entry that starts with a lone dot or spells \<open>..\<close> forbids nothing.)\<close>

theorem workspace_access_exact:
  "resolve_workspace_file_path canon policy requested = Inr p \<longleftrightarrow>
     trim requested \<noteq> [] \<and> take 1 (trim requested) \<noteq> ''/'' \<and>
     ''..'' \<notin> set (split_on (CHR ''/'') (trim requested)) \<and>
     (\<exists>root rel. canon (wp_workspace_root policy) = Inr root \<and> p = root @ rel \<and>
        canon (path_join (path_string root) (trim requested)) = Inr p \<and>
        (\<forall>f \<in> set (wp_forbidden_paths policy). \<forall>more.
           trim f \<noteq> [] \<longrightarrow> ''..'' \<notin> set (entry_names (trim f)) \<longrightarrow>
             (take 1 (trim f) = ''/'' \<longrightarrow> p \<noteq> entry_names (trim f) @ more) \<and>
             (take 1 (trim f) \<noteq> ''/'' \<longrightarrow> take 2 (trim f @ ''/'') \<noteq> ''./'' \<longrightarrow> rel \<noteq> entry_names (trim f) @ more)))"
    (is "?l \<longleftrightarrow> ?r")
proof -
  have abs: "is_absolute s \<longleftrightarrow> take 1 s = ''/''" for s by (cases s) auto
  have parent: "ParentDir \<in> set (path_components s) \<longleftrightarrow> ''..'' \<in> set (split_on (CHR ''/'') s)" for s
    by (auto simp: path_components_def normal_components_def Let_def image_iff split: if_splits)
  have check: "check_forbidden p rel fs = Inr () \<longleftrightarrow> (\<forall>f \<in> set fs. \<forall>more.
      trim f \<noteq> [] \<longrightarrow> ''..'' \<notin> set (entry_names (trim f)) \<longrightarrow>
        (take 1 (trim f) = ''/'' \<longrightarrow> p \<noteq> entry_names (trim f) @ more) \<and>
        (take 1 (trim f) \<noteq> ''/'' \<longrightarrow> take 2 (trim f @ ''/'') \<noteq> ''./'' \<longrightarrow> rel \<noteq> entry_names (trim f) @ more))" for rel fs
    unfolding check_forbidden_Inr list_all_iff forbidden_blocks_spelled by auto
  show ?thesis
  proof
    assume ?l
    from resolve_Inr [OF this] show ?r unfolding abs parent check by blast
  next
    assume ?r
    then obtain root rel where r: "trim requested \<noteq> []" "\<not> is_absolute (trim requested)"
      "ParentDir \<notin> set (path_components (trim requested))"
      "canon (wp_workspace_root policy) = Inr root" "p = root @ rel"
      "canon (path_join (path_string root) (trim requested)) = Inr p"
      "check_forbidden p rel (wp_forbidden_paths policy) = Inr ()"
      unfolding abs parent check by blast
    then show ?l by (simp add: resolve_workspace_file_path_def Let_def list_ex_iff)
  qed
qed

text \<open>a forbidden directory is out of reach. Under a policy entry that names a directory below the
  root nothing is ever resolved, whatever links the path goes through.\<close>

theorem forbidden_directory_unreachable:
  assumes "resolve_workspace_file_path canon policy requested = Inr p"
    and "f \<in> set (wp_forbidden_paths policy)" "trim f \<noteq> []" "\<not> is_absolute (trim f)"
    and "path_components (trim f) = map NormalName ns"
    and "canon (wp_workspace_root policy) = Inr root"
  shows "\<nexists>more. p = root @ ns @ more"
proof
  assume "\<exists>more. p = root @ ns @ more"
  then obtain more where more: "p = root @ ns @ more" by blast
  obtain rel where "p = root @ rel"
    "list_all (\<lambda>f. trim f \<noteq> [] \<longrightarrow> \<not> forbidden_blocks p rel (trim f)) (wp_forbidden_paths policy)"
    using resolve_Inr [OF assms(1)] assms(6) by (auto simp: check_forbidden_Inr)
  with assms(2,3) have "\<not> forbidden_blocks p (ns @ more) (trim f)" by (auto simp: list_all_iff more)
  moreover have "components_start (map NormalName (ns @ more)) (map NormalName ns)"
    unfolding components_start_map by blast
  ultimately show False using assms(4,5) by (simp add: forbidden_blocks_def)
qed

text \<open>an entry that starts with \<open>./\<close> forbids nothing. The components of the resolved path never match
  the leading dot, so the policy decides as it does without the entry.\<close>

theorem dot_entry_forbids_nothing:
  assumes "trim f = ''./'' @ rest" "wp_forbidden_paths policy = xs @ f # ys"
  shows "resolve_workspace_file_path canon policy requested =
    resolve_workspace_file_path canon (policy \<lparr> wp_forbidden_paths := xs @ ys \<rparr>) requested"
proof -
  have "\<not> forbidden_blocks resolved relative (trim f)" for resolved relative
    unfolding assms(1) forbidden_blocks_def
    using components_start_strange [OF dot_slash_components, of relative rest] by simp
  then have "check_forbidden resolved relative (wp_forbidden_paths policy) = check_forbidden resolved relative (xs @ ys)"
    for resolved relative unfolding assms(2) by (rule check_forbidden_skip)
  then show ?thesis by (simp add: resolve_workspace_file_path_def Let_def cong: sum.case_cong if_cong)
qed

text \<open>the preview. A file is read up to the asked number of bytes, at least one and at most the policy's
  bound; the answer says whether something is missing, its text is always valid UTF-8, and it is the file's
  text when the file is valid and nothing is missing.\<close>

theorem read_preview:
  assumes "read_workspace_file canon read policy args = Inr r"
  shows "\<exists>p data. resolve_workspace_file_path canon policy (rr_path r) = Inr p \<and> read p = Inr data \<and>
    rr_bytes_read r \<le> unat (wp_max_read_bytes policy) \<and> rr_bytes_read r \<le> length data \<and>
    (rr_truncated r \<longleftrightarrow> rr_bytes_read r < length data) \<and>
    (data \<noteq> [] \<and> 0 < wp_max_read_bytes policy \<longrightarrow> 0 < rr_bytes_read r) \<and>
    valid_utf8 (rr_content r) \<and>
    (\<not> rr_truncated r \<and> valid_utf8 data \<longrightarrow> rr_content r = data)"
proof -
  let ?a = "read_file_args_of_json args"
  obtain p data where p: "resolve_workspace_file_path canon policy (ra_path ?a) = Inr p" "read p = Inr data"
    using assms by (auto simp: read_workspace_file_def Let_def split: sum.splits)
  define n where "n = unat (min (max (case ra_max_bytes ?a of None \<Rightarrow> wp_max_read_bytes policy | Some n \<Rightarrow> n) 1)
      (wp_max_read_bytes policy))"
  have r: "r = \<lparr> rr_path = ra_path ?a, rr_bytes_read = min (length data) n,
      rr_truncated = (min (length data) n < length data), rr_content = from_utf8_lossy (take (min (length data) n) data) \<rparr>"
    using assms p by (simp add: read_workspace_file_def Let_def n_def)
  have le: "n \<le> unat (wp_max_read_bytes policy)" by (simp add: n_def unat_min)
  have pos: "0 < n" if "0 < wp_max_read_bytes policy"
  proof -
    have "0 < unat (wp_max_read_bytes policy)" using that by (simp add: word_less_nat_alt)
    moreover have "(1 :: 64 word) \<le> max w 1" for w by simp
    then have "1 \<le> unat (max w (1 :: 64 word))" for w by (metis word_le_nat_alt unat_1)
    ultimately show ?thesis unfolding n_def unat_min by (metis One_nat_def Suc_le_eq min_less_iff_conj)
  qed
  have "from_utf8_lossy (take (min (length data) n) data) = data"
    if "\<not> min (length data) n < length data" "valid_utf8 data" using that by (simp add: lossy_of_valid)
  with le pos show ?thesis
    by (intro exI [of _ p] exI [of _ data]) (auto simp: r p lossy_valid)
qed

subsection \<open>Examples\<close>

text \<open>A file system without links in which every path names what it spells, below \<open>/w\<close>.\<close>

definition sample_canon :: "string \<Rightarrow> string list result" where
  "sample_canon p =
     (let ns = map (\<lambda>c. case c of NormalName n \<Rightarrow> n | _ \<Rightarrow> []) (filter (\<lambda>c. c \<noteq> RootDir \<and> c \<noteq> CurDir) (path_components p))
      in Inr (if is_absolute p then ns else ''w'' # ns))"

definition sample_policy :: workspace_policy where
  "sample_policy = \<lparr> wp_workspace_root = ''.'', wp_forbidden_paths = [''.git'', ''./secret''], wp_max_read_bytes = 4 \<rparr>"

lemma sample_trim:
  "trim ''notes.txt'' = ''notes.txt''" "trim ''secret/key'' = ''secret/key''" "trim ''.git'' = ''.git''"
  "trim ''./secret'' = ''./secret''"
  by (simp_all add: trim_fix ws_len_ascii ws_len_rev_ascii ws1_def byte_of_def)

lemma sample_path_resolves: "resolve_workspace_file_path sample_canon sample_policy ''notes.txt'' = Inr [''w'', ''notes.txt'']"
  by (simp add: resolve_workspace_file_path_def sample_trim sample_canon_def sample_policy_def path_components_def
      normal_components_def path_string_def path_join_def forbidden_blocks_def components_start_def Let_def)

theorem workspace_access_exact_witness:
  "\<exists>root rel. sample_canon ''.'' = Inr root \<and> [''w'', ''notes.txt''] = root @ rel"
  using iffD1 [OF workspace_access_exact sample_path_resolves] by (auto simp: sample_policy_def)

theorem forbidden_directory_unreachable_witness:
  "\<nexists>more. [''w'', ''notes.txt''] = [''w''] @ [''.git''] @ more"
  by (rule forbidden_directory_unreachable [OF sample_path_resolves, of "''.git''"])
    (simp_all add: sample_policy_def sample_trim path_components_def normal_components_def sample_canon_def)

theorem dot_entry_forbids_nothing_witness:
  "resolve_workspace_file_path sample_canon sample_policy ''secret/key'' = Inr [''w'', ''secret'', ''key'']"
proof -
  have "wp_forbidden_paths sample_policy = [''.git''] @ ''./secret'' # []" by (simp add: sample_policy_def)
  from dot_entry_forbids_nothing [OF _ this, of "''secret''"] show ?thesis
    by (simp add: sample_trim) (simp add: resolve_workspace_file_path_def sample_trim sample_canon_def sample_policy_def
      path_components_def normal_components_def path_string_def path_join_def forbidden_blocks_def components_start_def Let_def)
qed

theorem read_preview_witness:
  "\<exists>r. read_workspace_file sample_canon (\<lambda>_. Inr ''hello'') sample_policy (JObj [(''path'', JStr ''notes.txt'')]) = Inr r \<and>
     rr_bytes_read r \<le> 4"
proof -
  let ?read = "read_workspace_file sample_canon (\<lambda>_. Inr ''hello'') sample_policy (JObj [(''path'', JStr ''notes.txt'')])"
  have "ra_path (read_file_args_of_json (JObj [(''path'', JStr ''notes.txt'')])) = ''notes.txt''"
    by (simp add: read_file_args_of_json_def defaulted_struct_json_def json_is_obj_def field_or_default_def json_get_def json_as_str_def
        field_opt_def opt_of_json_def)
  then obtain r where r: "?read = Inr r" by (simp add: read_workspace_file_def sample_path_resolves Let_def)
  from read_preview [OF r] have "rr_bytes_read r \<le> unat (wp_max_read_bytes sample_policy)" by blast
  then have "rr_bytes_read r \<le> 4" by (simp add: sample_policy_def)
  with r show ?thesis by blast
qed

end
