(* ===== verification/Memory_Store.thy ===== *)
theory Memory_Store
  imports Transcripts Workspace "HOL-Library.Multiset"
begin

section \<open>The file-backed memory\<close>

text \<open>
  \<open>FileMemoryService\<close> and \<open>build_memory_service\<close> of \<open>liveclaw-app/src/storage.rs\<close>. The nested hash
  maps are partial functions; the order in which the code iterates over one is a parameter. The JSON value of the
  memory file is built and read field by field; the JSON of a content, which is the library's, and the text of a
  JSON value are parameters. The file system is a map from paths to contents, and each call that writes to it may
  fail with an error, given by a parameter. Unicode lower-casing and the conversion of a time stamp are parameters
  as well.
\<close>

record memory_key =
  mk_app_name :: string
  mk_user_id :: string

record persisted_entry =
  pe_content :: content
  pe_author :: string
  pe_timestamp_millis :: int

record persisted_session =
  ps_app_name :: string
  ps_user_id :: string
  ps_session_id :: string
  ps_entries :: "persisted_entry list"

type_synonym memory_store = "memory_key \<Rightarrow> (string \<rightharpoonup> persisted_entry list) option"

definition session_key :: "persisted_session \<Rightarrow> memory_key" where
  "session_key s = \<lparr> mk_app_name = ps_app_name s, mk_user_id = ps_user_id s \<rparr>"

text \<open>\<open>store.entry(key).or_default().insert(session_id, entries)\<close>.\<close>

definition store_insert ::
  "memory_key \<Rightarrow> string \<Rightarrow> persisted_entry list \<Rightarrow> memory_store \<Rightarrow> memory_store" where
  "store_insert key sid entries st =
     st(key \<mapsto> (case st key of None \<Rightarrow> Map.empty | Some m \<Rightarrow> m)(sid \<mapsto> entries))"

definition load_sessions :: "persisted_session list \<Rightarrow> memory_store" where
  "load_sessions sessions =
     fold (\<lambda>s. store_insert (session_key s) (ps_session_id s) (ps_entries s)) sessions Map.empty"

subsection \<open>The memory file\<close>

text \<open>
  What the store uses of its libraries: the JSON of a content and its reading, the text of a JSON value and its
  parsing, and the order in which the hash map of the store and those of its sessions are iterated.
\<close>

record memory_library =
  ml_content :: "content \<Rightarrow> json"
  ml_content_of :: "json \<Rightarrow> content option"
  ml_print :: "json \<Rightarrow> string"
  ml_parse :: "string \<Rightarrow> json result"
  ml_stores :: "memory_store \<Rightarrow> (memory_key \<times> (string \<rightharpoonup> persisted_entry list)) list"
  ml_sessions :: "(string \<rightharpoonup> persisted_entry list) \<Rightarrow> (string \<times> persisted_entry list) list"

definition json_as_i64 :: "json \<Rightarrow> int option" where
  "json_as_i64 v = (case v of JNum i \<Rightarrow> if - (2 ^ 63) \<le> i \<and> i < 2 ^ 63 then Some i else None | _ \<Rightarrow> None)"

definition json_as_list :: "(json \<Rightarrow> 'a option) \<Rightarrow> json \<Rightarrow> 'a list option" where
  "json_as_list f v = (case v of JArr xs \<Rightarrow> those (map f xs) | _ \<Rightarrow> None)"

definition json_of_entry :: "memory_library \<Rightarrow> persisted_entry \<Rightarrow> json" where
  "json_of_entry lib e = JObj [(''content'', ml_content lib (pe_content e)), (''author'', JStr (pe_author e)),
     (''timestamp_millis'', JNum (pe_timestamp_millis e))]"

definition json_of_session :: "memory_library \<Rightarrow> persisted_session \<Rightarrow> json" where
  "json_of_session lib s = JObj [(''app_name'', JStr (ps_app_name s)), (''user_id'', JStr (ps_user_id s)),
     (''session_id'', JStr (ps_session_id s)), (''entries'', JArr (map (json_of_entry lib) (ps_entries s)))]"

definition json_of_memory_file :: "memory_library \<Rightarrow> persisted_session list \<Rightarrow> json" where
  "json_of_memory_file lib sessions = JObj [(''sessions'', JArr (map (json_of_session lib) sessions))]"

definition entry_of_json :: "memory_library \<Rightarrow> json \<Rightarrow> persisted_entry option" where
  "entry_of_json lib u =
     (let v = struct_json [''content'', ''author'', ''timestamp_millis''] u
      in Option.bind (Option.bind (json_get ''content'' v) (ml_content_of lib)) (\<lambda>c.
         Option.bind (field_str v ''author'') (\<lambda>a.
         Option.bind (Option.bind (json_get ''timestamp_millis'' v) json_as_i64) (\<lambda>t.
           Some \<lparr> pe_content = c, pe_author = a, pe_timestamp_millis = t \<rparr>))))"

definition session_of_json :: "memory_library \<Rightarrow> json \<Rightarrow> persisted_session option" where
  "session_of_json lib u =
     (let v = struct_json [''app_name'', ''user_id'', ''session_id'', ''entries''] u
      in Option.bind (field_str v ''app_name'') (\<lambda>a.
         Option.bind (field_str v ''user_id'') (\<lambda>n.
         Option.bind (field_str v ''session_id'') (\<lambda>i.
         Option.bind (Option.bind (json_get ''entries'' v) (json_as_list (entry_of_json lib))) (\<lambda>es.
           Some \<lparr> ps_app_name = a, ps_user_id = n, ps_session_id = i, ps_entries = es \<rparr>)))))"

definition memory_file_of_json :: "memory_library \<Rightarrow> json \<Rightarrow> persisted_session list option" where
  "memory_file_of_json lib u =
     (let v = struct_json [''sessions''] u
      in Option.bind (json_get ''sessions'' v) (json_as_list (session_of_json lib)))"

text \<open>\<open>serde_json::from_slice\<close> into a memory file.\<close>

definition parse_memory_file :: "memory_library \<Rightarrow> string \<Rightarrow> persisted_session list option" where
  "parse_memory_file lib text = (case ml_parse lib text of Inl _ \<Rightarrow> None | Inr v \<Rightarrow> memory_file_of_json lib v)"

text \<open>A file that is absent or empty is an empty store.\<close>

definition load_store ::
  "memory_library \<Rightarrow> (string \<rightharpoonup> string) \<Rightarrow> (string \<Rightarrow> string option) \<Rightarrow> string \<Rightarrow> memory_store result" where
  "load_store lib fs read_fault path =
     (case fs path of
        None \<Rightarrow> Inr Map.empty
      | Some bytes \<Rightarrow>
          (case read_fault path of
             Some e \<Rightarrow> Inl (''Failed to read memory store file '' @ quoted path)
           | None \<Rightarrow>
               if bytes = [] then Inr Map.empty
               else (case parse_memory_file lib bytes of
                       None \<Rightarrow> Inl (''Failed to parse memory store '' @ quoted path)
                     | Some sessions \<Rightarrow> Inr (load_sessions sessions))))"

subsection \<open>Writing the store\<close>

text \<open>\<open>Path::with_extension\<close>: the end of the path that is no name is dropped first.\<close>

function path_body :: "string \<Rightarrow> string" where
  "path_body p =
     (if 1 < length p \<and> ends_with p ''/'' then path_body (butlast p)
      else if 2 < length p \<and> ends_with p ''/.'' then path_body (butlast (butlast p))
      else p)"
  by pat_completeness auto
termination
  by (relation "measure length") auto

declare path_body.simps [simp del]

definition file_name_of :: "string \<Rightarrow> string" where
  "file_name_of p = last (split_on (CHR ''/'') (path_body p))"

definition file_stem_of :: "string \<Rightarrow> string" where
  "file_stem_of name =
     (let before = rev (drop 1 (dropWhile (\<lambda>c. c \<noteq> CHR ''.'') (rev name)))
      in if CHR ''.'' \<notin> set name \<or> before = [] then name else before)"

definition with_extension :: "string \<Rightarrow> string \<Rightarrow> string" where
  "with_extension ext p =
     (let body = path_body p; name = file_name_of p
      in if name = [] \<or> name = ''.'' \<or> name = ''..'' then p
         else take (length body - length name) body @ file_stem_of name @ ''.'' @ ext)"

definition parent_of :: "string \<Rightarrow> string" where
  "parent_of p = path_body (take (length (path_body p) - length (file_name_of p)) (path_body p))"

text \<open>
  The faults of one call of \<open>persist_store\<close>: an error of \<open>create_dir_all\<close>, of the serialisation, of the write
  with what it leaves in the file, and of the rename.
\<close>

record persist_faults =
  pf_create_dir :: "string option"
  pf_serialize :: "string option"
  pf_write :: "(string \<times> string option) option"
  pf_rename :: "string option"

definition no_faults :: persist_faults where
  "no_faults = \<lparr> pf_create_dir = None, pf_serialize = None, pf_write = None, pf_rename = None \<rparr>"

text \<open>The two nested loops over the store that build the records of the file.\<close>

definition persisted_sessions :: "memory_library \<Rightarrow> memory_store \<Rightarrow> persisted_session list" where
  "persisted_sessions lib store =
     concat (map (\<lambda>(key, by_session).
       map (\<lambda>(session_id, entries).
           \<lparr> ps_app_name = mk_app_name key, ps_user_id = mk_user_id key, ps_session_id = session_id, ps_entries = entries \<rparr>)
         (ml_sessions lib by_session)) (ml_stores lib store))"

definition serialized_store :: "memory_library \<Rightarrow> memory_store \<Rightarrow> string" where
  "serialized_store lib store = ml_print lib (json_of_memory_file lib (persisted_sessions lib store))"

definition persist_store ::
  "memory_library \<Rightarrow> persist_faults \<Rightarrow> string \<Rightarrow> memory_store \<Rightarrow>
     (string \<rightharpoonup> string) \<Rightarrow> unit result \<times> (string \<rightharpoonup> string)" where
  "persist_store lib faults path store fs =
     (if pf_create_dir faults \<noteq> None
      then (Inl (''Failed to create memory store directory '' @ quoted (parent_of path)), fs)
      else if pf_serialize faults \<noteq> None then (Inl ''Failed to serialize memory store'', fs)
      else
        let serialized = serialized_store lib store; tmp_path = with_extension ''tmp'' path
        in case pf_write faults of
             Some (e, left) \<Rightarrow>
               (Inl (''Failed to write temporary memory store '' @ quoted tmp_path), fs(tmp_path := left))
           | None \<Rightarrow>
               let fs = fs(tmp_path \<mapsto> serialized)
               in if pf_rename faults \<noteq> None
                  then (Inl (''Failed to atomically replace memory store '' @ quoted path), fs)
                  else (Inr (), (fs(tmp_path := None))(path := fs tmp_path)))"

subsection \<open>Adding and searching\<close>

record memory_service =
  ms_path :: string
  ms_store :: memory_store

definition to_persisted :: "memory_entry \<Rightarrow> persisted_entry" where
  "to_persisted e = \<lparr> pe_content = me_content e, pe_author = me_author e,
     pe_timestamp_millis = me_timestamp e div 1000000 \<rparr>"

text \<open>The store in memory is changed even when writing it fails.\<close>

definition add_session ::
  "memory_library \<Rightarrow> persist_faults \<Rightarrow> string \<Rightarrow> string \<Rightarrow> string \<Rightarrow> memory_entry list \<Rightarrow> memory_service \<Rightarrow>
     (string \<rightharpoonup> string) \<Rightarrow> unit result \<times> memory_service \<times> (string \<rightharpoonup> string)" where
  "add_session lib faults app_name user_id session_id entries svc fs =
     (let persisted_entries = map to_persisted entries;
          key = \<lparr> mk_app_name = app_name, mk_user_id = user_id \<rparr>;
          store = store_insert key session_id persisted_entries (ms_store svc);
          svc = svc \<lparr> ms_store := store \<rparr>;
          (res, fs) = persist_store lib faults (ms_path svc) store fs
      in (res, svc, fs))"

definition extract_words :: "(string \<Rightarrow> string) \<Rightarrow> string \<Rightarrow> string set" where
  "extract_words lower t = set (map lower (filter (\<lambda>s. s \<noteq> []) (map trim (split_whitespace t))))"

definition extract_words_from_content :: "(string \<Rightarrow> string) \<Rightarrow> content \<Rightarrow> string set" where
  "extract_words_from_content lower c =
     \<Union> (set (map (extract_words lower) (List.map_filter part_text (co_parts c))))"

definition memory_search ::
  "((string \<rightharpoonup> persisted_entry list) \<Rightarrow> persisted_entry list list) \<Rightarrow> (string \<Rightarrow> string) \<Rightarrow> (int \<Rightarrow> int option) \<Rightarrow>
     int \<Rightarrow> memory_service \<Rightarrow> string \<Rightarrow> string \<Rightarrow> string \<Rightarrow> memory_entry list" where
  "memory_search vals lower of_millis now svc query user_id app_name =
     (let query_words = extract_words lower query
      in if query_words = {} then []
         else case ms_store svc \<lparr> mk_app_name = app_name, mk_user_id = user_id \<rparr> of
           None \<Rightarrow> []
         | Some sessions \<Rightarrow>
             map (\<lambda>e. \<lparr> me_content = pe_content e, me_author = pe_author e,
                    me_timestamp = (case of_millis (pe_timestamp_millis e) of Some t \<Rightarrow> t | None \<Rightarrow> now) \<rparr>)
               (filter (\<lambda>e. query_words \<inter> extract_words_from_content lower (pe_content e) \<noteq> {})
                 (concat (vals sessions))))"

subsection \<open>Choosing the backend\<close>

datatype memory_backend = InMemoryBackend | FileBackend string

definition memory_backend_of :: "string \<Rightarrow> memory_backend result" where
  "memory_backend_of backend =
     (let normalized = trim backend
      in if normalized = [] \<or> eq_ignore_ascii_case normalized ''in_memory'' then Inr InMemoryBackend
         else if eq_ignore_ascii_case normalized ''file'' \<or> eq_ignore_ascii_case normalized ''json_file''
         then Inr (FileBackend ''./memory_store.json'')
         else case strip_prefix ''file:'' normalized of
           Some rest \<Rightarrow>
             (if trim rest = [] then Inl (''Memory backend '' @ quoted ''file:'' @ '' requires a path'')
              else Inr (FileBackend (trim rest)))
         | None \<Rightarrow> Inl (''Unsupported memory backend '' @ quoted backend @
             ''. Use in_memory, file, or file:/path/to/store.json''))"

subsection \<open>The store as a table of sessions\<close>

definition stored :: "memory_store \<Rightarrow> memory_key \<Rightarrow> string \<Rightarrow> persisted_entry list option" where
  "stored st k sid = Option.bind (st k) (\<lambda>m. m sid)"

text \<open>What holds of every store: it is finite, it has no empty table of sessions, and its time stamps are of 64 bits.\<close>

definition in_i64 :: "int \<Rightarrow> bool" where
  "in_i64 t \<longleftrightarrow> - (2 ^ 63) \<le> t \<and> t < 2 ^ 63"

abbreviation stamps_ok :: "persisted_entry list \<Rightarrow> bool" where
  "stamps_ok es \<equiv> (\<forall>e \<in> set es. in_i64 (pe_timestamp_millis e))"

definition store_ok :: "memory_store \<Rightarrow> bool" where
  "store_ok st \<longleftrightarrow> finite (dom st) \<and>
     (\<forall>k m. st k = Some m \<longrightarrow> m \<noteq> Map.empty \<and> finite (dom m) \<and> (\<forall>sid es. m sid = Some es \<longrightarrow> stamps_ok es))"

lemma stored_insert [simp]:
  "stored (store_insert k sid es st) k' sid' = (if k' = k \<and> sid' = sid then Some es else stored st k' sid')"
  by (auto simp: stored_def store_insert_def split: option.split)

lemma store_ok_insert [intro]: "store_ok st \<Longrightarrow> stamps_ok es \<Longrightarrow> store_ok (store_insert k sid es st)"
  unfolding store_ok_def store_insert_def by (cases "st k") (auto split: if_splits)

lemma store_ok_empty [simp]: "store_ok Map.empty"
  by (simp add: store_ok_def)

lemma store_eqI:
  assumes "store_ok st" "store_ok st'" "\<And>k sid. stored st k sid = stored st' k sid"
  shows "st = st'"
proof
  fix k
  have "(case st k of None \<Rightarrow> Map.empty | Some m \<Rightarrow> m) = (case st' k of None \<Rightarrow> Map.empty | Some m \<Rightarrow> m)"
    using assms(3) [of k] by (intro ext) (auto simp: stored_def split: option.splits)
  with assms(1,2) show "st k = st' k"
    unfolding store_ok_def by (auto split: option.splits dest: spec [of _ k])
qed

text \<open>A list of the sessions of a store, in any order.\<close>

definition lists_store :: "persisted_session list \<Rightarrow> memory_store \<Rightarrow> bool" where
  "lists_store ss st \<longleftrightarrow> distinct (map (\<lambda>s. (session_key s, ps_session_id s)) ss) \<and>
     (\<forall>k sid es. stored st k sid = Some es \<longleftrightarrow>
        (\<exists>s \<in> set ss. session_key s = k \<and> ps_session_id s = sid \<and> ps_entries s = es))"

lemma fold_insert_ok: "store_ok st \<Longrightarrow> \<forall>s \<in> set ss. stamps_ok (ps_entries s) \<Longrightarrow>
   store_ok (fold (\<lambda>s. store_insert (session_key s) (ps_session_id s) (ps_entries s)) ss st)"
  by (induction ss arbitrary: st) auto

lemma fold_insert_stored:
  assumes "distinct (map (\<lambda>s. (session_key s, ps_session_id s)) ss)"
  shows "stored (fold (\<lambda>s. store_insert (session_key s) (ps_session_id s) (ps_entries s)) ss st) k sid = Some es \<longleftrightarrow>
    (\<exists>s \<in> set ss. session_key s = k \<and> ps_session_id s = sid \<and> ps_entries s = es) \<or>
    ((k, sid) \<notin> set (map (\<lambda>s. (session_key s, ps_session_id s)) ss) \<and> stored st k sid = Some es)"
  using assms
proof (induction ss arbitrary: st)
  case (Cons s ss)
  then show ?case by (auto simp: image_iff)
qed simp

lemma stored_stamps: "store_ok st \<Longrightarrow> stored st k sid = Some es \<Longrightarrow> stamps_ok es"
  unfolding store_ok_def stored_def by (cases "st k") auto

lemma load_sessions_lists:
  assumes "lists_store ss st" "store_ok st" shows "load_sessions ss = st"
proof (rule store_eqI)
  have "stamps_ok (ps_entries s)" if "s \<in> set ss" for s
    using assms(1) that stored_stamps [OF assms(2), of "session_key s" "ps_session_id s"] unfolding lists_store_def by blast
  then show "store_ok (load_sessions ss)" unfolding load_sessions_def by (intro fold_insert_ok) simp_all
  have "stored (load_sessions ss) k sid = Some es \<longleftrightarrow> stored st k sid = Some es" for k sid es
    using assms(1) fold_insert_stored [of ss Map.empty k sid es]
    unfolding lists_store_def load_sessions_def by (auto simp: stored_def)
  then show "stored (load_sessions ss) k sid = stored st k sid" for k sid
    by (metis not_Some_eq)
qed (rule assms(2))

subsection \<open>What the loops write\<close>

text \<open>What the language says of the iteration over a hash map: every entry once, in some order.\<close>

definition iterates :: "(('k \<rightharpoonup> 'v) \<Rightarrow> ('k \<times> 'v) list) \<Rightarrow> bool" where
  "iterates order \<longleftrightarrow> (\<forall>m. finite (dom m) \<longrightarrow> distinct (map fst (order m)) \<and> map_of (order m) = m)"

lemma iterated: "iterates order \<Longrightarrow> finite (dom m) \<Longrightarrow> (k, v) \<in> set (order m) \<longleftrightarrow> m k = Some v"
  unfolding iterates_def by (metis map_of_eq_Some_iff)

definition session_record :: "memory_key \<Rightarrow> string \<times> persisted_entry list \<Rightarrow> persisted_session" where
  "session_record key x = \<lparr> ps_app_name = mk_app_name key, ps_user_id = mk_user_id key, ps_session_id = fst x,
     ps_entries = snd x \<rparr>"

lemma session_record_parts [simp]:
  "session_key (session_record k x) = k" "ps_session_id (session_record k x) = fst x" "ps_entries (session_record k x) = snd x"
  by (simp_all add: session_record_def session_key_def)

lemma session_record_eta: "session_record (session_key s) (ps_session_id s, ps_entries s) = s"
  by (simp add: session_record_def session_key_def)

lemma persisted_sessions_records:
  "persisted_sessions lib st = concat (map (\<lambda>(k, m). map (session_record k) (ml_sessions lib m)) (ml_stores lib st))"
  by (simp add: persisted_sessions_def session_record_def [abs_def] case_prod_unfold)

lemma persisted_sessions_in:
  "s \<in> set (persisted_sessions lib st) \<longleftrightarrow>
     (\<exists>m. (session_key s, m) \<in> set (ml_stores lib st) \<and> (ps_session_id s, ps_entries s) \<in> set (ml_sessions lib m))"
    (is "?l \<longleftrightarrow> ?r")
proof
  assume ?l
  then obtain k m x where "(k, m) \<in> set (ml_stores lib st)" "x \<in> set (ml_sessions lib m)" "s = session_record k x"
    by (auto simp: persisted_sessions_records)
  then show ?r by auto
next
  assume ?r
  then obtain m where m: "(session_key s, m) \<in> set (ml_stores lib st)" "(ps_session_id s, ps_entries s) \<in> set (ml_sessions lib m)"
    by blast
  then have "session_record (session_key s) (ps_session_id s, ps_entries s) \<in> set (persisted_sessions lib st)"
    by (force simp: persisted_sessions_records)
  then show ?l by (simp add: session_record_eta)
qed

lemma persisted_sessions_distinct:
  assumes "distinct (map fst L)" "\<And>k m. (k, m) \<in> set L \<Longrightarrow> distinct (map fst (f m))"
  shows "distinct (concat (map (\<lambda>(k, m). map (\<lambda>(i, _). (k, i)) (f m)) L))"
  using assms
proof (induction L)
  case (Cons x L)
  obtain k m where x: "x = (k, m)" by fastforce
  have e: "map (\<lambda>(i, _). (k, i)) (f m) = map (Pair k) (map fst (f m))" by (simp add: case_prod_unfold)
  have "distinct (map (Pair k) (map fst (f m)))"
    using Cons.prems(2) [of k m] by (subst distinct_map) (simp add: x inj_on_def)
  then have "distinct (map (\<lambda>(i, _). (k, i)) (f m))" unfolding e .
  with Cons show ?case by (force simp: x)
qed simp

lemma persisted_sessions_lists:
  assumes "iterates (ml_stores lib)" "iterates (ml_sessions lib)" "store_ok st"
  shows "lists_store (persisted_sessions lib st) st"
proof -
  have fin: "finite (dom st)" "\<And>k m. st k = Some m \<Longrightarrow> finite (dom m)" using assms(3) by (auto simp: store_ok_def)
  have outer: "(k, m) \<in> set (ml_stores lib st) \<longleftrightarrow> st k = Some m" for k m by (rule iterated [OF assms(1) fin(1)])
  have inner: "(i, es) \<in> set (ml_sessions lib m) \<longleftrightarrow> m i = Some es" if "st k = Some m" for k m i es
    by (rule iterated [OF assms(2) fin(2) [OF that]])
  have "map (\<lambda>s. (session_key s, ps_session_id s)) (persisted_sessions lib st) =
      concat (map (\<lambda>(k, m). map (\<lambda>(i, _). (k, i)) (ml_sessions lib m)) (ml_stores lib st))"
    by (simp add: persisted_sessions_records map_concat comp_def case_prod_unfold)
  moreover have "distinct (concat (map (\<lambda>(k, m). map (\<lambda>(i, _). (k, i)) (ml_sessions lib m)) (ml_stores lib st)))"
    using assms(1,2) fin by (intro persisted_sessions_distinct) (auto simp: iterates_def outer)
  moreover have "stored st k sid = Some es \<longleftrightarrow>
      (\<exists>s \<in> set (persisted_sessions lib st). session_key s = k \<and> ps_session_id s = sid \<and> ps_entries s = es)" for k sid es
  proof
    assume "stored st k sid = Some es"
    then obtain m where m: "st k = Some m" "m sid = Some es" by (cases "st k") (auto simp: stored_def)
    let ?s = "session_record k (sid, es)"
    from m have "?s \<in> set (persisted_sessions lib st)"
      unfolding persisted_sessions_in by (intro exI [of _ m]) (simp add: outer inner)
    then show "\<exists>s \<in> set (persisted_sessions lib st). session_key s = k \<and> ps_session_id s = sid \<and> ps_entries s = es"
      by (intro bexI [of _ ?s]) simp_all
  next
    assume "\<exists>s \<in> set (persisted_sessions lib st). session_key s = k \<and> ps_session_id s = sid \<and> ps_entries s = es"
    then show "stored st k sid = Some es" by (auto simp: persisted_sessions_in outer inner stored_def)
  qed
  ultimately show ?thesis unfolding lists_store_def by simp
qed

subsection \<open>What the file says\<close>

text \<open>
  What the libraries document: a content reads back from its JSON, hash maps are iterated entry by entry, and
  the text of a JSON value, which is never empty, parses as this value.
\<close>

definition library_contract :: "memory_library \<Rightarrow> bool" where
  "library_contract lib \<longleftrightarrow> (\<forall>c. ml_content_of lib (ml_content lib c) = Some c) \<and>
     iterates (ml_stores lib) \<and> iterates (ml_sessions lib)"

definition text_contract :: "memory_library \<Rightarrow> json \<Rightarrow> bool" where
  "text_contract lib v \<longleftrightarrow> ml_parse lib (ml_print lib v) = Inr v \<and> ml_print lib v \<noteq> []"

lemma those_map: "(\<And>x. x \<in> set xs \<Longrightarrow> f (g x) = Some x) \<Longrightarrow> those (map f (map g xs)) = Some xs"
  by (induction xs) auto

lemma those_all: "those (map f xs) = Some ys \<Longrightarrow> (\<And>x y. f x = Some y \<Longrightarrow> P y) \<Longrightarrow> \<forall>y \<in> set ys. P y"
proof (induction xs arbitrary: ys)
  case (Cons x xs)
  then show ?case by (auto split: option.splits)
qed simp

lemma entry_round_trip:
  assumes "library_contract lib" "in_i64 (pe_timestamp_millis e)"
  shows "entry_of_json lib (json_of_entry lib e) = Some e"
  using assms by (simp add: entry_of_json_def json_of_entry_def struct_json_def json_simps json_as_i64_def in_i64_def
      library_contract_def)

lemma session_round_trip:
  assumes "library_contract lib" "stamps_ok (ps_entries s)"
  shows "session_of_json lib (json_of_session lib s) = Some s"
proof -
  have "those (map (entry_of_json lib) (map (json_of_entry lib) (ps_entries s))) = Some (ps_entries s)"
    using assms by (intro those_map) (simp add: entry_round_trip)
  then show ?thesis
    by (simp add: session_of_json_def json_of_session_def struct_json_def json_simps json_as_list_def)
qed

lemma memory_file_round_trip:
  assumes "library_contract lib" "\<forall>s \<in> set ss. stamps_ok (ps_entries s)"
  shows "memory_file_of_json lib (json_of_memory_file lib ss) = Some ss"
proof -
  have "those (map (session_of_json lib) (map (json_of_session lib) ss)) = Some ss"
    using assms by (intro those_map) (simp add: session_round_trip)
  then show ?thesis
    by (simp add: memory_file_of_json_def json_of_memory_file_def struct_json_def json_simps json_as_list_def)
qed

text \<open>Whatever the file holds, the store that is loaded from it is well formed.\<close>

lemma json_as_i64_range: "json_as_i64 v = Some t \<Longrightarrow> in_i64 t"
  by (cases v) (auto simp: json_as_i64_def in_i64_def split: if_splits)

lemma entry_stamp: "entry_of_json lib v = Some e \<Longrightarrow> in_i64 (pe_timestamp_millis e)"
  by (auto simp: entry_of_json_def Let_def bind_eq_Some_conv json_as_i64_range)

lemma json_list_all:
  assumes "json_as_list f v = Some xs" "\<And>u x. f u = Some x \<Longrightarrow> P x"
  shows "\<forall>x \<in> set xs. P x"
  using assms(1) those_all [of f _ xs P] assms(2) by (auto simp: json_as_list_def split: json.splits)

lemma session_stamps: "session_of_json lib v = Some s \<Longrightarrow> stamps_ok (ps_entries s)"
  by (auto simp: session_of_json_def Let_def bind_eq_Some_conv dest!: json_list_all [OF _ entry_stamp])

lemma memory_file_stamps: "memory_file_of_json lib v = Some ss \<Longrightarrow> \<forall>s \<in> set ss. stamps_ok (ps_entries s)"
  unfolding memory_file_of_json_def Let_def bind_eq_Some_conv
  by (elim exE conjE) (erule json_list_all, erule session_stamps)

lemma load_store_ok: "load_store lib fs read_fault path = Inr st \<Longrightarrow> store_ok st"
  by (auto simp: load_store_def parse_memory_file_def load_sessions_def intro!: fold_insert_ok dest: memory_file_stamps
      split: option.splits if_splits sum.splits)

lemma add_session_ok:
  assumes "add_session lib faults app user sid entries svc fs = (res, svc', fs')" "store_ok (ms_store svc)"
    and "\<forall>e \<in> set entries. in_i64 (me_timestamp e div 1000000)"
  shows "store_ok (ms_store svc')"
proof -
  have "ms_store svc' = store_insert \<lparr> mk_app_name = app, mk_user_id = user \<rparr> sid (map to_persisted entries) (ms_store svc)"
    using assms(1) by (auto simp: add_session_def Let_def split: prod.splits)
  moreover have "stamps_ok (map to_persisted entries)" using assms(3) by (simp add: to_persisted_def)
  ultimately show ?thesis using store_ok_insert [OF assms(2)] by simp
qed

subsection \<open>Writing\<close>

lemma persist_store_ok:
  "persist_store lib faults path st fs = (Inr (), fs') \<Longrightarrow>
     fs' path = Some (serialized_store lib st)"
  by (auto simp: persist_store_def Let_def split: if_splits option.splits)

lemma persist_store_atomic:
  assumes "with_extension ''tmp'' path \<noteq> path"
  shows "snd (persist_store lib faults path st fs) path =
    (if isl (fst (persist_store lib faults path st fs)) then fs path else Some (serialized_store lib st))"
  using assms by (auto simp: persist_store_def Let_def split: option.split)

subsection \<open>Searching\<close>

definition found :: "(int \<Rightarrow> int option) \<Rightarrow> int \<Rightarrow> persisted_entry \<Rightarrow> memory_entry" where
  "found of_millis now e = \<lparr> me_content = pe_content e, me_author = pe_author e,
     me_timestamp = (case of_millis (pe_timestamp_millis e) of Some t \<Rightarrow> t | None \<Rightarrow> now) \<rparr>"

lemma memory_search_set:
  assumes "\<And>m. ms_store svc \<lparr> mk_app_name = app_name, mk_user_id = user_id \<rparr> = Some m \<Longrightarrow> set (vals m) = ran m"
  shows "e \<in> set (memory_search vals lower of_millis now svc query user_id app_name) \<longleftrightarrow>
    (\<exists>sid es p. stored (ms_store svc) \<lparr> mk_app_name = app_name, mk_user_id = user_id \<rparr> sid = Some es \<and> p \<in> set es \<and>
       extract_words lower query \<inter> extract_words_from_content lower (pe_content p) \<noteq> {} \<and> e = found of_millis now p)"
proof (cases "ms_store svc \<lparr> mk_app_name = app_name, mk_user_id = user_id \<rparr>")
  case None
  then show ?thesis by (simp add: memory_search_def stored_def Let_def)
next
  case (Some m)
  then show ?thesis
    using assms [OF Some]
    by (auto simp: memory_search_def stored_def ran_def Let_def found_def image_iff) blast
qed

subsection \<open>Properties\<close>

text \<open>C21: Memory survives a restart. When adding the entries of a session succeeds, loading the file gives exactly
  the store that the service then has in memory, and that store is well formed again, so it goes on for any number of
  sessions and restarts: every store that is loaded is well formed. The loops over the hash maps and the fields of the
  file are the program's; of its libraries it assumes that a content reads back from its JSON, that a hash map is
  iterated entry by entry, in whatever order, and that the text of the file's JSON value is not empty and parses as
  this value. The reading of the file must not fail, and the time stamps of the entries must have 64 bits in milliseconds.\<close>

theorem memory_survives_restart:
  assumes "add_session lib faults app user sid entries svc fs = (Inr (), svc', fs')"
    and "store_ok (ms_store svc)" "\<forall>e \<in> set entries. in_i64 (me_timestamp e div 1000000)"
    and "library_contract lib" "text_contract lib (json_of_memory_file lib (persisted_sessions lib (ms_store svc')))"
  shows "load_store lib fs' (\<lambda>_. None) (ms_path svc) = Inr (ms_store svc') \<and> store_ok (ms_store svc')"
proof -
  let ?st = "ms_store svc'" let ?ss = "persisted_sessions lib ?st"
  have p: "persist_store lib faults (ms_path svc) ?st fs = (Inr (), fs')"
    using assms(1) by (auto simp: add_session_def Let_def split: prod.splits)
  have ok: "store_ok ?st" by (rule add_session_ok [OF assms(1-3)])
  have l: "lists_store ?ss ?st" using assms(4) ok by (intro persisted_sessions_lists) (simp_all add: library_contract_def)
  then have "stamps_ok (ps_entries s)" if "s \<in> set ?ss" for s
    using that stored_stamps [OF ok, of "session_key s" "ps_session_id s"] unfolding lists_store_def by blast
  then have "memory_file_of_json lib (json_of_memory_file lib ?ss) = Some ?ss"
    by (intro memory_file_round_trip [OF assms(4)]) blast
  with persist_store_ok [OF p] assms(5) load_sessions_lists [OF l ok] ok show ?thesis
    by (simp add: load_store_def parse_memory_file_def serialized_store_def text_contract_def)
qed

text \<open>the file is replaced as a whole. Whichever step of a write fails, the file holds either its old
  contents, and the error is reported, or all of the new ones; the path must not itself end in \<open>.tmp\<close>.\<close>

theorem memory_file_atomic:
  assumes "with_extension ''tmp'' (ms_path svc) \<noteq> ms_path svc"
    and "add_session lib faults app user sid entries svc fs = (res, svc', fs')"
  shows "(isl res \<and> fs' (ms_path svc) = fs (ms_path svc)) \<or>
    (\<not> isl res \<and> fs' (ms_path svc) = Some (serialized_store lib (ms_store svc')))"
proof -
  have "persist_store lib faults (ms_path svc) (ms_store svc') fs = (res, fs')"
    using assms(2) by (auto simp: add_session_def Let_def split: prod.splits)
  with persist_store_atomic [OF assms(1), of lib faults "ms_store svc'" fs] show ?thesis by simp
qed

text \<open>what a search finds. After the entries of a session were added, a search for the same
  application and user finds exactly the entries of its sessions that share a word with the query, those of
  the added session being the added ones and nothing older; the searches of others are unaffected.\<close>

theorem search_after_add:
  assumes "add_session lib faults app user sid entries svc fs = (res, svc', fs')"
    and "\<And>k m. ms_store svc k = Some m \<or> ms_store svc' k = Some m \<Longrightarrow> set (vals m) = ran m"
  shows "(e \<in> set (memory_search vals lower of_millis now svc' query user app) \<longleftrightarrow>
      (\<exists>p. (p \<in> set (map to_persisted entries) \<or>
            (\<exists>t es. t \<noteq> sid \<and> stored (ms_store svc) \<lparr> mk_app_name = app, mk_user_id = user \<rparr> t = Some es \<and> p \<in> set es)) \<and>
         extract_words lower query \<inter> extract_words_from_content lower (pe_content p) \<noteq> {} \<and>
         e = found of_millis now p)) \<and>
    ((user', app') \<noteq> (user, app) \<longrightarrow> set (memory_search vals lower of_millis now svc' query user' app') =
      set (memory_search vals lower of_millis now svc query user' app'))"
proof -
  have st: "ms_store svc' = store_insert \<lparr> mk_app_name = app, mk_user_id = user \<rparr> sid (map to_persisted entries) (ms_store svc)"
    using assms(1) by (auto simp: add_session_def Let_def split: prod.splits)
  have new: "x \<in> set (memory_search vals lower of_millis now svc' query u a) \<longleftrightarrow>
      (\<exists>t es p. stored (ms_store svc') \<lparr> mk_app_name = a, mk_user_id = u \<rparr> t = Some es \<and> p \<in> set es \<and>
         extract_words lower query \<inter> extract_words_from_content lower (pe_content p) \<noteq> {} \<and> x = found of_millis now p)" for x u a
    by (rule memory_search_set) (rule assms(2), blast)
  have old: "x \<in> set (memory_search vals lower of_millis now svc query u a) \<longleftrightarrow>
      (\<exists>t es p. stored (ms_store svc) \<lparr> mk_app_name = a, mk_user_id = u \<rparr> t = Some es \<and> p \<in> set es \<and>
         extract_words lower query \<inter> extract_words_from_content lower (pe_content p) \<noteq> {} \<and> x = found of_millis now p)" for x u a
    by (rule memory_search_set) (rule assms(2), blast)
  have "e \<in> set (memory_search vals lower of_millis now svc' query user app) \<longleftrightarrow>
      (\<exists>p. (p \<in> set (map to_persisted entries) \<or>
            (\<exists>t es. t \<noteq> sid \<and> stored (ms_store svc) \<lparr> mk_app_name = app, mk_user_id = user \<rparr> t = Some es \<and> p \<in> set es)) \<and>
         extract_words lower query \<inter> extract_words_from_content lower (pe_content p) \<noteq> {} \<and>
         e = found of_millis now p)"
    unfolding new st stored_insert by (auto split: if_splits)
  moreover have "set (memory_search vals lower of_millis now svc' query user' app') =
      set (memory_search vals lower of_millis now svc query user' app')" if "(user', app') \<noteq> (user, app)"
  proof -
    have "stored (ms_store svc') \<lparr> mk_app_name = app', mk_user_id = user' \<rparr> t =
        stored (ms_store svc) \<lparr> mk_app_name = app', mk_user_id = user' \<rparr> t" for t
      using that by (auto simp: st)
    then show ?thesis unfolding set_eq_iff new old by simp
  qed
  ultimately show ?thesis by blast
qed

text \<open>the agent's recall never finds anything. The adapter searches for the empty application and user,
  and everything is stored for the application \<open>liveclaw\<close>: whatever was added since the start with an
  empty store, its result is empty.\<close>

theorem recall_finds_nothing:
  assumes "fold (\<lambda>(user, sid, es). store_insert \<lparr> mk_app_name = ''liveclaw'', mk_user_id = user \<rparr> sid es) adds Map.empty
      = ms_store svc"
  shows "memory_adapter_search (\<lambda>q user app. Inr (memory_search vals lower of_millis now svc q user app)) limit query
    = Inr []"
proof -
  have "stored (fold (\<lambda>(user, sid, es). store_insert \<lparr> mk_app_name = ''liveclaw'', mk_user_id = user \<rparr> sid es) adds st)
      \<lparr> mk_app_name = [], mk_user_id = [] \<rparr> t = stored st \<lparr> mk_app_name = [], mk_user_id = [] \<rparr> t" for st t
    by (induction adds arbitrary: st) auto
  moreover have "\<forall>k. fold (\<lambda>(user, sid, es). store_insert \<lparr> mk_app_name = ''liveclaw'', mk_user_id = user \<rparr> sid es) adds st k
      \<noteq> Some Map.empty" if "\<forall>k. st k \<noteq> Some Map.empty" for st
    using that by (induction adds arbitrary: st) (auto simp: store_insert_def)
  ultimately have "stored (ms_store svc) \<lparr> mk_app_name = [], mk_user_id = [] \<rparr> t = None"
      "ms_store svc k \<noteq> Some Map.empty" for t k
    unfolding assms [symmetric] by (simp_all add: stored_def)
  then have "ms_store svc \<lparr> mk_app_name = [], mk_user_id = [] \<rparr> = None"
    unfolding stored_def by (metis (no_types, lifting) bind.bind_lunit ext option.exhaust)
  then show ?thesis by (simp add: memory_adapter_search_def memory_search_def Let_def)
qed

subsection \<open>Examples\<close>

text \<open>A service whose store has the session \<open>s\<close> of one user, and its listings.\<close>

definition sample_service :: memory_service where
  "sample_service = \<lparr> ms_path = ''m.json'', ms_store = Map.empty \<rparr>"

definition sample_entry :: memory_entry where
  "sample_entry = \<lparr> me_content = text_content ''assistant'' ''red'', me_author = ''assistant'', me_timestamp = 0 \<rparr>"

text \<open>Hash maps iterated in the order of their keys.\<close>

definition sorted_entries :: "(string \<rightharpoonup> 'v) \<Rightarrow> (string \<times> 'v) list" where
  "sorted_entries m = map (\<lambda>k. (k, the (m k))) (sorted_list_of_set (dom m))"

definition memory_key_of :: "string \<times> string \<Rightarrow> memory_key" where
  "memory_key_of p = \<lparr> mk_app_name = fst p, mk_user_id = snd p \<rparr>"

definition sorted_stores :: "(memory_key \<rightharpoonup> 'v) \<Rightarrow> (memory_key \<times> 'v) list" where
  "sorted_stores m = map (\<lambda>p. (memory_key_of p, the (m (memory_key_of p))))
     (sorted_list_of_set (dom (m \<circ> memory_key_of)))"

lemma map_of_listed: "map_of (map (\<lambda>x. (f x, the (m (f x)))) xs) k = (if k \<in> f ` set xs then Some (the (m k)) else None)"
  by (induction xs) auto

lemma sorted_entries_iterates: "iterates sorted_entries"
proof -
  have "map_of (sorted_entries m) k = m k" if "finite (dom m)" for m :: "string \<rightharpoonup> 'v" and k
    using that map_of_listed [of "\<lambda>k. k" m "sorted_list_of_set (dom m)" k] by (auto simp: sorted_entries_def domIff)
  then show ?thesis by (auto simp: iterates_def sorted_entries_def comp_def)
qed

lemma sorted_stores_iterates: "iterates sorted_stores"
proof -
  have inj: "inj memory_key_of" by (auto simp: inj_def memory_key_of_def prod_eq_iff)
  have surj: "k \<in> range memory_key_of" for k
    by (rule range_eqI [of _ _ "(mk_app_name k, mk_user_id k)"]) (simp add: memory_key_of_def)
  have fin: "finite (dom (m \<circ> memory_key_of))" if "finite (dom m)" for m :: "memory_key \<rightharpoonup> 'v"
  proof -
    have "dom (m \<circ> memory_key_of) = memory_key_of -` dom m" by auto
    then show ?thesis using that finite_vimageI [OF that inj] by simp
  qed
  have "map_of (sorted_stores m) k = m k" if "finite (dom m)" for m :: "memory_key \<rightharpoonup> 'v" and k
  proof -
    have "k \<in> memory_key_of ` dom (m \<circ> memory_key_of) \<longleftrightarrow> m k \<noteq> None" using surj [of k] by auto
    with fin [OF that] map_of_listed [of memory_key_of m "sorted_list_of_set (dom (m \<circ> memory_key_of))" k]
    show ?thesis by (cases "m k") (simp_all add: sorted_stores_def)
  qed
  moreover have "distinct (map fst (sorted_stores m))" for m :: "memory_key \<rightharpoonup> 'v"
    by (simp add: sorted_stores_def comp_def distinct_map inj_on_subset [OF inj])
  ultimately show ?thesis by (auto simp: iterates_def)
qed

text \<open>A JSON of contents that reads back.\<close>

fun sample_part_json :: "part \<Rightarrow> json" where
  "sample_part_json (TextPart t) = JStr t"
| "sample_part_json (InlineData m b) = JArr (JStr m # map (\<lambda>w. JNum (uint w)) b)"
| "sample_part_json (OtherPart x) = JObj [(x, JNull)]"

fun sample_byte_of :: "json \<Rightarrow> 8 word" where
  "sample_byte_of (JNum i) = word_of_int i"
| "sample_byte_of _ = 0"

fun sample_part_of :: "json \<Rightarrow> part" where
  "sample_part_of (JStr t) = TextPart t"
| "sample_part_of (JArr (JStr m # b)) = InlineData m (map sample_byte_of b)"
| "sample_part_of (JObj [(x, _)]) = OtherPart x"
| "sample_part_of _ = OtherPart []"

definition sample_content_json :: "content \<Rightarrow> json" where
  "sample_content_json c = JArr (JStr (co_role c) # map sample_part_json (co_parts c))"

fun sample_content_of :: "json \<Rightarrow> content option" where
  "sample_content_of (JArr (JStr role # ps)) = Some \<lparr> co_role = role, co_parts = map sample_part_of ps \<rparr>"
| "sample_content_of _ = None"

lemma sample_part_round_trip [simp]: "sample_part_of (sample_part_json p) = p"
  by (cases p) (simp_all add: comp_def)

lemma sample_content_round_trip: "sample_content_of (sample_content_json c) = Some c"
  by (simp add: sample_content_json_def comp_def)

definition sample_sessions :: "persisted_session list" where
  "sample_sessions = [\<lparr> ps_app_name = ''liveclaw'', ps_user_id = ''u'', ps_session_id = ''s'',
     ps_entries = [to_persisted sample_entry] \<rparr>]"

text \<open>The library of the examples; the one text that it parses is that of the sample's file.\<close>

definition sample_codec :: memory_library where
  "sample_codec = \<lparr> ml_content = sample_content_json, ml_content_of = sample_content_of, ml_print = (\<lambda>_. ''x''),
     ml_parse = (\<lambda>_. Inl ''no file''), ml_stores = sorted_stores, ml_sessions = sorted_entries \<rparr>"

definition sample_library :: memory_library where
  "sample_library = sample_codec \<lparr> ml_parse := (\<lambda>_. Inr (json_of_memory_file sample_codec sample_sessions)) \<rparr>"

lemma sample_library_contract: "library_contract sample_library"
  by (simp add: library_contract_def sample_library_def sample_codec_def sample_content_round_trip
      sorted_entries_iterates sorted_stores_iterates)

definition sample_values :: "(string \<rightharpoonup> persisted_entry list) \<Rightarrow> persisted_entry list list" where
  "sample_values m = (case m ''s'' of None \<Rightarrow> [] | Some es \<Rightarrow> [es])"

definition sample_add :: "unit result \<times> memory_service \<times> (string \<rightharpoonup> string)" where
  "sample_add = add_session sample_library no_faults ''liveclaw'' ''u'' ''s'' [sample_entry] sample_service Map.empty"

lemma sample_add_store:
  "ms_store (fst (snd sample_add)) =
     [\<lparr> mk_app_name = ''liveclaw'', mk_user_id = ''u'' \<rparr> \<mapsto> [''s'' \<mapsto> [to_persisted sample_entry]]]"
  "fst sample_add = Inr ()"
  by (simp_all add: sample_add_def add_session_def persist_store_def no_faults_def Let_def split_def sample_service_def
      store_insert_def)

lemma sample_add_eq:
  "add_session sample_library no_faults ''liveclaw'' ''u'' ''s'' [sample_entry] sample_service Map.empty =
     (Inr (), fst (snd sample_add), snd (snd sample_add))"
  using sample_add_store(2) by (metis prod.collapse sample_add_def)

lemma sample_persisted:
  "persisted_sessions sample_library (ms_store (fst (snd sample_add))) = sample_sessions"
proof -
  let ?k = "\<lparr> mk_app_name = ''liveclaw'', mk_user_id = ''u'' \<rparr>" and ?m = "[''s'' \<mapsto> [to_persisted sample_entry]]"
  have "dom ([?k \<mapsto> ?m] \<circ> memory_key_of) = {(''liveclaw'', ''u'')}"
    by (auto simp: memory_key_of_def split: if_splits)
  then have "sorted_stores [?k \<mapsto> ?m] = [(?k, ?m)]" by (simp add: sorted_stores_def memory_key_of_def)
  moreover have "sorted_entries ?m = [(''s'', [to_persisted sample_entry])]" by (simp add: sorted_entries_def)
  ultimately show ?thesis
    by (simp add: persisted_sessions_def sample_add_store sample_library_def sample_codec_def sample_sessions_def)
qed

lemma sample_file_json: "json_of_memory_file sample_library ss = json_of_memory_file sample_codec ss"
  by (simp add: json_of_memory_file_def json_of_session_def [abs_def] json_of_entry_def [abs_def] sample_library_def)

theorem memory_survives_restart_witness:
  "load_store sample_library (snd (snd sample_add)) (\<lambda>_. None) ''m.json'' = Inr (ms_store (fst (snd sample_add)))"
proof -
  have "store_ok (ms_store sample_service)" by (simp add: sample_service_def)
  moreover have "\<forall>e \<in> set [sample_entry]. in_i64 (me_timestamp e div 1000000)" by (simp add: sample_entry_def in_i64_def)
  moreover have "text_contract sample_library
      (json_of_memory_file sample_library (persisted_sessions sample_library (ms_store (fst (snd sample_add)))))"
    unfolding sample_persisted sample_file_json by (simp add: text_contract_def) (simp add: sample_library_def sample_codec_def)
  ultimately show ?thesis
    using memory_survives_restart [OF sample_add_eq _ _ sample_library_contract] by (simp add: sample_service_def)
qed

lemma sample_tmp: "with_extension ''tmp'' ''m.json'' = ''m.tmp''"
  by (simp add: with_extension_def file_name_of_def file_stem_of_def path_body.simps [of "''m.json''"] ends_with_def
      starts_with_def)

theorem memory_file_atomic_witness:
  "snd (snd (add_session sample_library (no_faults \<lparr> pf_rename := Some ''EACCES'' \<rparr>) ''liveclaw'' ''u'' ''s''
      [sample_entry] sample_service [''m.json'' \<mapsto> ''old''])) ''m.json'' = Some ''old''"
proof -
  let ?r = "add_session sample_library (no_faults \<lparr> pf_rename := Some ''EACCES'' \<rparr>) ''liveclaw'' ''u'' ''s''
      [sample_entry] sample_service [''m.json'' \<mapsto> ''old'']"
  have r: "?r = (fst ?r, fst (snd ?r), snd (snd ?r))" by simp
  have isl: "isl (fst ?r)"
    by (simp add: add_session_def persist_store_def no_faults_def Let_def split_def)
  have p: "ms_path sample_service = ''m.json''" by (simp add: sample_service_def)
  then have "with_extension ''tmp'' (ms_path sample_service) \<noteq> ms_path sample_service" by (simp add: sample_tmp)
  from memory_file_atomic [OF this r] isl have "snd (snd ?r) ''m.json'' = [''m.json'' \<mapsto> ''old''] ''m.json''"
    unfolding p by blast
  then show ?thesis by (simp only: fun_upd_same)
qed

theorem search_after_add_witness:
  "set (memory_search sample_values (\<lambda>w. w) (\<lambda>_. None) 5 (fst (snd sample_add)) ''red'' ''other'' ''liveclaw'') =
     set (memory_search sample_values (\<lambda>w. w) (\<lambda>_. None) 5 sample_service ''red'' ''other'' ''liveclaw'')"
proof -
  have "set (sample_values m) = ran m"
    if "ms_store sample_service k = Some m \<or> ms_store (fst (snd sample_add)) k = Some m" for k m
    using that by (auto simp: sample_add_store sample_service_def sample_values_def split: if_splits)
  from search_after_add [OF sample_add_eq this] show ?thesis by auto
qed

theorem recall_finds_nothing_witness:
  "memory_adapter_search (\<lambda>q user app. Inr (memory_search sample_values (\<lambda>w. w) (\<lambda>_. None) 5 (fst (snd sample_add)) q user app))
     10 ''red'' = Inr []"
  by (rule recall_finds_nothing [of "[(''u'', ''s'', [to_persisted sample_entry])]"])
    (simp add: sample_add_store store_insert_def)

end
