(* ===== verification/Artifacts.thy ===== *)
theory Artifacts
  imports Transcripts Workspace Memory_Store
begin

section \<open>The artifact files\<close>

text \<open>
  \<open>FileArtifactService\<close> of \<open>liveclaw-app/src/storage.rs\<close>. The directory tree below the storage root is a list
  of paths with what is there, a path being the list of its names; the root is the empty path.
  \<open>serde\<close> writes and reads a part as it is. Besides the errors that follow from the tree, every
  system call may fail with an error of its own, given by the parameter \<open>fault\<close>: writing a file fails when it is
  opened, which changes nothing, or later, which leaves a file that is cut off and that no load can parse; the text of
  the parser's error is left out. The version counter is a signed 64-bit integer whose increment wraps around, as in a release build.
\<close>

text \<open>A file holds a part, or is cut off.\<close>

datatype tree_node = DirNode | FileNode "part option"

type_synonym tree = "(string list \<times> tree_node) list"

datatype fs_op = OpCreateDir | OpReadDir | OpOpenWrite | OpWrite | OpRead | OpRemoveFile | OpRemoveDir

type_synonym faults = "fs_op \<Rightarrow> string list \<Rightarrow> string option"

definition tree_put :: "string list \<Rightarrow> tree_node \<Rightarrow> tree \<Rightarrow> tree" where
  "tree_put p n t = (p, n) # filter (\<lambda>(q, _). q \<noteq> p) t"

definition path_exists :: "tree \<Rightarrow> string list \<Rightarrow> bool" where
  "path_exists t p \<longleftrightarrow> map_of t p \<noteq> None"

definition children :: "tree \<Rightarrow> string list \<Rightarrow> string list" where
  "children t p = map last (filter (\<lambda>q. q \<noteq> [] \<and> butlast q = p) (map fst t))"

text \<open>\<open>create_dir_all\<close>: the directories that are missing on the way, from the top.\<close>

fun make_dirs :: "string list list \<Rightarrow> tree \<Rightarrow> unit result \<times> tree" where
  "make_dirs [] t = (Inr (), t)"
| "make_dirs (p # ps) t =
     (case map_of t p of
        Some DirNode \<Rightarrow> make_dirs ps t
      | Some (FileNode _) \<Rightarrow> (Inl ''Not a directory (os error 20)'', t)
      | None \<Rightarrow> make_dirs ps (tree_put p DirNode t))"

definition create_dir_all :: "faults \<Rightarrow> string list \<Rightarrow> tree \<Rightarrow> unit result \<times> tree" where
  "create_dir_all fault p t =
     (case fault OpCreateDir p of
        Some e \<Rightarrow> (Inl e, t)
      | None \<Rightarrow> make_dirs (map (\<lambda>n. take n p) [0 ..< length p + 1]) t)"

subsection \<open>Names and directories\<close>

fun replace_dots :: "string \<Rightarrow> string" where
  "replace_dots (a # b # s) =
     (if a = CHR ''.'' \<and> b = CHR ''.'' then CHR ''_'' # replace_dots s else a # replace_dots (b # s))"
| "replace_dots s = s"

definition sanitize_component :: "string \<Rightarrow> string" where
  "sanitize_component input =
     trim (replace_dots (map (\<lambda>c. if c = CHR ''/'' \<or> c = CHR 0x5C \<or> c = CHR '':'' then CHR ''_'' else c) input))"

record artifact_key =
  ak_app_name :: string
  ak_user_id :: string
  ak_session_id :: string
  ak_file_name :: string

text \<open>Joining an empty name or a dot to a path does not lead anywhere else.\<close>

definition join_names :: "string list \<Rightarrow> string list" where
  "join_names ns = filter (\<lambda>n. n \<noteq> [] \<and> n \<noteq> ''.'') ns"

definition session_dir :: "artifact_key \<Rightarrow> string list" where
  "session_dir k = join_names [sanitize_component (ak_app_name k), sanitize_component (ak_user_id k),
     sanitize_component (ak_session_id k)]"

definition file_dir :: "artifact_key \<Rightarrow> string list" where
  "file_dir k = session_dir k @ join_names [sanitize_component (ak_file_name k)]"

definition version_file :: "int \<Rightarrow> string" where
  "version_file v = show_int v @ ''.json''"

definition version_of_name :: "tree \<Rightarrow> string list \<Rightarrow> string \<Rightarrow> int option" where
  "version_of_name t p n =
     (case map_of t (p @ [n]) of
        Some (FileNode _) \<Rightarrow> parse_i64 (file_stem_of n)
      | _ \<Rightarrow> None)"

definition versions_for_path :: "faults \<Rightarrow> string list \<Rightarrow> tree \<Rightarrow> int list result" where
  "versions_for_path fault p t =
     (if \<not> path_exists t p then Inr []
      else case fault OpReadDir p of
        Some e \<Rightarrow> Inl e
      | None \<Rightarrow>
          (case map_of t p of
             Some (FileNode _) \<Rightarrow> Inl ''Not a directory (os error 20)''
           | _ \<Rightarrow> Inr (sort (List.map_filter (version_of_name t p) (children t p)))))"

subsection \<open>The operations\<close>

definition i64_succ :: "int \<Rightarrow> int" where
  "i64_succ v = (if v = 2 ^ 63 - 1 then - (2 ^ 63) else v + 1)"

definition last_version :: "int list \<Rightarrow> int option" where
  "last_version vs = (if vs = [] then None else Some (last vs))"

definition artifact_save ::
  "faults \<Rightarrow> artifact_key \<Rightarrow> part \<Rightarrow> int option \<Rightarrow> tree \<Rightarrow> int result \<times> tree" where
  "artifact_save fault k part version t =
     (let dir = file_dir k
      in case create_dir_all fault dir t of
           (Inl e, t) \<Rightarrow> (Inl e, t)
         | (Inr _, t) \<Rightarrow>
             (case versions_for_path fault dir t of
                Inl e \<Rightarrow> (Inl e, t)
              | Inr versions \<Rightarrow>
                  let v = (case version of
                             Some v \<Rightarrow> v
                           | None \<Rightarrow> i64_succ (case last_version versions of Some l \<Rightarrow> l | None \<Rightarrow> 0));
                      file_path = dir @ [version_file v]
                  in (case fault OpOpenWrite file_path of
                        Some e \<Rightarrow> (Inl e, t)
                      | None \<Rightarrow>
                          (if map_of t file_path = Some DirNode then (Inl ''Is a directory (os error 21)'', t)
                           else case fault OpWrite file_path of
                             Some e \<Rightarrow> (Inl e, tree_put file_path (FileNode None) t)
                           | None \<Rightarrow> (Inr v, tree_put file_path (FileNode (Some part)) t)))))"

definition artifact_load :: "faults \<Rightarrow> artifact_key \<Rightarrow> int option \<Rightarrow> tree \<Rightarrow> part result" where
  "artifact_load fault k version t =
     (let dir = file_dir k
      in case versions_for_path fault dir t of
           Inl e \<Rightarrow> Inl e
         | Inr versions \<Rightarrow>
             (case (case version of Some v \<Rightarrow> Some v | None \<Rightarrow> last_version versions) of
                None \<Rightarrow> Inl ''artifact not found''
              | Some v \<Rightarrow>
                  (let file_path = dir @ [version_file v]
                   in case fault OpRead file_path of
                        Some e \<Rightarrow> Inl e
                      | None \<Rightarrow>
                          (case map_of t file_path of
                             Some (FileNode (Some part)) \<Rightarrow> Inr part
                           | Some (FileNode None) \<Rightarrow> Inl ''not the JSON of a part''
                           | Some DirNode \<Rightarrow> Inl ''Is a directory (os error 21)''
                           | None \<Rightarrow> Inl ''No such file or directory (os error 2)''))))"

definition is_prefix :: "string list \<Rightarrow> string list \<Rightarrow> bool" where
  "is_prefix p q \<longleftrightarrow> take (length p) q = p"

definition remove_tree :: "string list \<Rightarrow> tree \<Rightarrow> tree" where
  "remove_tree p t = filter (\<lambda>(q, _). \<not> is_prefix p q) t"

definition artifact_delete :: "faults \<Rightarrow> artifact_key \<Rightarrow> int option \<Rightarrow> tree \<Rightarrow> unit result \<times> tree" where
  "artifact_delete fault k version t =
     (let dir = file_dir k
      in case version of
           Some v \<Rightarrow>
             (let file_path = dir @ [version_file v]
              in if path_exists t file_path
                 then (case fault OpRemoveFile file_path of
                         Some e \<Rightarrow> (Inl e, t)
                       | None \<Rightarrow>
                           (if map_of t file_path = Some DirNode then (Inl ''Is a directory (os error 21)'', t)
                            else (Inr (), filter (\<lambda>(q, _). q \<noteq> file_path) t)))
                 else (Inr (), t))
         | None \<Rightarrow>
             (if path_exists t dir
              then (case fault OpRemoveDir dir of
                      Some e \<Rightarrow> (Inl e, t)
                    | None \<Rightarrow>
                        (if map_of t dir \<noteq> Some DirNode then (Inl ''Not a directory (os error 20)'', t)
                         else (Inr (), remove_tree dir t)))
              else (Inr (), t)))"

definition artifact_list :: "faults \<Rightarrow> artifact_key \<Rightarrow> tree \<Rightarrow> string list result" where
  "artifact_list fault k t =
     (let dir = session_dir k
      in if \<not> path_exists t dir then Inr []
         else case fault OpReadDir dir of
           Some e \<Rightarrow> Inl e
         | None \<Rightarrow>
             (case map_of t dir of
                Some (FileNode _) \<Rightarrow> Inl ''Not a directory (os error 20)''
              | _ \<Rightarrow> Inr (sort (filter (\<lambda>n. map_of t (dir @ [n]) = Some DirNode) (children t dir)))))"

definition artifact_versions :: "faults \<Rightarrow> artifact_key \<Rightarrow> tree \<Rightarrow> int list result" where
  "artifact_versions fault k t = versions_for_path fault (file_dir k) t"

subsection \<open>Names\<close>

lemma trim_infix: "\<exists>a b. s = a @ trim s @ b"
proof -
  obtain a where "s = a @ trim_start s" unfolding trim_start_def using drop_ws_suffix by blast
  moreover obtain b where "trim_start s = trim s @ b" unfolding trim_def using trim_end_prefix by blast
  ultimately show ?thesis by metis
qed

lemma replace_dots_set: "set (replace_dots s) \<subseteq> insert (CHR ''_'') (set s)"
  by (induction s rule: replace_dots.induct) auto

lemma replace_dots_Cons: "\<exists>u. replace_dots (c # s) = (if c = CHR ''.'' \<and> s \<noteq> [] \<and> hd s = CHR ''.'' then CHR ''_'' else c) # u"
  by (cases s) auto

lemma replace_dots_no_dots: "replace_dots s \<noteq> a @ ''..'' @ b"
proof (induction s arbitrary: a rule: replace_dots.induct)
  case (1 x y s)
  show ?case
  proof (cases "x = CHR ''.'' \<and> y = CHR ''.''")
    case True
    with 1(1) show ?thesis by (cases a) auto
  next
    case False
    obtain u where u: "replace_dots (y # s) = (if y = CHR ''.'' \<and> s \<noteq> [] \<and> hd s = CHR ''.'' then CHR ''_'' else y) # u"
      using replace_dots_Cons by blast
    have IH: "replace_dots (y # s) \<noteq> a @ ''..'' @ b" for a using 1(2) [OF False] by blast
    show ?thesis
    proof (cases a)
      case Nil
      with False u show ?thesis by auto
    next
      case (Cons c a')
      with False IH [of a'] show ?thesis by auto
    qed
  qed
qed (auto simp: Cons_eq_append_conv append_eq_Cons_conv)

lemma sanitize_no_separator:
  "CHR ''/'' \<notin> set (sanitize_component s) \<and> CHR 0x5C \<notin> set (sanitize_component s) \<and> CHR '':'' \<notin> set (sanitize_component s)"
proof -
  let ?m = "map (\<lambda>c. if c = CHR ''/'' \<or> c = CHR 0x5C \<or> c = CHR '':'' then CHR ''_'' else c) s"
  obtain a b where "replace_dots ?m = a @ sanitize_component s @ b"
    unfolding sanitize_component_def using trim_infix by blast
  then have "set (sanitize_component s) \<subseteq> set (replace_dots ?m)" by (metis Un_iff set_append subsetI)
  also have "\<dots> \<subseteq> insert (CHR ''_'') (set ?m)" by (rule replace_dots_set)
  finally show ?thesis by auto
qed

lemma sanitize_not_parent: "sanitize_component s \<noteq> ''..''"
proof
  assume "sanitize_component s = ''..''"
  then obtain u where u: "trim (replace_dots u) = ''..''" unfolding sanitize_component_def by blast
  obtain a b where "replace_dots u = a @ trim (replace_dots u) @ b" using trim_infix by blast
  with u have "replace_dots u = a @ ''..'' @ b" by (simp only:)
  then show False using replace_dots_no_dots by blast
qed

subsection \<open>The tree\<close>

lemma map_of_filter_ne: "map_of (filter (\<lambda>(q, _). q \<noteq> p) t) q = (if q = p then None else map_of t q)"
  by (induction t) auto

lemma map_of_tree_put [simp]: "map_of (tree_put p n t) q = (if q = p then Some n else map_of t q)"
  by (simp add: tree_put_def map_of_filter_ne)

lemma map_of_remove_tree: "map_of (remove_tree p t) q = (if is_prefix p q then None else map_of t q)"
  unfolding remove_tree_def by (induction t) auto

lemma children_iff: "n \<in> set (children t p) \<longleftrightarrow> map_of t (p @ [n]) \<noteq> None"
proof -
  have "n \<in> set (children t p) \<longleftrightarrow> p @ [n] \<in> set (map fst t)"
  proof
    assume "n \<in> set (children t p)"
    then obtain q where "q \<in> set (map fst t)" "q \<noteq> []" "butlast q = p" "n = last q"
      unfolding children_def by auto
    then show "p @ [n] \<in> set (map fst t)" by (metis append_butlast_last_id)
  next
    assume "p @ [n] \<in> set (map fst t)"
    then have "p @ [n] \<in> set (filter (\<lambda>q. q \<noteq> [] \<and> butlast q = p) (map fst t))" by simp
    then have "last (p @ [n]) \<in> set (children t p)" unfolding children_def set_map by (rule imageI)
    then show "n \<in> set (children t p)" by simp
  qed
  then show ?thesis by (simp add: map_of_eq_None_iff)
qed

lemma make_dirs_Inr:
  "make_dirs ps t = (Inr u, t') \<Longrightarrow>
     (\<forall>q. map_of t' q = (if q \<in> set ps then Some DirNode else map_of t q)) \<and>
     (\<forall>q \<in> set ps. \<forall>c. map_of t q \<noteq> Some (FileNode c))"
proof (induction ps t rule: make_dirs.induct)
  case (2 p ps t)
  then show ?case by (auto split: option.splits tree_node.splits if_splits)
qed simp

lemma create_dir_all_Inr:
  assumes "create_dir_all fault p t = (Inr u, t')"
  shows "map_of t' p = Some DirNode" "\<And>q. map_of t' q \<noteq> map_of t q \<Longrightarrow> map_of t q = None"
    "\<And>q c. map_of t' q = Some (FileNode c) \<longleftrightarrow> map_of t q = Some (FileNode c)"
proof -
  have m: "make_dirs (map (\<lambda>n. take n p) [0 ..< length p + 1]) t = (Inr u, t')"
    using assms by (auto simp: create_dir_all_def split: option.splits)
  have p: "p \<in> set (map (\<lambda>n. take n p) [0 ..< length p + 1])" by force
  note r = make_dirs_Inr [OF m]
  from r p show "map_of t' p = Some DirNode" by metis
  show "map_of t q = None" if "map_of t' q \<noteq> map_of t q" for q
    using r that by (metis (full_types) not_None_eq tree_node.exhaust)
  show "map_of t' q = Some (FileNode c) \<longleftrightarrow> map_of t q = Some (FileNode c)" for q c
    using r by (metis option.inject tree_node.distinct(1))
qed

subsection \<open>Versions\<close>

lemma file_stem_version: "file_stem_of (version_file v) = show_int v"
proof -
  have "CHR ''.'' \<notin> set (show_nat n)" for n
    using parse_show_nat [of n] by (auto simp: list_all_iff is_dec_digit_def byte_of_def)
  then have dot: "CHR ''.'' \<notin> set (show_int v)" by (simp add: show_int_def)
  have "dropWhile (\<lambda>c. c \<noteq> CHR ''.'') (rev (version_file v)) = CHR ''.'' # rev (show_int v)"
    by (simp add: version_file_def)
  moreover have "show_int v \<noteq> []" by (simp add: show_int_def)
  moreover have "CHR ''.'' \<in> set (version_file v)" by (simp add: version_file_def)
  ultimately show ?thesis by (simp add: file_stem_of_def Let_def)
qed

lemma map_filter_set: "set (List.map_filter f xs) = {y. \<exists>x \<in> set xs. f x = Some y}"
  by (induction xs) (auto split: option.split)

lemma versions_for_path_Inr:
  assumes "versions_for_path fault p t = Inr vs" "path_exists t p"
  shows "sorted vs" "v \<in> set vs \<longleftrightarrow> (\<exists>n. version_of_name t p n = Some v)"
proof -
  have vs: "vs = sort (List.map_filter (version_of_name t p) (children t p))"
    using assms by (auto simp: versions_for_path_def split: option.splits tree_node.splits)
  then show "sorted vs" by simp
  show "v \<in> set vs \<longleftrightarrow> (\<exists>n. version_of_name t p n = Some v)"
    unfolding vs set_sort map_filter_set by (auto simp: children_iff version_of_name_def split: option.splits)
qed

lemma version_of_name_range: "version_of_name t p n = Some v \<Longrightarrow> - (2 ^ 63) \<le> v \<and> v < 2 ^ 63"
  by (auto simp: version_of_name_def parse_i64_def Option.bind_eq_Some_conv split: option.splits tree_node.splits if_splits)

lemma sorted_last: "sorted xs \<Longrightarrow> x \<in> set xs \<Longrightarrow> x \<le> last xs"
  by (induction xs) (auto split: if_splits)

text \<open>What a successful save does, step by step.\<close>

lemma artifact_save_Inr:
  assumes "artifact_save fault k part version t = (Inr v, t')"
  obtains t1 vs where "create_dir_all fault (file_dir k) t = (Inr (), t1)"
    "versions_for_path fault (file_dir k) t1 = Inr vs"
    "v = (case version of Some v \<Rightarrow> v | None \<Rightarrow> i64_succ (case last_version vs of Some l \<Rightarrow> l | None \<Rightarrow> 0))"
    "t' = tree_put (file_dir k @ [version_file v]) (FileNode (Some part)) t1"
    "map_of t1 (file_dir k @ [version_file v]) \<noteq> Some DirNode"
  using assms
  by (auto simp: artifact_save_def Let_def split: prod.splits sum.splits option.splits if_splits)


subsection \<open>The tree invariant\<close>

text \<open>Whatever exists lies in a directory that exists.\<close>

definition tree_ok :: "tree \<Rightarrow> bool" where
  "tree_ok t \<longleftrightarrow> (\<forall>p. map_of t p \<noteq> None \<and> p \<noteq> [] \<longrightarrow> map_of t (butlast p) = Some DirNode)"

lemma tree_ok_parent: "tree_ok t \<Longrightarrow> map_of t (p @ [n]) \<noteq> None \<Longrightarrow> map_of t p = Some DirNode"
  unfolding tree_ok_def by (drule spec [of _ "p @ [n]"]) simp

lemma tree_ok_child: "tree_ok t \<Longrightarrow> map_of t p = None \<Longrightarrow> map_of t (p @ [n]) = None"
  using tree_ok_parent by fastforce

lemma make_dirs_prefix:
  "\<exists>j. map_of (snd (make_dirs ps t)) = (\<lambda>q. if q \<in> set (take j ps) then Some DirNode else map_of t q) \<and>
       (\<forall>q \<in> set (take j ps). \<forall>c. map_of t q \<noteq> Some (FileNode c))"
proof (induction ps t rule: make_dirs.induct)
  case (2 p ps t)
  consider (plain) c where "map_of t p = Some (FileNode c)" | (dir) "map_of t p = Some DirNode" | (none) "map_of t p = None"
    by (metis not_None_eq tree_node.exhaust)
  then show ?case
  proof cases
    case plain
    then show ?thesis by (intro exI [of _ 0]) simp
  next
    case dir
    with 2(2) obtain j where "map_of (snd (make_dirs ps t)) = (\<lambda>q. if q \<in> set (take j ps) then Some DirNode else map_of t q)"
      "\<forall>q \<in> set (take j ps). \<forall>c. map_of t q \<noteq> Some (FileNode c)" by blast
    with dir show ?thesis by (intro exI [of _ "Suc j"]) auto
  next
    case none
    with 2(1) obtain j where "map_of (snd (make_dirs ps (tree_put p DirNode t))) =
        (\<lambda>q. if q \<in> set (take j ps) then Some DirNode else map_of (tree_put p DirNode t) q)"
      "\<forall>q \<in> set (take j ps). \<forall>c. map_of (tree_put p DirNode t) q \<noteq> Some (FileNode c)" by blast
    with none show ?thesis by (intro exI [of _ "Suc j"]) (auto split: if_splits)
  qed
qed simp

lemma take_prefixes: "take j (map (\<lambda>n. take n p) [0 ..< length p + 1]) = map (\<lambda>n. take n p) [0 ..< min j (length p + 1)]"
  by (simp add: take_map min_def del: upt_Suc)

lemma create_dir_all_prefix:
  obtains j where "map_of (snd (create_dir_all fault p t)) = (\<lambda>q. if \<exists>n < j. q = take n p then Some DirNode else map_of t q)"
    "\<And>q n c. n < j \<Longrightarrow> map_of t (take n p) \<noteq> Some (FileNode c)"
proof -
  let ?ps = "map (\<lambda>n. take n p) [0 ..< length p + 1]"
  have set_take: "q \<in> set (take j ?ps) \<longleftrightarrow> (\<exists>n < min j (length p + 1). q = take n p)" for j q
    unfolding take_prefixes by auto
  obtain j where j: "map_of (snd (make_dirs ?ps t)) = (\<lambda>q. if q \<in> set (take j ?ps) then Some DirNode else map_of t q)"
      "\<forall>q \<in> set (take j ?ps). \<forall>c. map_of t q \<noteq> Some (FileNode c)"
    using make_dirs_prefix by blast
  have "map_of (snd (make_dirs ?ps t)) = (\<lambda>q. if \<exists>n < min j (length p + 1). q = take n p then Some DirNode else map_of t q)"
    using j(1) by (simp only: set_take)
  moreover have "map_of t (take n p) \<noteq> Some (FileNode c)" if "n < min j (length p + 1)" for n c
  proof -
    have "take n p \<in> set (take j ?ps)" using that by (simp only: set_take) blast
    with j(2) show ?thesis by blast
  qed
  ultimately show thesis
    using that [of "min j (length p + 1)"] that [of 0] by (cases "fault OpCreateDir p") (simp_all add: create_dir_all_def)
qed

lemma create_dir_all_tree_ok: "tree_ok t \<Longrightarrow> tree_ok (snd (create_dir_all fault p t))"
proof -
  assume ok: "tree_ok t"
  obtain j where m: "map_of (snd (create_dir_all fault p t)) = (\<lambda>q. if \<exists>n < j. q = take n p then Some DirNode else map_of t q)"
    by (rule create_dir_all_prefix)
  have "\<exists>n' < j. butlast (take n p) = take n' p" if "n < j" for n
  proof (cases "n \<le> length p")
    case True
    then have "butlast (take n p) = take (n - 1) p" by (rule butlast_take)
    with that show ?thesis by (intro exI [of _ "n - 1"]) simp
  next
    case False
    then have "butlast (take n p) = take (length p - 1) p" by (simp add: butlast_conv_take)
    with that False show ?thesis by (intro exI [of _ "length p - 1"]) simp
  qed
  then show ?thesis using ok unfolding tree_ok_def m by auto
qed

lemma artifact_save_tree:
  fixes fault :: faults and k :: artifact_key and t :: tree
  defines "t1 \<equiv> snd (create_dir_all fault (file_dir k) t)"
  shows "snd (artifact_save fault k part version t) = t1 \<or>
    (\<exists>v x. snd (artifact_save fault k part version t) = tree_put (file_dir k @ [version_file v]) (FileNode x) t1 \<and>
         map_of t1 (file_dir k) = Some DirNode \<and> map_of t1 (file_dir k @ [version_file v]) \<noteq> Some DirNode)"
proof (cases "create_dir_all fault (file_dir k) t")
  case (Pair r t2)
  then have t1: "t1 = t2" by (simp add: t1_def)
  show ?thesis
  proof (cases r)
    case (Inl e)
    with Pair t1 show ?thesis by (simp add: artifact_save_def)
  next
    case (Inr u)
    then have "map_of t1 (file_dir k) = Some DirNode" using Pair t1 create_dir_all_Inr(1) by simp
    with Inr Pair t1 show ?thesis
      by (auto simp: artifact_save_def Let_def split: sum.splits option.splits)
  qed
qed

lemma tree_ok_put_file:
  "tree_ok t \<Longrightarrow> map_of t d = Some DirNode \<Longrightarrow> map_of t (d @ [n]) \<noteq> Some DirNode \<Longrightarrow> tree_ok (tree_put (d @ [n]) (FileNode c) t)"
  unfolding tree_ok_def by (auto split: if_splits)

lemma tree_ok_remove_tree: "tree_ok t \<Longrightarrow> tree_ok (remove_tree p t)"
proof -
  have "is_prefix p (butlast q) \<Longrightarrow> is_prefix p q" for q
    by (cases q rule: rev_cases) (auto simp: is_prefix_def dest: arg_cong [of _ _ size])
  then show "tree_ok t \<Longrightarrow> tree_ok (remove_tree p t)"
    unfolding tree_ok_def map_of_remove_tree by (auto split: if_splits)
qed

lemma tree_ok_remove_file:
  "tree_ok t \<Longrightarrow> map_of t p \<noteq> Some DirNode \<Longrightarrow> tree_ok (filter (\<lambda>(q, _). q \<noteq> p) t)"
  unfolding tree_ok_def map_of_filter_ne by auto

lemma artifact_delete_tree:
  "snd (artifact_delete fault k version t) =
     (case version of
        Some v \<Rightarrow>
          if fst (artifact_delete fault k version t) = Inr ()
          then filter (\<lambda>(q, _). q \<noteq> file_dir k @ [version_file v]) t else t
      | None \<Rightarrow>
          if fst (artifact_delete fault k version t) = Inr () \<and> path_exists t (file_dir k)
          then remove_tree (file_dir k) t else t)"
proof -
  have "filter (\<lambda>(q, _). q \<noteq> p) t = t" if "\<not> path_exists t p" for p
    using that by (force simp: path_exists_def map_of_eq_None_iff intro!: filter_True)
  then show ?thesis by (auto simp: artifact_delete_def Let_def split: option.splits)
qed

lemma artifact_delete_file_not_dir:
  "fst (artifact_delete fault k (Some v) t) = Inr () \<Longrightarrow> map_of t (file_dir k @ [version_file v]) \<noteq> Some DirNode"
  by (auto simp: artifact_delete_def Let_def path_exists_def split: option.splits if_splits)

subsection \<open>What the operations may touch\<close>

definition proper_name :: "string \<Rightarrow> bool" where
  "proper_name n \<longleftrightarrow> n \<notin> {[], ''.'', ''..''} \<and> CHR ''/'' \<notin> set n \<and> CHR 0x5C \<notin> set n \<and> CHR '':'' \<notin> set n"

lemma file_dir_proper: "list_all proper_name (file_dir k)"
  unfolding file_dir_def session_dir_def join_names_def proper_name_def
  by (auto simp: sanitize_no_separator sanitize_not_parent)

lemma show_nat_chars: "c \<in> set (show_nat n) \<Longrightarrow> is_dec_digit c"
  using parse_show_nat [of n] by (auto simp: list_all_iff)

lemma version_file_proper: "proper_name (version_file v)"
proof -
  have "\<forall>c \<in> set (show_nat n). c \<noteq> CHR ''/'' \<and> c \<noteq> CHR 0x5C \<and> c \<noteq> CHR '':''" for n
    using show_nat_chars [of _ n] by (fastforce simp: is_dec_digit_def byte_of_def)
  moreover have "length (version_file v) > 2" by (simp add: version_file_def)
  ultimately show ?thesis
    by (auto simp: proper_name_def version_file_def show_int_def)
qed

lemma list_all_take: "list_all P xs \<Longrightarrow> list_all P (take n xs)"
  by (auto simp: list_all_iff dest: in_set_takeD)

text \<open>C22: Whatever a save does to the disk, under any failure of the file system, it does below the storage
  root: a path that is different afterwards is on the way to the directory of the artifact or is
  one version file in it, and none of its names is empty, a dot, two dots or holds a separator.\<close>

theorem artifact_paths_confined:
  assumes "map_of (snd (artifact_save fault k part version t)) q \<noteq> map_of t q"
  shows "list_all proper_name q \<and> (is_prefix q (file_dir k) \<or> (\<exists>v. q = file_dir k @ [version_file v]))"
proof -
  let ?t1 = "snd (create_dir_all fault (file_dir k) t)"
  have "map_of ?t1 q \<noteq> map_of t q \<or> (\<exists>v. q = file_dir k @ [version_file v])"
    using assms artifact_save_tree [of fault k part version t] by (auto split: if_splits)
  moreover obtain j where "map_of ?t1 = (\<lambda>q. if \<exists>n < j. q = take n (file_dir k) then Some DirNode else map_of t q)"
    by (rule create_dir_all_prefix)
  ultimately have q: "(\<exists>n. q = take n (file_dir k)) \<or> (\<exists>v. q = file_dir k @ [version_file v])"
    by (auto split: if_splits)
  then have "list_all proper_name q" using file_dir_proper [of k] version_file_proper by (auto intro: list_all_take)
  moreover from q have "is_prefix q (file_dir k) \<or> (\<exists>v. q = file_dir k @ [version_file v])"
    by (auto simp: is_prefix_def min_def)
  ultimately show ?thesis ..
qed

text \<open>The directory tree stays a tree: whatever a save or a deletion does, also when a system call
  fails on the way, every entry that is there afterwards lies in a directory that is there.\<close>

theorem artifact_tree_invariant:
  assumes "tree_ok t"
  shows "tree_ok (snd (artifact_save fault k part version t)) \<and> tree_ok (snd (artifact_delete fault k version t))"
proof
  show "tree_ok (snd (artifact_save fault k part version t))"
    using artifact_save_tree [of fault k part version t] create_dir_all_tree_ok [OF assms, of fault "file_dir k"]
      tree_ok_put_file by auto
  show "tree_ok (snd (artifact_delete fault k version t))"
    using assms artifact_delete_file_not_dir [of fault k _ t] tree_ok_remove_file tree_ok_remove_tree
    by (auto simp: artifact_delete_tree split: option.split)
qed

text \<open>Deleting an artifact whose sanitized name is empty or a dot, without a version, deletes
  every artifact of the session: the name adds nothing to the path of the session directory.\<close>

theorem dot_name_deletes_session:
  assumes "sanitize_component (ak_file_name k) \<in> {[], ''.''}" "map_of t (session_dir k) = Some DirNode"
    and "ak_app_name k' = ak_app_name k" "ak_user_id k' = ak_user_id k" "ak_session_id k' = ak_session_id k"
  shows "fst (artifact_delete (\<lambda>_ _. None) k None t) = Inr () \<and>
    artifact_list (\<lambda>_ _. None) k' (snd (artifact_delete (\<lambda>_ _. None) k None t)) = Inr [] \<and>
    artifact_versions (\<lambda>_ _. None) k' (snd (artifact_delete (\<lambda>_ _. None) k None t)) = Inr []"
proof -
  have dir: "file_dir k = session_dir k" using assms(1) by (auto simp: file_dir_def join_names_def)
  have del: "artifact_delete (\<lambda>_ _. None) k None t = (Inr (), remove_tree (session_dir k) t)"
    using assms(2) by (simp add: artifact_delete_def dir path_exists_def)
  have k': "session_dir k' = session_dir k" using assms(3-5) by (simp add: session_dir_def)
  have gone: "map_of (remove_tree (session_dir k) t) (session_dir k @ ns) = None" for ns
    by (simp add: map_of_remove_tree is_prefix_def)
  from gone [of "[]"] gone [of "join_names [sanitize_component (ak_file_name k')]"]
  show ?thesis
    by (simp add: del artifact_list_def artifact_versions_def versions_for_path_def path_exists_def k' file_dir_def [of k'])
qed

subsection \<open>Saving and loading\<close>

lemma artifact_load_Inr_iff:
  "artifact_load (\<lambda>_ _. None) k (Some w) t = Inr part \<longleftrightarrow>
     (\<forall>c. map_of t (file_dir k) \<noteq> Some (FileNode c)) \<and> map_of t (file_dir k @ [version_file w]) = Some (FileNode (Some part))"
  by (auto simp: artifact_load_def Let_def versions_for_path_def path_exists_def
           split: option.splits tree_node.splits if_splits)

lemma create_dir_all_version_names:
  "create_dir_all fault p t = (Inr u, t') \<Longrightarrow> version_of_name t' q n = version_of_name t q n"
proof -
  assume c: "create_dir_all fault p t = (Inr u, t')"
  show ?thesis
  proof (cases "\<exists>c. map_of t (q @ [n]) = Some (FileNode c)")
    case True
    then obtain x where x: "map_of t (q @ [n]) = Some (FileNode x)" by blast
    then have "map_of t' (q @ [n]) = Some (FileNode x)" using create_dir_all_Inr(3) [OF c] by blast
    with x show ?thesis by (simp add: version_of_name_def)
  next
    case False
    with create_dir_all_Inr(3) [OF c] have "\<nexists>c. map_of t' (q @ [n]) = Some (FileNode c)" by blast
    with False show ?thesis by (auto simp: version_of_name_def split: option.splits tree_node.splits)
  qed
qed

lemma version_of_name_put:
  "version_of_name (tree_put (p @ [version_file v]) (FileNode c) t) p n =
     (if n = version_file v then parse_i64 (show_int v) else version_of_name t p n)"
  by (simp add: version_of_name_def file_stem_version)

lemma last_version_max:
  "sorted vs \<Longrightarrow> v \<in> set vs \<Longrightarrow> \<forall>w \<in> set vs. w \<le> v \<Longrightarrow> last_version vs = Some v"
  by (metis last_in_set last_version_def antisym empty_iff empty_set sorted_last)

text \<open>A save without a version takes a version above every version there is.\<close>

lemma fresh_version:
  assumes "sorted vs" "\<forall>w \<in> set vs. - (2 ^ 63) \<le> w \<and> w < 2 ^ 63 - 1"
    and "v = i64_succ (case last_version vs of Some l \<Rightarrow> l | None \<Rightarrow> 0)"
  shows "\<forall>w \<in> set vs. w < v" "- (2 ^ 63) \<le> v \<and> v < 2 ^ 63"
proof -
  have "last vs \<noteq> 2 ^ 63 - 1" if "vs \<noteq> []" using assms(2) last_in_set [OF that] by fastforce
  then have v: "v = (if vs = [] then 1 else last vs + 1)"
    using assms(3) by (simp add: last_version_def i64_succ_def)
  then show "\<forall>w \<in> set vs. w < v" using sorted_last [OF assms(1)] by force
  show "- (2 ^ 63) \<le> v \<and> v < 2 ^ 63" using v assms(2) last_in_set [of vs] by fastforce
qed

text \<open>Making the directories of an artifact adds no version to it.\<close>

lemma versions_after_create:
  assumes c: "create_dir_all fault p t = (Inr u, t1)" and ok: "tree_ok t"
    and vs: "versions_for_path (\<lambda>_ _. None) p t = Inr vs" and ws: "versions_for_path fault' p t1 = Inr ws"
  shows "set ws = set vs"
proof -
  have "path_exists t1 p" using create_dir_all_Inr(1) [OF c] by (simp add: path_exists_def)
  note wsI = versions_for_path_Inr(2) [OF ws this] create_dir_all_version_names [OF c]
  show ?thesis
  proof (cases "path_exists t p")
    case True
    then show ?thesis using versions_for_path_Inr(2) [OF vs True] wsI by auto
  next
    case False
    then have "vs = []" using vs by (simp add: versions_for_path_def)
    moreover have "version_of_name t p n = None" for n
      using tree_ok_child [OF ok] False by (simp add: path_exists_def version_of_name_def)
    ultimately show ?thesis using wsI by (cases ws) auto
  qed
qed

text \<open>A version file above all others is the one a load without a version reads.\<close>

lemma load_highest:
  assumes d: "map_of t (file_dir k) = Some DirNode" and ws: "versions_for_path fault (file_dir k) t = Inr ws"
    and above: "\<forall>w \<in> set ws. w < v" and vr: "- (2 ^ 63) \<le> v \<and> v < 2 ^ 63"
  shows "artifact_load (\<lambda>_ _. None) k None (tree_put (file_dir k @ [version_file v]) (FileNode (Some part)) t) = Inr part"
proof -
  let ?d = "file_dir k" and ?t' = "tree_put (file_dir k @ [version_file v]) (FileNode (Some part)) t"
  have ex: "path_exists t ?d" "path_exists ?t' ?d" using d by (simp_all add: path_exists_def)
  define us where "us = sort (List.map_filter (version_of_name ?t' ?d) (children ?t' ?d))"
  have us: "versions_for_path (\<lambda>_ _. None) ?d ?t' = Inr us"
    using d ex by (simp add: versions_for_path_def us_def)
  note usI = versions_for_path_Inr [OF us ex(2)] and wsI = versions_for_path_Inr(2) [OF ws ex(1)]
  have "parse_i64 (show_int v) = Some v" using parse_show_int vr by simp
  then have mem: "u \<in> set us \<longleftrightarrow> u = v \<or> (\<exists>n. n \<noteq> version_file v \<and> version_of_name t ?d n = Some u)" for u
    unfolding usI(2) by (auto simp: version_of_name_put)
  have "u \<le> v" if "u \<in> set us" for u
  proof (cases "u = v")
    case False
    with that have "u \<in> set ws" unfolding mem wsI by blast
    with above show ?thesis by auto
  qed simp
  then have "last_version us = Some v"
    using mem [of v] by (intro last_version_max [OF usI(1)]) simp_all
  then show ?thesis using us by (simp add: artifact_load_def)
qed

lemma artifact_saved:
  assumes "artifact_save fault k part version t = (Inr v, t')" "tree_ok t"
  shows "artifact_load (\<lambda>_ _. None) k (Some v) t' = Inr part \<and>
    (\<forall>k' w part'. artifact_load (\<lambda>_ _. None) k' (Some w) t = Inr part' \<and>
       (file_dir k' \<noteq> file_dir k \<or> version_file w \<noteq> version_file v) \<longrightarrow>
       artifact_load (\<lambda>_ _. None) k' (Some w) t' = Inr part') \<and>
    (\<forall>vs. version = None \<and> artifact_versions (\<lambda>_ _. None) k t = Inr vs \<and> 2 ^ 63 - 1 \<notin> set vs \<longrightarrow>
       (\<forall>w \<in> set vs. w < v) \<and> artifact_load (\<lambda>_ _. None) k None t' = Inr part)"
proof -
  let ?d = "file_dir k"
  obtain t1 ws where c: "create_dir_all fault ?d t = (Inr (), t1)" and ws: "versions_for_path fault ?d t1 = Inr ws"
    and v: "v = (case version of Some v \<Rightarrow> v | None \<Rightarrow> i64_succ (case last_version ws of Some l \<Rightarrow> l | None \<Rightarrow> 0))"
    and t': "t' = tree_put (?d @ [version_file v]) (FileNode (Some part)) t1"
    and nodir: "map_of t1 (?d @ [version_file v]) \<noteq> Some DirNode"
    by (rule artifact_save_Inr [OF assms(1)])
  note c1 = create_dir_all_Inr [OF c]
  have saved: "artifact_load (\<lambda>_ _. None) k (Some v) t' = Inr part"
    unfolding artifact_load_Inr_iff using c1(1) by (simp add: t')
  have other: "artifact_load (\<lambda>_ _. None) k' (Some w) t' = Inr part'"
    if "artifact_load (\<lambda>_ _. None) k' (Some w) t = Inr part'" "file_dir k' \<noteq> ?d \<or> version_file w \<noteq> version_file v"
    for k' w part'
  proof -
    have old: "map_of t (file_dir k' @ [version_file w]) = Some (FileNode (Some part'))"
      using that(1) by (simp add: artifact_load_Inr_iff)
    then have "map_of t (file_dir k') = Some DirNode"
      using tree_ok_parent [OF assms(2), of "file_dir k'" "version_file w"] by simp
    then have "map_of t1 (file_dir k') = Some DirNode" using c1(2) [of "file_dir k'"] by auto
    with nodir have "map_of t' (file_dir k') = Some DirNode" by (auto simp: t')
    then show ?thesis using old that(2) c1(3) by (auto simp: artifact_load_Inr_iff t')
  qed
  have "(\<forall>w \<in> set vs. w < v) \<and> artifact_load (\<lambda>_ _. None) k None t' = Inr part"
    if none: "version = None" and vs: "artifact_versions (\<lambda>_ _. None) k t = Inr vs" and max: "2 ^ 63 - 1 \<notin> set vs" for vs
  proof -
    have same: "set ws = set vs" using versions_after_create [OF c assms(2) vs [unfolded artifact_versions_def] ws] .
    have ex: "path_exists t1 ?d" using c1(1) by (simp add: path_exists_def)
    note wsI = versions_for_path_Inr [OF ws ex]
    have "\<forall>w \<in> set ws. - (2 ^ 63) \<le> w \<and> w < 2 ^ 63 - 1"
    proof
      fix w assume w: "w \<in> set ws"
      then obtain n where "version_of_name t1 ?d n = Some w" using wsI(2) by blast
      moreover from w have "w \<noteq> 2 ^ 63 - 1" using same max by metis
      ultimately show "- (2 ^ 63) \<le> w \<and> w < 2 ^ 63 - 1" using version_of_name_range [of t1 ?d n w] by linarith
    qed
    note fresh = fresh_version [OF wsI(1) this, of v]
    have "\<forall>w \<in> set ws. w < v" "- (2 ^ 63) \<le> v \<and> v < 2 ^ 63" using fresh v none by simp_all
    with load_highest [OF c1(1) ws] same show ?thesis by (simp add: t')
  qed
  with saved other show ?thesis by blast
qed

text \<open>What is saved is what is loaded: after a save the artifact is there under the version the save
  answers, every other version and every other artifact loads as before, and where no version was
  asked for the new one is above all versions there were and is the one a load without a version finds.
  The last part needs the counter not to be at its end, where it wraps around.\<close>

theorem artifact_save_load:
  assumes "artifact_save fault k part version t = (Inr v, t')" "tree_ok t"
  shows "artifact_load (\<lambda>_ _. None) k (Some v) t' = Inr part \<and>
    (\<forall>k' w part'. artifact_load (\<lambda>_ _. None) k' (Some w) t = Inr part' \<and>
       (file_dir k' \<noteq> file_dir k \<or> version_file w \<noteq> version_file v) \<longrightarrow>
       artifact_load (\<lambda>_ _. None) k' (Some w) t' = Inr part') \<and>
    (\<forall>vs. version = None \<and> artifact_versions (\<lambda>_ _. None) k t = Inr vs \<and> 2 ^ 63 - 1 \<notin> set vs \<longrightarrow>
       (\<forall>w \<in> set vs. w < v) \<and> artifact_load (\<lambda>_ _. None) k None t' = Inr part)"
  using assms by (rule artifact_saved)

subsection \<open>Witnesses\<close>

definition example_key :: "string \<Rightarrow> artifact_key" where
  "example_key name = \<lparr>ak_app_name = ''app'', ak_user_id = ''u:1'', ak_session_id = ''s'', ak_file_name = name\<rparr>"

definition example_tree :: tree where
  "example_tree =
     [([], DirNode), ([''app''], DirNode), ([''app'', ''u_1''], DirNode), ([''app'', ''u_1'', ''s''], DirNode),
      ([''app'', ''u_1'', ''s'', ''a''], DirNode), ([''app'', ''u_1'', ''s'', ''a'', ''3.json''], FileNode (Some (TextPart ''three'')))]"

lemma example_key_dirs [simp]:
  "session_dir (example_key n) = [''app'', ''u_1'', ''s'']" "file_dir (example_key ''a'') = [''app'', ''u_1'', ''s'', ''a'']"
  "file_dir (example_key ''b'') = [''app'', ''u_1'', ''s'', ''b'']"
  "sanitize_component (ak_file_name (example_key ''.'')) = ''.''"
  by code_simp+

lemma example_tree_ok: "tree_ok example_tree"
  unfolding tree_ok_def example_tree_def by auto

lemma example_save:
  "artifact_save (\<lambda>_ _. None) (example_key ''a'') (TextPart ''four'') None example_tree =
     (Inr 4, tree_put [''app'', ''u_1'', ''s'', ''a'', ''4.json''] (FileNode (Some (TextPart ''four''))) example_tree)"
  by code_simp

theorem artifact_paths_confined_witness:
  "list_all proper_name [''app'', ''u_1'', ''s'', ''a'', ''4.json'']"
  using artifact_paths_confined [of "\<lambda>_ _. None" "example_key ''a''" "TextPart ''four''" None example_tree
      "[''app'', ''u_1'', ''s'', ''a'', ''4.json'']"]
  by (simp add: example_save) (simp add: example_tree_def)

theorem artifact_tree_invariant_witness:
  "tree_ok (tree_put [''app'', ''u_1'', ''s'', ''a'', ''4.json''] (FileNode (Some (TextPart ''four''))) example_tree)"
  using artifact_tree_invariant [OF example_tree_ok, of "\<lambda>_ _. None" "example_key ''a''" "TextPart ''four''" None]
  by (simp add: example_save)

theorem dot_name_deletes_session_witness:
  "artifact_list (\<lambda>_ _. None) (example_key ''a'') example_tree = Inr [''a''] \<and>
   artifact_list (\<lambda>_ _. None) (example_key ''a'')
     (snd (artifact_delete (\<lambda>_ _. None) (example_key ''.'') None example_tree)) = Inr []"
proof -
  have "artifact_list (\<lambda>_ _. None) (example_key ''a'') example_tree = Inr [''a'']" by code_simp
  moreover have "map_of example_tree (session_dir (example_key ''.'')) = Some DirNode" by (simp add: example_tree_def)
  ultimately show ?thesis
    using dot_name_deletes_session [of "example_key ''.''" example_tree "example_key ''a''"]
    by (simp del: example_key_dirs(1,2,3)) (simp add: example_key_def)
qed

theorem artifact_save_load_witness:
  "artifact_load (\<lambda>_ _. None) (example_key ''a'') None
     (tree_put [''app'', ''u_1'', ''s'', ''a'', ''4.json''] (FileNode (Some (TextPart ''four''))) example_tree) = Inr (TextPart ''four'')"
proof -
  have "artifact_versions (\<lambda>_ _. None) (example_key ''a'') example_tree = Inr [3]"
    by code_simp
  then show ?thesis using artifact_save_load [OF example_save example_tree_ok] by simp
qed

end
