(* ===== verification/Graph_Tools.thy ===== *)
theory Graph_Tools
  imports Protocol "HOL-Library.List_Lexorder" "HOL-Library.Char_ord"
begin

section \<open>Tool calls through the graph and directly\<close>

text \<open>
  \<open>execute_session_tool_call_graph\<close> and \<open>execute_session_tool_call_direct\<close> of \<open>liveclaw-app/src/main.rs\<close>,
  and the agent graph of \<open>liveclaw-app/src/graph.rs\<close>. The graphs are data: their nodes, edges and
  interrupts as the source lists them. The engine that runs a graph is the library's, a parameter here;
  \<open>engine_contract\<close> states what its documentation promises and is a hypothesis of the theorems.
  A tool is a function of its invocation (call, user and session identifier), its arguments and the
  outside world, whose type is a parameter. A graph state is an association list with distinct keys.
\<close>

type_synonym graph_state = "(string \<times> json) list"

record invocation =
  iv_function_call_id :: string
  iv_user_id :: string
  iv_session_id :: string

type_synonym 'w tool = "invocation \<Rightarrow> json \<Rightarrow> 'w \<Rightarrow> json result \<times> 'w"
type_synonym 'w tools = "(string \<times> 'w tool) list"

definition state_put :: "string \<Rightarrow> json \<Rightarrow> graph_state \<Rightarrow> graph_state" where
  "state_put k v s = (k, v) # filter (\<lambda>(k', _). k' \<noteq> k) s"

definition json_as_array :: "json \<Rightarrow> json list option" where
  "json_as_array v = (case v of JArr xs \<Rightarrow> Some xs | _ \<Rightarrow> None)"

definition state_array :: "graph_state \<Rightarrow> string \<Rightarrow> json list" where
  "state_array s k = (case Option.bind (map_of s k) json_as_array of Some xs \<Rightarrow> xs | None \<Rightarrow> [])"

subsection \<open>Graphs and their engine\<close>

text \<open>A node is given the number of the step and the state, and answers the updates of the state.\<close>

type_synonym 'w node = "nat \<Rightarrow> graph_state \<Rightarrow> 'w \<Rightarrow> (string \<times> json) list \<times> 'w"

definition END :: string where
  "END = ''__end__''"

record 'w graph =
  g_nodes :: "(string \<times> 'w node) list"
  g_start :: string
  g_edges :: "(string \<times> (graph_state \<Rightarrow> string)) list"
  g_interrupt_before :: "string list"
  g_recursion_limit :: nat

datatype graph_outcome =
    GraphOk graph_state
  | GraphInterrupted nat graph_state
  | GraphFailed string

type_synonym 'w engine = "'w graph \<Rightarrow> string \<Rightarrow> nat \<Rightarrow> graph_state \<Rightarrow> 'w \<Rightarrow> graph_outcome \<times> 'w"

definition apply_updates :: "(string \<times> json) list \<Rightarrow> graph_state \<Rightarrow> graph_state" where
  "apply_updates us s = fold (\<lambda>(k, v). state_put k v) us s"

text \<open>
  A run as the documentation of the engine describes it: node by node along the edges, stopping
  before a node with an interrupt, and out of budget when another node is due after as many node runs as the
  recursion limit allows. A graph with an edge to a name that is no node has no run.
\<close>

datatype run_end = RunEnded graph_outcome | OutOfBudget | NoSuchNode

fun follow :: "nat \<Rightarrow> 'w graph \<Rightarrow> nat \<Rightarrow> string \<Rightarrow> graph_state \<Rightarrow> 'w \<Rightarrow> run_end \<times> 'w" where
  "follow 0 g step n s w = (if n = END then (RunEnded (GraphOk s), w) else (OutOfBudget, w))"
| "follow (Suc budget) g step n s w =
     (if n = END then (RunEnded (GraphOk s), w)
      else if n \<in> set (g_interrupt_before g) then (RunEnded (GraphInterrupted step s), w)
      else case (map_of (g_nodes g) n, map_of (g_edges g) n) of
        (Some f, Some edge) \<Rightarrow>
          (let (us, w) = f step s w; s = apply_updates us s
           in follow budget g (Suc step) (edge s) s w)
      | _ \<Rightarrow> (NoSuchNode, w))"

text \<open>
  The contract: within both recursion limits the engine does what a run does. When the smaller of them is
  used up it has run those nodes and no more, and does not report that the graph has ended: it reports an
  error, or an interrupt if the graph has any. The number of its first step is left open.
\<close>

definition engine_contract :: "nat \<Rightarrow> 'w engine \<Rightarrow> bool" where
  "engine_contract first engine \<longleftrightarrow>
     (\<forall>g thread limit s w.
        (case follow (min limit (g_recursion_limit g)) g first (g_start g) s w of
           (RunEnded out, w') \<Rightarrow> engine g thread limit s w = (out, w')
         | (OutOfBudget, w') \<Rightarrow> (\<exists>out. engine g thread limit s w = (out, w') \<and>
              (case out of GraphOk _ \<Rightarrow> False | GraphInterrupted _ _ \<Rightarrow> g_interrupt_before g \<noteq> []
               | GraphFailed _ \<Rightarrow> True))
         | (NoSuchNode, _) \<Rightarrow> True))"

subsection \<open>The trace in the state\<close>

definition append_graph_trace :: "graph_state \<Rightarrow> graph_execution_event \<Rightarrow> json" where
  "append_graph_trace s e = JArr (state_array s ''graph_trace'' @ [json_of_event e])"

definition event_of_json :: "json \<Rightarrow> graph_execution_event option" where
  "event_of_json u =
     (let v = struct_json [''step'', ''node'', ''action'', ''detail''] u in case (json_get ''step'' v, Option.bind (json_get ''node'' v) json_as_str,
            Option.bind (json_get ''action'' v) json_as_str, Option.bind (json_get ''detail'' v) json_as_str) of
        (Some (JNum i), Some n, Some a, Some d) \<Rightarrow>
          (if 0 \<le> i \<and> i < 2 ^ 64 then Some \<lparr> ge_step = nat i, ge_node = n, ge_action = a, ge_detail = d \<rparr> else None)
      | _ \<Rightarrow> None)"

definition graph_trace_from_state :: "graph_state \<Rightarrow> graph_execution_event list" where
  "graph_trace_from_state s = List.map_filter event_of_json (state_array s ''graph_trace'')"

definition graph_state_to_json :: "graph_state \<Rightarrow> json" where
  "graph_state_to_json s = JObj (sort_key fst s)"

subsection \<open>The graph of a tool call\<close>

definition unregistered_result :: "string \<Rightarrow> 'w tools \<Rightarrow> json" where
  "unregistered_result name tools = JObj
     [(''tool'', JStr name), (''status'', JStr ''error''),
      (''message'', JStr ''Tool is not registered for this session''),
      (''available_tools'', JArr (map JStr (sort (map fst tools))))]"

definition executed_result :: "string \<Rightarrow> json result \<Rightarrow> json" where
  "executed_result name r =
     (case r of
        Inr output \<Rightarrow> JObj [(''tool'', JStr name), (''status'', JStr ''ok''), (''result'', output)]
      | Inl e \<Rightarrow> JObj [(''tool'', JStr name), (''status'', JStr ''error''), (''message'', JStr e)])"

definition resolve_tool_call :: "'w node" where
  "resolve_tool_call step s w =
     (let tool_request = (case map_of s ''tool_request'' of Some v \<Rightarrow> v | None \<Rightarrow> JObj []);
          pending = (if tool_request = JNull then [] else [tool_request]);
          detail = (if pending = [] then ''no tool call queued''
                    else ''queued '' @ show_nat (length pending) @ '' tool call(s)'')
      in ([(''pending_tool_calls'', JArr pending),
           (''graph_trace'', append_graph_trace s
              \<lparr> ge_step = step, ge_node = ''resolve_tool_call'', ge_action = ''node_end'', ge_detail = detail \<rparr>)], w))"

definition run_call ::
  "'w tools \<Rightarrow> string \<Rightarrow> string \<Rightarrow> nat \<Rightarrow> nat \<Rightarrow> json \<Rightarrow> 'w \<Rightarrow> json \<times> 'w" where
  "run_call tools user_id session_id step idx call w =
     (let name = trim (case Option.bind (json_get ''name'' call) json_as_str of Some s \<Rightarrow> s | None \<Rightarrow> []);
          arguments = (case json_get ''arguments'' call of Some v \<Rightarrow> v | None \<Rightarrow> JObj [])
      in if name = []
         then (JObj [(''tool'', JStr []), (''status'', JStr ''error''),
                     (''message'', JStr (''Tool call missing '' @ quoted ''name''))], w)
         else case map_of tools name of
           None \<Rightarrow> (unregistered_result name tools, w)
         | Some tool \<Rightarrow>
             (let (r, w) = tool \<lparr> iv_function_call_id = ''graph-tool-'' @ show_nat step @ ''-'' @ show_nat idx,
                                  iv_user_id = user_id, iv_session_id = session_id \<rparr> arguments w
              in (executed_result name r, w)))"

fun run_calls ::
  "'w tools \<Rightarrow> string \<Rightarrow> string \<Rightarrow> nat \<Rightarrow> nat \<Rightarrow> json list \<Rightarrow> 'w \<Rightarrow> json list \<times> 'w" where
  "run_calls tools user_id session_id step idx [] w = ([], w)"
| "run_calls tools user_id session_id step idx (call # calls) w =
     (let (r, w) = run_call tools user_id session_id step idx call w;
          (rs, w) = run_calls tools user_id session_id step (idx + 1) calls w
      in (r # rs, w))"

definition tools_node :: "'w tools \<Rightarrow> string \<Rightarrow> string \<Rightarrow> 'w node" where
  "tools_node tools user_id session_id step s w =
     (let (results, w) = run_calls tools user_id session_id step 0 (state_array s ''pending_tool_calls'') w
      in ([(''pending_tool_calls'', JArr []), (''tool_results'', JArr results),
           (''tools_executed_count'', JNum (int (length results))),
           (''graph_trace'', append_graph_trace s
              \<lparr> ge_step = step, ge_node = ''tools'', ge_action = ''node_end'',
                ge_detail = ''executed '' @ show_nat (length results) @ '' tool call(s)'' \<rparr>)], w))"

definition tool_graph :: "'w tools \<Rightarrow> string \<Rightarrow> string \<Rightarrow> string \<Rightarrow> nat \<Rightarrow> 'w graph" where
  "tool_graph tools user_id session_id role recursion_limit = \<lparr>
     g_nodes = [(''resolve_tool_call'', resolve_tool_call), (''tools'', tools_node tools user_id session_id)],
     g_start = ''resolve_tool_call'',
     g_edges = [(''resolve_tool_call'', \<lambda>s. if state_array s ''pending_tool_calls'' \<noteq> [] then ''tools'' else END),
                (''tools'', \<lambda>_. END)],
     g_interrupt_before = (if role = ''supervised'' then [''tools''] else []),
     g_recursion_limit = max recursion_limit 1 \<rparr>"

text \<open>What is answered for the outcome of the engine.\<close>

definition graph_report :: "string \<Rightarrow> string \<Rightarrow> graph_outcome \<Rightarrow> (json \<times> graph_execution_report) result" where
  "graph_report thread_id tool_name outcome =
     (case outcome of
        GraphOk state \<Rightarrow>
          (let result = (case state_array state ''tool_results'' of
                           r # _ \<Rightarrow> r
                         | [] \<Rightarrow> JObj [(''tool'', JStr tool_name), (''status'', JStr ''error''),
                                     (''message'', JStr ''Graph execution produced no tool result'')])
           in Inr (result, \<lparr> gr_thread_id = thread_id, gr_completed = True, gr_interrupted = False,
                             gr_events = graph_trace_from_state state,
                             gr_final_state = graph_state_to_json state \<rparr>))
      | GraphInterrupted step state \<Rightarrow>
          Inr (JObj [(''tool'', JStr tool_name), (''status'', JStr ''interrupted''),
              (''message'', JStr ''Graph interrupted before tool execution. Resume flow is not implemented yet.'')],
            \<lparr> gr_thread_id = thread_id, gr_completed = False, gr_interrupted = True,
              gr_events = graph_trace_from_state state @
                [\<lparr> ge_step = step, ge_node = ''tools'', ge_action = ''interrupted'',
                   ge_detail = ''Execution paused before tools node (supervised role)'' \<rparr>],
              gr_final_state = graph_state_to_json state \<rparr>)
      | GraphFailed e \<Rightarrow> Inl (''Graph tool execution failed: '' @ e))"

definition execute_session_tool_call_graph ::
  "'w engine \<Rightarrow> int \<Rightarrow> string \<Rightarrow> string \<Rightarrow> string \<Rightarrow> string \<Rightarrow> json \<Rightarrow> 'w tools \<Rightarrow> nat \<Rightarrow> 'w \<Rightarrow>
     (json \<times> graph_execution_report) result \<times> 'w" where
  "execute_session_tool_call_graph engine now_ms session_id user_id role tool_name arguments tools recursion_limit w =
     (let thread_id = session_id @ ''-graph-'' @ show_int now_ms;
          input = [(''graph_trace'', JArr []),
                   (''tool_request'', JObj [(''name'', JStr tool_name), (''arguments'', arguments)])]
      in case engine (tool_graph tools user_id session_id role recursion_limit) thread_id recursion_limit input w of
           (outcome, w) \<Rightarrow> (graph_report thread_id tool_name outcome, w))"

subsection \<open>The direct tool call\<close>

definition direct_report :: "string \<Rightarrow> json \<Rightarrow> string \<Rightarrow> graph_execution_report" where
  "direct_report thread_id r detail =
     \<lparr> gr_thread_id = thread_id, gr_completed = True, gr_interrupted = False,
       gr_events = [\<lparr> ge_step = 0, ge_node = ''direct_tool'', ge_action = ''node_end'', ge_detail = detail \<rparr>],
       gr_final_state = JObj [(''execution_mode'', JStr ''direct''), (''tool_result'', r)] \<rparr>"

definition execute_session_tool_call_direct ::
  "int \<Rightarrow> int \<Rightarrow> string \<Rightarrow> string \<Rightarrow> string \<Rightarrow> json \<Rightarrow> 'w tools \<Rightarrow> 'w \<Rightarrow>
     (json \<times> graph_execution_report) result \<times> 'w" where
  "execute_session_tool_call_direct now_ms now_ms' session_id user_id tool_name arguments tools w =
     (let thread_id = session_id @ ''-direct-'' @ show_int now_ms
      in case map_of tools tool_name of
           None \<Rightarrow>
             (let r = unregistered_result tool_name tools
              in (Inr (r, direct_report thread_id r ''tool not registered for session''), w))
         | Some tool \<Rightarrow>
             (let (res, w) = tool \<lparr> iv_function_call_id = ''direct-tool-'' @ show_int now_ms',
                                    iv_user_id = user_id, iv_session_id = session_id \<rparr> arguments w;
                  r = executed_result tool_name res
              in (Inr (r, direct_report thread_id r ''direct tool execution completed''), w)))"

subsection \<open>The agent graph\<close>

text \<open>The realtime agent of \<open>build_graph_agent\<close> is a node given from outside.\<close>

definition has_pending_tool_calls :: "graph_state \<Rightarrow> bool" where
  "has_pending_tool_calls s \<longleftrightarrow> state_array s ''pending_tool_calls'' \<noteq> []"

definition tools_node_result_from_call :: "json \<Rightarrow> json" where
  "tools_node_result_from_call call =
     (let tool_name = (case Option.bind (json_get ''name'' call) json_as_str of
                         Some n \<Rightarrow> n | None \<Rightarrow> ''unknown_tool'');
          arguments = (case json_get ''arguments'' call of
                         Some v \<Rightarrow> v
                       | None \<Rightarrow> (case json_get ''args'' call of Some v \<Rightarrow> v | None \<Rightarrow> JObj []))
      in JObj [(''tool'', JStr tool_name), (''status'', JStr ''executed''), (''arguments'', arguments)])"

definition execute_pending_tool_calls :: "graph_state \<Rightarrow> (string \<times> json) list" where
  "execute_pending_tool_calls s =
     (let pending_calls = state_array s ''pending_tool_calls''
      in [(''pending_tool_calls'', JArr []),
          (''tool_results'', JArr (map tools_node_result_from_call pending_calls)),
          (''tools_executed_count'', JNum (int (length pending_calls)))])"

record graph_config =
  gc_enable_graph :: bool
  gc_recursion_limit :: "nat option"

definition build_graph_agent :: "'w node \<Rightarrow> graph_config \<Rightarrow> string \<Rightarrow> 'w graph" where
  "build_graph_agent agent_node config role = \<lparr>
     g_nodes = [(''agent'', agent_node), (''tools'', \<lambda>_ s w. (execute_pending_tool_calls s, w))],
     g_start = ''agent'',
     g_edges = [(''agent'', \<lambda>s. if has_pending_tool_calls s then ''tools'' else END), (''tools'', \<lambda>_. ''agent'')],
     g_interrupt_before = (if role = ''supervised'' then [''tools''] else []),
     g_recursion_limit = (case gc_recursion_limit config of Some n \<Rightarrow> n | None \<Rightarrow> 25) \<rparr>"

subsection \<open>Facts about states and traces\<close>

lemma map_of_state_put [simp]: "map_of (state_put k v s) k' = (if k' = k then Some v else map_of s k')"
  unfolding state_put_def by (induction s) auto

lemma state_array_put [simp]:
  "state_array (state_put k (JArr xs) s) k' = (if k' = k then xs else state_array s k')"
  by (simp add: state_array_def json_as_array_def)

lemma state_array_put_other [simp]:
  "k \<noteq> k' \<Longrightarrow> state_array (state_put k v s) k' = state_array s k'"
  by (simp add: state_array_def)

lemma event_of_json_of_event [simp]: "ge_step e < 2 ^ 64 \<Longrightarrow> event_of_json (json_of_event e) = Some e"
  by (simp add: event_of_json_def struct_json_def json_of_event_def json_get_def json_as_str_def nat_less_iff)

lemma apply_updates_simps [simp]:
  "apply_updates [] s = s" "apply_updates ((k, v) # us) s = apply_updates us (state_put k v s)"
  by (simp_all add: apply_updates_def)

lemma follow_END [simp]: "follow b g k END s w = (RunEnded (GraphOk s), w)"
  by (cases b) simp_all

subsection \<open>The run of a tool call\<close>

definition tool_request_state :: "string \<Rightarrow> json \<Rightarrow> graph_state" where
  "tool_request_state tool_name arguments =
     [(''graph_trace'', JArr []), (''tool_request'', JObj [(''name'', JStr tool_name), (''arguments'', arguments)])]"

definition resolved_state :: "nat \<Rightarrow> string \<Rightarrow> json \<Rightarrow> graph_state" where
  "resolved_state step tool_name arguments =
     apply_updates (fst (resolve_tool_call step (tool_request_state tool_name arguments) ())) (tool_request_state tool_name arguments)"

lemma resolve_tool_call_any: "resolve_tool_call step s w = (fst (resolve_tool_call step s ()), w)"
  by (simp add: resolve_tool_call_def Let_def)

lemma resolved_state_arrays:
  "state_array (resolved_state k n a) ''pending_tool_calls'' = [JObj [(''name'', JStr n), (''arguments'', a)]]"
  "state_array (resolved_state k n a) ''graph_trace'' =
     [json_of_event \<lparr> ge_step = k, ge_node = ''resolve_tool_call'', ge_action = ''node_end'',
        ge_detail = ''queued 1 tool call(s)'' \<rparr>]"
  by (simp_all add: resolved_state_def resolve_tool_call_def tool_request_state_def append_graph_trace_def
      state_array_def json_as_array_def show_nat_eval)

text \<open>What one queued call gives, with the name as the graph reads it.\<close>

definition one_call :: "'w tools \<Rightarrow> string \<Rightarrow> string \<Rightarrow> nat \<Rightarrow> string \<Rightarrow> json \<Rightarrow> 'w \<Rightarrow> json \<times> 'w" where
  "one_call tools user_id session_id step name arguments =
     run_call tools user_id session_id step 0 (JObj [(''name'', JStr name), (''arguments'', arguments)])"

definition finished_state :: "nat \<Rightarrow> string \<Rightarrow> json \<Rightarrow> json \<Rightarrow> graph_state" where
  "finished_state first name arguments r =
     (let s = resolved_state first name arguments
      in apply_updates
           [(''pending_tool_calls'', JArr []), (''tool_results'', JArr [r]), (''tools_executed_count'', JNum 1),
            (''graph_trace'', append_graph_trace s
               \<lparr> ge_step = Suc first, ge_node = ''tools'', ge_action = ''node_end'',
                 ge_detail = ''executed 1 tool call(s)'' \<rparr>)] s)"

lemma node_names [simp]: "''resolve_tool_call'' \<noteq> END" "''tools'' \<noteq> END" "''agent'' \<noteq> END"
  "END \<noteq> ''tools''" "END \<noteq> ''agent''"
  by (simp_all add: END_def)

lemma tool_graph_simps [simp]:
  "map_of (g_nodes (tool_graph tools u sid role limit)) ''resolve_tool_call'' = Some resolve_tool_call"
  "map_of (g_nodes (tool_graph tools u sid role limit)) ''tools'' = Some (tools_node tools u sid)"
  "map_of (g_edges (tool_graph tools u sid role limit)) ''resolve_tool_call'' =
     Some (\<lambda>s. if state_array s ''pending_tool_calls'' \<noteq> [] then ''tools'' else END)"
  "map_of (g_edges (tool_graph tools u sid role limit)) ''tools'' = Some (\<lambda>_. END)"
  "set (g_interrupt_before (tool_graph tools u sid role limit)) = (if role = ''supervised'' then {''tools''} else {})"
  "g_start (tool_graph tools u sid role limit) = ''resolve_tool_call''"
  "g_recursion_limit (tool_graph tools u sid role limit) = max limit 1"
  by (simp_all add: tool_graph_def)

lemma follow_tool_graph:
  "follow (Suc (Suc b)) (tool_graph tools u sid role limit) first ''resolve_tool_call'' (tool_request_state name a) w =
     (if role = ''supervised'' then (RunEnded (GraphInterrupted (Suc first) (resolved_state first name a)), w)
      else (let (r, w) = one_call tools u sid (Suc first) name a w in (RunEnded (GraphOk (finished_state first name a r)), w)))"
proof -
  let ?s = "resolved_state first name a"
  have 1: "follow (Suc (Suc b)) (tool_graph tools u sid role limit) first ''resolve_tool_call'' (tool_request_state name a) w =
      follow (Suc b) (tool_graph tools u sid role limit) (Suc first) ''tools'' ?s w"
    by (subst follow.simps) (simp add: resolve_tool_call_any [of _ _ w] resolved_state_arrays Let_def flip: resolved_state_def)
  show ?thesis
  proof (cases "role = ''supervised''")
    case True
    then show ?thesis unfolding 1 by simp
  next
    case False
    then show ?thesis
      unfolding 1 by (simp add: tools_node_def resolved_state_arrays one_call_def finished_state_def Let_def show_nat_eval
          split: prod.split)
  qed
qed

text \<open>The engine under its contract, for both roles.\<close>

lemma engine_contractD:
  assumes "engine_contract first engine"
  shows "follow (min limit (g_recursion_limit g)) g first (g_start g) s w = (RunEnded out, w') \<Longrightarrow>
      engine g thread limit s w = (out, w')"
    "follow (min limit (g_recursion_limit g)) g first (g_start g) s w = (OutOfBudget, w') \<Longrightarrow>
      \<exists>out. engine g thread limit s w = (out, w') \<and>
        (case out of GraphOk _ \<Rightarrow> False | GraphInterrupted _ _ \<Rightarrow> g_interrupt_before g \<noteq> [] | GraphFailed _ \<Rightarrow> True)"
proof -
  have "case follow (min limit (g_recursion_limit g)) g first (g_start g) s w of
      (RunEnded out, w') \<Rightarrow> engine g thread limit s w = (out, w')
    | (OutOfBudget, w') \<Rightarrow> (\<exists>out. engine g thread limit s w = (out, w') \<and>
         (case out of GraphOk _ \<Rightarrow> False | GraphInterrupted _ _ \<Rightarrow> g_interrupt_before g \<noteq> [] | GraphFailed _ \<Rightarrow> True))
    | (NoSuchNode, _) \<Rightarrow> True"
    using assms unfolding engine_contract_def by iprover
  then show "follow (min limit (g_recursion_limit g)) g first (g_start g) s w = (RunEnded out, w') \<Longrightarrow>
      engine g thread limit s w = (out, w')"
    "follow (min limit (g_recursion_limit g)) g first (g_start g) s w = (OutOfBudget, w') \<Longrightarrow>
      \<exists>out. engine g thread limit s w = (out, w') \<and>
        (case out of GraphOk _ \<Rightarrow> False | GraphInterrupted _ _ \<Rightarrow> g_interrupt_before g \<noteq> [] | GraphFailed _ \<Rightarrow> True)"
    by simp_all
qed

text \<open>With a limit of one the run is over after the first node, which touches nothing outside.\<close>

lemma follow_tool_graph_short:
  assumes "b \<le> 1"
  shows "follow b (tool_graph tools u sid role limit) first ''resolve_tool_call'' (tool_request_state name a) w = (OutOfBudget, w)"
proof (cases b)
  case (Suc n)
  then have n: "n = 0" using assms by simp
  show ?thesis
    unfolding Suc n by (subst follow.simps)
      (simp add: resolve_tool_call_any [of _ _ w] resolved_state_arrays Let_def flip: resolved_state_def)
qed simp

lemma engine_tool_graph_short:
  assumes "engine_contract first engine" "limit \<le> 1"
  obtains e where "engine (tool_graph tools u sid role limit) thread limit (tool_request_state name a) w = (GraphFailed e, w)"
  | k s where "role = ''supervised''"
      "engine (tool_graph tools u sid role limit) thread limit (tool_request_state name a) w = (GraphInterrupted k s, w)"
proof -
  let ?g = "tool_graph tools u sid role limit"
  have "min limit (g_recursion_limit ?g) \<le> 1" using assms(2) by simp
  from follow_tool_graph_short [OF this]
  have "follow (min limit (g_recursion_limit ?g)) ?g first (g_start ?g) (tool_request_state name a) w = (OutOfBudget, w)"
    using assms(2) by simp
  from engine_contractD(2) [OF assms(1) this, of thread]
  obtain out where out: "engine ?g thread limit (tool_request_state name a) w = (out, w)"
    "case out of GraphOk _ \<Rightarrow> False | GraphInterrupted _ _ \<Rightarrow> g_interrupt_before ?g \<noteq> [] | GraphFailed _ \<Rightarrow> True" by blast
  have "g_interrupt_before ?g \<noteq> [] \<longleftrightarrow> role = ''supervised''" by (simp add: tool_graph_def)
  with out that show thesis by (cases out) simp_all
qed

lemma engine_tool_graph:
  assumes "engine_contract first engine" "2 \<le> limit"
  shows "engine (tool_graph tools u sid role limit) thread limit (tool_request_state name a) w =
     (if role = ''supervised'' then (GraphInterrupted (Suc first) (resolved_state first name a), w)
      else (let (r, w) = one_call tools u sid (Suc first) name a w in (GraphOk (finished_state first name a r), w)))"
proof -
  obtain b where "min limit (g_recursion_limit (tool_graph tools u sid role limit)) = Suc (Suc b)"
    using assms(2) by (cases limit; cases "limit - 1") (auto simp: max_def)
  then have "follow (min limit (g_recursion_limit (tool_graph tools u sid role limit))) (tool_graph tools u sid role limit) first
      (g_start (tool_graph tools u sid role limit)) (tool_request_state name a) w =
    (if role = ''supervised'' then (RunEnded (GraphInterrupted (Suc first) (resolved_state first name a)), w)
     else (let (r, w) = one_call tools u sid (Suc first) name a w in (RunEnded (GraphOk (finished_state first name a r)), w)))"
    by (simp only: tool_graph_simps(6) follow_tool_graph)
  note run = this
  obtain r w' where one: "one_call tools u sid (Suc first) name a w = (r, w')" by fastforce
  show ?thesis
  proof (cases "role = ''supervised''")
    case True
    from engine_contractD(1) [OF assms(1) run [unfolded if_P [OF True]]] show ?thesis unfolding if_P [OF True] .
  next
    case False
    from engine_contractD(1) [OF assms(1) run [unfolded if_not_P [OF False] one Let_def prod.case]]
    show ?thesis unfolding if_not_P [OF False] one Let_def prod.case .
  qed
qed

lemma trace_resolved:
  "first < 2 ^ 64 \<Longrightarrow> graph_trace_from_state (resolved_state first name a) =
     [\<lparr> ge_step = first, ge_node = ''resolve_tool_call'', ge_action = ''node_end'',
        ge_detail = ''queued 1 tool call(s)'' \<rparr>]"
  by (simp add: graph_trace_from_state_def resolved_state_arrays)

lemma finished_state_arrays:
  "state_array (finished_state first name a r) ''tool_results'' = [r]"
  "state_array (finished_state first name a r) ''graph_trace'' =
     map json_of_event
       [\<lparr> ge_step = first, ge_node = ''resolve_tool_call'', ge_action = ''node_end'',
          ge_detail = ''queued 1 tool call(s)'' \<rparr>,
        \<lparr> ge_step = Suc first, ge_node = ''tools'', ge_action = ''node_end'',
          ge_detail = ''executed 1 tool call(s)'' \<rparr>]"
  by (simp_all add: finished_state_def Let_def append_graph_trace_def resolved_state_arrays)

subsection \<open>Properties\<close>

text \<open>A supervised session never runs a tool through the graph. Whatever the tools and the arguments are, the
  outside world is as before, the result says that the call was interrupted, and the report shows
  the step at which the graph stopped in front of the tools.\<close>

theorem supervised_graph_never_executes:
  assumes "engine_contract first engine" "2 \<le> limit" "first < 2 ^ 64"
  shows "\<exists>r report. execute_session_tool_call_graph engine now session_id user_id ''supervised'' tool_name arguments tools limit w =
       (Inr (r, report), w) \<and>
     json_get ''status'' r = Some (JStr ''interrupted'') \<and> json_get ''tool'' r = Some (JStr tool_name) \<and>
     gr_interrupted report \<and> \<not> gr_completed report \<and>
     map (\<lambda>e. (ge_step e, ge_node e, ge_action e)) (gr_events report) =
       [(first, ''resolve_tool_call'', ''node_end''), (Suc first, ''tools'', ''interrupted'')]"
  using assms trace_resolved
  by (simp add: execute_session_tool_call_graph_def graph_report_def engine_tool_graph [unfolded tool_request_state_def] json_get_def)


lemma agent_graph_simps [simp]:
  "map_of (g_nodes (build_graph_agent agent config role)) ''agent'' = Some agent"
  "map_of (g_nodes (build_graph_agent agent config role)) ''tools'' = Some (\<lambda>_ s w. (execute_pending_tool_calls s, w))"
  "map_of (g_edges (build_graph_agent agent config role)) ''agent'' = Some (\<lambda>s. if has_pending_tool_calls s then ''tools'' else END)"
  "map_of (g_edges (build_graph_agent agent config role)) ''tools'' = Some (\<lambda>_. ''agent'')"
  "set (g_interrupt_before (build_graph_agent agent config role)) = (if role = ''supervised'' then {''tools''} else {})"
  by (simp_all add: build_graph_agent_def)

lemma agent_graph_run:
  assumes "follow b (build_graph_agent agent config role) k n s w = (out, w')"
    and "n = ''agent'' \<or> n = ''tools'' \<and> has_pending_tool_calls s \<or> n = END \<and> \<not> has_pending_tool_calls s"
  shows "case out of
      RunEnded (GraphOk s') \<Rightarrow> \<not> has_pending_tool_calls s'
    | RunEnded (GraphInterrupted k' s') \<Rightarrow> role = ''supervised'' \<and> has_pending_tool_calls s'
    | RunEnded (GraphFailed e) \<Rightarrow> False
    | OutOfBudget \<Rightarrow> True
    | NoSuchNode \<Rightarrow> False"
  using assms
proof (induction b arbitrary: k n s w)
  case 0
  then show ?case by (auto split: if_splits)
next
  case (Suc b)
  from Suc.prems(2) consider "n = ''agent''" | "n = ''tools''" "has_pending_tool_calls s" | "n = END" "\<not> has_pending_tool_calls s"
    by blast
  then show ?case
  proof cases
    case 1
    obtain us w1 where a: "agent k s w = (us, w1)" by fastforce
    let ?s = "apply_updates us s"
    have "follow b (build_graph_agent agent config role) (Suc k) (if has_pending_tool_calls ?s then ''tools'' else END) ?s w1 =
        (out, w')"
      using Suc.prems(1) 1 a by (simp add: Let_def split: if_splits)
    then show ?thesis by (rule Suc.IH) simp
  next
    case 2
    with Suc.prems(1) have "role = ''supervised'' \<and> out = RunEnded (GraphInterrupted k s) \<or>
        follow b (build_graph_agent agent config role) (Suc k) ''agent'' (apply_updates (execute_pending_tool_calls s) s) w = (out, w')"
      by (auto simp: Let_def split: if_splits)
    then show ?thesis using 2(2) Suc.IH by auto
  next
    case 3
    with Suc.prems(1) show ?thesis by auto
  qed
qed

text \<open>A run of the agent graph that ends has left no tool call undone, and a run that is interrupted is
  one of a supervised session. A run fails only past the recursion limit.\<close>

theorem agent_graph_outcomes:
  assumes "engine_contract first engine"
  shows "case fst (engine (build_graph_agent agent config role) thread limit s w) of
      GraphOk s' \<Rightarrow> \<not> has_pending_tool_calls s'
    | GraphInterrupted k' s' \<Rightarrow> role = ''supervised''
    | GraphFailed e \<Rightarrow> fst (follow (min limit (g_recursion_limit (build_graph_agent agent config role)))
        (build_graph_agent agent config role) first ''agent'' s w) = OutOfBudget"
proof -
  let ?g = "build_graph_agent agent config role"
  have start: "g_start ?g = ''agent''" by (simp add: build_graph_agent_def)
  obtain out w' where r: "follow (min limit (g_recursion_limit ?g)) ?g first ''agent'' s w = (out, w')" by fastforce
  have ok: "case out of RunEnded (GraphOk s') \<Rightarrow> \<not> has_pending_tool_calls s'
    | RunEnded (GraphInterrupted k' s') \<Rightarrow> role = ''supervised'' \<and> has_pending_tool_calls s'
    | RunEnded (GraphFailed e) \<Rightarrow> False | OutOfBudget \<Rightarrow> True | NoSuchNode \<Rightarrow> False"
    by (rule agent_graph_run [OF r]) simp
  show ?thesis
  proof (cases out)
    case (RunEnded o')
    with r have "engine ?g thread limit s w = (o', w')" by (intro engine_contractD(1) [OF assms]) (simp add: start)
    with ok RunEnded show ?thesis by (auto split: graph_outcome.splits)
  next
    case OutOfBudget
    with r engine_contractD(2) [OF assms, of limit ?g s w w' thread]
    obtain o' where o: "engine ?g thread limit s w = (o', w')" "case o' of GraphOk _ \<Rightarrow> False
        | GraphInterrupted _ _ \<Rightarrow> g_interrupt_before ?g \<noteq> [] | GraphFailed _ \<Rightarrow> True" by (auto simp: start)
    moreover have "g_interrupt_before ?g \<noteq> [] \<longleftrightarrow> role = ''supervised''" by (simp add: build_graph_agent_def)
    ultimately show ?thesis using OutOfBudget r by (cases o') simp_all
  next
    case NoSuchNode
    with ok show ?thesis by simp
  qed
qed

subsection \<open>Witnesses\<close>

definition reference_engine :: "'w engine" where
  "reference_engine g thread limit s w =
     (case follow (min limit (g_recursion_limit g)) g 1 (g_start g) s w of
        (RunEnded out, w') \<Rightarrow> (out, w')
      | (OutOfBudget, w') \<Rightarrow> (GraphFailed ''Recursion limit exceeded'', w')
      | (NoSuchNode, w') \<Rightarrow> (GraphFailed ''Unknown node'', w'))"

lemma reference_engine_contract: "engine_contract 1 reference_engine"
  by (auto simp: engine_contract_def reference_engine_def split: prod.split run_end.split)

definition counting_tools :: "nat tools" where
  "counting_tools = [(''echo_text'', \<lambda>_ v n. (Inr v, Suc n))]"

theorem supervised_graph_never_executes_witness:
  "snd (execute_session_tool_call_graph reference_engine 7 ''s'' ''u'' ''supervised'' ''echo_text'' JNull counting_tools 25 0) = 0"
  using supervised_graph_never_executes [OF reference_engine_contract, of 25 7 "''s''" "''u''" "''echo_text''" JNull counting_tools 0]
  by auto


theorem agent_graph_outcomes_witness:
  "case fst (reference_engine (build_graph_agent (\<lambda>_ _ w. ([(''pending_tool_calls'', JArr [JNull])], w))
       \<lparr> gc_enable_graph = True, gc_recursion_limit = Some 2 \<rparr> ''supervised'') ''t'' 2 [] ()) of
      GraphOk s' \<Rightarrow> \<not> has_pending_tool_calls s'
    | _ \<Rightarrow> True"
  using agent_graph_outcomes [OF reference_engine_contract, where agent = "\<lambda>_ _ w. ([(''pending_tool_calls'', JArr [JNull])], w)"
      and config = "\<lparr> gc_enable_graph = True, gc_recursion_limit = Some 2 \<rparr>" and role = "''supervised''"
      and thread = "''t''" and limit = 2 and s = "[]" and w = "()"]
  by (auto split: graph_outcome.splits)

end
