(* ===== verification/Config.thy ===== *)
theory Config
  imports Resilience "HOL-Library.Monad_Syntax"
begin

section \<open>The configuration\<close>

text \<open>
  The structures of \<open>liveclaw-app/src/config.rs\<close>, their defaults, and their TOML form as the \<open>serde\<close>
  derives define it: a missing field has its default, a field of the wrong type or out of the range
  of its integer type is an error, an unknown field is ignored, an absent option is not written. The text of a
  TOML document is the library's; here a document is its table, an association list. TOML integers are
  signed 64-bit numbers, so a larger unsigned value cannot be written. Reading a structure from an array, which
  \<open>serde\<close> also accepts, is left out.
\<close>

datatype toml = TStr string | TInt int | TBool bool | TArr "toml list" | TTab "(string \<times> toml) list" | TOther string

subsection \<open>Structures\<close>

datatype audio_format = Pcm16_24kHz | Pcm16_16kHz

record gateway_config =
  gw_host :: string
  gw_port :: "16 word"
  gw_require_pairing :: bool

record voice_config =
  vc_provider :: string
  vc_api_key :: string
  vc_model :: string
  vc_base_url :: "string option"
  vc_voice :: "string option"
  vc_instructions :: "string option"
  vc_audio_format :: audio_format

record security_config =
  se_default_role :: string
  se_tool_allowlist :: "string list"
  se_rate_limit_per_session :: "32 word"
  se_audit_log_path :: string
  se_workspace_root :: string
  se_forbidden_tool_paths :: "string list"
  se_principal_allowlist :: "string list"
  se_deny_by_default_principal_allowlist :: bool
  se_allow_public_bind :: bool

record plugin_config =
  pl_enable_pii_redaction :: bool
  pl_enable_memory_autosave :: bool
  pl_custom_blocked_keywords :: "string list"

record memory_config =
  mm_backend :: string
  mm_recall_limit :: "64 word"

record graph_settings =
  gs_enable_graph :: bool
  gs_recursion_limit :: "64 word"

record compaction_config =
  cc_enable_compaction :: bool
  cc_max_events_threshold :: "64 word"

record artifact_config =
  ac_enable_artifacts :: bool
  ac_storage_path :: string

record pairing_config =
  pc_max_attempts :: "32 word"
  pc_lockout_duration_secs :: "64 word"

datatype runtime_kind = Native | Docker

record runtime_config =
  rt_kind :: runtime_kind
  rt_docker_image :: string

record provider_profile =
  pp_enabled :: bool
  pp_api_key :: string
  pp_model :: string
  pp_base_url :: "string option"

record providers_config =
  pv_active_profile :: string
  pv_openai :: provider_profile
  pv_openai_compatible :: provider_profile

record telemetry_config =
  te_otlp_enabled :: bool

record liveclaw_config =
  lc_gateway :: gateway_config
  lc_voice :: voice_config
  lc_security :: security_config
  lc_plugin :: plugin_config
  lc_memory :: memory_config
  lc_graph :: graph_settings
  lc_compaction :: compaction_config
  lc_artifact :: artifact_config
  lc_pairing :: pairing_config
  lc_runtime :: runtime_config
  lc_providers :: providers_config
  lc_resilience :: resilience_config
  lc_telemetry :: telemetry_config

subsection \<open>Defaults\<close>

text \<open>The values of fields that a file does not give.\<close>

definition default_host :: string where
  [simp]: "default_host = ''127.0.0.1''"

definition default_port :: "16 word" where
  [simp]: "default_port = 8420"

definition default_false :: bool where
  [simp]: "default_false = False"

definition default_role :: string where
  [simp]: "default_role = ''supervised''"

definition default_rate_limit :: "32 word" where
  [simp]: "default_rate_limit = 100"

definition default_audit_path :: string where
  [simp]: "default_audit_path = ''audit.jsonl''"

definition default_workspace_root :: string where
  [simp]: "default_workspace_root = ''.''"

definition default_forbidden_tool_paths :: "string list" where
  [simp]: "default_forbidden_tool_paths = [''.git'', ''target'']"

definition default_memory_backend :: string where
  [simp]: "default_memory_backend = ''in_memory''"

definition default_recall_limit :: "64 word" where
  [simp]: "default_recall_limit = 10"

definition default_recursion_limit :: "64 word" where
  [simp]: "default_recursion_limit = 25"

definition default_max_events_threshold :: "64 word" where
  [simp]: "default_max_events_threshold = 500"

definition default_artifact_path :: string where
  [simp]: "default_artifact_path = ''./artifacts''"

definition default_max_attempts :: "32 word" where
  [simp]: "default_max_attempts = 5"

definition default_lockout_secs :: "64 word" where
  [simp]: "default_lockout_secs = 300"

definition default_runtime_docker_image :: string where
  [simp]: "default_runtime_docker_image = ''zavoraai/liveclaw-runtime:latest''"

definition default_provider_profile :: string where
  [simp]: "default_provider_profile = ''legacy''"

definition gateway_default :: gateway_config where
  "gateway_default = \<lparr> gw_host = default_host, gw_port = default_port, gw_require_pairing = default_true \<rparr>"

definition voice_default :: voice_config where
  "voice_default = \<lparr> vc_provider = [], vc_api_key = [], vc_model = [], vc_base_url = None, vc_voice = None,
     vc_instructions = None, vc_audio_format = Pcm16_24kHz \<rparr>"

definition security_default :: security_config where
  "security_default = \<lparr> se_default_role = default_role, se_tool_allowlist = [], se_rate_limit_per_session = default_rate_limit,
     se_audit_log_path = default_audit_path, se_workspace_root = default_workspace_root, se_forbidden_tool_paths = default_forbidden_tool_paths,
     se_principal_allowlist = [], se_deny_by_default_principal_allowlist = default_false, se_allow_public_bind = default_false \<rparr>"

definition plugin_default :: plugin_config where
  "plugin_default = \<lparr> pl_enable_pii_redaction = default_true, pl_enable_memory_autosave = default_true, pl_custom_blocked_keywords = [] \<rparr>"

definition memory_default :: memory_config where
  "memory_default = \<lparr> mm_backend = default_memory_backend, mm_recall_limit = default_recall_limit \<rparr>"

definition graph_default :: graph_settings where
  "graph_default = \<lparr> gs_enable_graph = False, gs_recursion_limit = default_recursion_limit \<rparr>"

definition compaction_default :: compaction_config where
  "compaction_default = \<lparr> cc_enable_compaction = False, cc_max_events_threshold = default_max_events_threshold \<rparr>"

definition artifact_default :: artifact_config where
  "artifact_default = \<lparr> ac_enable_artifacts = False, ac_storage_path = default_artifact_path \<rparr>"

definition pairing_default :: pairing_config where
  "pairing_default = \<lparr> pc_max_attempts = default_max_attempts, pc_lockout_duration_secs = default_lockout_secs \<rparr>"

definition runtime_default :: runtime_config where
  "runtime_default = \<lparr> rt_kind = Native, rt_docker_image = default_runtime_docker_image \<rparr>"

definition provider_profile_default :: provider_profile where
  "provider_profile_default = \<lparr> pp_enabled = False, pp_api_key = [], pp_model = [], pp_base_url = None \<rparr>"

definition providers_default :: providers_config where
  "providers_default = \<lparr> pv_active_profile = default_provider_profile, pv_openai = provider_profile_default,
     pv_openai_compatible = provider_profile_default \<rparr>"

definition telemetry_default :: telemetry_config where
  "telemetry_default = \<lparr> te_otlp_enabled = False \<rparr>"

definition config_default :: liveclaw_config where
  "config_default = \<lparr> lc_gateway = gateway_default, lc_voice = voice_default, lc_security = security_default,
     lc_plugin = plugin_default, lc_memory = memory_default, lc_graph = graph_default,
     lc_compaction = compaction_default, lc_artifact = artifact_default, lc_pairing = pairing_default,
     lc_runtime = runtime_default, lc_providers = providers_default, lc_resilience = resilience_default,
     lc_telemetry = telemetry_default \<rparr>"

subsection \<open>Reading and writing a field\<close>

definition toml_as_str :: "toml \<Rightarrow> string option" where
  "toml_as_str v = (case v of TStr s \<Rightarrow> Some s | _ \<Rightarrow> None)"

definition toml_as_bool :: "toml \<Rightarrow> bool option" where
  "toml_as_bool v = (case v of TBool b \<Rightarrow> Some b | _ \<Rightarrow> None)"

definition word_of_toml :: "toml \<Rightarrow> 'a::len word option" where
  "word_of_toml v = (case v of TInt i \<Rightarrow> if 0 \<le> i \<and> i < 2 ^ LENGTH('a) then Some (word_of_int i) else None | _ \<Rightarrow> None)"

definition toml_of_word :: "'a::len word \<Rightarrow> toml" where
  "toml_of_word w = TInt (uint w)"

definition strs_of_toml :: "toml \<Rightarrow> string list option" where
  "strs_of_toml v = (case v of TArr vs \<Rightarrow> those (map toml_as_str vs) | _ \<Rightarrow> None)"

definition toml_of_strs :: "string list \<Rightarrow> toml" where
  "toml_of_strs ss = TArr (map TStr ss)"

definition audio_format_of_toml :: "toml \<Rightarrow> audio_format option" where
  "audio_format_of_toml v =
     (case toml_as_str v of
        None \<Rightarrow> None
      | Some s \<Rightarrow> if s = ''Pcm16_24kHz'' then Some Pcm16_24kHz else if s = ''Pcm16_16kHz'' then Some Pcm16_16kHz else None)"

definition toml_of_audio_format :: "audio_format \<Rightarrow> toml" where
  "toml_of_audio_format f = TStr (case f of Pcm16_24kHz \<Rightarrow> ''Pcm16_24kHz'' | Pcm16_16kHz \<Rightarrow> ''Pcm16_16kHz'')"

definition runtime_kind_of_toml :: "toml \<Rightarrow> runtime_kind option" where
  "runtime_kind_of_toml v =
     (case toml_as_str v of
        None \<Rightarrow> None
      | Some s \<Rightarrow> if s = ''native'' then Some Native else if s = ''docker'' then Some Docker else None)"

definition toml_of_runtime_kind :: "runtime_kind \<Rightarrow> toml" where
  "toml_of_runtime_kind k = TStr (case k of Native \<Rightarrow> ''native'' | Docker \<Rightarrow> ''docker'')"

definition toml_table :: "toml \<Rightarrow> (string \<times> toml) list option" where
  "toml_table v = (case v of TTab kvs \<Rightarrow> Some kvs | _ \<Rightarrow> None)"

definition field :: "(toml \<Rightarrow> 'a option) \<Rightarrow> 'a \<Rightarrow> string \<Rightarrow> (string \<times> toml) list \<Rightarrow> 'a option" where
  "field get d k kvs = (case map_of kvs k of None \<Rightarrow> Some d | Some v \<Rightarrow> get v)"

definition opt_field :: "(toml \<Rightarrow> 'a option) \<Rightarrow> string \<Rightarrow> (string \<times> toml) list \<Rightarrow> 'a option option" where
  "opt_field get k kvs = (case map_of kvs k of None \<Rightarrow> Some None | Some v \<Rightarrow> map_option Some (get v))"

definition put_opt :: "string \<Rightarrow> ('a \<Rightarrow> toml) \<Rightarrow> 'a option \<Rightarrow> (string \<times> toml) list" where
  "put_opt k put x = (case x of None \<Rightarrow> [] | Some v \<Rightarrow> [(k, put v)])"

subsection \<open>Reading and writing the structures\<close>

definition gateway_of_toml :: "toml \<Rightarrow> gateway_config option" where
  "gateway_of_toml t = do {
     kvs \<leftarrow> toml_table t;
     x0 \<leftarrow> field toml_as_str default_host ''host'' kvs;
     x1 \<leftarrow> field word_of_toml default_port ''port'' kvs;
     x2 \<leftarrow> field toml_as_bool default_true ''require_pairing'' kvs;
     Some \<lparr> gw_host = x0, gw_port = x1, gw_require_pairing = x2 \<rparr> }"

definition toml_of_gateway :: "gateway_config \<Rightarrow> toml" where
  "toml_of_gateway c = TTab ([(''host'', TStr (gw_host c)),
     (''port'', toml_of_word (gw_port c)),
     (''require_pairing'', TBool (gw_require_pairing c))])"

definition voice_of_toml :: "toml \<Rightarrow> voice_config option" where
  "voice_of_toml t = do {
     kvs \<leftarrow> toml_table t;
     x0 \<leftarrow> field toml_as_str [] ''provider'' kvs;
     x1 \<leftarrow> field toml_as_str [] ''api_key'' kvs;
     x2 \<leftarrow> field toml_as_str [] ''model'' kvs;
     x3 \<leftarrow> opt_field toml_as_str ''base_url'' kvs;
     x4 \<leftarrow> opt_field toml_as_str ''voice'' kvs;
     x5 \<leftarrow> opt_field toml_as_str ''instructions'' kvs;
     x6 \<leftarrow> field audio_format_of_toml Pcm16_24kHz ''audio_format'' kvs;
     Some \<lparr> vc_provider = x0, vc_api_key = x1, vc_model = x2, vc_base_url = x3,
       vc_voice = x4, vc_instructions = x5, vc_audio_format = x6 \<rparr> }"

definition toml_of_voice :: "voice_config \<Rightarrow> toml" where
  "toml_of_voice c = TTab ([(''provider'', TStr (vc_provider c)),
     (''api_key'', TStr (vc_api_key c)),
     (''model'', TStr (vc_model c))] @
     put_opt ''base_url'' TStr (vc_base_url c) @
     put_opt ''voice'' TStr (vc_voice c) @
     put_opt ''instructions'' TStr (vc_instructions c) @
     [(''audio_format'', toml_of_audio_format (vc_audio_format c))])"

definition security_of_toml :: "toml \<Rightarrow> security_config option" where
  "security_of_toml t = do {
     kvs \<leftarrow> toml_table t;
     x0 \<leftarrow> field toml_as_str default_role ''default_role'' kvs;
     x1 \<leftarrow> field strs_of_toml [] ''tool_allowlist'' kvs;
     x2 \<leftarrow> field word_of_toml default_rate_limit ''rate_limit_per_session'' kvs;
     x3 \<leftarrow> field toml_as_str default_audit_path ''audit_log_path'' kvs;
     x4 \<leftarrow> field toml_as_str default_workspace_root ''workspace_root'' kvs;
     x5 \<leftarrow> field strs_of_toml default_forbidden_tool_paths ''forbidden_tool_paths'' kvs;
     x6 \<leftarrow> field strs_of_toml [] ''principal_allowlist'' kvs;
     x7 \<leftarrow> field toml_as_bool default_false ''deny_by_default_principal_allowlist'' kvs;
     x8 \<leftarrow> field toml_as_bool default_false ''allow_public_bind'' kvs;
     Some \<lparr> se_default_role = x0, se_tool_allowlist = x1, se_rate_limit_per_session = x2, se_audit_log_path = x3,
       se_workspace_root = x4, se_forbidden_tool_paths = x5, se_principal_allowlist = x6, se_deny_by_default_principal_allowlist = x7,
       se_allow_public_bind = x8 \<rparr> }"

definition toml_of_security :: "security_config \<Rightarrow> toml" where
  "toml_of_security c = TTab ([(''default_role'', TStr (se_default_role c)),
     (''tool_allowlist'', toml_of_strs (se_tool_allowlist c)),
     (''rate_limit_per_session'', toml_of_word (se_rate_limit_per_session c)),
     (''audit_log_path'', TStr (se_audit_log_path c)),
     (''workspace_root'', TStr (se_workspace_root c)),
     (''forbidden_tool_paths'', toml_of_strs (se_forbidden_tool_paths c)),
     (''principal_allowlist'', toml_of_strs (se_principal_allowlist c)),
     (''deny_by_default_principal_allowlist'', TBool (se_deny_by_default_principal_allowlist c)),
     (''allow_public_bind'', TBool (se_allow_public_bind c))])"

definition plugin_of_toml :: "toml \<Rightarrow> plugin_config option" where
  "plugin_of_toml t = do {
     kvs \<leftarrow> toml_table t;
     x0 \<leftarrow> field toml_as_bool default_true ''enable_pii_redaction'' kvs;
     x1 \<leftarrow> field toml_as_bool default_true ''enable_memory_autosave'' kvs;
     x2 \<leftarrow> field strs_of_toml [] ''custom_blocked_keywords'' kvs;
     Some \<lparr> pl_enable_pii_redaction = x0, pl_enable_memory_autosave = x1, pl_custom_blocked_keywords = x2 \<rparr> }"

definition toml_of_plugin :: "plugin_config \<Rightarrow> toml" where
  "toml_of_plugin c = TTab ([(''enable_pii_redaction'', TBool (pl_enable_pii_redaction c)),
     (''enable_memory_autosave'', TBool (pl_enable_memory_autosave c)),
     (''custom_blocked_keywords'', toml_of_strs (pl_custom_blocked_keywords c))])"

definition memory_of_toml :: "toml \<Rightarrow> memory_config option" where
  "memory_of_toml t = do {
     kvs \<leftarrow> toml_table t;
     x0 \<leftarrow> field toml_as_str default_memory_backend ''backend'' kvs;
     x1 \<leftarrow> field word_of_toml default_recall_limit ''recall_limit'' kvs;
     Some \<lparr> mm_backend = x0, mm_recall_limit = x1 \<rparr> }"

definition toml_of_memory :: "memory_config \<Rightarrow> toml" where
  "toml_of_memory c = TTab ([(''backend'', TStr (mm_backend c)),
     (''recall_limit'', toml_of_word (mm_recall_limit c))])"

definition graph_of_toml :: "toml \<Rightarrow> graph_settings option" where
  "graph_of_toml t = do {
     kvs \<leftarrow> toml_table t;
     x0 \<leftarrow> field toml_as_bool False ''enable_graph'' kvs;
     x1 \<leftarrow> field word_of_toml default_recursion_limit ''recursion_limit'' kvs;
     Some \<lparr> gs_enable_graph = x0, gs_recursion_limit = x1 \<rparr> }"

definition toml_of_graph :: "graph_settings \<Rightarrow> toml" where
  "toml_of_graph c = TTab ([(''enable_graph'', TBool (gs_enable_graph c)),
     (''recursion_limit'', toml_of_word (gs_recursion_limit c))])"

definition compaction_of_toml :: "toml \<Rightarrow> compaction_config option" where
  "compaction_of_toml t = do {
     kvs \<leftarrow> toml_table t;
     x0 \<leftarrow> field toml_as_bool False ''enable_compaction'' kvs;
     x1 \<leftarrow> field word_of_toml default_max_events_threshold ''max_events_threshold'' kvs;
     Some \<lparr> cc_enable_compaction = x0, cc_max_events_threshold = x1 \<rparr> }"

definition toml_of_compaction :: "compaction_config \<Rightarrow> toml" where
  "toml_of_compaction c = TTab ([(''enable_compaction'', TBool (cc_enable_compaction c)),
     (''max_events_threshold'', toml_of_word (cc_max_events_threshold c))])"

definition artifact_of_toml :: "toml \<Rightarrow> artifact_config option" where
  "artifact_of_toml t = do {
     kvs \<leftarrow> toml_table t;
     x0 \<leftarrow> field toml_as_bool False ''enable_artifacts'' kvs;
     x1 \<leftarrow> field toml_as_str default_artifact_path ''storage_path'' kvs;
     Some \<lparr> ac_enable_artifacts = x0, ac_storage_path = x1 \<rparr> }"

definition toml_of_artifact :: "artifact_config \<Rightarrow> toml" where
  "toml_of_artifact c = TTab ([(''enable_artifacts'', TBool (ac_enable_artifacts c)),
     (''storage_path'', TStr (ac_storage_path c))])"

definition pairing_of_toml :: "toml \<Rightarrow> pairing_config option" where
  "pairing_of_toml t = do {
     kvs \<leftarrow> toml_table t;
     x0 \<leftarrow> field word_of_toml default_max_attempts ''max_attempts'' kvs;
     x1 \<leftarrow> field word_of_toml default_lockout_secs ''lockout_duration_secs'' kvs;
     Some \<lparr> pc_max_attempts = x0, pc_lockout_duration_secs = x1 \<rparr> }"

definition toml_of_pairing :: "pairing_config \<Rightarrow> toml" where
  "toml_of_pairing c = TTab ([(''max_attempts'', toml_of_word (pc_max_attempts c)),
     (''lockout_duration_secs'', toml_of_word (pc_lockout_duration_secs c))])"

definition runtime_of_toml :: "toml \<Rightarrow> runtime_config option" where
  "runtime_of_toml t = do {
     kvs \<leftarrow> toml_table t;
     x0 \<leftarrow> field runtime_kind_of_toml Native ''kind'' kvs;
     x1 \<leftarrow> field toml_as_str default_runtime_docker_image ''docker_image'' kvs;
     Some \<lparr> rt_kind = x0, rt_docker_image = x1 \<rparr> }"

definition toml_of_runtime :: "runtime_config \<Rightarrow> toml" where
  "toml_of_runtime c = TTab ([(''kind'', toml_of_runtime_kind (rt_kind c)),
     (''docker_image'', TStr (rt_docker_image c))])"

definition provider_profile_of_toml :: "toml \<Rightarrow> provider_profile option" where
  "provider_profile_of_toml t = do {
     kvs \<leftarrow> toml_table t;
     x0 \<leftarrow> field toml_as_bool False ''enabled'' kvs;
     x1 \<leftarrow> field toml_as_str [] ''api_key'' kvs;
     x2 \<leftarrow> field toml_as_str [] ''model'' kvs;
     x3 \<leftarrow> opt_field toml_as_str ''base_url'' kvs;
     Some \<lparr> pp_enabled = x0, pp_api_key = x1, pp_model = x2, pp_base_url = x3 \<rparr> }"

definition toml_of_provider_profile :: "provider_profile \<Rightarrow> toml" where
  "toml_of_provider_profile c = TTab ([(''enabled'', TBool (pp_enabled c)),
     (''api_key'', TStr (pp_api_key c)),
     (''model'', TStr (pp_model c))] @
     put_opt ''base_url'' TStr (pp_base_url c))"

definition providers_of_toml :: "toml \<Rightarrow> providers_config option" where
  "providers_of_toml t = do {
     kvs \<leftarrow> toml_table t;
     x0 \<leftarrow> field toml_as_str default_provider_profile ''active_profile'' kvs;
     x1 \<leftarrow> field provider_profile_of_toml provider_profile_default ''openai'' kvs;
     x2 \<leftarrow> field provider_profile_of_toml provider_profile_default ''openai_compatible'' kvs;
     Some \<lparr> pv_active_profile = x0, pv_openai = x1, pv_openai_compatible = x2 \<rparr> }"

definition toml_of_providers :: "providers_config \<Rightarrow> toml" where
  "toml_of_providers c = TTab ([(''active_profile'', TStr (pv_active_profile c)),
     (''openai'', toml_of_provider_profile (pv_openai c)),
     (''openai_compatible'', toml_of_provider_profile (pv_openai_compatible c))])"

definition resilience_of_toml :: "toml \<Rightarrow> resilience_config option" where
  "resilience_of_toml t = do {
     kvs \<leftarrow> toml_table t;
     x0 \<leftarrow> field toml_as_bool default_true ''enable_reconnect'' kvs;
     x1 \<leftarrow> field word_of_toml default_reconnect_max_attempts ''max_reconnect_attempts'' kvs;
     x2 \<leftarrow> field word_of_toml default_reconnect_initial_backoff_ms ''initial_backoff_ms'' kvs;
     x3 \<leftarrow> field word_of_toml default_reconnect_max_backoff_ms ''max_backoff_ms'' kvs;
     Some \<lparr> rc_enable_reconnect = x0, rc_max_reconnect_attempts = x1, rc_initial_backoff_ms = x2, rc_max_backoff_ms = x3 \<rparr> }"

definition toml_of_resilience :: "resilience_config \<Rightarrow> toml" where
  "toml_of_resilience c = TTab ([(''enable_reconnect'', TBool (rc_enable_reconnect c)),
     (''max_reconnect_attempts'', toml_of_word (rc_max_reconnect_attempts c)),
     (''initial_backoff_ms'', toml_of_word (rc_initial_backoff_ms c)),
     (''max_backoff_ms'', toml_of_word (rc_max_backoff_ms c))])"

definition telemetry_of_toml :: "toml \<Rightarrow> telemetry_config option" where
  "telemetry_of_toml t = do {
     kvs \<leftarrow> toml_table t;
     x0 \<leftarrow> field toml_as_bool False ''otlp_enabled'' kvs;
     Some \<lparr> te_otlp_enabled = x0 \<rparr> }"

definition toml_of_telemetry :: "telemetry_config \<Rightarrow> toml" where
  "toml_of_telemetry c = TTab ([(''otlp_enabled'', TBool (te_otlp_enabled c))])"

definition config_of_toml :: "toml \<Rightarrow> liveclaw_config option" where
  "config_of_toml t = do {
     kvs \<leftarrow> toml_table t;
     x0 \<leftarrow> field gateway_of_toml gateway_default ''gateway'' kvs;
     x1 \<leftarrow> field voice_of_toml voice_default ''voice'' kvs;
     x2 \<leftarrow> field security_of_toml security_default ''security'' kvs;
     x3 \<leftarrow> field plugin_of_toml plugin_default ''plugin'' kvs;
     x4 \<leftarrow> field memory_of_toml memory_default ''memory'' kvs;
     x5 \<leftarrow> field graph_of_toml graph_default ''graph'' kvs;
     x6 \<leftarrow> field compaction_of_toml compaction_default ''compaction'' kvs;
     x7 \<leftarrow> field artifact_of_toml artifact_default ''artifact'' kvs;
     x8 \<leftarrow> field pairing_of_toml pairing_default ''pairing'' kvs;
     x9 \<leftarrow> field runtime_of_toml runtime_default ''runtime'' kvs;
     x10 \<leftarrow> field providers_of_toml providers_default ''providers'' kvs;
     x11 \<leftarrow> field resilience_of_toml resilience_default ''resilience'' kvs;
     x12 \<leftarrow> field telemetry_of_toml telemetry_default ''telemetry'' kvs;
     Some \<lparr> lc_gateway = x0, lc_voice = x1, lc_security = x2, lc_plugin = x3,
       lc_memory = x4, lc_graph = x5, lc_compaction = x6, lc_artifact = x7,
       lc_pairing = x8, lc_runtime = x9, lc_providers = x10, lc_resilience = x11,
       lc_telemetry = x12 \<rparr> }"

definition toml_of_config :: "liveclaw_config \<Rightarrow> toml" where
  "toml_of_config c = TTab ([(''gateway'', toml_of_gateway (lc_gateway c)),
     (''voice'', toml_of_voice (lc_voice c)),
     (''security'', toml_of_security (lc_security c)),
     (''plugin'', toml_of_plugin (lc_plugin c)),
     (''memory'', toml_of_memory (lc_memory c)),
     (''graph'', toml_of_graph (lc_graph c)),
     (''compaction'', toml_of_compaction (lc_compaction c)),
     (''artifact'', toml_of_artifact (lc_artifact c)),
     (''pairing'', toml_of_pairing (lc_pairing c)),
     (''runtime'', toml_of_runtime (lc_runtime c)),
     (''providers'', toml_of_providers (lc_providers c)),
     (''resilience'', toml_of_resilience (lc_resilience c)),
     (''telemetry'', toml_of_telemetry (lc_telemetry c))])"

text \<open>Writing the whole configuration fails on a number that TOML cannot hold.\<close>

definition word_fits :: "'a::len word \<Rightarrow> bool" where
  "word_fits w \<longleftrightarrow> uint w < 2 ^ 63"

definition config_fits :: "liveclaw_config \<Rightarrow> bool" where
  "config_fits c \<longleftrightarrow>
     word_fits (mm_recall_limit (lc_memory c)) \<and> word_fits (gs_recursion_limit (lc_graph c)) \<and>
     word_fits (cc_max_events_threshold (lc_compaction c)) \<and> word_fits (pc_lockout_duration_secs (lc_pairing c)) \<and>
     word_fits (rc_initial_backoff_ms (lc_resilience c)) \<and> word_fits (rc_max_backoff_ms (lc_resilience c))"

definition config_to_toml :: "liveclaw_config \<Rightarrow> toml option" where
  "config_to_toml c = (if config_fits c then Some (toml_of_config c) else None)"

subsection \<open>Fields are read back\<close>

text \<open>
  What a structure needs of the type of a field: a value that may be written is read back.
\<close>

locale toml_field =
  fixes put :: "'a \<Rightarrow> toml" and get :: "toml \<Rightarrow> 'a option" and ok :: "'a \<Rightarrow> bool"
  assumes get_put: "ok x \<Longrightarrow> get (put x) = Some x"
begin

lemma field_present: "map_of kvs k = Some (put x) \<Longrightarrow> ok x \<Longrightarrow> field get d k kvs = Some x"
  by (simp add: field_def get_put)

lemma opt_field_put:
  "pred_option ok x \<Longrightarrow>
   (case (case x of None \<Rightarrow> None | Some v \<Rightarrow> Some (put v)) of None \<Rightarrow> Some None | Some v \<Rightarrow> map_option Some (get v)) = Some x"
  by (cases x) (simp_all add: get_put)

end

lemma field_absent: "map_of kvs k = None \<Longrightarrow> field get d k kvs = Some d"
  by (simp add: field_def)

lemma opt_field_absent: "map_of kvs k = None \<Longrightarrow> opt_field get k kvs = Some None"
  by (simp add: opt_field_def)

lemma map_of_put_opt [simp]:
  "map_of (put_opt k put x @ kvs) k' =
     (if k' = k then (case x of None \<Rightarrow> map_of kvs k' | Some v \<Rightarrow> Some (put v)) else map_of kvs k')"
  "map_of (put_opt k put x) k' = (if k' = k then (case x of None \<Rightarrow> None | Some v \<Rightarrow> Some (put v)) else None)"
  by (cases x; simp add: put_opt_def)+

lemma word_fits_small [simp]: "LENGTH('a::len) \<le> 63 \<Longrightarrow> word_fits (w :: 'a word)"
proof -
  assume "LENGTH('a) \<le> 63"
  then have "(2 :: int) ^ LENGTH('a) \<le> 2 ^ 63" by (rule power_increasing) simp
  then show "word_fits w" unfolding word_fits_def using uint_lt2p [of w] by (rule order.strict_trans2 [rotated])
qed

lemma those_map_Some: "(\<And>x. f (g x) = Some x) \<Longrightarrow> those (map f (map g xs)) = Some xs"
  by (induction xs) simp_all

interpretation str_field: toml_field TStr toml_as_str "\<lambda>_. True"
  by unfold_locales (simp add: toml_as_str_def)

interpretation bool_field: toml_field TBool toml_as_bool "\<lambda>_. True"
  by unfold_locales (simp add: toml_as_bool_def)

interpretation word_field: toml_field toml_of_word word_of_toml word_fits
  by unfold_locales (simp add: toml_of_word_def word_of_toml_def uint_lt2p)

interpretation strs_field: toml_field toml_of_strs strs_of_toml "\<lambda>_. True"
  by unfold_locales (simp add: toml_of_strs_def strs_of_toml_def those_map_Some toml_as_str_def del: map_map)

interpretation audio_format_field: toml_field toml_of_audio_format audio_format_of_toml "\<lambda>_. True"
  by unfold_locales (auto simp: toml_of_audio_format_def audio_format_of_toml_def toml_as_str_def split: audio_format.split)

interpretation runtime_kind_field: toml_field toml_of_runtime_kind runtime_kind_of_toml "\<lambda>_. True"
  by unfold_locales (auto simp: toml_of_runtime_kind_def runtime_kind_of_toml_def toml_as_str_def split: runtime_kind.split)

lemmas field_simps = str_field.field_present bool_field.field_present word_field.field_present strs_field.field_present
  audio_format_field.field_present runtime_kind_field.field_present str_field.opt_field_put option.pred_True

lemma toml_table_TTab [simp]: "toml_table (TTab kvs) = Some kvs"
  by (simp add: toml_table_def)

interpretation gateway_field: toml_field toml_of_gateway gateway_of_toml "\<lambda>_. True"
  by unfold_locales (simp add: toml_of_gateway_def gateway_of_toml_def field_simps)

interpretation voice_field: toml_field toml_of_voice voice_of_toml "\<lambda>_. True"
  by unfold_locales (simp add: toml_of_voice_def voice_of_toml_def field_simps opt_field_def del: map_of_append cong: option.case_cong)

interpretation security_field: toml_field toml_of_security security_of_toml "\<lambda>_. True"
  by unfold_locales (simp add: toml_of_security_def security_of_toml_def field_simps)

interpretation plugin_field: toml_field toml_of_plugin plugin_of_toml "\<lambda>_. True"
  by unfold_locales (simp add: toml_of_plugin_def plugin_of_toml_def field_simps)

interpretation memory_field: toml_field toml_of_memory memory_of_toml "\<lambda>c. word_fits (mm_recall_limit c)"
  by unfold_locales (simp add: toml_of_memory_def memory_of_toml_def field_simps)

interpretation graph_field: toml_field toml_of_graph graph_of_toml "\<lambda>c. word_fits (gs_recursion_limit c)"
  by unfold_locales (simp add: toml_of_graph_def graph_of_toml_def field_simps)

interpretation compaction_field: toml_field toml_of_compaction compaction_of_toml "\<lambda>c. word_fits (cc_max_events_threshold c)"
  by unfold_locales (simp add: toml_of_compaction_def compaction_of_toml_def field_simps)

interpretation artifact_field: toml_field toml_of_artifact artifact_of_toml "\<lambda>_. True"
  by unfold_locales (simp add: toml_of_artifact_def artifact_of_toml_def field_simps)

interpretation pairing_field: toml_field toml_of_pairing pairing_of_toml "\<lambda>c. word_fits (pc_lockout_duration_secs c)"
  by unfold_locales (simp add: toml_of_pairing_def pairing_of_toml_def field_simps)

interpretation runtime_field: toml_field toml_of_runtime runtime_of_toml "\<lambda>_. True"
  by unfold_locales (simp add: toml_of_runtime_def runtime_of_toml_def field_simps)

interpretation provider_profile_field: toml_field toml_of_provider_profile provider_profile_of_toml "\<lambda>_. True"
  by unfold_locales (simp add: toml_of_provider_profile_def provider_profile_of_toml_def field_simps opt_field_def del: map_of_append cong: option.case_cong)

interpretation providers_field: toml_field toml_of_providers providers_of_toml "\<lambda>_. True"
  by unfold_locales (simp add: toml_of_providers_def providers_of_toml_def field_simps provider_profile_field.field_present)

interpretation resilience_field: toml_field toml_of_resilience resilience_of_toml
  "\<lambda>c. word_fits (rc_initial_backoff_ms c) \<and> word_fits (rc_max_backoff_ms c)"
  by unfold_locales (simp add: toml_of_resilience_def resilience_of_toml_def field_simps)

interpretation telemetry_field: toml_field toml_of_telemetry telemetry_of_toml "\<lambda>_. True"
  by unfold_locales (simp add: toml_of_telemetry_def telemetry_of_toml_def field_simps)

lemmas section_simps = gateway_field.field_present voice_field.field_present security_field.field_present
  plugin_field.field_present memory_field.field_present graph_field.field_present compaction_field.field_present
  artifact_field.field_present pairing_field.field_present runtime_field.field_present providers_field.field_present
  resilience_field.field_present telemetry_field.field_present

interpretation config_field: toml_field toml_of_config config_of_toml config_fits
  by unfold_locales (simp add: toml_of_config_def config_of_toml_def config_fits_def section_simps)

lemmas section_defs = gateway_of_toml_def voice_of_toml_def security_of_toml_def plugin_of_toml_def memory_of_toml_def
  graph_of_toml_def compaction_of_toml_def artifact_of_toml_def pairing_of_toml_def runtime_of_toml_def
  provider_profile_of_toml_def providers_of_toml_def resilience_of_toml_def telemetry_of_toml_def

lemmas default_defs = gateway_default_def voice_default_def security_default_def plugin_default_def memory_default_def
  graph_default_def compaction_default_def artifact_default_def pairing_default_def runtime_default_def
  provider_profile_default_def providers_default_def resilience_default_def telemetry_default_def

lemma section_empty [simp]:
  "gateway_of_toml (TTab []) = Some gateway_default" "voice_of_toml (TTab []) = Some voice_default"
  "security_of_toml (TTab []) = Some security_default" "plugin_of_toml (TTab []) = Some plugin_default"
  "memory_of_toml (TTab []) = Some memory_default" "graph_of_toml (TTab []) = Some graph_default"
  "compaction_of_toml (TTab []) = Some compaction_default" "artifact_of_toml (TTab []) = Some artifact_default"
  "pairing_of_toml (TTab []) = Some pairing_default" "runtime_of_toml (TTab []) = Some runtime_default"
  "providers_of_toml (TTab []) = Some providers_default" "resilience_of_toml (TTab []) = Some resilience_default"
  "telemetry_of_toml (TTab []) = Some telemetry_default"
  by (simp_all add: section_defs default_defs field_absent opt_field_absent)

lemma field_empty_section:
  "\<forall>(k, v) \<in> set kvs. v = TTab [] \<Longrightarrow> get (TTab []) = Some d \<Longrightarrow> field get d k kvs = Some d"
  unfolding field_def by (auto split: option.split dest!: map_of_SomeD)

subsection \<open>Properties\<close>

text \<open>C27: A configuration that can be written is read back as it was, in every section and field. It can be
  written unless one of its 64-bit numbers is beyond the signed integers of TOML.\<close>

theorem config_round_trip:
  assumes "config_to_toml c = Some t"
  shows "config_of_toml t = Some c"
  using assms by (auto simp: config_to_toml_def config_field.get_put split: if_splits)

text \<open>A document whose sections are all empty, or missing, is the default configuration; sections nobody
  knows are ignored.\<close>

theorem config_defaults:
  assumes "\<forall>(k, v) \<in> set kvs. v = TTab []"
  shows "config_of_toml (TTab kvs) = Some config_default"
  unfolding config_of_toml_def config_default_def by (simp add: field_empty_section [OF assms])

subsection \<open>Witnesses\<close>

theorem config_round_trip_witness:
  "config_of_toml (toml_of_config config_default) = Some config_default"
proof (rule config_round_trip)
  show "config_to_toml config_default = Some (toml_of_config config_default)"
    by (simp add: config_to_toml_def config_fits_def word_fits_def config_default_def default_defs)
qed

theorem config_defaults_witness:
  "config_of_toml (TTab [(''voice'', TTab []), (''unknown'', TTab [])]) = Some config_default"
  by (rule config_defaults) simp

end
