(* ===== verification/Provider.thy ===== *)
theory Provider
  imports Config
begin

section \<open>The provider and the checks before a start\<close>

text \<open>
  \<open>non_empty\<close>, \<open>effective_api_key\<close>, \<open>resolve_provider_selection\<close> and \<open>validate_runtime_and_provider\<close> of
  \<open>liveclaw-app/src/main.rs\<close>. The environment is a map from names to values, and the Unicode
  \<open>to_lowercase\<close> a function \<open>lower\<close>. The report keeps its notes and warnings as texts.
\<close>

type_synonym environment = "string \<rightharpoonup> string"

datatype provider_kind = OpenAI | OpenAICompatible

record provider_selection =
  ps_kind :: provider_kind
  ps_profile_name :: string
  ps_provider_label :: string
  ps_api_key :: string
  ps_default_model :: string
  ps_base_url :: "string option"

record doctor_report =
  dr_warnings :: "string list"
  dr_notes :: "string list"

definition non_empty :: "string option \<Rightarrow> string option" where
  "non_empty v =
     (case v of
        None \<Rightarrow> None
      | Some s \<Rightarrow> (let trimmed = trim s in if trimmed = [] then None else Some trimmed))"

definition or_else :: "'a option \<Rightarrow> 'a option \<Rightarrow> 'a option" where
  "or_else a b = (case a of None \<Rightarrow> b | Some x \<Rightarrow> Some x)"

definition effective_api_key :: "environment \<Rightarrow> string \<Rightarrow> string" where
  "effective_api_key env configured =
     (if trim configured \<noteq> [] then trim configured
      else case env ''LIVECLAW_API_KEY'' of
        Some val \<Rightarrow>
          (if trim val \<noteq> [] then trim val
           else unwrap_or (map_option trim (env ''OPENAI_API_KEY'')) [])
      | None \<Rightarrow> unwrap_or (map_option trim (env ''OPENAI_API_KEY'')) [])"

definition default_model_name :: string where
  "default_model_name = ''gpt-4o-realtime-preview-2024-12-17''"

definition provider_kind_label :: "provider_kind \<Rightarrow> string" where
  "provider_kind_label k = (case k of OpenAI \<Rightarrow> ''openai'' | OpenAICompatible \<Rightarrow> ''openai_compatible'')"

definition runtime_kind_label :: "runtime_kind \<Rightarrow> string" where
  "runtime_kind_label k = (case k of Native \<Rightarrow> ''native'' | Docker \<Rightarrow> ''docker'')"

definition validate_ws_base_url :: "string \<Rightarrow> string \<Rightarrow> unit result" where
  "validate_ws_base_url base_url profile_name =
     (let normalized = trim base_url
      in if \<not> (starts_with normalized ''ws://'' \<or> starts_with normalized ''wss://'')
         then Inl (''Provider profile '' @ quoted profile_name @ '' base_url must start with ws:// or wss:// (got ''
                   @ quoted base_url @ '')'')
         else Inr ())"

definition resolve_profile_model :: "provider_profile \<Rightarrow> voice_config \<Rightarrow> string" where
  "resolve_profile_model profile voice =
     unwrap_or (or_else (non_empty (Some (pp_model profile))) (non_empty (Some (vc_model voice)))) default_model_name"

definition resolve_profile_api_key :: "environment \<Rightarrow> provider_profile \<Rightarrow> voice_config \<Rightarrow> string" where
  "resolve_profile_api_key env profile voice =
     (case non_empty (Some (pp_api_key profile)) of
        Some key \<Rightarrow> key
      | None \<Rightarrow> effective_api_key env (vc_api_key voice))"

definition resolve_profile_base_url :: "provider_profile \<Rightarrow> voice_config \<Rightarrow> string option" where
  "resolve_profile_base_url profile voice = or_else (non_empty (pp_base_url profile)) (non_empty (vc_base_url voice))"

definition resolve_provider_selection ::
  "(string \<Rightarrow> string) \<Rightarrow> environment \<Rightarrow> voice_config \<Rightarrow> providers_config \<Rightarrow> provider_selection result" where
  "resolve_provider_selection lower env voice providers =
     (let profile = lower (unwrap_or (non_empty (Some (pv_active_profile providers))) ''legacy'')
      in if profile = ''legacy'' then
           (let provider_value = lower (unwrap_or (non_empty (Some (vc_provider voice))) ''openai'');
                kind = (if provider_value = ''openai'' then Some OpenAI
                        else if provider_value = ''openai_compatible'' \<or> provider_value = ''openai-compatible''
                        then Some OpenAICompatible else None)
            in case kind of
                 None \<Rightarrow> Inl (''Unsupported voice provider '' @ quoted provider_value @
                              '' for legacy profile. Use openai or openai_compatible.'')
               | Some kind \<Rightarrow>
                   Inr \<lparr> ps_kind = kind, ps_profile_name = ''legacy'', ps_provider_label = provider_value,
                         ps_api_key = effective_api_key env (vc_api_key voice),
                         ps_default_model = unwrap_or (non_empty (Some (vc_model voice))) default_model_name,
                         ps_base_url = non_empty (vc_base_url voice) \<rparr>)
         else if profile = ''openai'' then
           Inr \<lparr> ps_kind = OpenAI, ps_profile_name = ''openai'', ps_provider_label = ''openai'',
                 ps_api_key = resolve_profile_api_key env (pv_openai providers) voice,
                 ps_default_model = resolve_profile_model (pv_openai providers) voice,
                 ps_base_url = resolve_profile_base_url (pv_openai providers) voice \<rparr>
         else if profile = ''openai_compatible'' then
           Inr \<lparr> ps_kind = OpenAICompatible, ps_profile_name = ''openai_compatible'',
                 ps_provider_label = ''openai_compatible'',
                 ps_api_key = resolve_profile_api_key env (pv_openai_compatible providers) voice,
                 ps_default_model = resolve_profile_model (pv_openai_compatible providers) voice,
                 ps_base_url = resolve_profile_base_url (pv_openai_compatible providers) voice \<rparr>
         else Inl (''Unsupported providers.active_profile '' @ quoted profile @
                   ''. Use legacy, openai, or openai_compatible.''))"

definition show_bool :: "bool \<Rightarrow> string" where
  "show_bool b = (if b then ''true'' else ''false'')"

definition join_commas :: "string list \<Rightarrow> string" where
  "join_commas ss = (case ss of [] \<Rightarrow> [] | s # ss \<Rightarrow> s @ concat (map (\<lambda>t. CHR '','' # t) ss))"

definition public_bind :: "string \<Rightarrow> bool" where
  "public_bind host \<longleftrightarrow> trim host = ''0.0.0.0'' \<or> trim host = ''::''"

definition base_notes :: "liveclaw_config \<Rightarrow> provider_selection \<Rightarrow> string list" where
  "base_notes config provider =
     [''runtime.kind='' @ runtime_kind_label (rt_kind (lc_runtime config)),
      ''provider.profile='' @ ps_profile_name provider @ '' provider.kind='' @ provider_kind_label (ps_kind provider),
      ''provider.model='' @ ps_default_model provider,
      ''security.workspace_root='' @ se_workspace_root (lc_security config) @ '' security.forbidden_tool_paths='' @
        join_commas (se_forbidden_tool_paths (lc_security config)),
      ''security.principal_allowlist_size='' @ show_nat (length (se_principal_allowlist (lc_security config))) @
        '' deny_by_default='' @ show_bool (se_deny_by_default_principal_allowlist (lc_security config))]"

definition validate_runtime_and_provider ::
  "(string \<Rightarrow> string) \<Rightarrow> environment \<Rightarrow> liveclaw_config \<Rightarrow> bool \<Rightarrow> (provider_selection \<times> doctor_report) result" where
  "validate_runtime_and_provider lower env config require_api_key =
     (case resolve_provider_selection lower env (lc_voice config) (lc_providers config) of
        Inl e \<Rightarrow> Inl e
      | Inr provider \<Rightarrow>
          (let name = quoted (ps_profile_name provider);
               no_key = (trim (ps_api_key provider) = []);
               host = gw_host (lc_gateway config);
               allowed = se_allow_public_bind (lc_security config);
               docker = (rt_kind (lc_runtime config) = Docker);
               image = rt_docker_image (lc_runtime config)
           in if no_key \<and> require_api_key
              then Inl (''No API key resolved for provider profile '' @ name @
                        ''. Set profile api_key, [voice].api_key, LIVECLAW_API_KEY, or OPENAI_API_KEY.'')
              else if trim (ps_default_model provider) = []
              then Inl (''No model resolved for provider profile '' @ name @ ''. Set profile model or [voice].model.'')
              else case (case ps_base_url provider of
                           None \<Rightarrow> Inr ()
                         | Some base_url \<Rightarrow> validate_ws_base_url base_url (ps_profile_name provider)) of
                Inl e \<Rightarrow> Inl e
              | Inr _ \<Rightarrow>
                  (if ps_kind provider = OpenAICompatible \<and> ps_base_url provider = None
                   then Inl (''Provider profile '' @ name @ '' requires base_url for OpenAI-compatible endpoints.'')
                   else if docker \<and> trim image = []
                   then Inl ''runtime.docker_image must be set when runtime.kind is docker''
                   else if public_bind host \<and> \<not> allowed
                   then Inl (''Refusing public bind on host '' @ quoted host @ '' because security.allow_public_bind=false'')
                   else Inr (provider,
                     \<lparr> dr_warnings =
                         (if no_key then [''No API key resolved for provider profile '' @ name @ '' (doctor mode allows this).'']
                          else []) @
                         (if public_bind host
                          then [''gateway is configured for public bind on '' @ quoted host @ '' (operator override enabled)'']
                          else []),
                       dr_notes = base_notes config provider @
                         (if docker then [''runtime.docker_image='' @ image] else []) \<rparr>))))"

subsection \<open>Facts about the selection\<close>

lemma non_empty_Some: "non_empty v = Some s \<Longrightarrow> s \<noteq> [] \<and> trim s = s"
  by (auto simp: non_empty_def Let_def split: option.splits if_splits)

text \<open>The first of some candidates that is not blank, trimmed.\<close>

definition first_set :: "string list \<Rightarrow> string" where
  "first_set ss = (case filter (\<lambda>s. s \<noteq> []) (map trim ss) of [] \<Rightarrow> [] | s # _ \<Rightarrow> s)"

lemma first_set_simps [simp]:
  "first_set [] = []" "first_set (s # ss) = (if trim s \<noteq> [] then trim s else first_set ss)"
  by (simp_all add: first_set_def)

definition env_value :: "environment \<Rightarrow> string \<Rightarrow> string" where
  "env_value env n = unwrap_or (env n) []"

lemma effective_api_key_first:
  "effective_api_key env k = first_set [k, env_value env ''LIVECLAW_API_KEY'', env_value env ''OPENAI_API_KEY'']"
  by (simp add: effective_api_key_def env_value_def unwrap_or_def split: option.split)

lemma profile_key_first:
  "resolve_profile_api_key env p v = first_set [pp_api_key p, vc_api_key v, env_value env ''LIVECLAW_API_KEY'', env_value env ''OPENAI_API_KEY'']"
  unfolding resolve_profile_api_key_def effective_api_key_first by (simp add: non_empty_def Let_def)

lemma default_model_trim: "trim default_model_name = default_model_name" "default_model_name \<noteq> []"
  by code_simp+

lemma model_or_default:
  "trim (unwrap_or (non_empty v) default_model_name) \<noteq> []"
  "trim (unwrap_or (or_else (non_empty v) (non_empty v')) default_model_name) \<noteq> []"
  using default_model_trim non_empty_Some
  by (auto simp: unwrap_or_def or_else_def split: option.split)

lemma selected_model: "resolve_provider_selection lower env v ps = Inr p \<Longrightarrow> trim (ps_default_model p) \<noteq> []"
  using model_or_default
  by (auto simp: resolve_provider_selection_def Let_def resolve_profile_model_def split: if_splits option.splits)

lemma selected_kind:
  "resolve_provider_selection lower env v ps = Inr p \<Longrightarrow>
     ps_profile_name p = ''legacy'' \<or> ps_profile_name p = ''openai'' \<or> ps_profile_name p = ''openai_compatible''"
  by (auto simp: resolve_provider_selection_def Let_def split: if_splits option.splits)

definition ws_url :: "string \<Rightarrow> bool" where
  "ws_url u \<longleftrightarrow> starts_with (trim u) ''ws://'' \<or> starts_with (trim u) ''wss://''"

lemma validate_ws_base_url_Inr: "validate_ws_base_url u n = Inr x \<longleftrightarrow> ws_url u"
  by (cases x) (simp add: validate_ws_base_url_def ws_url_def Let_def)

text \<open>What a configuration must have to start.\<close>

definition startable :: "liveclaw_config \<Rightarrow> provider_selection \<Rightarrow> bool" where
  "startable config p \<longleftrightarrow>
     (case ps_base_url p of None \<Rightarrow> ps_kind p = OpenAI | Some u \<Rightarrow> ws_url u) \<and>
     (rt_kind (lc_runtime config) = Docker \<longrightarrow> trim (rt_docker_image (lc_runtime config)) \<noteq> []) \<and>
     (public_bind (gw_host (lc_gateway config)) \<longrightarrow> se_allow_public_bind (lc_security config))"

lemma validate_Inr:
  "validate_runtime_and_provider lower env config require_api_key = Inr (p, r) \<longleftrightarrow>
     resolve_provider_selection lower env (lc_voice config) (lc_providers config) = Inr p \<and> startable config p \<and>
     (require_api_key \<longrightarrow> trim (ps_api_key p) \<noteq> []) \<and>
     r = \<lparr> dr_warnings =
            (if trim (ps_api_key p) = []
             then [''No API key resolved for provider profile '' @ quoted (ps_profile_name p) @ '' (doctor mode allows this).'']
             else []) @
            (if public_bind (gw_host (lc_gateway config))
             then [''gateway is configured for public bind on '' @ quoted (gw_host (lc_gateway config)) @ '' (operator override enabled)'']
             else []),
          dr_notes = base_notes config p @
            (if rt_kind (lc_runtime config) = Docker then [''runtime.docker_image='' @ rt_docker_image (lc_runtime config)] else []) \<rparr>"
proof (cases "resolve_provider_selection lower env (lc_voice config) (lc_providers config)")
  case (Inr q)
  note model = selected_model [OF Inr]
  show ?thesis
  proof (cases "ps_base_url q")
    case None
    with Inr model show ?thesis
      by (cases "ps_kind q") (auto simp: validate_runtime_and_provider_def Let_def startable_def)
  next
    case (Some u)
    then show ?thesis
    proof (cases "validate_ws_base_url u (ps_profile_name q)")
      case (Inl e)
      then have "\<not> ws_url u" using validate_ws_base_url_Inr by (metis sum.simps(4))
      with Inl Inr Some model show ?thesis by (auto simp: validate_runtime_and_provider_def Let_def startable_def)
    next
      case I: (Inr x)
      then have "ws_url u" by (simp add: validate_ws_base_url_Inr)
      with I Inr Some model show ?thesis by (auto simp: validate_runtime_and_provider_def Let_def startable_def)
    qed
  qed
qed (simp add: validate_runtime_and_provider_def)

subsection \<open>Properties\<close>

text \<open>The key a provider is called with is the first that is not blank of the profile's own key (for the
  profiles that have one), the key of the voice section, and the two environment variables, in this order.\<close>

theorem api_key_precedence:
  assumes "resolve_provider_selection lower env voice providers = Inr p"
  shows "ps_api_key p = first_set
     ((if ps_profile_name p = ''openai'' then [pp_api_key (pv_openai providers)]
       else if ps_profile_name p = ''openai_compatible'' then [pp_api_key (pv_openai_compatible providers)] else []) @
      [vc_api_key voice, env_value env ''LIVECLAW_API_KEY'', env_value env ''OPENAI_API_KEY''])"
  using assms
  by (auto simp: resolve_provider_selection_def Let_def profile_key_first effective_api_key_first
      split: if_splits option.splits simp del: first_set_simps)


text \<open>The doctor and the start agree: the start accepts what the doctor accepts, with the same provider and the
  same report, exactly when the doctor found a key.\<close>

theorem doctor_agrees_with_start:
  "validate_runtime_and_provider lower env config True = Inr (p, r) \<longleftrightarrow>
     validate_runtime_and_provider lower env config False = Inr (p, r) \<and> trim (ps_api_key p) \<noteq> []"
  unfolding validate_Inr by auto

text \<open>The guard against a public address knows two spellings only: a configuration that is accepted on a
  private host is accepted, without the permission for a public address and without a warning, on the host
  \<open>[::]\<close>, to which the gateway's listener binds all interfaces.\<close>

theorem bracketed_host_accepted:
  assumes "validate_runtime_and_provider lower env config require_api_key = Inr (p, r)"
    and "\<not> public_bind (gw_host (lc_gateway config))"
  shows "validate_runtime_and_provider lower env
     (config \<lparr> lc_gateway := (lc_gateway config) \<lparr> gw_host := ''[::]'' \<rparr>,
               lc_security := (lc_security config) \<lparr> se_allow_public_bind := False \<rparr> \<rparr>) require_api_key = Inr (p, r)"
proof -
  have "trim ''[::]'' = ''[::]''" by code_simp
  then have "\<not> public_bind ''[::]''" by (simp add: public_bind_def)
  then show ?thesis using assms unfolding validate_Inr by (simp add: startable_def base_notes_def)
qed

subsection \<open>Witnesses\<close>

definition sample_config :: liveclaw_config where
  "sample_config = config_default \<lparr> lc_voice := voice_default \<lparr> vc_api_key := '' key '' \<rparr> \<rparr>"

definition sample_selection :: provider_selection where
  "sample_selection = \<lparr> ps_kind = OpenAI, ps_profile_name = ''legacy'', ps_provider_label = ''openai'', ps_api_key = ''key'',
     ps_default_model = default_model_name, ps_base_url = None \<rparr>"

lemma sample_resolves:
  "resolve_provider_selection to_ascii_lowercase Map.empty (lc_voice sample_config) (lc_providers sample_config) = Inr sample_selection"
  by code_simp

theorem api_key_precedence_witness:
  "ps_api_key sample_selection = first_set ['' key '', [], []]"
  using api_key_precedence [OF sample_resolves]
  by (simp add: sample_selection_def sample_config_def env_value_def unwrap_or_def config_default_def del: first_set_simps)


theorem bracketed_host_accepted_witness:
  "\<exists>r. validate_runtime_and_provider to_ascii_lowercase Map.empty
     (sample_config \<lparr> lc_gateway := (lc_gateway sample_config) \<lparr> gw_host := ''[::]'' \<rparr>,
        lc_security := (lc_security sample_config) \<lparr> se_allow_public_bind := False \<rparr> \<rparr>) True = Inr (sample_selection, r)"
proof -
  have host: "gw_host (lc_gateway sample_config) = ''127.0.0.1''" "rt_kind (lc_runtime sample_config) = Native"
    by (simp_all add: sample_config_def config_default_def gateway_default_def runtime_default_def)
  have trims: "trim ''127.0.0.1'' = ''127.0.0.1''" "trim ''key'' = ''key''" by code_simp+
  then have local_host: "\<not> public_bind (gw_host (lc_gateway sample_config))" by (simp add: host public_bind_def)
  then have "startable sample_config sample_selection" by (simp add: startable_def host sample_selection_def)
  then obtain r where "validate_runtime_and_provider to_ascii_lowercase Map.empty sample_config True = Inr (sample_selection, r)"
    using trims by (simp add: validate_Inr sample_resolves) (simp add: sample_selection_def)
  from bracketed_host_accepted [OF this local_host] show ?thesis by blast
qed

end
