(* ===== verification/Runner_Adapter.thy ===== *)
theory Runner_Adapter
  imports Provider Graph_Tools Workspace Transcripts Security Gateway_State
begin

section \<open>The runner behind the gateway\<close>

text \<open>
  \<open>RunnerAdapter\<close> of \<open>liveclaw-app/src/main.rs\<close>: the sessions it keeps and the operations that the gateway
  calls through the trait \<open>RunnerHandle\<close>, here the record \<open>runner\<close> of \<open>Gateway_State\<close>. The provider's
  connection, the session and memory services, the audit file, the clock, the access control library and the graph
  engine are operations of an environment \<open>adapter_env\<close> over an outside
  world. A connection is named by the settings it was made with. The background task of a session is the
  loop of \<open>Resilience\<close>; here only its start and its end are recorded, as its shutdown flag. Logging is left out.
\<close>

subsection \<open>Settings, sessions and the environment\<close>

record tool_security =
  ts_default_role :: string
  ts_tool_allowlist :: "string list"
  ts_audit_log_path :: string
  ts_workspace_root :: string
  ts_forbidden_tool_paths :: "string list"
  ts_principal_allowlist :: "string list"
  ts_deny_by_default_principal_allowlist :: bool
  ts_allow_public_bind :: bool

definition tool_security_from :: "security_config \<Rightarrow> tool_security" where
  "tool_security_from c = \<lparr> ts_default_role = se_default_role c, ts_tool_allowlist = se_tool_allowlist c,
     ts_audit_log_path = se_audit_log_path c, ts_workspace_root = se_workspace_root c,
     ts_forbidden_tool_paths = se_forbidden_tool_paths c, ts_principal_allowlist = se_principal_allowlist c,
     ts_deny_by_default_principal_allowlist = se_deny_by_default_principal_allowlist c,
     ts_allow_public_bind = se_allow_public_bind c \<rparr>"

record connection_spec =
  cs_kind :: runtime_kind
  cs_session_id :: string
  cs_image :: string
  cs_api_key :: string
  cs_model :: string
  cs_voice :: string
  cs_instructions :: "string option"
  cs_base_url :: "string option"
  cs_tool_names :: "string list"

record 'w realtime_session =
  rt_connection :: connection_spec
  rt_user_id :: string
  rt_role :: string
  rt_tools :: "'w tools"
  rt_graph_enabled :: bool
  rt_graph_recursion_limit :: nat
  rt_shutdown :: bool

record 'w adapter_env =
  ae_lower :: "string \<Rightarrow> string"
  ae_clock :: "'w \<Rightarrow> int \<times> 'w"
  ae_build :: "connection_spec \<Rightarrow> unit result"
  ae_connect :: "connection_spec \<Rightarrow> 'w \<Rightarrow> unit result \<times> 'w"
  ae_close :: "connection_spec \<Rightarrow> 'w \<Rightarrow> unit result \<times> 'w"
  ae_send_audio_base64 :: "connection_spec \<Rightarrow> string \<Rightarrow> 'w \<Rightarrow> unit result \<times> 'w"
  ae_send_text :: "connection_spec \<Rightarrow> string \<Rightarrow> 'w \<Rightarrow> unit result \<times> 'w"
  ae_commit_audio :: "connection_spec \<Rightarrow> 'w \<Rightarrow> unit result \<times> 'w"
  ae_create_response :: "connection_spec \<Rightarrow> 'w \<Rightarrow> unit result \<times> 'w"
  ae_interrupt_response :: "connection_spec \<Rightarrow> 'w \<Rightarrow> unit result \<times> 'w"
  ae_service_get :: "string \<Rightarrow> string \<Rightarrow> 'w \<Rightarrow> bool"
  ae_service_create :: "string \<Rightarrow> string \<Rightarrow> 'w \<Rightarrow> unit result \<times> 'w"
  ae_add_session :: "string \<Rightarrow> string \<Rightarrow> string \<Rightarrow> memory_entry list \<Rightarrow> 'w \<Rightarrow> unit result \<times> 'w"
  ae_audit_sink :: "string \<Rightarrow> 'w \<Rightarrow> unit result \<times> 'w"
  ae_access_control :: "role_def list \<Rightarrow> (string \<times> string) list \<Rightarrow> unit result"
  ae_protect :: "role_def list \<Rightarrow> (string \<times> string) list \<Rightarrow> string \<Rightarrow> 'w tool \<Rightarrow> 'w tool"
  ae_engine :: "'w engine"
  ae_utc_now :: "'w \<Rightarrow> (string \<times> int) \<times> 'w"
  ae_canon :: "'w \<Rightarrow> string \<Rightarrow> string list result"
  ae_read :: "'w \<Rightarrow> string list \<Rightarrow> string result"
  ae_tool_error :: "string \<Rightarrow> string"

text \<open>The settings of the adapter and its state.\<close>

record adapter_settings =
  ad_runtime_kind :: runtime_kind
  ad_runtime_docker_image :: string
  ad_provider :: provider_selection
  ad_default_voice :: "string option"
  ad_default_instructions :: "string option"
  ad_tool_security :: tool_security
  ad_reconnect_policy :: reconnect_policy
  ad_compaction_policy :: compaction_policy
  ad_lifecycle :: bool
  ad_graph_default_enabled :: bool
  ad_graph_recursion_limit :: nat

record diagnostics_counters =
  dc_reconnect_attempts_total :: "64 word"
  dc_reconnect_successes_total :: "64 word"
  dc_reconnect_failures_total :: "64 word"
  dc_compactions_applied_total :: "64 word"

record 'w adapter =
  ap_sessions :: "string \<rightharpoonup> 'w realtime_session"
  ap_memory_entries :: "string \<rightharpoonup> memory_entry list"
  ap_compaction_counts :: "string \<rightharpoonup> nat"
  ap_counters :: diagnostics_counters
  ap_world :: 'w

text \<open>\<open>lifecycle\<close> tells whether the session lifecycle manager could be built.\<close>

definition adapter_settings_new ::
  "liveclaw_config \<Rightarrow> provider_selection \<Rightarrow> bool \<Rightarrow> adapter_settings" where
  "adapter_settings_new config provider lifecycle =
     \<lparr> ad_runtime_kind = rt_kind (lc_runtime config), ad_runtime_docker_image = rt_docker_image (lc_runtime config),
       ad_provider = provider, ad_default_voice = vc_voice (lc_voice config),
       ad_default_instructions = vc_instructions (lc_voice config),
       ad_tool_security = tool_security_from (lc_security config),
       ad_reconnect_policy = reconnect_policy_from (lc_resilience config),
       ad_compaction_policy = \<lparr> cp_enabled = cc_enable_compaction (lc_compaction config),
         cp_max_events_threshold = unat (cc_max_events_threshold (lc_compaction config)) \<rparr>,
       ad_lifecycle = lifecycle, ad_graph_default_enabled = gs_enable_graph (lc_graph config),
       ad_graph_recursion_limit = max (unat (gs_recursion_limit (lc_graph config))) 1 \<rparr>"

definition adapter_start :: "'w \<Rightarrow> 'w adapter" where
  "adapter_start w = \<lparr> ap_sessions = Map.empty, ap_memory_entries = Map.empty, ap_compaction_counts = Map.empty,
     ap_counters = \<lparr> dc_reconnect_attempts_total = 0, dc_reconnect_successes_total = 0,
       dc_reconnect_failures_total = 0, dc_compactions_applied_total = 0 \<rparr>, ap_world = w \<rparr>"

definition on_world :: "('w \<Rightarrow> 'a \<times> 'w) \<Rightarrow> 'w adapter \<Rightarrow> 'a \<times> 'w adapter" where
  "on_world f ap = (let (r, w) = f (ap_world ap) in (r, ap \<lparr> ap_world := w \<rparr>))"

subsection \<open>Settings of a session\<close>

definition resolve_session_settings ::
  "adapter_settings \<Rightarrow> session_config option \<Rightarrow> string \<times> string \<times> string option" where
  "resolve_session_settings ad cfg =
     (unwrap_or (or_else (non_empty (Option.bind cfg sc_model)) (non_empty (Some (ps_default_model (ad_provider ad)))))
        default_model_name,
      unwrap_or (or_else (non_empty (Option.bind cfg sc_voice)) (non_empty (ad_default_voice ad))) ''alloy'',
      or_else (non_empty (Option.bind cfg sc_instructions)) (non_empty (ad_default_instructions ad)))"

definition resolve_role :: "(string \<Rightarrow> string) \<Rightarrow> adapter_settings \<Rightarrow> session_config option \<Rightarrow> string result" where
  "resolve_role lower ad cfg =
     (let role = lower (unwrap_or (non_empty (Option.bind cfg sc_role)) (ts_default_role (ad_tool_security ad)))
      in if role = ''readonly'' \<or> role = ''supervised'' \<or> role = ''full'' then Inr role
         else Inl (''Unsupported role '' @ quoted role @ ''. Expected one of: readonly, supervised, full.''))"

subsection \<open>The tools of a session\<close>

definition baseline_tools :: "'w adapter_env \<Rightarrow> workspace_policy \<Rightarrow> 'w tools" where
  "baseline_tools env policy =
     [(''echo_text'', \<lambda>_ args w. (Inr (echo_text args), w)),
      (''add_numbers'', \<lambda>_ args w. (Inr (add_numbers args), w)),
      (''utc_time'', \<lambda>_ _ w. (let (now, w) = ae_utc_now env w in (Inr (utc_time now), w))),
      (''read_workspace_file'', \<lambda>_ args w.
         ((case read_workspace_file (ae_canon env w) (ae_read env w) policy args of
             Inl e \<Rightarrow> Inl (ae_tool_error env e)
           | Inr r \<Rightarrow> Inr (json_of_read_response r)), w))]"

definition build_protected_tools ::
  "'w adapter_env \<Rightarrow> adapter_settings \<Rightarrow> string \<Rightarrow> string \<Rightarrow> 'w \<Rightarrow> 'w tools result \<times> 'w" where
  "build_protected_tools env ad principal_id role w =
     (let roles = access_roles (ts_tool_allowlist (ad_tool_security ad));
          assigned = [(principal_id, role)]
      in case ae_access_control env roles assigned of
           Inl e \<Rightarrow> (Inl (''Failed to build session access control: '' @ e), w)
         | Inr _ \<Rightarrow>
             (case ae_audit_sink env (ts_audit_log_path (ad_tool_security ad)) w of
                (Inl e, w) \<Rightarrow> (Inl (''Failed to create audit sink: '' @ e), w)
              | (Inr _, w) \<Rightarrow>
                  (let policy = \<lparr> wp_workspace_root = ts_workspace_root (ad_tool_security ad),
                                  wp_forbidden_paths = ts_forbidden_tool_paths (ad_tool_security ad),
                                  wp_max_read_bytes = 16384 \<rparr>
                   in (Inr (map (\<lambda>(name, tool). (name, ae_protect env roles assigned name tool))
                              (baseline_tools env policy)), w))))"

definition merged_instruction :: "runtime_kind \<Rightarrow> string list \<Rightarrow> string option \<Rightarrow> string option" where
  "merged_instruction kind tool_names instructions =
     (if kind = Native \<and> tool_names \<noteq> []
      then let guidance = ''You can call these tools: '' @ join_with '', '' (sort tool_names) @
             ''. When the user asks for math, current time/date, or workspace file content, call the relevant tool before answering.''
           in (case instructions of
                 Some instr \<Rightarrow>
                   (if trim instr \<noteq> [] then Some (trim instr @ [CHR 10, CHR 10] @ guidance) else Some guidance)
               | None \<Rightarrow> Some guidance)
      else instructions)"

subsection \<open>Creating a session\<close>

definition initialize_session ::
  "'w adapter_env \<Rightarrow> string \<Rightarrow> string \<Rightarrow> 'w adapter \<Rightarrow> unit result \<times> 'w adapter" where
  "initialize_session env user_id session_id ap =
     (let (r, ap) = (if ae_service_get env user_id session_id (ap_world ap) then (Inr (), ap)
                     else on_world (ae_service_create env user_id session_id) ap)
      in case r of
           Inl e \<Rightarrow> (Inl e, ap)
         | Inr _ \<Rightarrow>
             (Inr (), if ap_compaction_counts ap session_id = None
                      then ap \<lparr> ap_compaction_counts := (ap_compaction_counts ap)(session_id \<mapsto> 0) \<rparr> else ap))"

definition connection_of ::
  "adapter_settings \<Rightarrow> string \<Rightarrow> string \<times> string \<times> string option \<Rightarrow> string list \<Rightarrow> connection_spec result" where
  "connection_of ad session_id sett tool_names =
     (let (model_id, voice, instructions) = sett;
          provider = ad_provider ad;
          kind = ad_runtime_kind ad
      in if kind = Native \<and> ps_kind provider = OpenAICompatible \<and> ps_base_url provider = None
         then Inl (''Provider profile '' @ quoted (ps_profile_name provider) @ '' requires a non-empty WebSocket base_url'')
         else Inr \<lparr> cs_kind = kind, cs_session_id = session_id, cs_image = ad_runtime_docker_image ad,
                cs_api_key = ps_api_key provider, cs_model = model_id, cs_voice = voice,
                cs_instructions = merged_instruction kind tool_names instructions,
                cs_base_url = ps_base_url provider,
                cs_tool_names = (if kind = Native then tool_names else []) \<rparr>)"

text \<open>The part after the session's settings are known: the connection is made, then the session is stored.\<close>

definition connect_session ::
  "'w adapter_env \<Rightarrow> string \<Rightarrow> string \<Rightarrow> string \<Rightarrow> 'w tools \<Rightarrow> bool \<Rightarrow> nat \<Rightarrow> connection_spec \<Rightarrow> 'w adapter \<Rightarrow>
     string result \<times> 'w adapter" where
  "connect_session env user_id session_id role tools graph_enabled limit spec ap =
     (case (if cs_kind spec = Native then ae_build env spec else Inr ()) of
        Inl e \<Rightarrow> (Inl (''Failed to build realtime runner: '' @ e), ap)
      | Inr _ \<Rightarrow>
          (case on_world (ae_connect env spec) ap of
             (Inl e, ap) \<Rightarrow> (Inl e, ap)
           | (Inr _, ap) \<Rightarrow>
               (if ap_sessions ap session_id \<noteq> None
                then (let (_, ap) = on_world (ae_close env spec) ap
                      in (Inl (''Session '' @ quoted session_id @ '' already exists''), ap))
                else (Inr session_id,
                      ap \<lparr> ap_sessions := (ap_sessions ap)(session_id \<mapsto>
                        \<lparr> rt_connection = spec, rt_user_id = user_id, rt_role = role, rt_tools = tools,
                          rt_graph_enabled = graph_enabled, rt_graph_recursion_limit = limit,
                          rt_shutdown = False \<rparr>) \<rparr>))))"

definition principal_denied :: "adapter_settings \<Rightarrow> string \<Rightarrow> bool" where
  "principal_denied ad user_id \<longleftrightarrow>
     ts_deny_by_default_principal_allowlist (ad_tool_security ad) \<and>
     \<not> list_ex (\<lambda>allowed. allowed = user_id) (ts_principal_allowlist (ad_tool_security ad))"

definition create_session ::
  "'w adapter_env \<Rightarrow> adapter_settings \<Rightarrow> string \<Rightarrow> string \<Rightarrow> session_config option \<Rightarrow> 'w adapter \<Rightarrow>
     string result \<times> 'w adapter" where
  "create_session env ad user_id session_id config ap =
     (if principal_denied ad user_id
      then (Inl (''Principal '' @ quoted user_id @
                 '' is not in security.principal_allowlist and deny-by-default mode is enabled''), ap)
      else case (if ad_lifecycle ad then initialize_session env user_id session_id ap else (Inr (), ap)) of
        (Inl _, ap) \<Rightarrow> (Inl (''Failed to initialize adk-runner lifecycle session '' @ quoted session_id), ap)
      | (Inr _, ap) \<Rightarrow>
          (if trim (ps_api_key (ad_provider ad)) = []
           then (Inl ''Missing API key. Set [voice].api_key or LIVECLAW_API_KEY / OPENAI_API_KEY.'', ap)
           else case resolve_role (ae_lower env) ad config of
             Inl e \<Rightarrow> (Inl e, ap)
           | Inr role \<Rightarrow>
               (case on_world (build_protected_tools env ad user_id role) ap of
                  (Inl e, ap) \<Rightarrow> (Inl e, ap)
                | (Inr tools, ap) \<Rightarrow>
                    (case connection_of ad session_id (resolve_session_settings ad config) (map fst tools) of
                       Inl e \<Rightarrow> (Inl e, ap)
                     | Inr spec \<Rightarrow>
                         connect_session env user_id session_id role tools
                           (unwrap_or (Option.bind config sc_enable_graph) (ad_graph_default_enabled ad))
                           (max (ad_graph_recursion_limit ad) 1) spec ap))))"

subsection \<open>Ending a session\<close>

definition terminate_session :: "'w adapter_env \<Rightarrow> adapter_settings \<Rightarrow> string \<Rightarrow> 'w adapter \<Rightarrow> unit result \<times> 'w adapter" where
  "terminate_session env ad session_id ap =
     (case ap_sessions ap session_id of
        None \<Rightarrow> (Inl (''Session '' @ quoted session_id @ '' not found''), ap)
      | Some sess \<Rightarrow>
          (let ap = ap \<lparr> ap_sessions := (ap_sessions ap)(session_id := None) \<rparr>;
               ap = (if ad_lifecycle ad
                     then ap \<lparr> ap_compaction_counts := (ap_compaction_counts ap)(session_id := None) \<rparr> else ap);
               (_, ap) = on_world (ae_close env (rt_connection sess)) ap
           in case ap_memory_entries ap session_id of
                None \<Rightarrow> (Inr (), ap)
              | Some entries \<Rightarrow>
                  (let ap = ap \<lparr> ap_memory_entries := (ap_memory_entries ap)(session_id := None) \<rparr>;
                       (now, ap) = on_world (ae_clock env) ap;
                       (_, ap) = on_world (ae_add_session env ''liveclaw'' (rt_user_id sess) session_id
                                   (entries_at_termination now entries)) ap
                   in (Inr (), ap))))"

subsection \<open>Operations on a session\<close>

definition app_base64_encode :: "bytes \<Rightarrow> string" where
  "app_base64_encode input = concat (map b64_encode_chunk (chunks 3 input))"

definition on_session ::
  "string \<Rightarrow> (connection_spec \<Rightarrow> 'w \<Rightarrow> unit result \<times> 'w) \<Rightarrow> 'w adapter \<Rightarrow> unit result \<times> 'w adapter" where
  "on_session session_id f ap =
     (case ap_sessions ap session_id of
        None \<Rightarrow> (Inl (''Session '' @ quoted session_id @ '' not found''), ap)
      | Some sess \<Rightarrow> on_world (f (rt_connection sess)) ap)"

definition send_audio :: "'w adapter_env \<Rightarrow> string \<Rightarrow> bytes \<Rightarrow> 'w adapter \<Rightarrow> unit result \<times> 'w adapter" where
  "send_audio env session_id audio ap =
     (if audio = [] then (Inl ''Audio payload is empty'', ap)
      else on_session session_id (\<lambda>spec. ae_send_audio_base64 env spec (app_base64_encode audio)) ap)"

definition send_text :: "'w adapter_env \<Rightarrow> string \<Rightarrow> string \<Rightarrow> 'w adapter \<Rightarrow> unit result \<times> 'w adapter" where
  "send_text env session_id prompt ap =
     (let trimmed = trim prompt
      in if trimmed = [] then (Inl ''Prompt is empty'', ap)
         else on_session session_id (\<lambda>spec. ae_send_text env spec trimmed) ap)"

definition session_tool_call ::
  "'w adapter_env \<Rightarrow> string \<Rightarrow> string \<Rightarrow> json \<Rightarrow> 'w adapter \<Rightarrow>
     (json \<times> graph_execution_report) result \<times> 'w adapter" where
  "session_tool_call env session_id tool_name arguments ap =
     (case ap_sessions ap session_id of
        None \<Rightarrow> (Inl (''Session '' @ quoted session_id @ '' not found''), ap)
      | Some sess \<Rightarrow>
          on_world (\<lambda>w.
            let (now, w) = ae_clock env w
            in if rt_graph_enabled sess
               then execute_session_tool_call_graph (ae_engine env) now session_id (rt_user_id sess) (rt_role sess)
                      tool_name arguments (rt_tools sess) (rt_graph_recursion_limit sess) w
               else let (now', w) = ae_clock env w
                    in execute_session_tool_call_direct now now' session_id (rt_user_id sess) tool_name arguments
                         (rt_tools sess) w) ap)"

definition diagnostics :: "adapter_settings \<Rightarrow> 'w adapter \<Rightarrow> runtime_diagnostics" where
  "diagnostics ad ap =
     (let provider = ad_provider ad; policy = ad_reconnect_policy ad; counters = ap_counters ap;
          compaction = ad_compaction_policy ad; security = ad_tool_security ad
      in \<lparr> rd_protocol_version = PROTOCOL_VERSION,
           rd_supported_client_messages = supported_client_message_types,
           rd_supported_server_responses = supported_server_response_types,
           rd_runtime_kind = runtime_kind_label (ad_runtime_kind ad),
           rd_provider_profile = ps_profile_name provider,
           rd_provider_kind = provider_kind_label (ps_kind provider),
           rd_provider_model = ps_default_model provider,
           rd_provider_base_url = ps_base_url provider,
           rd_reconnect_enabled = rp_enable_reconnect policy,
           rd_reconnect_max_attempts = rp_max_attempts policy,
           rd_reconnect_attempts_total = dc_reconnect_attempts_total counters,
           rd_reconnect_successes_total = dc_reconnect_successes_total counters,
           rd_reconnect_failures_total = dc_reconnect_failures_total counters,
           rd_compaction_enabled = cp_enabled compaction,
           rd_compaction_max_events_threshold = cp_max_events_threshold compaction,
           rd_compactions_applied_total = dc_compactions_applied_total counters,
           rd_security_workspace_root = ts_workspace_root security,
           rd_security_forbidden_tool_paths = ts_forbidden_tool_paths security,
           rd_security_deny_by_default_principal_allowlist = ts_deny_by_default_principal_allowlist security,
           rd_security_principal_allowlist_size = length (ts_principal_allowlist security),
           rd_security_allow_public_bind = ts_allow_public_bind security,
           rd_active_sessions = map_len (ap_sessions ap) \<rparr>)"

text \<open>The adapter as the gateway sees it.\<close>

definition adapter_runner :: "'w adapter_env \<Rightarrow> adapter_settings \<Rightarrow> 'w adapter runner" where
  "adapter_runner env ad =
     \<lparr> rn_create_session = create_session env ad,
       rn_terminate_session = terminate_session env ad,
       rn_send_audio = send_audio env,
       rn_commit_audio = (\<lambda>sid. on_session sid (ae_commit_audio env)),
       rn_create_response = (\<lambda>sid. on_session sid (ae_create_response env)),
       rn_interrupt_response = (\<lambda>sid. on_session sid (ae_interrupt_response env)),
       rn_send_text = send_text env,
       rn_session_tool_call = session_tool_call env,
       rn_diagnostics = (\<lambda>ap. (Inr (diagnostics ad ap), ap)) \<rparr>"

subsection \<open>What the world may not change\<close>

lemma on_world_parts [simp]:
  "ap_sessions (snd (on_world f ap)) = ap_sessions ap"
  "ap_memory_entries (snd (on_world f ap)) = ap_memory_entries ap"
  "ap_compaction_counts (snd (on_world f ap)) = ap_compaction_counts ap"
  "ap_world (snd (on_world f ap)) = snd (f (ap_world ap))"
  "fst (on_world f ap) = fst (f (ap_world ap))"
  by (simp_all add: on_world_def split: prod.split)

lemma on_world_sessions: "on_world f ap = (r, ap') \<Longrightarrow> ap_sessions ap' = ap_sessions ap"
  by (metis on_world_parts(1) snd_conv)

lemma initialize_session_sessions: "initialize_session env u sid ap = (r, ap') \<Longrightarrow> ap_sessions ap' = ap_sessions ap"
  by (auto simp: initialize_session_def Let_def on_world_sessions split: if_splits prod.splits sum.splits)

lemma on_session_sessions [simp]: "ap_sessions (snd (on_session sid f ap)) = ap_sessions ap"
  by (simp add: on_session_def split: option.split)

lemma on_session_Inr: "fst (on_session sid f ap) = Inr x \<Longrightarrow> sid \<in> dom (ap_sessions ap)"
  by (auto simp: on_session_def split: option.splits)

lemma send_sessions [simp]:
  "ap_sessions (snd (send_audio env sid audio ap)) = ap_sessions ap"
  "ap_sessions (snd (send_text env sid prompt ap)) = ap_sessions ap"
  "ap_sessions (snd (session_tool_call env sid name args ap)) = ap_sessions ap"
  by (simp_all add: send_audio_def send_text_def session_tool_call_def Let_def split: option.split)

lemma send_Inr:
  "fst (send_audio env sid audio ap) = Inr x \<Longrightarrow> sid \<in> dom (ap_sessions ap)"
  "fst (send_text env sid prompt ap) = Inr x \<Longrightarrow> sid \<in> dom (ap_sessions ap)"
  "fst (session_tool_call env sid name args ap) = Inr y \<Longrightarrow> sid \<in> dom (ap_sessions ap)"
  by (auto simp: send_audio_def send_text_def session_tool_call_def Let_def on_session_Inr split: if_splits option.splits)

lemma terminate_session_sessions:
  "ap_sessions (snd (terminate_session env ad sid ap)) = (ap_sessions ap)(sid := None)"
  "fst (terminate_session env ad sid ap) = Inr () \<longleftrightarrow> sid \<in> dom (ap_sessions ap)"
  by (auto simp: terminate_session_def Let_def on_world_def split: option.splits prod.splits)

subsection \<open>What a new session is\<close>

definition protected_tools :: "'w adapter_env \<Rightarrow> adapter_settings \<Rightarrow> string \<Rightarrow> string \<Rightarrow> 'w tools" where
  "protected_tools env ad user_id role =
     map (\<lambda>(name, tool). (name,
         ae_protect env (access_roles (ts_tool_allowlist (ad_tool_security ad))) [(user_id, role)] name tool))
       (baseline_tools env \<lparr> wp_workspace_root = ts_workspace_root (ad_tool_security ad),
          wp_forbidden_paths = ts_forbidden_tool_paths (ad_tool_security ad), wp_max_read_bytes = 16384 \<rparr>)"

lemma build_protected_tools_Inr:
  "build_protected_tools env ad u role w = (Inr tools, w') \<Longrightarrow> tools = protected_tools env ad u role"
  by (auto simp: build_protected_tools_def protected_tools_def Let_def split: sum.splits prod.splits)

lemma protected_names [simp]: "map fst (protected_tools env ad u role) = baseline_tool_names"
  by (simp add: protected_tools_def baseline_tools_def baseline_tool_names_def)

lemma resolve_role_Inr:
  "resolve_role lower ad cfg = Inr role \<Longrightarrow> role \<in> {''readonly'', ''supervised'', ''full''}"
  by (auto simp: resolve_role_def Let_def split: if_splits)

definition session_ok :: "'w adapter_env \<Rightarrow> adapter_settings \<Rightarrow> string \<Rightarrow> 'w realtime_session \<Rightarrow> bool" where
  "session_ok env ad sid sess \<longleftrightarrow>
     rt_role sess \<in> {''readonly'', ''supervised'', ''full''} \<and> \<not> principal_denied ad (rt_user_id sess) \<and>
     rt_tools sess = protected_tools env ad (rt_user_id sess) (rt_role sess) \<and>
     rt_graph_recursion_limit sess = max (ad_graph_recursion_limit ad) 1 \<and>
     cs_session_id (rt_connection sess) = sid \<and> cs_api_key (rt_connection sess) = ps_api_key (ad_provider ad) \<and>
     cs_kind (rt_connection sess) = ad_runtime_kind ad \<and> \<not> rt_shutdown sess"

lemma connection_of_Inr:
  "connection_of ad sid sett names = Inr spec \<Longrightarrow>
     cs_session_id spec = sid \<and> cs_api_key spec = ps_api_key (ad_provider ad) \<and> cs_kind spec = ad_runtime_kind ad"
  by (auto simp: connection_of_def Let_def split: prod.splits if_splits)

lemma connect_session_cases:
  assumes "connect_session env u sid role tools g limit spec ap = (res, ap')"
  shows "case res of
      Inl e \<Rightarrow> ap_sessions ap' = ap_sessions ap
    | Inr s \<Rightarrow> s = sid \<and> ap_sessions ap sid = None \<and>
        ap_sessions ap' = (ap_sessions ap)(sid \<mapsto>
          \<lparr> rt_connection = spec, rt_user_id = u, rt_role = role, rt_tools = tools, rt_graph_enabled = g,
            rt_graph_recursion_limit = limit, rt_shutdown = False \<rparr>)"
  using assms
  by (auto simp: connect_session_def Let_def on_world_sessions split: sum.splits prod.splits if_splits)

lemma adapter_create_cases:
  assumes "create_session env ad u sid cfg ap = (res, ap')"
  shows "case res of
      Inl e \<Rightarrow> ap_sessions ap' = ap_sessions ap
    | Inr s \<Rightarrow> s = sid \<and> ap_sessions ap sid = None \<and>
        (\<exists>sess. ap_sessions ap' = (ap_sessions ap)(sid \<mapsto> sess) \<and> session_ok env ad sid sess \<and> rt_user_id sess = u \<and>
           resolve_role (ae_lower env) ad cfg = Inr (rt_role sess))"
proof (cases "principal_denied ad u")
  case True
  with assms show ?thesis by (auto simp: create_session_def)
next
  case False
  obtain r ap1 where i: "(if ad_lifecycle ad then initialize_session env u sid ap else (Inr (), ap)) = (r, ap1)" by fastforce
  then have s1: "ap_sessions ap1 = ap_sessions ap"
    by (auto simp: initialize_session_sessions split: if_splits)
  show ?thesis
  proof (cases "(\<exists>e. r = Inl e) \<or> trim (ps_api_key (ad_provider ad)) = [] \<or> (\<exists>e. resolve_role (ae_lower env) ad cfg = Inl e)")
    case True
    with assms False i s1 show ?thesis by (auto simp: create_session_def split: sum.splits if_splits)
  next
    case go: False
    then obtain role where role: "r = Inr ()" "resolve_role (ae_lower env) ad cfg = Inr role"
      by (metis (full_types) old.unit.exhaust sum.exhaust)
    obtain t ap2 where t: "on_world (build_protected_tools env ad u role) ap1 = (t, ap2)" by fastforce
    have s2: "ap_sessions ap2 = ap_sessions ap" using on_world_sessions [OF t] s1 by simp
    show ?thesis
    proof (cases t)
      case (Inl e)
      with assms False i go role t s2 show ?thesis by (auto simp: create_session_def)
    next
      case (Inr tools)
      have tools: "tools = protected_tools env ad u role"
        using t Inr by (auto simp: on_world_def build_protected_tools_Inr split: prod.splits)
      show ?thesis
      proof (cases "connection_of ad sid (resolve_session_settings ad cfg) (map fst tools)")
        case (Inl e)
        with assms False i go role t s2 Inr show ?thesis by (auto simp: create_session_def)
      next
        case spec: (Inr spec)
        have "connect_session env u sid role tools (unwrap_or (Option.bind cfg sc_enable_graph) (ad_graph_default_enabled ad))
            (max (ad_graph_recursion_limit ad) 1) spec ap2 = (res, ap')"
          using assms False i go role t Inr spec by (simp add: create_session_def)
        from connect_session_cases [OF this] show ?thesis
          using s2 tools role resolve_role_Inr [OF role(2)] connection_of_Inr [OF spec] False
          by (cases res) (auto simp: session_ok_def)
      qed
    qed
  qed
qed

subsection \<open>The contract of a runner\<close>

text \<open>
  What the gateway may rely on: the runner keeps a table of sessions with their users, which only a creation
  extends and only a termination reduces, and no operation on a session succeeds unless the session is in the
  table. \<open>track\<close> and \<open>legal\<close> are the abstract specification of one call and of its answer.
\<close>

datatype runner_call =
    CreateCall string string "session_config option"
  | TerminateCall string
  | AudioCall string bytes
  | CommitCall string
  | ResponseCall string
  | InterruptCall string
  | TextCall string string
  | ToolCall string string json
  | DiagnosticsCall

definition is_ok :: "'a result \<Rightarrow> bool" where
  "is_ok r = (case r of Inr _ \<Rightarrow> True | Inl _ \<Rightarrow> False)"

fun run_call_on :: "'r runner \<Rightarrow> runner_call \<Rightarrow> 'r \<Rightarrow> bool \<times> 'r" where
  "run_call_on R (CreateCall p s c) r = apfst is_ok (rn_create_session R p s c r)"
| "run_call_on R (TerminateCall s) r = apfst is_ok (rn_terminate_session R s r)"
| "run_call_on R (AudioCall s a) r = apfst is_ok (rn_send_audio R s a r)"
| "run_call_on R (CommitCall s) r = apfst is_ok (rn_commit_audio R s r)"
| "run_call_on R (ResponseCall s) r = apfst is_ok (rn_create_response R s r)"
| "run_call_on R (InterruptCall s) r = apfst is_ok (rn_interrupt_response R s r)"
| "run_call_on R (TextCall s t) r = apfst is_ok (rn_send_text R s t r)"
| "run_call_on R (ToolCall s n a) r = apfst is_ok (rn_session_tool_call R s n a r)"
| "run_call_on R DiagnosticsCall r = apfst is_ok (rn_diagnostics R r)"

fun track :: "runner_call \<Rightarrow> bool \<Rightarrow> (string \<rightharpoonup> string) \<Rightarrow> (string \<rightharpoonup> string)" where
  "track (CreateCall p s c) ok U = (if ok then U(s \<mapsto> p) else U)"
| "track (TerminateCall s) ok U = U(s := None)"
| "track _ ok U = U"

fun legal :: "runner_call \<Rightarrow> bool \<Rightarrow> (string \<rightharpoonup> string) \<Rightarrow> bool" where
  "legal (CreateCall p s c) ok U = (ok \<longrightarrow> U s = None)"
| "legal (TerminateCall s) ok U = (ok \<longleftrightarrow> U s \<noteq> None)"
| "legal (AudioCall s a) ok U = (ok \<longrightarrow> U s \<noteq> None)"
| "legal (CommitCall s) ok U = (ok \<longrightarrow> U s \<noteq> None)"
| "legal (ResponseCall s) ok U = (ok \<longrightarrow> U s \<noteq> None)"
| "legal (InterruptCall s) ok U = (ok \<longrightarrow> U s \<noteq> None)"
| "legal (TextCall s t) ok U = (ok \<longrightarrow> U s \<noteq> None)"
| "legal (ToolCall s n a) ok U = (ok \<longrightarrow> U s \<noteq> None)"
| "legal DiagnosticsCall ok U = ok"

fun play :: "'r runner \<Rightarrow> runner_call list \<Rightarrow> 'r \<Rightarrow> bool list \<times> 'r" where
  "play R [] r = ([], r)"
| "play R (c # cs) r = (let (ok, r) = run_call_on R c r; (oks, r) = play R cs r in (ok # oks, r))"

fun spec_play :: "(runner_call \<times> bool) list \<Rightarrow> (string \<rightharpoonup> string) \<Rightarrow> (string \<rightharpoonup> string) option" where
  "spec_play [] U = Some U"
| "spec_play ((c, ok) # h) U = (if legal c ok U then spec_play h (track c ok U) else None)"

locale runner_handle =
  fixes R :: "'r runner" and known :: "'r \<Rightarrow> (string \<rightharpoonup> string)"
  assumes as_asked: "rn_create_session R p s c r = (Inr s', r') \<Longrightarrow> s' = s"
    and call_tracked: "run_call_on R call r = (ok, r') \<Longrightarrow> known r' = track call ok (known r) \<and> legal call ok (known r)"
begin

lemma creates: "creates_as_asked R"
  unfolding creates_as_asked_def using as_asked by blast

lemma play_refines: "play R cs r = (oks, r') \<Longrightarrow> spec_play (zip cs oks) (known r) = Some (known r')"
proof (induction cs arbitrary: r oks)
  case (Cons c cs)
  obtain ok r1 where 1: "run_call_on R c r = (ok, r1)" by fastforce
  obtain oks1 where "oks = ok # oks1" "play R cs r1 = (oks1, r')"
    using Cons.prems 1 by (auto split: prod.splits)
  then show ?case using call_tracked [OF 1] Cons.IH [of r1] by auto
qed simp

end

lemma is_ok_simps [simp]: "is_ok (Inr x)" "\<not> is_ok (Inl e)"
  by (simp_all add: is_ok_def)

lemma is_ok_iff: "is_ok r \<longleftrightarrow> (\<exists>x. r = Inr x)"
  by (cases r) simp_all

lemma apfst_eq: "apfst f x = (a, b) \<longleftrightarrow> a = f (fst x) \<and> b = snd x"
  by (cases x) auto

text \<open>The users of the adapter's sessions.\<close>

definition session_users :: "'w adapter \<Rightarrow> (string \<rightharpoonup> string)" where
  "session_users ap = (\<lambda>s. map_option rt_user_id (ap_sessions ap s))"

lemma session_users_same: "ap_sessions ap' = ap_sessions ap \<Longrightarrow> session_users ap' = session_users ap"
  by (simp add: session_users_def)

interpretation adapter: runner_handle "adapter_runner env ad" session_users
  for env :: "'w adapter_env" and ad :: adapter_settings
proof
  fix p s c r s' r'
  assume "rn_create_session (adapter_runner env ad) p s c r = (Inr s', r')"
  then show "s' = s" using adapter_create_cases [of env ad p s c r "Inr s'" r'] by (simp add: adapter_runner_def)
next
  fix call r ok r'
  assume "run_call_on (adapter_runner env ad) call r = (ok, r')"
  then show "session_users r' = track call ok (session_users r) \<and> legal call ok (session_users r)"
  proof (cases call)
    case (CreateCall p s c)
    obtain res r1 where c: "create_session env ad p s c r = (res, r1)" by fastforce
    with CreateCall \<open>run_call_on _ call r = _\<close> have "ok = is_ok res" "r' = r1"
      by (simp_all add: adapter_runner_def apfst_eq)
    with CreateCall adapter_create_cases [OF c] show ?thesis by (cases res) (auto simp: session_users_def)
  next
    case (TerminateCall s)
    with \<open>run_call_on _ call r = _\<close> show ?thesis
      by (auto simp: adapter_runner_def apfst_eq is_ok_iff terminate_session_sessions session_users_def)
  qed (auto simp: adapter_runner_def apfst_eq is_ok_iff session_users_def dest: on_session_Inr send_Inr)
qed

subsection \<open>Sessions stay well formed\<close>

definition adapter_ok :: "'w adapter_env \<Rightarrow> adapter_settings \<Rightarrow> 'w adapter \<Rightarrow> bool" where
  "adapter_ok env ad ap \<longleftrightarrow> (\<forall>sid sess. ap_sessions ap sid = Some sess \<longrightarrow> session_ok env ad sid sess)"

lemma adapter_ok_same: "adapter_ok env ad ap \<Longrightarrow> ap_sessions ap' = ap_sessions ap \<Longrightarrow> adapter_ok env ad ap'"
  by (simp add: adapter_ok_def)

lemma adapter_call_ok:
  assumes "adapter_ok env ad ap"
  shows "adapter_ok env ad (snd (run_call_on (adapter_runner env ad) call ap))"
proof (cases call)
  case (CreateCall p s c)
  obtain res ap' where c: "create_session env ad p s c ap = (res, ap')" by fastforce
  from adapter_create_cases [OF c] assms have "adapter_ok env ad ap'"
    by (cases res) (auto simp: adapter_ok_def split: if_splits)
  with CreateCall c show ?thesis by (simp add: adapter_runner_def)
next
  case (TerminateCall s)
  with assms show ?thesis by (auto simp: adapter_runner_def adapter_ok_def terminate_session_sessions)
qed (use assms in \<open>auto simp: adapter_runner_def intro: adapter_ok_same\<close>)

lemma adapter_play_ok:
  "play (adapter_runner env ad) cs ap = (oks, ap') \<Longrightarrow> adapter_ok env ad ap \<Longrightarrow> adapter_ok env ad ap'"
proof (induction cs arbitrary: ap oks)
  case (Cons c cs)
  obtain ok ap1 where 1: "run_call_on (adapter_runner env ad) c ap = (ok, ap1)" by fastforce
  obtain oks1 where "play (adapter_runner env ad) cs ap1 = (oks1, ap')"
    using Cons.prems(1) 1 by (auto split: prod.splits)
  moreover have "adapter_ok env ad ap1" using adapter_call_ok [OF Cons.prems(2), of c] 1 by simp
  ultimately show ?case by (rule Cons.IH)
qed simp

subsection \<open>Who may run a tool\<close>

text \<open>
  What the access control library promises: a protected tool runs when a role assigned to the user of the
  invocation permits it, and is refused otherwise; either way the decision is written to the audit file.
\<close>

definition permits :: "role_def list \<Rightarrow> (string \<times> string) list \<Rightarrow> string \<Rightarrow> string \<Rightarrow> bool" where
  "permits roles assigned user_id name \<longleftrightarrow>
     list_ex (\<lambda>(u, r). u = user_id \<and>
       list_ex (\<lambda>ro. ro_name ro = r \<and> (PermAllTools \<in> set (ro_permissions ro) \<or> PermTool name \<in> set (ro_permissions ro))) roles)
       assigned"

definition auth_contract :: "(string \<Rightarrow> string \<Rightarrow> bool \<Rightarrow> 'w \<Rightarrow> 'w) \<Rightarrow> 'w adapter_env \<Rightarrow> bool" where
  "auth_contract audit env \<longleftrightarrow>
     (\<forall>roles assigned name tool iv args w.
        if permits roles assigned (iv_user_id iv) name
        then ae_protect env roles assigned name tool iv args w = tool iv args (audit (iv_user_id iv) name True w)
        else \<exists>e. ae_protect env roles assigned name tool iv args w = (Inl e, audit (iv_user_id iv) name False w))"

text \<open>What the configuration lets a role run.\<close>

definition role_permits :: "adapter_settings \<Rightarrow> string \<Rightarrow> string \<Rightarrow> bool" where
  "role_permits ad role name \<longleftrightarrow>
     role = ''full'' \<or> role = ''supervised'' \<and> name \<in> set (ts_tool_allowlist (ad_tool_security ad))"

lemma permits_access_roles:
  "role \<in> {''readonly'', ''supervised'', ''full''} \<Longrightarrow>
     permits (access_roles (ts_tool_allowlist (ad_tool_security ad))) [(u, role)] u name \<longleftrightarrow> role_permits ad role name"
  by (auto simp: permits_def access_roles_def role_permits_def)

lemma baseline_names_trimmed: "name \<in> set baseline_tool_names \<Longrightarrow> trim name = name"
proof -
  have "\<forall>n \<in> set baseline_tool_names. trim n = n" by code_simp
  then show "name \<in> set baseline_tool_names \<Longrightarrow> trim name = name" by blast
qed

lemma map_of_protected:
  "map_of (protected_tools env ad u role) name = Some tool \<Longrightarrow>
     name \<in> set baseline_tool_names \<and>
     (\<exists>raw. tool = ae_protect env (access_roles (ts_tool_allowlist (ad_tool_security ad))) [(u, role)] name raw)"
proof -
  assume "map_of (protected_tools env ad u role) name = Some tool"
  then have m: "(name, tool) \<in> set (protected_tools env ad u role)" by (rule map_of_SomeD)
  then have "fst (name, tool) \<in> set (map fst (protected_tools env ad u role))" unfolding set_map by (rule imageI)
  then have "name \<in> set baseline_tool_names" by simp
  with m show ?thesis by (auto simp: protected_tools_def)
qed

text \<open>A tool the role may not run, called by the user of the session.\<close>

lemma refused_tool:
  assumes "auth_contract audit env" "map_of (protected_tools env ad u role) name = Some tool"
    and "role \<in> {''readonly'', ''supervised'', ''full''}" "\<not> role_permits ad role name" "iv_user_id iv = u"
  shows "\<exists>e. tool iv args w = (Inl e, audit u name False w)"
  using assms map_of_protected [OF assms(2)] permits_access_roles [OF assms(3)]
  unfolding auth_contract_def by metis

lemma executed_result_status:
  "json_get ''status'' (executed_result n (Inl e)) = Some (JStr ''error'')"
  "json_get ''status'' (unregistered_result n tools) = Some (JStr ''error'')"
  by (simp_all add: executed_result_def unregistered_result_def json_get_def)

lemma one_call_refused:
  assumes "auth_contract audit env" "role \<in> {''readonly'', ''supervised'', ''full''}" "\<not> role_permits ad role (trim name)"
    and "one_call (protected_tools env ad u role) u sid step name arguments w = (r, w')"
  shows "json_get ''status'' r = Some (JStr ''error'') \<and> w' \<in> {w, audit u (trim name) False w}"
proof (cases "map_of (protected_tools env ad u role) (trim name)")
  case None
  with assms(4) show ?thesis
    by (auto simp: one_call_def run_call_def json_get_def json_as_str_def Let_def unregistered_result_def split: if_splits)
next
  case (Some tool)
  obtain e where "tool \<lparr> iv_function_call_id = ''graph-tool-'' @ show_nat step @ ''-'' @ show_nat 0, iv_user_id = u,
      iv_session_id = sid \<rparr> arguments w = (Inl e, audit u (trim name) False w)"
    using refused_tool [OF assms(1) Some assms(2,3)] by fastforce
  with assms(4) Some show ?thesis
    by (auto simp: one_call_def run_call_def json_get_def json_as_str_def Let_def executed_result_def split: if_splits)
qed

lemma direct_call_refused:
  assumes "auth_contract audit env" "role \<in> {''readonly'', ''supervised'', ''full''}" "\<not> role_permits ad role (trim name)"
    and "execute_session_tool_call_direct now now' sid u name arguments (protected_tools env ad u role) w = (res, w')"
  shows "(\<exists>r report. res = Inr (r, report) \<and> json_get ''status'' r = Some (JStr ''error'')) \<and>
     w' \<in> {w, audit u (trim name) False w}"
proof (cases "map_of (protected_tools env ad u role) name")
  case None
  with assms(4) show ?thesis
    by (auto simp: execute_session_tool_call_direct_def Let_def executed_result_status)
next
  case (Some tool)
  then have trimmed: "trim name = name" using map_of_protected baseline_names_trimmed by blast
  obtain e where "tool \<lparr> iv_function_call_id = ''direct-tool-'' @ show_int now', iv_user_id = u, iv_session_id = sid \<rparr> arguments w =
      (Inl e, audit u name False w)"
    using refused_tool [OF assms(1) Some assms(2)] assms(3) trimmed by fastforce
  with assms(4) Some trimmed show ?thesis
    by (auto simp: execute_session_tool_call_direct_def Let_def executed_result_status)
qed

lemma graph_call_refused:
  assumes "auth_contract audit env" "role \<in> {''readonly'', ''supervised'', ''full''}" "\<not> role_permits ad role (trim name)"
    and "engine_contract first engine"
    and "execute_session_tool_call_graph engine now sid u role name arguments (protected_tools env ad u role) limit w = (res, w')"
  shows "(case res of Inr (r, report) \<Rightarrow> json_get ''status'' r \<noteq> Some (JStr ''ok'') | Inl e \<Rightarrow> limit < 2) \<and>
     w' \<in> {w, audit u (trim name) False w}"
proof (cases "2 \<le> limit")
  case True
  obtain r w1 where one: "one_call (protected_tools env ad u role) u sid (Suc first) name arguments w = (r, w1)" by fastforce
  note refused = one_call_refused [OF assms(1-3) one]
  show ?thesis
    using assms(5) one refused
    unfolding execute_session_tool_call_graph_def graph_report_def Let_def tool_request_state_def [symmetric] engine_tool_graph [OF assms(4) True]
    by (cases "role = ''supervised''") (auto simp: finished_state_arrays(1) json_get_def)
next
  case False
  then have "limit \<le> 1" by simp
  then show ?thesis
    by (rule engine_tool_graph_short [OF assms(4), where tools = "protected_tools env ad u role" and u = u and sid = sid and
          role = role and thread = "sid @ ''-graph-'' @ show_int now" and name = name and a = arguments and w = w])
      (use assms(5) False in \<open>auto simp: execute_session_tool_call_graph_def graph_report_def Let_def json_get_def
         simp flip: tool_request_state_def\<close>)
qed

subsection \<open>Properties\<close>

text \<open>C23: The runner's sessions behave as a table. Whatever calls the gateway makes, in any order and however the
  provider and the services answer them, the sessions the adapter has are those that were created and not
  terminated since, each with the user that created it: creating one that exists fails, terminating succeeds
  exactly on one that exists, and no operation succeeds on one that does not.\<close>

theorem adapter_refines_session_table:
  assumes "play (adapter_runner env ad) calls (adapter_start w) = (oks, ap)"
  shows "spec_play (zip calls oks) Map.empty = Some (session_users ap)"
  using adapter.play_refines [OF assms] by (simp add: adapter_start_def session_users_def)


text \<open>A call for the gateway's client, directly or through the graph.\<close>

lemma session_call_refused:
  assumes "play (adapter_runner env ad) calls (adapter_start w) = (oks, ap)" "ap_sessions ap sid = Some sess"
    and "auth_contract audit env" "engine_contract first (ae_engine env)"
    and "\<not> role_permits ad (rt_role sess) (trim tool_name)"
  shows "\<exists>res ap'. session_tool_call env sid tool_name arguments ap = (res, ap') \<and>
     (case res of Inr (r, report) \<Rightarrow> json_get ''status'' r \<noteq> Some (JStr ''ok'')
      | Inl e \<Rightarrow> rt_graph_enabled sess \<and> rt_graph_recursion_limit sess < 2) \<and>
     (let w1 = snd (ae_clock env (ap_world ap)); w2 = snd (ae_clock env w1);
          refused = audit (rt_user_id sess) (trim tool_name) False
      in ap_world ap' \<in> {w1, w2, refused w1, refused w2})"
proof -
  have "adapter_ok env ad (adapter_start w)" by (simp add: adapter_ok_def adapter_start_def)
  from adapter_play_ok [OF assms(1) this] assms(2)
  have ok: "rt_role sess \<in> {''readonly'', ''supervised'', ''full''}"
    "rt_tools sess = protected_tools env ad (rt_user_id sess) (rt_role sess)"
    by (auto simp: adapter_ok_def session_ok_def)
  obtain now w1 where c1: "ae_clock env (ap_world ap) = (now, w1)" by fastforce
  obtain now' w2 where c2: "ae_clock env w1 = (now', w2)" by fastforce
  show ?thesis
  proof (cases "rt_graph_enabled sess")
    case True
    obtain res w' where g: "execute_session_tool_call_graph (ae_engine env) now sid (rt_user_id sess) (rt_role sess) tool_name
        arguments (rt_tools sess) (rt_graph_recursion_limit sess) w1 = (res, w')" by fastforce
    from graph_call_refused [OF assms(3) ok(1) assms(5) assms(4) g [unfolded ok(2)]]
    show ?thesis
      using True assms(2) c1 g by (auto simp: session_tool_call_def on_world_def split: sum.splits)
  next
    case False
    obtain res w' where d: "execute_session_tool_call_direct now now' sid (rt_user_id sess) tool_name arguments
        (rt_tools sess) w2 = (res, w')" by fastforce
    from direct_call_refused [OF assms(3) ok(1) assms(5) d [unfolded ok(2)]]
    show ?thesis
      using False assms(2) c1 c2 d by (auto simp: session_tool_call_def on_world_def)
  qed
qed

text \<open>The audio of a client reaches the provider as it is: for a session that exists, what is handed
  to its connection is a text that decodes to the very bytes that were given.\<close>

theorem audio_reaches_provider:
  assumes "audio \<noteq> []" "ap_sessions ap sid = Some sess"
  shows "\<exists>t. base64_decode t = Some audio \<and>
     send_audio env sid audio ap = on_world (ae_send_audio_base64 env (rt_connection sess) t) ap"
proof -
  have "app_base64_encode audio = base64_encode audio" by (simp add: app_base64_encode_def base64_encode_def)
  then have "base64_decode (app_base64_encode audio) = Some audio" using b64.dec_enc by simp
  with assms show ?thesis by (auto simp: send_audio_def on_session_def)
qed

subsection \<open>Witnesses\<close>

text \<open>An outside that accepts everything and counts the lines of the audit file.\<close>

definition sample_env :: "nat adapter_env" where
  "sample_env = \<lparr> ae_lower = to_ascii_lowercase, ae_clock = (\<lambda>w. (7, w)), ae_build = (\<lambda>_. Inr ()),
     ae_connect = (\<lambda>_ w. (Inr (), w)), ae_close = (\<lambda>_ w. (Inr (), w)),
     ae_send_audio_base64 = (\<lambda>_ _ w. (Inr (), w)), ae_send_text = (\<lambda>_ _ w. (Inr (), w)),
     ae_commit_audio = (\<lambda>_ w. (Inr (), w)), ae_create_response = (\<lambda>_ w. (Inr (), w)),
     ae_interrupt_response = (\<lambda>_ w. (Inr (), w)), ae_service_get = (\<lambda>_ _ _. True),
     ae_service_create = (\<lambda>_ _ w. (Inr (), w)), ae_add_session = (\<lambda>_ _ _ _ w. (Inr (), w)),
     ae_audit_sink = (\<lambda>_ w. (Inr (), w)), ae_access_control = (\<lambda>_ _. Inr ()),
     ae_protect = (\<lambda>roles assigned name tool iv args w.
       if permits roles assigned (iv_user_id iv) name then tool iv args (Suc w) else (Inl ''denied'', Suc w)),
     ae_engine = reference_engine, ae_utc_now = (\<lambda>w. ((''1970-01-01T00:00:07+00:00'', 7), w)),
     ae_canon = (\<lambda>_ _. Inl ''no such file''), ae_read = (\<lambda>_ _. Inl ''no such file''), ae_tool_error = (\<lambda>e. e) \<rparr>"

lemma sample_env_contracts: "auth_contract (\<lambda>_ _ _. Suc) sample_env" "engine_contract 1 (ae_engine sample_env)"
  using reference_engine_contract by (simp_all add: auth_contract_def sample_env_def)

definition sample_settings :: adapter_settings where
  "sample_settings = adapter_settings_new sample_config sample_selection False"

definition readonly_config :: session_config where
  "readonly_config = \<lparr> sc_model = None, sc_voice = None, sc_instructions = None, sc_role = Some ''Readonly'', sc_enable_graph = None \<rparr>"

definition sample_adapter :: "nat adapter" where
  "sample_adapter = snd (create_session sample_env sample_settings ''p'' ''s'' (Some readonly_config) (adapter_start 0))"

lemma sample_role: "resolve_role (ae_lower sample_env) sample_settings (Some readonly_config) = Inr ''readonly''"
  by code_simp

lemma sample_settings_parts:
  "ad_lifecycle sample_settings = False" "ad_runtime_kind sample_settings = Native" "ad_provider sample_settings = sample_selection"
  "ad_graph_recursion_limit sample_settings = 25" "ts_deny_by_default_principal_allowlist (ad_tool_security sample_settings) = False"
  "trim (ps_api_key sample_selection) \<noteq> []"
  by code_simp+

lemma sample_tools:
  "build_protected_tools sample_env sample_settings u role w = (Inr (protected_tools sample_env sample_settings u role), w)"
  by (simp add: build_protected_tools_def protected_tools_def sample_env_def Let_def)

lemma sample_env_simps:
  "ae_build sample_env spec = Inr ()" "ae_connect sample_env spec w = (Inr (), w)"
  by (simp_all add: sample_env_def)

lemma sample_connection: "\<exists>spec. connection_of sample_settings ''s'' sett names = Inr spec"
  by (cases sett) (simp add: connection_of_def sample_settings_parts sample_selection_def)

lemma sample_created:
  "create_session sample_env sample_settings ''p'' ''s'' (Some readonly_config) (adapter_start 0) = (Inr ''s'', sample_adapter)"
proof -
  obtain spec where spec: "connection_of sample_settings ''s'' (resolve_session_settings sample_settings (Some readonly_config))
      baseline_tool_names = Inr spec" using sample_connection by blast
  have "fst (connect_session sample_env u ''s'' role tools g limit spec (adapter_start 0)) = Inr ''s''" for u role tools g limit
    by (simp add: connect_session_def on_world_def sample_env_simps adapter_start_def)
  then have "fst (create_session sample_env sample_settings ''p'' ''s'' (Some readonly_config) (adapter_start 0)) = Inr ''s''"
    by (simp add: create_session_def principal_denied_def sample_settings_parts sample_role sample_tools on_world_def spec)
  then show ?thesis unfolding sample_adapter_def by (metis prod.collapse)
qed

lemma sample_play:
  "play (adapter_runner sample_env sample_settings) [CreateCall ''p'' ''s'' (Some readonly_config)] (adapter_start 0) =
     ([True], sample_adapter)"
  by (simp add: adapter_runner_def sample_created)

lemma sample_session:
  obtains sess where "ap_sessions sample_adapter ''s'' = Some sess" "rt_role sess = ''readonly''"
    "rt_user_id sess = ''p''" "rt_graph_recursion_limit sess = 25"
proof -
  from adapter_create_cases [OF sample_created] obtain sess where
    "ap_sessions sample_adapter = (ap_sessions (adapter_start (0 :: nat)))(''s'' \<mapsto> sess)"
    and ok: "session_ok sample_env sample_settings ''s'' sess" "rt_user_id sess = ''p''"
    and role: "resolve_role (ae_lower sample_env) sample_settings (Some readonly_config) = Inr (rt_role sess)"
    by auto
  then have "ap_sessions sample_adapter ''s'' = Some sess" by simp
  moreover have "rt_role sess = ''readonly''" using role unfolding sample_role by simp
  moreover have "rt_graph_recursion_limit sess = 25"
    using ok(1) unfolding session_ok_def sample_settings_parts by simp
  ultimately show thesis using ok(2) that by blast
qed

theorem adapter_refines_session_table_witness:
  "spec_play [(CreateCall ''p'' ''s'' (Some readonly_config), True)] Map.empty = Some (session_users sample_adapter)"
  using adapter_refines_session_table [OF sample_play] by simp


theorem audio_reaches_provider_witness:
  "\<exists>t sess. ap_sessions sample_adapter ''s'' = Some sess \<and> base64_decode t = Some [1, 2] \<and>
     send_audio sample_env ''s'' [1, 2] sample_adapter = on_world (ae_send_audio_base64 sample_env (rt_connection sess) t) sample_adapter"
proof -
  obtain sess where s: "ap_sessions sample_adapter ''s'' = Some sess" by (rule sample_session)
  have "[1, 2 :: 8 word] \<noteq> []" by simp
  from audio_reaches_provider [OF this s, of sample_env] s show ?thesis by blast
qed

end
