(* ===== verification/Gateway_Runner.thy ===== *)
theory Gateway_Runner
  imports System Runner_Adapter
begin

section \<open>The gateway over its runner\<close>

text \<open>
  The gateway and the adapter together: the gateway's table of session owners and the adapter's table of
  sessions agree. The lemmas are those of a client of the contract \<open>runner_handle\<close>, for every handler of the
  gateway; the property is their instance for the adapter of \<open>liveclaw-app/src/main.rs\<close>.
\<close>

text \<open>The calls of the handlers, as the contract sees them.\<close>

context runner_handle begin

lemma created: "rn_create_session R p s c r = (res, r') \<Longrightarrow>
    known r' = (case res of Inr s' \<Rightarrow> (known r)(s' \<mapsto> p) | Inl e \<Rightarrow> known r)"
  using call_tracked [of "CreateCall p s c" r "is_ok res" r'] as_asked [of p s c r "projr res" r'] by (cases res) auto

lemma terminated: "known (snd (rn_terminate_session R s r)) = (known r)(s := None)"
  using call_tracked [of "TerminateCall s" r] by (metis run_call_on.simps(2) snd_apfst surjective_pairing track.simps(2))

lemma operated [simp]:
  "known (snd (rn_send_audio R s a r)) = known r" "known (snd (rn_commit_audio R s r)) = known r"
  "known (snd (rn_create_response R s r)) = known r" "known (snd (rn_interrupt_response R s r)) = known r"
  "known (snd (rn_send_text R s t r)) = known r" "known (snd (rn_session_tool_call R s n v r)) = known r"
  "known (snd (rn_diagnostics R r)) = known r"
  using call_tracked [of "AudioCall s a" r] call_tracked [of "CommitCall s" r] call_tracked [of "ResponseCall s" r]
    call_tracked [of "InterruptCall s" r] call_tracked [of "TextCall s t" r] call_tracked [of "ToolCall s n v" r]
    call_tracked [of DiagnosticsCall r]
  by (auto simp: apfst_def map_prod_def split_beta)

definition synced :: "'r app_state \<Rightarrow> bool" where
  "synced st \<longleftrightarrow> session_owners st = known (st_runner st)"

definition keeps_sync :: "'r app_state \<Rightarrow> 'r app_state \<Rightarrow> bool" where
  "keeps_sync st st' \<longleftrightarrow> (synced st \<longrightarrow> synced st')"

lemma keeps_sync_same [simp]:
  "session_owners st' = session_owners st \<Longrightarrow> known (st_runner st') = known (st_runner st) \<Longrightarrow> keeps_sync st st'"
  by (simp add: keeps_sync_def synced_def)

lemma keeps_sync_trans: "keeps_sync a b \<Longrightarrow> keeps_sync b c \<Longrightarrow> keeps_sync a c"
  by (simp add: keeps_sync_def)

lemma with_access_sync:
  assumes "\<And>st conn. keeps_sync st (fst (snd (f st conn)))"
  shows "keeps_sync st (fst (snd (with_access sid st conn a b f)))"
proof -
  have *: "keeps_sync st (fst (snd (f (bind_senders sid a b st) conn')))" for conn'
    using keeps_sync_trans [OF _ assms, where a = st and b = "bind_senders sid a b st"] by simp
  show ?thesis
    by (cases rule: authorize_cases [of conn sid st a b]) (simp_all add: with_access_def *)
qed

lemma ended_sync:
  "session_owners st' = (session_owners st)(sid := None) \<Longrightarrow> st_runner st' = snd (rn_terminate_session R sid (st_runner st)) \<Longrightarrow>
   keeps_sync st st'"
  by (simp add: keeps_sync_def synced_def terminated)

lemma terminate_sync: "ev_runner env = R \<Longrightarrow> keeps_sync st (fst (snd (handle_terminate_session env sid st conn)))"
  unfolding handle_terminate_session_def
  by (intro with_access_sync) (auto simp: gw_simps Let_def forget_session_def intro!: ended_sync split: sum.split)

lemma send_prompt_sync: "ev_runner env = R \<Longrightarrow> keeps_sync st (fst (snd (send_prompt env sid t cr st conn)))"
  by (auto simp: send_prompt_def gw_simps split: sum.split)

lemma create_sync: "ev_runner env = R \<Longrightarrow> keeps_sync st (fst (snd (handle_create_session_internal env am config st conn a b)))"
proof -
  assume R: "ev_runner env = R"
  let ?p = "case cn_principal_id conn of None \<Rightarrow> ''unknown'' | Some p \<Rightarrow> p"
  obtain res r where "rn_create_session R ?p (am_uuid am) config (st_runner st) = (res, r)" by fastforce
  with created [OF this] R show ?thesis
    by (auto simp: handle_create_session_internal_def gw_simps Let_def keeps_sync_def synced_def split: sum.split)
qed

lemma prompt_sync:
  assumes "ev_runner env = R"
  shows "keeps_sync st (fst (snd (handle_session_prompt env sid p cr st conn a b)))"
proof -
  have "keeps_sync st (fst (snd (prompt_body env sid t cr st conn c)))" for t st conn c
  proof -
    have same: "keeps_sync st (fst (snd (send_prompt env sid t' cr st' conn)))"
      if "session_owners st' = session_owners st" "known (st_runner st') = known (st_runner st)" for st' t'
      by (rule keeps_sync_trans [OF keeps_sync_same [OF that] send_prompt_sync [OF assms]])
    have sent: "session_owners st' = session_owners st \<and> st_runner st' = st_runner st"
      if "chan_send c m st = (r, st')" for c m r st' and st :: "'r app_state"
      using chan_send_frame(2,3) [of c m st] that by simp_all
    show ?thesis
      by (auto simp: prompt_body_def no_wait_def gw_simps operated [folded assms] dest!: sent intro!: same
          split: option.split sum.split prod.split send_outcome.split)
  qed
  then have body: "keeps_sync st (fst (snd (prompt_body env sid t cr (bind_senders sid x y st) conn c)))" for t st conn c x y
    by (rule keeps_sync_trans [rotated]) simp
  show ?thesis
    by (cases rule: authorize_cases [of conn sid st "Some a" "Some b"])
      (simp_all add: handle_session_prompt_def Let_def body)
qed

lemma create_routed_sync:
  assumes "ev_runner env = R"
  shows "keeps_sync st (fst (snd (create_routed_session env am config k st conn a b)))"
  using create_sync [OF assms, of st am config conn a b]
  by (auto simp: create_routed_session_def keeps_sync_def synced_def split: prod.split gateway_response.split)

lemma drop_mapped_sync: "ev_runner env = R \<Longrightarrow> keeps_sync st (drop_mapped_session env k s st)"
  by (rule ended_sync [of _ _ s]) (simp_all add: drop_mapped_session_def gw_simps Let_def)

lemma inbound_session_sync:
  assumes "ev_runner env = R"
  shows "keeps_sync st (fst (snd (inbound_session env am request k st conn a b)))"
proof -
  have m: "keeps_sync st (st \<lparr> channel_routes := x, session_channel_routes := y \<rparr>)" for st :: "'r app_state" and x y
    by simp
  show ?thesis
    using create_routed_sync [OF assms] keeps_sync_trans [OF drop_mapped_sync [OF assms] create_routed_sync [OF assms]]
      keeps_sync_trans [OF m create_routed_sync [OF assms]]
    by (auto simp: inbound_session_def Let_def split: option.split)
qed

lemma forward_inbound_sync:
  "ev_runner env = R \<Longrightarrow> keeps_sync st (fst (snd (forward_inbound env request r tx sid st conn)))"
  by (auto simp: forward_inbound_def gw_simps Let_def split: sum.split)

lemma inbound_sync:
  assumes "ev_runner env = R"
  shows "keeps_sync st (fst (snd (handle_channel_inbound env am request st conn a b)))"
proof -
  have w: "keeps_sync st (fst (snd (with_access sid (st' \<lparr> session_channel_routes := x \<rparr>) conn' a b
      (forward_inbound env request r tx sid))))" if "keeps_sync st st'" for r tx sid st st' conn' x
  proof (rule keeps_sync_trans [OF that])
    have "keeps_sync st' (st' \<lparr> session_channel_routes := x \<rparr>)" by simp
    then show "keeps_sync st' (fst (snd (with_access sid (st' \<lparr> session_channel_routes := x \<rparr>) conn' a b
      (forward_inbound env request r tx sid))))"
      by (rule keeps_sync_trans) (rule with_access_sync [OF forward_inbound_sync [OF assms]])
  qed
  have body: "keeps_sync st (fst (snd (case inbound_session env am request k st conn a b of
         (Inl resp, st, conn) \<Rightarrow> (resp, st, conn)
       | (Inr sid, st, conn) \<Rightarrow>
           (let st = st \<lparr> session_channel_routes := (session_channel_routes st)(sid \<mapsto> k) \<rparr>
            in with_access sid st conn a b (forward_inbound env request r tx sid)))))" for k r tx
  proof (cases "inbound_session env am request k st conn a b")
    case (fields res st' conn')
    with inbound_session_sync [OF assms, of st am request k conn a b] have "keeps_sync st st'" by simp
    with fields w show ?thesis by (cases res) (simp_all add: Let_def)
  qed
  show ?thesis
    using body by (auto simp: handle_channel_inbound_def Let_def split: option.split sum.split)
qed

lemma session_message_sync:
  assumes "ev_runner env = R"
  shows "keeps_sync st (fst (snd (handle_session_message env am msg st conn a b)))"
  by (cases msg) (auto simp: handle_create_session_def create_sync [OF assms] terminate_sync [OF assms] prompt_sync [OF assms]
      operated [folded assms]
      handle_session_audio_def handle_session_audio_commit_def handle_session_response_create_def
      handle_session_response_interrupt_def handle_session_tool_call_def gw_simps
      split: option.split sum.split intro!: with_access_sync)

lemma tool_call_sync:
  assumes "ev_runner env = R"
  shows "keeps_sync st (fst (snd (handle_session_tool_call env sid n v st conn a b)))"
  unfolding handle_session_tool_call_def
  by (rule with_access_sync) (auto simp: gw_simps operated [folded assms] split: sum.split)

lemma side_handlers_sync:
  "st_runner (snd (handle_create_channel_job am req st conn)) = st_runner st"
  "st_runner (snd (handle_cancel_channel_job jid st conn)) = st_runner st"
  "st_runner (snd (drain_channel_outbox st p c a u m)) = st_runner st"
  "st_runner (snd (handle_get_channel_outbound c a u m st conn)) = st_runner st"
  "st_runner (queue_channel_outbound_transcript am out st) = st_runner st"
  "st_runner (run_channel_job_stop jid st) = st_runner st"
  "st_runner (close_chan ch st) = st_runner st"
  by (auto simp: handle_create_channel_job_def handle_cancel_channel_job_def drain_channel_outbox_def
      handle_get_channel_outbound_def queue_channel_outbound_transcript_def run_channel_job_stop_def take_outbox_def
      close_chan_def cancel_task_def Let_def split_def split: option.split sum.split)

lemma probe_runner: "st_runner (snd (handle_priority_probe st conn a b)) = st_runner st"
proof -
  have "st_runner st' = st_runner st" if "chan_send c m st = (r, st')" for c m r st' and st :: "'a app_state"
    using chan_send_frame(2) [of c m st] that by simp
  then show ?thesis
    by (auto simp: handle_priority_probe_def Let_def split: prod.split send_outcome.split)
qed

lemma diagnostics_sync: "ev_runner env = R \<Longrightarrow> known (st_runner (snd (handle_get_diagnostics env st))) = known (st_runner st)"
  by (auto simp: handle_get_diagnostics_def gw_simps split: sum.split)

lemma message_sync:
  assumes "ev_runner env = R" "handle_message env am msg st conn a b = (resp, st', conn')"
  shows "keeps_sync st st'"
proof -
  have pair: "st_runner (fst (snd (handle_pair env am c st conn))) = st_runner st" for c
    by (auto simp: handle_pair_def Let_def split: prod.split sum.split option.split)
  have "keeps_sync st (fst (snd (handle_message env am msg st conn a b)))"
    using session_message_sync [OF assms(1), of st am msg conn a b]
    by (cases msg) (auto simp: authenticated_only_def on_state_def inbound_sync [OF assms(1)] handle_pair_parts(1) pair
        side_handlers_sync probe_runner diagnostics_sync [OF assms(1)] handle_authenticate_def
        split_def Let_def simp del: handle_session_message.simps)
  with assms(2) show ?thesis by simp
qed

lemma request_sync:
  assumes "ev_runner env = R"
  shows "keeps_sync st (snd (route_request env am a b auth query req st))"
proof -
  have r: "keeps_sync st (snd (answer_or_route env am auth query asked st))" for asked
    using inbound_sync [OF assms, of st am]
    by (auto simp: answer_or_route_def handle_channel_http_route_def split_def Let_def split: sum.split)
  have s: "keeps_sync st (snd (channel_webhook_supervised_action_handler env am a b auth query payload st))" for payload
  proof (cases "request_principal env auth query st")
    case (Inr q)
    let ?conn = "http_connection (extract_channel_token auth query) q"
    obtain resp st1 conn1 where
      i: "handle_channel_inbound env am (supervised_inbound query payload) st ?conn None None = (resp, st1, conn1)"
      by (metis prod_cases3)
    have g: "keeps_sync st st1"
      using inbound_sync [OF assms, of st am "supervised_inbound query payload" ?conn None None] i by simp
    have "keeps_sync st (close_chan x (close_chan y (fst (snd
        (handle_session_tool_call env sid n v (st1 \<lparr> chans := c \<rparr>) conn1 a b)))))" for x y sid n v c
    proof (rule keeps_sync_trans [OF g])
      show "keeps_sync st1 (close_chan x (close_chan y (fst (snd
        (handle_session_tool_call env sid n v (st1 \<lparr> chans := c \<rparr>) conn1 a b)))))"
        using tool_call_sync [OF assms, of "st1 \<lparr> chans := c \<rparr>" sid n v conn1 a b]
        by (simp add: keeps_sync_def synced_def side_handlers_sync)
    qed
    with Inr i g show ?thesis
      by (cases resp) (simp_all add: channel_webhook_supervised_action_handler_def Let_def split_def)
  qed (simp add: channel_webhook_supervised_action_handler_def)
  show ?thesis
    by (cases req) (auto simp: r s channel_webhook_handler_def Let_def split_def channel_outbound_poll_handler_def
      handle_channel_http_outbound_poll_def channel_job_create_handler_def
      handle_channel_http_create_job_def channel_job_cancel_handler_def handle_channel_http_cancel_job_def
      side_handlers_sync split: sum.split)
qed

lemma only_chans_sync: "only_chans st st' \<Longrightarrow> keeps_sync st st'"
  by (auto simp: only_chans_def)

lemma turn_sync:
  assumes "ev_runner env = R" "ws_turn env from_str am ok frames t st = (r, rest, t', st')"
  shows "keeps_sync st st'"
  using assms(2)
proof (cases rule: ws_turn_cases)
  case quiet
  show ?thesis by (rule only_chans_sync [OF quiet(1)])
next
  case (message msg resp)
  from message_sync [OF assms(1) message(1)] show ?thesis .
qed

lemma step_sync:
  assumes "gateway_step env from_str w w'" "ev_runner env = R"
  shows "keeps_sync (wo_state w) (wo_state w')"
  using assms(1)
proof cases
  case (connect i s p t st)
  with only_chans_sync [OF ws_open_parts(1) [OF connect(6)]] show ?thesis by simp
next
  case (turn i t am ok frames r rest t' st)
  with turn_sync [OF assms(2) turn(4)] show ?thesis by simp
next
  case (leave i t am ok frames rest t' st)
  have "keeps_sync st (ws_cleanup t' st)" by (simp add: ws_cleanup_def Let_def side_handlers_sync)
  with leave keeps_sync_trans [OF turn_sync [OF assms(2) leave(4)]] show ?thesis by simp
next
  case (stick i t am ok frames rest t' st)
  with turn_sync [OF assms(2) stick(4)] show ?thesis by simp
next
  case (audio out st)
  have "only_chans (wo_state w) st" using audio(2) unfolding forward_audio_def by (rule forward_only_chans)
  with audio(1) only_chans_sync show ?thesis by simp
next
  case (transcript am out st)
  then obtain st1 where f: "forward_to_session (to_session_id out)
      (TranscriptUpdate (to_session_id out) (to_text out) (to_is_final out)) (wo_state w) = Some st1"
    and st: "st = queue_channel_outbound_transcript am out st1"
    by (auto simp: forward_transcript_def)
  have "keeps_sync st1 st" by (simp add: st side_handlers_sync)
  with keeps_sync_trans [OF only_chans_sync [OF forward_only_chans [OF f]]] transcript(1) show ?thesis by simp
next
  case (job am jid st)
  from job(3) have "keeps_sync (wo_state w) st"
    by cases (use inbound_sync [OF assms(2), of "wo_state w" am] in
        \<open>auto simp: run_channel_job_tick_def split_def side_handlers_sync\<close>)
  with job(1) show ?thesis by simp
next
  case (request am a b auth query req resp st)
  with request_sync [OF assms(2), of "wo_state w" am a b auth query req] show ?thesis by simp
qed

text \<open>Both tables agree in every state the gateway reaches, when it starts with a runner without sessions.\<close>

lemma reachable_synced:
  assumes "reachable env from_str w0 w" "ev_runner env = R" "synced (wo_state w0)"
  shows "synced (wo_state w)"
  using assms(1)
proof induction
  case (step w w')
  with step_sync [OF step(2) assms(2)] show ?case by (simp add: keeps_sync_def)
qed (rule assms(3))

end

subsection \<open>The gateway over the adapter\<close>

text \<open>The gateway and its runner never disagree on the sessions. In every state the gateway reaches over the
  adapter, whatever the clients, jobs, requests, the provider and the services did, the owner table of the
  gateway is the table of the adapter's sessions with their users: no session leaks on one side, and the
  principal the gateway checks is the user whose tools and memory the adapter uses. The health report and
  the diagnostics therefore count the same sessions.\<close>

theorem owners_agree_with_adapter:
  assumes "reachable env from_str (initial_world pairing (adapter_start x) now) w"
    and "ev_runner env = adapter_runner aenv ad"
  shows "session_owners (wo_state w) = (\<lambda>s. map_option rt_user_id (ap_sessions (st_runner (wo_state w)) s)) \<and>
    (\<exists>h. handle_get_gateway_health env am (wo_state w) = GatewayHealthMsg h \<and>
      gh_active_sessions h = rd_active_sessions (diagnostics ad (st_runner (wo_state w))))"
proof -
  have "adapter.synced (wo_state (initial_world pairing (adapter_start x) now))"
    by (simp add: adapter.synced_def initial_world_def initial_state_def adapter_start_def session_users_def)
  then have "adapter.synced (wo_state w)" by (rule adapter.reachable_synced [OF assms])
  then have *: "session_owners (wo_state w) = (\<lambda>s. map_option rt_user_id (ap_sessions (st_runner (wo_state w)) s))"
    by (simp add: adapter.synced_def session_users_def)
  have "dom (\<lambda>s. map_option rt_user_id (m s)) = dom m" for m :: "string \<rightharpoonup> 'a realtime_session"
    by (auto simp: dom_def)
  with * show ?thesis by (simp add: diagnostics_def Let_def handle_get_gateway_health_def)
qed

subsection \<open>Example\<close>

text \<open>A client connects to the gateway over the adapter.\<close>

definition adapter_gateway_env :: "nat adapter env" where
  "adapter_gateway_env = \<lparr> ev_sha = (\<lambda>b. b), ev_runner = adapter_runner sample_env sample_settings \<rparr>"

definition adapter_world :: "nat adapter world" where
  "adapter_world = initial_world idle_guard (adapter_start 0) 0"

definition adapter_connected :: "nat adapter world" where
  "adapter_connected = \<lparr> wo_state = snd (ws_open adapter_gateway_env 0 1 (wo_state adapter_world)),
     wo_conns = [0 \<mapsto> fst (ws_open adapter_gateway_env 0 1 (wo_state adapter_world))] \<rparr>"

lemma adapter_connects: "gateway_step adapter_gateway_env (\<lambda>_. Inl []) adapter_world adapter_connected"
  using connect [of adapter_world 0 0 1 adapter_gateway_env "fst (ws_open adapter_gateway_env 0 1 (wo_state adapter_world))"
      "snd (ws_open adapter_gateway_env 0 1 (wo_state adapter_world))" "\<lambda>_. Inl []"]
  by (simp add: adapter_world_def adapter_connected_def initial_world_def initial_state_def)

theorem owners_agree_with_adapter_witness:
  "session_owners (wo_state adapter_connected) =
    (\<lambda>s. map_option rt_user_id (ap_sessions (st_runner (wo_state adapter_connected)) s))"
proof -
  have "reachable adapter_gateway_env (\<lambda>_. Inl []) (initial_world idle_guard (adapter_start 0) 0) adapter_connected"
    using reachable.step [OF reachable.start adapter_connects] by (simp add: adapter_world_def)
  from owners_agree_with_adapter [OF this] show ?thesis by (simp add: adapter_gateway_env_def)
qed

end
