(* ===== verification/Docker_Bridge.thy ===== *)
theory Docker_Bridge
  imports Runner_Adapter Utf8 "HOL-Library.Sublist"
begin

section \<open>The container runtime and its bridge\<close>

text \<open>
  \<open>DockerRuntimeBridgeRuntime\<close> and \<open>run_docker_runtime_worker\<close> of \<open>liveclaw-app/src/main.rs\<close>: a session whose
  provider connection lives in a container. The bridge writes commands to the container's input, one JSON
  object a line, and waits for the acknowledgement of each; its run loop reads the container's output. Both
  ends run concurrently, so the model is a step relation over a shared state: the atomic steps are what the tasks
  do between two waits, and a call is a record that goes through its phases. A connection that the source
  shares by \<open>Arc\<close> is named by its number. The text of a JSON line, the decoder of the \<open>base64\<close> crate, the
  container engine and the provider's library are parameters; logging and the standard error stream are left out.
\<close>

subsection \<open>Commands and messages\<close>

datatype worker_command =
    SendAudio u64 string
  | SendText u64 string
  | CommitAudio u64
  | CreateResponse u64
  | InterruptResponse u64
  | CloseWorker u64

fun command_id :: "worker_command \<Rightarrow> u64" where
  "command_id (SendAudio i _) = i"
| "command_id (SendText i _) = i"
| "command_id (CommitAudio i) = i"
| "command_id (CreateResponse i) = i"
| "command_id (InterruptResponse i) = i"
| "command_id (CloseWorker i) = i"

datatype worker_message =
    Started
  | Ack u64 bool "string option"
  | AudioOutput string string
  | TextOutput string string
  | TranscriptOutput string string
  | RuntimeError string

fun json_of_command :: "worker_command \<Rightarrow> json" where
  "json_of_command (SendAudio i a) = tagged ''send_audio'' [(''id'', json_u64 i), (''audio_base64'', JStr a)]"
| "json_of_command (SendText i t) = tagged ''send_text'' [(''id'', json_u64 i), (''text'', JStr t)]"
| "json_of_command (CommitAudio i) = tagged ''commit_audio'' [(''id'', json_u64 i)]"
| "json_of_command (CreateResponse i) = tagged ''create_response'' [(''id'', json_u64 i)]"
| "json_of_command (InterruptResponse i) = tagged ''interrupt_response'' [(''id'', json_u64 i)]"
| "json_of_command (CloseWorker i) = tagged ''close'' [(''id'', json_u64 i)]"

definition field_u64 :: "json \<Rightarrow> string \<Rightarrow> u64 option" where
  "field_u64 v k = Option.bind (json_get k v) json_as_u64"

definition command_fields :: "string \<Rightarrow> string list" where
  "command_fields tag = (if tag = ''send_audio'' then [''id'', ''audio_base64''] else if tag = ''send_text'' then [''id'', ''text'']
     else [''id''])"

definition command_of_json :: "json \<Rightarrow> worker_command option" where
  "command_of_json u = Option.bind (tagged_json command_fields u) (\<lambda>(tag, v).
     Option.bind (if tag \<in> {''send_audio'', ''send_text'', ''commit_audio'', ''create_response'', ''interrupt_response'', ''close''}
                  then field_u64 v ''id'' else None) (\<lambda>i.
       if tag = ''send_audio'' then map_option (SendAudio i) (field_str v ''audio_base64'')
       else if tag = ''send_text'' then map_option (SendText i) (field_str v ''text'')
       else if tag = ''commit_audio'' then Some (CommitAudio i)
       else if tag = ''create_response'' then Some (CreateResponse i)
       else if tag = ''interrupt_response'' then Some (InterruptResponse i)
       else Some (CloseWorker i)))"

fun json_of_worker_message :: "worker_message \<Rightarrow> json" where
  "json_of_worker_message Started = tagged ''started'' []"
| "json_of_worker_message (Ack i ok e) =
     tagged ''ack'' [(''id'', json_u64 i), (''ok'', JBool ok), (''error'', json_opt JStr e)]"
| "json_of_worker_message (AudioOutput a item) =
     tagged ''audio_output'' [(''audio_base64'', JStr a), (''item_id'', JStr item)]"
| "json_of_worker_message (TextOutput t item) = tagged ''text_output'' [(''text'', JStr t), (''item_id'', JStr item)]"
| "json_of_worker_message (TranscriptOutput t item) =
     tagged ''transcript_output'' [(''transcript'', JStr t), (''item_id'', JStr item)]"
| "json_of_worker_message (RuntimeError m) = tagged ''runtime_error'' [(''message'', JStr m)]"

definition with_item :: "json \<Rightarrow> string \<Rightarrow> (string \<Rightarrow> string \<Rightarrow> worker_message) \<Rightarrow> worker_message option" where
  "with_item v k f = Option.bind (field_str v k) (\<lambda>t. map_option (f t) (field_str v ''item_id''))"

definition worker_message_fields :: "string \<Rightarrow> string list" where
  "worker_message_fields tag = unwrap_or (map_of
     [(''ack'', [''id'', ''ok'', ''error'']), (''audio_output'', [''audio_base64'', ''item_id'']),
      (''text_output'', [''text'', ''item_id'']), (''transcript_output'', [''transcript'', ''item_id'']),
      (''runtime_error'', [''message''])] tag) []"

definition worker_message_of_json :: "json \<Rightarrow> worker_message option" where
  "worker_message_of_json u = Option.bind (tagged_json worker_message_fields u) (\<lambda>(tag, v).
     if tag = ''started'' then Some Started
     else if tag = ''ack'' then
       Option.bind (field_u64 v ''id'') (\<lambda>i. Option.bind (Option.bind (json_get ''ok'' v) json_as_bool) (\<lambda>ok.
         map_option (Ack i ok) (field_opt json_as_str v ''error'')))
     else if tag = ''audio_output'' then with_item v ''audio_base64'' AudioOutput
     else if tag = ''text_output'' then with_item v ''text'' TextOutput
     else if tag = ''transcript_output'' then with_item v ''transcript'' TranscriptOutput
     else if tag = ''runtime_error'' then map_option RuntimeError (field_str v ''message'')
     else None)"

lemma command_round_trip [simp]: "command_of_json (json_of_command c) = Some c"
  by (cases c) (simp_all add: command_of_json_def tagged_json_def json_simps field_u64_def)

lemma worker_message_round_trip [simp]: "worker_message_of_json (json_of_worker_message m) = Some m"
  by (cases m) (simp_all add: worker_message_of_json_def tagged_json_def with_item_def json_simps field_u64_def split: option.split)

subsection \<open>The container's arguments and the worker's settings\<close>

definition is_ascii_alphanumeric :: "char \<Rightarrow> bool" where
  "is_ascii_alphanumeric c \<longleftrightarrow>
     (48 \<le> byte_of c \<and> byte_of c \<le> 57) \<or> (65 \<le> byte_of c \<and> byte_of c \<le> 90) \<or> (97 \<le> byte_of c \<and> byte_of c \<le> 122)"

definition session_slug :: "string \<Rightarrow> string" where
  "session_slug sid =
     take 30 (map (\<lambda>c. if is_ascii_alphanumeric c then c else CHR ''-'') (filter (\<lambda>c. \<not> utf8_cont c) sid))"

definition env_option :: "string \<Rightarrow> string \<Rightarrow> string list" where
  "env_option k v = [''-e'', k @ ''='' @ v]"

definition docker_runtime_command_args :: "connection_spec \<Rightarrow> string list" where
  "docker_runtime_command_args config =
     [''run'', ''--rm'', ''-i'', ''--network'', ''host'', ''--name'', ''liveclaw-runtime-'' @ session_slug (cs_session_id config)] @
     env_option ''LIVECLAW_RUNTIME_API_KEY'' (cs_api_key config) @
     env_option ''LIVECLAW_RUNTIME_MODEL'' (cs_model config) @
     env_option ''LIVECLAW_RUNTIME_VOICE'' (cs_voice config) @
     (case cs_instructions config of None \<Rightarrow> [] | Some t \<Rightarrow> env_option ''LIVECLAW_RUNTIME_INSTRUCTIONS'' t) @
     (case cs_base_url config of None \<Rightarrow> [] | Some u \<Rightarrow> env_option ''LIVECLAW_RUNTIME_BASE_URL'' u) @
     [cs_image config, ''--runtime-worker'']"

record worker_settings =
  ws_api_key :: string
  ws_model :: string
  ws_voice :: string
  ws_instructions :: "string option"
  ws_base_url :: "string option"

definition required_env :: "environment \<Rightarrow> string \<Rightarrow> string result" where
  "required_env env name =
     (case env name of Some v \<Rightarrow> Inr v | None \<Rightarrow> Inl (''Missing required environment variable '' @ name))"

definition worker_settings_of :: "environment \<Rightarrow> worker_settings result" where
  "worker_settings_of env =
     (case required_env env ''LIVECLAW_RUNTIME_API_KEY'' of
        Inl e \<Rightarrow> Inl e
      | Inr api_key \<Rightarrow>
          (case required_env env ''LIVECLAW_RUNTIME_MODEL'' of
             Inl e \<Rightarrow> Inl e
           | Inr model_id \<Rightarrow>
               Inr \<lparr> ws_api_key = api_key, ws_model = model_id,
                 ws_voice = unwrap_or (env ''LIVECLAW_RUNTIME_VOICE'') ''alloy'',
                 ws_instructions = non_empty (env ''LIVECLAW_RUNTIME_INSTRUCTIONS''),
                 ws_base_url = non_empty (env ''LIVECLAW_RUNTIME_BASE_URL'') \<rparr>))"

text \<open>
  What the engine's documentation says of its option \<open>-e\<close>: the process in the container sees the
  variables of the image, overridden by those of the command line, the last one of a name first.
\<close>

fun env_arguments :: "string list \<Rightarrow> (string \<times> string) list" where
  "env_arguments (a # b # args) =
     (if a = ''-e'' then env_arguments args @ [(takeWhile (\<lambda>c. c \<noteq> CHR ''='') b, drop 1 (dropWhile (\<lambda>c. c \<noteq> CHR ''='') b))]
      else env_arguments (b # args))"
| "env_arguments args = []"

definition launch_contract :: "(string list \<Rightarrow> environment) \<Rightarrow> environment \<Rightarrow> bool" where
  "launch_contract launch image_env \<longleftrightarrow> (\<forall>args. launch args = image_env ++ map_of (env_arguments args))"

subsection \<open>The state of the bridge\<close>

text \<open>
  A call of the bridge: its command, the connection it cloned, how far it is, and its one-shot channel. A call is
  \<open>Unsent\<close> when the writing task was gone and \<open>Expired\<close> when its time is over, both before it has the lock to take
  its entry out of the table; it is \<open>Cancelled\<close> when its future is dropped at a wait. A channel is \<open>Open\<close> until the
  sender is used (\<open>Got\<close>) or dropped (\<open>Gone\<close>), or the receiver is dropped (\<open>Closed\<close>), after which sending does nothing.
\<close>

datatype call_phase = Fetched | Cloned | Registered | Waiting | Unsent | Expired | Cancelled | Returned "unit result"
datatype call_answer = Open | Got "unit result" | Gone | Closed

record bridge_call =
  ca_command :: worker_command
  ca_conn :: nat
  ca_phase :: call_phase
  ca_answer :: call_answer

text \<open>
  A connection, with the two pipes and the process at their other end: the acknowledgements waited for, the
  commands sent to the writing task and whether it runs, whether the output was not yet taken, the input pipe,
  the process, its outgoing messages and the output pipe. The last three fields are a record of what
  happened: the commands performed with their results, the messages the worker sent and those the bridge read.
\<close>

record bridge_conn =
  bc_pending :: "u64 \<rightharpoonup> nat"
  bc_queue :: "worker_command list"
  bc_writer :: bool
  bc_stdout :: bool
  bc_stdin :: "json list"
  bc_alive :: bool
  bc_messages :: "worker_message list"
  bc_output :: "json list"
  bc_done :: "(worker_command \<times> unit result) list"
  bc_sent :: "worker_message list"
  bc_read :: "worker_message list"

datatype bridge_event = AudioEvent bytes string | TextEvent string string | TranscriptEvent string string

datatype run_phase = NotRunning | Reading nat | Failing string
datatype close_phase = Closing u64 | Killing

record bridge =
  br_next_command_id :: u64
  br_connection :: "nat option"
  br_conns :: "nat \<rightharpoonup> bridge_conn"
  br_spawned :: nat
  br_calls :: "nat \<rightharpoonup> bridge_call"
  br_started :: nat
  br_run :: run_phase
  br_closing :: "nat \<rightharpoonup> close_phase"
  br_events :: "bridge_event list"

text \<open>The decoder of the \<open>base64\<close> crate, the text of a line, and what the event handler answers.\<close>

record bridge_env =
  be_decode :: "string \<Rightarrow> bytes option"
  be_print :: "json \<Rightarrow> string"
  be_handle :: "bridge_event \<Rightarrow> unit result"

definition bridge_new :: bridge where
  "bridge_new = \<lparr> br_next_command_id = 1, br_connection = None, br_conns = Map.empty, br_spawned = 0,
     br_calls = Map.empty, br_started = 0, br_run = NotRunning, br_closing = Map.empty, br_events = [] \<rparr>"

definition set_call :: "nat \<Rightarrow> (bridge_call \<Rightarrow> bridge_call) \<Rightarrow> bridge \<Rightarrow> bridge" where
  "set_call c f b = b \<lparr> br_calls := (br_calls b)(c := map_option f (br_calls b c)) \<rparr>"

definition set_conn :: "nat \<Rightarrow> (bridge_conn \<Rightarrow> bridge_conn) \<Rightarrow> bridge \<Rightarrow> bridge" where
  "set_conn g f b = b \<lparr> br_conns := (br_conns b)(g := map_option f (br_conns b g)) \<rparr>"

definition pending_of :: "nat \<Rightarrow> u64 \<Rightarrow> bridge \<Rightarrow> nat option" where
  "pending_of g i b = (case br_conns b g of None \<Rightarrow> None | Some cn \<Rightarrow> bc_pending cn i)"

definition put_pending :: "nat \<Rightarrow> u64 \<Rightarrow> nat option \<Rightarrow> bridge \<Rightarrow> bridge" where
  "put_pending g i v b = set_conn g (\<lambda>cn. cn \<lparr> bc_pending := (bc_pending cn)(i := v) \<rparr>) b"

text \<open>Sending on a one-shot channel, and dropping its sender: both leave a channel alone that was used.\<close>

definition answer_call :: "nat option \<Rightarrow> call_answer \<Rightarrow> bridge \<Rightarrow> bridge" where
  "answer_call c a b =
     (case c of
        None \<Rightarrow> b
      | Some c \<Rightarrow> set_call c (\<lambda>ca. if ca_answer ca = Open then ca \<lparr> ca_answer := a \<rparr> else ca) b)"

text \<open>An entry leaves the table of a connection, and its sender is used or dropped.\<close>

definition take_pending :: "nat \<Rightarrow> u64 \<Rightarrow> call_answer \<Rightarrow> bridge \<Rightarrow> bridge" where
  "take_pending g i a b = put_pending g i None (answer_call (pending_of g i b) a b)"

definition drain_pending :: "nat \<Rightarrow> unit result \<Rightarrow> bridge \<Rightarrow> bridge" where
  "drain_pending g r b =
     set_conn g (\<lambda>cn. cn \<lparr> bc_pending := Map.empty \<rparr>)
       (b \<lparr> br_calls := (\<lambda>c. case br_calls b c of
              None \<Rightarrow> None
            | Some ca \<Rightarrow> Some (if pending_of g (command_id (ca_command ca)) b = Some c \<and> ca_answer ca = Open
                              then ca \<lparr> ca_answer := Got r \<rparr> else ca)) \<rparr>)"

subsection \<open>The steps of a call\<close>

datatype bridge_request = AudioRequest string | TextRequest string | CommitRequest | ResponseRequest | InterruptRequest

fun command_of_request :: "bridge_request \<Rightarrow> u64 \<Rightarrow> worker_command" where
  "command_of_request (AudioRequest a) i = SendAudio i a"
| "command_of_request (TextRequest t) i = SendText i t"
| "command_of_request CommitRequest i = CommitAudio i"
| "command_of_request ResponseRequest i = CreateResponse i"
| "command_of_request InterruptRequest i = InterruptResponse i"

definition start_call :: "bridge_request \<Rightarrow> bridge \<Rightarrow> bridge" where
  "start_call rq b = b \<lparr> br_next_command_id := br_next_command_id b + 1,
     br_calls := (br_calls b)(br_started b \<mapsto>
       \<lparr> ca_command = command_of_request rq (br_next_command_id b), ca_conn = 0, ca_phase = Fetched, ca_answer = Open \<rparr>),
     br_started := br_started b + 1 \<rparr>"

definition clone_connection :: "nat \<Rightarrow> bridge \<Rightarrow> bridge" where
  "clone_connection c b =
     (case br_connection b of
        None \<Rightarrow> set_call c (\<lambda>ca. ca \<lparr> ca_phase := Returned (Inl ''Docker runtime session is not connected'') \<rparr>) b
      | Some g \<Rightarrow> set_call c (\<lambda>ca. ca \<lparr> ca_conn := g, ca_phase := Cloned \<rparr>) b)"

definition register_call :: "nat \<Rightarrow> bridge_call \<Rightarrow> bridge \<Rightarrow> bridge" where
  "register_call c ca b =
     (let g = ca_conn ca; i = command_id (ca_command ca)
      in set_call c (\<lambda>ca. ca \<lparr> ca_phase := Registered \<rparr>)
           (put_pending g i (Some c) (answer_call (pending_of g i b) Gone b)))"

definition send_call :: "nat \<Rightarrow> bridge_call \<Rightarrow> bridge \<Rightarrow> bridge" where
  "send_call c ca b =
     (let g = ca_conn ca
      in case br_conns b g of
           None \<Rightarrow> b
         | Some cn \<Rightarrow>
             (if bc_writer cn
              then set_call c (\<lambda>ca. ca \<lparr> ca_phase := Waiting \<rparr>)
                     (set_conn g (\<lambda>cn. cn \<lparr> bc_queue := bc_queue cn @ [ca_command ca] \<rparr>) b)
              else set_call c (\<lambda>ca. ca \<lparr> ca_phase := Unsent \<rparr>) b))"

text \<open>A call that gives up takes its entry out of the table, once it has the lock, and returns.\<close>

definition give_up :: "string \<Rightarrow> nat \<Rightarrow> bridge_call \<Rightarrow> bridge \<Rightarrow> bridge" where
  "give_up e c ca b =
     set_call c (\<lambda>ca. ca \<lparr> ca_phase := Returned (Inl e) \<rparr>)
       (take_pending (ca_conn ca) (command_id (ca_command ca)) Gone b)"

definition send_failed :: "nat \<Rightarrow> bridge_call \<Rightarrow> bridge \<Rightarrow> bridge" where
  "send_failed = give_up ''Failed to send command to docker runtime worker''"

definition receive_answer :: "nat \<Rightarrow> bridge_call \<Rightarrow> bridge \<Rightarrow> bridge" where
  "receive_answer c ca b =
     (case ca_answer ca of
        Open \<Rightarrow> b
      | Got r \<Rightarrow> set_call c (\<lambda>ca. ca \<lparr> ca_phase := Returned r \<rparr>) b
      | Gone \<Rightarrow> set_call c (\<lambda>ca. ca \<lparr> ca_phase := Returned (Inl ''Docker runtime worker closed ack channel'') \<rparr>) b
      | Closed \<Rightarrow> b)"

text \<open>
  The time is over: the receiver is dropped with the future that timed out, and the entry stays until the call
  has the lock.
\<close>

definition ack_expire :: "nat \<Rightarrow> bridge \<Rightarrow> bridge" where
  "ack_expire c = set_call c (\<lambda>ca. ca \<lparr> ca_phase := Expired, ca_answer := Closed \<rparr>)"

definition ack_timeout :: "nat \<Rightarrow> bridge_call \<Rightarrow> bridge \<Rightarrow> bridge" where
  "ack_timeout = give_up ''Timed out waiting for docker runtime worker ack''"

text \<open>The future of a call is dropped while it waits for a lock or for the answer: nobody takes its entry out.\<close>

definition cancel_call :: "nat \<Rightarrow> bridge \<Rightarrow> bridge" where
  "cancel_call c = set_call c (\<lambda>ca. ca \<lparr> ca_phase := Cancelled, ca_answer := Closed \<rparr>)"

subsection \<open>Connecting, running and closing\<close>

definition conn_new :: bridge_conn where
  "conn_new = \<lparr> bc_pending = Map.empty, bc_queue = [], bc_writer = True, bc_stdout = True, bc_stdin = [],
     bc_alive = True, bc_messages = [], bc_output = [], bc_done = [], bc_sent = [], bc_read = [] \<rparr>"

text \<open>\<open>spawned\<close> is the answer of the operating system.\<close>

definition bridge_connect :: "unit result \<Rightarrow> bridge \<Rightarrow> unit result \<times> bridge" where
  "bridge_connect spawned b =
     (if br_connection b \<noteq> None then (Inr (), b)
      else case spawned of
        Inl e \<Rightarrow> (Inl e, b)
      | Inr _ \<Rightarrow>
          (Inr (), b \<lparr> br_conns := (br_conns b)(br_spawned b \<mapsto> conn_new), br_spawned := br_spawned b + 1,
                       br_connection := Some (br_spawned b) \<rparr>))"

definition run_begin :: "bridge \<Rightarrow> unit result \<times> bridge" where
  "run_begin b =
     (case br_connection b of
        None \<Rightarrow> (Inl ''Docker runtime session is not connected'', b)
      | Some g \<Rightarrow>
          (case br_conns b g of
             None \<Rightarrow> (Inl [], b)
           | Some cn \<Rightarrow>
               (if \<not> bc_stdout cn then (Inl ''Docker runtime stdout stream is unavailable'', b)
                else (Inr (), set_conn g (\<lambda>cn. cn \<lparr> bc_stdout := False \<rparr>) b \<lparr> br_run := Reading g \<rparr>))))"

text \<open>The end of the loop: the connection is forgotten, then the calls still pending are to be told.\<close>

definition run_stop :: "string \<Rightarrow> bridge \<Rightarrow> bridge" where
  "run_stop e b = b \<lparr> br_connection := None, br_run := Failing e \<rparr>"

definition fail_pending_acks :: "string \<Rightarrow> bridge \<Rightarrow> bridge" where
  "fail_pending_acks e b =
     (case br_connection b of
        None \<Rightarrow> b
      | Some g \<Rightarrow> drain_pending g (Inl e) b)"

definition run_finish :: "string \<Rightarrow> bridge \<Rightarrow> unit result \<times> bridge" where
  "run_finish e b = (Inl e, fail_pending_acks e b \<lparr> br_run := NotRunning \<rparr>)"

definition handle_event :: "bridge_env \<Rightarrow> string \<Rightarrow> bridge_event \<Rightarrow> bridge \<Rightarrow> unit result \<times> bridge" where
  "handle_event env what ev b =
     (case be_handle env ev of
        Inl e \<Rightarrow> (Inl (''Failed to forward docker '' @ what @ '' output: '' @ e), b \<lparr> br_events := br_events b @ [ev] \<rparr>)
      | Inr _ \<Rightarrow> (Inr (), b \<lparr> br_events := br_events b @ [ev] \<rparr>))"

definition on_worker_message :: "bridge_env \<Rightarrow> nat \<Rightarrow> worker_message \<Rightarrow> bridge \<Rightarrow> unit result \<times> bridge" where
  "on_worker_message env g m b =
     (case m of
        Started \<Rightarrow> (Inr (), b)
      | Ack i ok e \<Rightarrow>
          (Inr (), take_pending g i
             (Got (if ok then Inr () else Inl (unwrap_or e ''Docker runtime worker command failed''))) b)
      | AudioOutput a item \<Rightarrow>
          (case be_decode env a of
             None \<Rightarrow> (Inl ''Failed to decode docker worker audio payload'', b)
           | Some audio \<Rightarrow> handle_event env ''audio'' (AudioEvent audio item) b)
      | TextOutput t item \<Rightarrow> handle_event env ''text'' (TextEvent t item) b
      | TranscriptOutput t item \<Rightarrow> handle_event env ''transcript'' (TranscriptEvent t item) b
      | RuntimeError e \<Rightarrow> (Inl (''Docker runtime worker error: '' @ e), b))"

definition run_line :: "bridge_env \<Rightarrow> nat \<Rightarrow> json \<Rightarrow> bridge \<Rightarrow> bridge" where
  "run_line env g line b =
     (let b = set_conn g (\<lambda>cn. cn \<lparr> bc_output := tl (bc_output cn) \<rparr>) b
      in case worker_message_of_json line of
           None \<Rightarrow> run_stop (''Failed to parse docker runtime worker message: '' @ be_print env line) b
         | Some m \<Rightarrow>
             (case on_worker_message env g m (set_conn g (\<lambda>cn. cn \<lparr> bc_read := bc_read cn @ [m] \<rparr>) b) of
                (Inr _, b) \<Rightarrow> b
              | (Inl e, b) \<Rightarrow> run_stop e b))"

text \<open>Closing takes the connection and a number, sends the last command, and later kills the process.\<close>

definition close_take :: "bridge \<Rightarrow> bridge" where
  "close_take b =
     (case br_connection b of
        None \<Rightarrow> b
      | Some g \<Rightarrow> b \<lparr> br_connection := None, br_next_command_id := br_next_command_id b + 1,
                     br_closing := (br_closing b)(g \<mapsto> Closing (br_next_command_id b)) \<rparr>)"

definition close_send :: "nat \<Rightarrow> u64 \<Rightarrow> bridge \<Rightarrow> bridge" where
  "close_send g i b =
     set_conn g (\<lambda>cn. if bc_writer cn then cn \<lparr> bc_queue := bc_queue cn @ [CloseWorker i] \<rparr> else cn)
       (b \<lparr> br_closing := (br_closing b)(g \<mapsto> Killing) \<rparr>)"

definition close_finish :: "nat \<Rightarrow> bridge \<Rightarrow> bridge" where
  "close_finish g b =
     drain_pending g (Inl ''Docker runtime worker closed before acknowledging command'')
       (set_conn g (\<lambda>cn. cn \<lparr> bc_alive := False, bc_messages := [] \<rparr>)
          (b \<lparr> br_closing := (br_closing b)(g := None) \<rparr>))"

subsection \<open>The writing task and the worker\<close>

definition write_command :: "nat \<Rightarrow> bridge \<Rightarrow> bridge" where
  "write_command g = set_conn g (\<lambda>cn. case bc_queue cn of
      [] \<Rightarrow> cn
    | cmd # cmds \<Rightarrow> cn \<lparr> bc_queue := cmds, bc_stdin := bc_stdin cn @ [json_of_command cmd] \<rparr>)"

definition stop_writing :: "nat \<Rightarrow> bridge \<Rightarrow> bridge" where
  "stop_writing g = set_conn g (\<lambda>cn. cn \<lparr> bc_writer := False, bc_queue := [] \<rparr>)"

definition worker_send :: "worker_message \<Rightarrow> bridge_conn \<Rightarrow> bridge_conn" where
  "worker_send m cn = cn \<lparr> bc_messages := bc_messages cn @ [m], bc_sent := bc_sent cn @ [m] \<rparr>"

definition ack_of :: "u64 \<Rightarrow> unit result \<Rightarrow> worker_message" where
  "ack_of i r = Ack i (case r of Inr _ \<Rightarrow> True | Inl _ \<Rightarrow> False) (case r of Inr _ \<Rightarrow> None | Inl e \<Rightarrow> Some e)"

text \<open>\<open>perform\<close> is what the provider's runner does with a command, its error prefixed by the operation.\<close>

fun failed_prefix :: "worker_command \<Rightarrow> string" where
  "failed_prefix (SendAudio _ _) = ''send_audio failed: ''"
| "failed_prefix (SendText _ _) = ''send_text failed: ''"
| "failed_prefix (CommitAudio _) = ''commit_audio failed: ''"
| "failed_prefix (CreateResponse _) = ''create_response failed: ''"
| "failed_prefix (InterruptResponse _) = ''interrupt_response failed: ''"
| "failed_prefix (CloseWorker _) = ''close failed: ''"

definition command_result :: "worker_command \<Rightarrow> unit result \<Rightarrow> unit result" where
  "command_result cmd r = (case r of Inr _ \<Rightarrow> Inr () | Inl e \<Rightarrow> Inl (failed_prefix cmd @ e))"

definition worker_line :: "string \<Rightarrow> (worker_command \<Rightarrow> unit result) \<Rightarrow> json \<Rightarrow> bridge_conn \<Rightarrow> bridge_conn" where
  "worker_line parse_error perform line cn =
     (case command_of_json line of
        None \<Rightarrow> worker_send (RuntimeError (''Invalid docker runtime worker command: '' @ parse_error)) cn
      | Some cmd \<Rightarrow>
          (let r = command_result cmd (perform cmd);
               cn = worker_send (ack_of (command_id cmd) r) (cn \<lparr> bc_done := bc_done cn @ [(cmd, r)] \<rparr>)
           in case cmd of CloseWorker _ \<Rightarrow> cn \<lparr> bc_alive := False \<rparr> | _ \<Rightarrow> cn))"

definition worker_read :: "string \<Rightarrow> (worker_command \<Rightarrow> unit result) \<Rightarrow> bridge_conn \<Rightarrow> bridge_conn" where
  "worker_read parse_error perform cn =
     (case bc_stdin cn of
        [] \<Rightarrow> cn
      | line # lines \<Rightarrow> worker_line parse_error perform line (cn \<lparr> bc_stdin := lines \<rparr>))"

text \<open>The messages of the worker that are no acknowledgements: its start, the provider's events, its errors.\<close>

fun spontaneous :: "worker_message \<Rightarrow> bool" where
  "spontaneous (Ack _ _ _) = False"
| "spontaneous _ = True"

definition worker_event :: "bridge_event \<Rightarrow> worker_message" where
  "worker_event ev =
     (case ev of
        AudioEvent audio item \<Rightarrow> AudioOutput (app_base64_encode audio) item
      | TextEvent t item \<Rightarrow> TextOutput t item
      | TranscriptEvent t item \<Rightarrow> TranscriptOutput t item)"

definition worker_write :: "bridge_conn \<Rightarrow> bridge_conn" where
  "worker_write cn =
     (case bc_messages cn of
        [] \<Rightarrow> cn
      | m # ms \<Rightarrow> cn \<lparr> bc_messages := ms, bc_output := bc_output cn @ [json_of_worker_message m] \<rparr>)"

definition worker_exit :: "bridge_conn \<Rightarrow> bridge_conn" where
  "worker_exit cn = cn \<lparr> bc_alive := False, bc_messages := [] \<rparr>"

end
