(* ===== verification/Docker_Runs.thy ===== *)
theory Docker_Runs
  imports Docker_Bridge
begin

section \<open>Runs of the bridge\<close>

text \<open>
  The step relation of the container bridge, its invariants and its properties: the table of pending
  acknowledgements holds every call that waits and else only calls that gave up or were dropped, a call that
  succeeds was performed by the worker, and what becomes of the calls of a connection whose run loop has ended.
\<close>

subsection \<open>Steps\<close>

text \<open>
  One constructor for each atomic step of a task. The caller of \<open>connect\<close> and of \<open>run\<close> is one task, the
  session's loop, so their steps do not interleave with each other.
\<close>

inductive bridge_step :: "bridge_env \<Rightarrow> bridge \<Rightarrow> bridge \<Rightarrow> bool" for env where
  start: "bridge_step env b (start_call rq b)"
| clone: "br_calls b c = Some ca \<Longrightarrow> ca_phase ca = Fetched \<Longrightarrow> bridge_step env b (clone_connection c b)"
| register: "br_calls b c = Some ca \<Longrightarrow> ca_phase ca = Cloned \<Longrightarrow> bridge_step env b (register_call c ca b)"
| send: "br_calls b c = Some ca \<Longrightarrow> ca_phase ca = Registered \<Longrightarrow> bridge_step env b (send_call c ca b)"
| receive: "br_calls b c = Some ca \<Longrightarrow> ca_phase ca = Waiting \<Longrightarrow> ca_answer ca \<noteq> Open \<Longrightarrow>
    bridge_step env b (receive_answer c ca b)"
| unsent: "br_calls b c = Some ca \<Longrightarrow> ca_phase ca = Unsent \<Longrightarrow> bridge_step env b (send_failed c ca b)"
| expire: "br_calls b c = Some ca \<Longrightarrow> ca_phase ca = Waiting \<Longrightarrow> ca_answer ca = Open \<Longrightarrow>
    bridge_step env b (ack_expire c b)"
| expired: "br_calls b c = Some ca \<Longrightarrow> ca_phase ca = Expired \<Longrightarrow> bridge_step env b (ack_timeout c ca b)"
| cancel: "br_calls b c = Some ca \<Longrightarrow> ca_phase ca \<in> {Fetched, Cloned, Waiting, Unsent, Expired} \<Longrightarrow>
    bridge_step env b (cancel_call c b)"
| connect: "br_run b = NotRunning \<Longrightarrow> bridge_connect spawned b = (r, b') \<Longrightarrow> bridge_step env b b'"
| run: "br_run b = NotRunning \<Longrightarrow> run_begin b = (r, b') \<Longrightarrow> bridge_step env b b'"
| line: "br_run b = Reading g \<Longrightarrow> br_conns b g = Some cn \<Longrightarrow> bc_output cn = l # ls \<Longrightarrow>
    bridge_step env b (run_line env g l b)"
| stop: "br_run b = Reading g \<Longrightarrow> bridge_step env b (run_stop e b)"
| finish: "br_run b = Failing e \<Longrightarrow> run_finish e b = (r, b') \<Longrightarrow> bridge_step env b b'"
| close: "bridge_step env b (close_take b)"
| close_send: "br_closing b g = Some (Closing i) \<Longrightarrow> bridge_step env b (close_send g i b)"
| close_finish: "br_closing b g = Some Killing \<Longrightarrow> bridge_step env b (close_finish g b)"
| writes: "bridge_step env b (write_command g b)"
| stop_writing: "bridge_step env b (stop_writing g b)"
| worker_read: "br_conns b g = Some cn \<Longrightarrow> bc_alive cn \<Longrightarrow> bridge_step env b (set_conn g (worker_read pe perform) b)"
| worker_says: "br_conns b g = Some cn \<Longrightarrow> bc_alive cn \<Longrightarrow> spontaneous m \<Longrightarrow> bridge_step env b (set_conn g (worker_send m) b)"
| worker_write: "bridge_step env b (set_conn g worker_write b)"
| worker_exit: "bridge_step env b (set_conn g worker_exit b)"

text \<open>The states after at most \<open>n\<close> steps.\<close>

inductive bridge_steps :: "bridge_env \<Rightarrow> nat \<Rightarrow> bridge \<Rightarrow> bridge \<Rightarrow> bool" for env where
  none: "bridge_steps env 0 b b"
| more: "bridge_steps env n b b' \<Longrightarrow> bridge_step env b' b'' \<Longrightarrow> bridge_steps env (Suc n) b b''"

subsection \<open>What the operations do to calls and tables\<close>

text \<open>The entry a call listens on, and the entry it may have: also one that it left behind.\<close>

definition listens :: "bridge_call \<Rightarrow> bool" where
  "listens ca \<longleftrightarrow> ca_phase ca \<in> {Registered, Waiting, Unsent} \<and> ca_answer ca = Open"

definition left_entry :: "bridge_call \<Rightarrow> bool" where
  "left_entry ca \<longleftrightarrow> ca_phase ca \<in> {Expired, Cancelled} \<and> ca_answer ca = Closed"

definition call_entry :: "(bridge_call \<Rightarrow> bool) \<Rightarrow> bridge \<Rightarrow> nat \<Rightarrow> (nat \<times> u64) option" where
  "call_entry P b c =
     (case br_calls b c of
        None \<Rightarrow> None
      | Some ca \<Rightarrow> (if P ca then Some (ca_conn ca, command_id (ca_command ca)) else None))"

abbreviation listening :: "bridge \<Rightarrow> nat \<Rightarrow> (nat \<times> u64) option" where
  "listening \<equiv> call_entry listens"

abbreviation holding :: "bridge \<Rightarrow> nat \<Rightarrow> (nat \<times> u64) option" where
  "holding \<equiv> call_entry (\<lambda>ca. listens ca \<or> left_entry ca)"

lemma listening_holding: "listening b c = Some k \<Longrightarrow> holding b c = Some k"
  by (auto simp: call_entry_def split: option.splits if_splits)

lemma set_call_fields [simp]:
  "br_conns (set_call c f b) = br_conns b" "br_connection (set_call c f b) = br_connection b"
  "br_spawned (set_call c f b) = br_spawned b" "br_started (set_call c f b) = br_started b"
  "br_next_command_id (set_call c f b) = br_next_command_id b" "br_run (set_call c f b) = br_run b"
  "br_closing (set_call c f b) = br_closing b" "br_events (set_call c f b) = br_events b"
  by (simp_all add: set_call_def)

lemma set_conn_fields [simp]:
  "br_calls (set_conn g f b) = br_calls b" "br_connection (set_conn g f b) = br_connection b"
  "br_spawned (set_conn g f b) = br_spawned b" "br_started (set_conn g f b) = br_started b"
  "br_next_command_id (set_conn g f b) = br_next_command_id b" "br_run (set_conn g f b) = br_run b"
  "br_closing (set_conn g f b) = br_closing b" "br_events (set_conn g f b) = br_events b"
  by (simp_all add: set_conn_def)

lemma answer_call_fields [simp]:
  "br_conns (answer_call c a b) = br_conns b" "br_connection (answer_call c a b) = br_connection b"
  "br_spawned (answer_call c a b) = br_spawned b" "br_started (answer_call c a b) = br_started b"
  "br_next_command_id (answer_call c a b) = br_next_command_id b" "br_run (answer_call c a b) = br_run b"
  "br_closing (answer_call c a b) = br_closing b" "br_events (answer_call c a b) = br_events b"
  by (simp_all add: answer_call_def split: option.split)

lemma take_pending_fields [simp]:
  "br_connection (take_pending g i a b) = br_connection b" "br_spawned (take_pending g i a b) = br_spawned b"
  "br_started (take_pending g i a b) = br_started b" "br_next_command_id (take_pending g i a b) = br_next_command_id b"
  "br_run (take_pending g i a b) = br_run b" "br_closing (take_pending g i a b) = br_closing b"
  "br_events (take_pending g i a b) = br_events b"
  by (simp_all add: take_pending_def put_pending_def)

lemma drain_pending_fields [simp]:
  "br_connection (drain_pending g r b) = br_connection b" "br_spawned (drain_pending g r b) = br_spawned b"
  "br_started (drain_pending g r b) = br_started b" "br_next_command_id (drain_pending g r b) = br_next_command_id b"
  "br_run (drain_pending g r b) = br_run b" "br_closing (drain_pending g r b) = br_closing b"
  "br_events (drain_pending g r b) = br_events b"
  by (simp_all add: drain_pending_def)

lemma pending_of_simps [simp]:
  "pending_of g i (set_call c f b) = pending_of g i b"
  "pending_of g i (answer_call c' a b) = pending_of g i b"
  "pending_of g i (b \<lparr> br_run := x \<rparr>) = pending_of g i b"
  "pending_of g i (b \<lparr> br_connection := y \<rparr>) = pending_of g i b"
  "pending_of g i (b \<lparr> br_events := z \<rparr>) = pending_of g i b"
  "pending_of g i (b \<lparr> br_closing := u \<rparr>) = pending_of g i b"
  "pending_of g i (b \<lparr> br_calls := v \<rparr>) = pending_of g i b"
  "pending_of g i (b \<lparr> br_started := n \<rparr>) = pending_of g i b"
  "pending_of g i (b \<lparr> br_next_command_id := k \<rparr>) = pending_of g i b"
  by (simp_all add: pending_of_def)

lemma pending_of_set_conn [simp]:
  "(\<And>cn. bc_pending (f cn) = bc_pending cn) \<Longrightarrow> pending_of g i (set_conn g' f b) = pending_of g i b"
  by (simp add: pending_of_def set_conn_def split: option.split)

lemma pending_of_put:
  "pending_of g' i' (put_pending g i v b) =
     (if g' = g \<and> i' = i \<and> br_conns b g \<noteq> None then v else pending_of g' i' b)"
  by (auto simp: pending_of_def put_pending_def set_conn_def split: option.split)

lemma pending_of_no_conn: "br_conns b g = None \<Longrightarrow> pending_of g i b = None"
  by (simp add: pending_of_def)

lemma pending_of_take [simp]:
  "pending_of g' i' (take_pending g i a b) = (if g' = g \<and> i' = i then None else pending_of g' i' b)"
  by (auto simp: take_pending_def pending_of_put pending_of_no_conn)

lemma pending_of_drain [simp]:
  "pending_of g' i (drain_pending g r b) = (if g' = g then None else pending_of g' i b)"
  by (auto simp: drain_pending_def set_conn_def pending_of_def split: option.split)

lemma call_entry_simps [simp]:
  "call_entry P (set_conn g f b) = call_entry P b" "call_entry P (put_pending g i v b) = call_entry P b"
  "call_entry P (b \<lparr> br_run := x \<rparr>) = call_entry P b" "call_entry P (b \<lparr> br_connection := y \<rparr>) = call_entry P b"
  "call_entry P (b \<lparr> br_events := z \<rparr>) = call_entry P b" "call_entry P (b \<lparr> br_closing := u \<rparr>) = call_entry P b"
  "call_entry P (b \<lparr> br_started := n \<rparr>) = call_entry P b" "call_entry P (b \<lparr> br_next_command_id := k \<rparr>) = call_entry P b"
  "call_entry P (b \<lparr> br_conns := m \<rparr>) = call_entry P b" "call_entry P (b \<lparr> br_spawned := j \<rparr>) = call_entry P b"
  by (simp_all add: call_entry_def fun_eq_iff put_pending_def)

lemma call_entry_other [simp]: "c' \<noteq> c \<Longrightarrow> call_entry P (set_call c f b) c' = call_entry P b c'"
  by (simp add: call_entry_def set_call_def)

lemma call_entry_set_call:
  "call_entry P (set_call c f b) c =
     (case br_calls b c of None \<Rightarrow> None
      | Some ca \<Rightarrow> if P (f ca) then Some (ca_conn (f ca), command_id (ca_command (f ca))) else None)"
  by (simp add: call_entry_def set_call_def split: option.split)

lemma call_entry_answer [simp]: "d \<noteq> Some c \<Longrightarrow> call_entry P (answer_call d a b) c = call_entry P b c"
  by (cases d) (auto simp: answer_call_def)

lemma listening_answered [simp]: "a \<noteq> Open \<Longrightarrow> listening (answer_call (Some c) a b) c = None"
  by (auto simp: answer_call_def call_entry_set_call listens_def split: option.split)

lemma call_entry_take [simp]:
  "pending_of g i b \<noteq> Some c \<Longrightarrow> call_entry P (take_pending g i a b) c = call_entry P b c"
  by (simp add: take_pending_def)

lemma listening_taken: "a \<noteq> Open \<Longrightarrow> pending_of g i b = Some c \<Longrightarrow> listening (take_pending g i a b) c = None"
  by (simp add: take_pending_def)

lemma call_entry_drain:
  "(\<And>i. pending_of g i b \<noteq> Some c) \<Longrightarrow> call_entry P (drain_pending g r b) c = call_entry P b c"
  by (auto simp: drain_pending_def call_entry_def split: option.split)

lemma listening_drained:
  "listening b c = Some (g, i) \<Longrightarrow> pending_of g i b = Some c \<Longrightarrow> listening (drain_pending g r b) c = None"
  by (auto simp: drain_pending_def call_entry_def listens_def split: option.splits if_splits)

lemma listening_drain_mono: "listening (drain_pending g r b) c = Some k \<Longrightarrow> listening b c = Some k"
  by (auto simp: drain_pending_def call_entry_def listens_def split: option.splits if_splits)

subsection \<open>The table of pending acknowledgements\<close>

text \<open>
  The invariant of the tables: a call that listens has its entry, and an entry is of a call that listens or that has
  left it behind.
\<close>

definition tables_ok :: "bridge \<Rightarrow> bool" where
  "tables_ok b \<longleftrightarrow> (\<forall>g i c. (pending_of g i b = Some c \<longrightarrow> holding b c = Some (g, i)) \<and>
     (listening b c = Some (g, i) \<longrightarrow> pending_of g i b = Some c))"

lemma tables_okD:
  assumes "tables_ok b"
  shows "pending_of g i b = Some c \<Longrightarrow> holding b c = Some (g, i)"
    "listening b c = Some (g, i) \<Longrightarrow> pending_of g i b = Some c"
  using assms by (simp_all add: tables_ok_def)

lemma tables_okI:
  "(\<And>g i c. pending_of g i b = Some c \<Longrightarrow> holding b c = Some (g, i)) \<Longrightarrow>
   (\<And>g i c. listening b c = Some (g, i) \<Longrightarrow> pending_of g i b = Some c) \<Longrightarrow> tables_ok b"
  by (simp add: tables_ok_def)

lemma tables_ok_unique:
  assumes "tables_ok b" "pending_of g i b = Some c" "pending_of g' i' b = Some c"
  shows "g' = g \<and> i' = i"
  using tables_okD(1) [OF assms(1,2)] tables_okD(1) [OF assms(1,3)] by simp

lemma no_entry: "tables_ok b \<Longrightarrow> holding b c = None \<Longrightarrow> pending_of g i b \<noteq> Some c"
  by (auto dest: tables_okD)

lemma tables_ok_frame:
  "tables_ok b \<Longrightarrow> (\<And>g i. pending_of g i b' = pending_of g i b) \<Longrightarrow> (\<And>c. listening b' c = listening b c) \<Longrightarrow>
   (\<And>c. holding b' c = holding b c) \<Longrightarrow> tables_ok b'"
  by (simp add: tables_ok_def)

lemma tables_ok_take:
  assumes t: "tables_ok b" and a: "a \<noteq> Open"
  shows "tables_ok (take_pending g i a b)"
proof (rule tables_okI)
  fix g' i' c assume p: "pending_of g' i' (take_pending g i a b) = Some c"
  then have old: "pending_of g' i' b = Some c" "\<not> (g' = g \<and> i' = i)" by (simp_all split: if_splits)
  with tables_ok_unique [OF t old(1)] have "pending_of g i b \<noteq> Some c" by blast
  with tables_okD(1) [OF t old(1)] show "holding (take_pending g i a b) c = Some (g', i')" by simp
next
  fix g' i' c assume l: "listening (take_pending g i a b) c = Some (g', i')"
  then have n: "pending_of g i b \<noteq> Some c" using listening_taken [OF a, of g i b c] by auto
  with l have "pending_of g' i' b = Some c" by (simp add: tables_okD(2) [OF t])
  with n show "pending_of g' i' (take_pending g i a b) = Some c" by auto
qed

lemma tables_ok_drain:
  assumes t: "tables_ok b"
  shows "tables_ok (drain_pending g r b)"
proof (rule tables_okI)
  fix g' i c assume p: "pending_of g' i (drain_pending g r b) = Some c"
  then have old: "pending_of g' i b = Some c" "g' \<noteq> g" by (simp_all split: if_splits)
  with tables_ok_unique [OF t old(1)] have "pending_of g j b \<noteq> Some c" for j by blast
  with tables_okD(1) [OF t old(1)] show "holding (drain_pending g r b) c = Some (g', i)" by (simp add: call_entry_drain)
next
  fix g' i c assume l: "listening (drain_pending g r b) c = Some (g', i)"
  then have "listening b c = Some (g', i)" by (rule listening_drain_mono)
  moreover from this have p: "pending_of g' i b = Some c" by (rule tables_okD(2) [OF t])
  ultimately have "g' \<noteq> g" using l listening_drained [of b c g i r] by auto
  with p show "pending_of g' i (drain_pending g r b) = Some c" by simp
qed

text \<open>A call that goes on to where it does not listen: its entry is gone, or left behind.\<close>

lemma tables_ok_call:
  assumes t: "tables_ok b" and l: "listening (set_call c f b) c = None"
    and h: "\<And>g i. pending_of g i b = Some c \<Longrightarrow> holding (set_call c f b) c = Some (g, i)"
  shows "tables_ok (set_call c f b)"
proof (rule tables_okI)
  fix g i d assume "pending_of g i (set_call c f b) = Some d"
  with h tables_okD(1) [OF t] show "holding (set_call c f b) d = Some (g, i)" by (cases "d = c") auto
next
  fix g i d assume "listening (set_call c f b) d = Some (g, i)"
  with l tables_okD(2) [OF t] show "pending_of g i (set_call c f b) = Some d" by (cases "d = c") auto
qed

lemma no_entry_after_take:
  assumes "tables_ok b" "br_calls b c = Some ca"
  shows "pending_of g i (take_pending (ca_conn ca) (command_id (ca_command ca)) a b) \<noteq> Some c"
proof
  assume "pending_of g i (take_pending (ca_conn ca) (command_id (ca_command ca)) a b) = Some c"
  then have p: "pending_of g i b = Some c" and n: "\<not> (g = ca_conn ca \<and> i = command_id (ca_command ca))" by (simp_all split: if_splits)
  from tables_okD(1) [OF assms(1) p] assms(2) n show False by (auto simp: call_entry_def split: if_splits)
qed

lemma set_call_calls [simp]: "br_calls (set_call c f b) = (br_calls b)(c := map_option f (br_calls b c))"
  by (simp add: set_call_def)

lemma set_conn_conns [simp]: "br_conns (set_conn g f b) = (br_conns b)(g := map_option f (br_conns b g))"
  by (simp add: set_conn_def)

text \<open>
  Calls go on as they were, except that some that listen have been answered \<open>a\<close>; no connection comes or goes.
\<close>

definition calls_kept :: "call_answer \<Rightarrow> bridge \<Rightarrow> bridge \<Rightarrow> bool" where
  "calls_kept a b b' \<longleftrightarrow>
     (\<forall>c ca'. br_calls b' c = Some ca' \<longrightarrow>
        (\<exists>ca. br_calls b c = Some ca \<and>
           (ca' = ca \<or> ca' = ca \<lparr> ca_answer := a \<rparr> \<and> listening b c \<noteq> None))) \<and>
     (\<forall>g. br_conns b' g = None \<longleftrightarrow> br_conns b g = None)"

lemma calls_kept_refl [simp]: "calls_kept a b b"
  by (simp add: calls_kept_def)

lemma calls_kept_fields [simp]:
  "calls_kept a b (b' \<lparr> br_run := x \<rparr>) \<longleftrightarrow> calls_kept a b b'" "calls_kept a b (b' \<lparr> br_connection := y \<rparr>) \<longleftrightarrow> calls_kept a b b'"
  "calls_kept a b (b' \<lparr> br_events := z \<rparr>) \<longleftrightarrow> calls_kept a b b'" "calls_kept a b (b' \<lparr> br_closing := u \<rparr>) \<longleftrightarrow> calls_kept a b b'"
  "calls_kept a b (b' \<lparr> br_next_command_id := k \<rparr>) \<longleftrightarrow> calls_kept a b b'"
  "calls_kept a b (set_conn g f b') \<longleftrightarrow> calls_kept a b b'" "calls_kept a b (put_pending g i v b') \<longleftrightarrow> calls_kept a b b'"
  by (auto simp: calls_kept_def put_pending_def)

lemma calls_kept_from [simp]:
  "calls_kept a (b \<lparr> br_run := x \<rparr>) b' \<longleftrightarrow> calls_kept a b b'" "calls_kept a (b \<lparr> br_connection := y \<rparr>) b' \<longleftrightarrow> calls_kept a b b'"
  "calls_kept a (b \<lparr> br_closing := u \<rparr>) b' \<longleftrightarrow> calls_kept a b b'" "calls_kept a (set_conn g f b) b' \<longleftrightarrow> calls_kept a b b'"
  by (auto simp: calls_kept_def)

lemma calls_kept_answer:
  "tables_ok b \<Longrightarrow> calls_kept a b (answer_call (pending_of g i b) a b)"
proof (cases "pending_of g i b")
  case (Some d)
  moreover assume "tables_ok b"
  ultimately have "holding b d = Some (g, i)" by (simp add: tables_okD)
  with Some show ?thesis
    by (auto simp: calls_kept_def answer_call_def call_entry_def listens_def left_entry_def split: if_splits option.splits)
qed (simp add: answer_call_def)

lemma calls_kept_take: "tables_ok b \<Longrightarrow> calls_kept a b (take_pending g i a b)"
  by (simp add: take_pending_def calls_kept_answer)

lemma calls_kept_drain: "tables_ok b \<Longrightarrow> calls_kept (Got r) b (drain_pending g r b)"
  by (auto simp: calls_kept_def drain_pending_def call_entry_def listens_def left_entry_def dest!: tables_okD(1)
      split: option.splits if_splits)

definition call_ok :: "bridge \<Rightarrow> nat \<Rightarrow> bridge_call \<Rightarrow> bool" where
  "call_ok b c ca \<longleftrightarrow> c < br_started b \<and>
     (ca_phase ca \<in> {Fetched, Cloned} \<longrightarrow> ca_answer ca = Open) \<and>
     (ca_phase ca \<in> {Cloned, Registered, Waiting, Unsent, Expired} \<longrightarrow> br_conns b (ca_conn ca) \<noteq> None)"

definition bridge_inv :: "bridge \<Rightarrow> bool" where
  "bridge_inv b \<longleftrightarrow> tables_ok b \<and> (\<forall>c ca. br_calls b c = Some ca \<longrightarrow> call_ok b c ca) \<and>
     (\<forall>g. br_connection b = Some g \<longrightarrow> br_conns b g \<noteq> None) \<and>
     (\<forall>g. br_conns b g \<noteq> None \<longrightarrow> g < br_spawned b)"

lemma bridge_invD:
  assumes "bridge_inv b"
  shows "tables_ok b" "br_calls b c = Some ca \<Longrightarrow> call_ok b c ca" "br_connection b = Some g \<Longrightarrow> br_conns b g \<noteq> None"
    "br_conns b g \<noteq> None \<Longrightarrow> g < br_spawned b"
  using assms by (simp_all add: bridge_inv_def)

lemma bridge_inv_kept:
  assumes "bridge_inv b" "calls_kept a b b'" "tables_ok b'"
    and "br_started b' = br_started b" "br_spawned b' = br_spawned b" "br_connection b' \<in> {br_connection b, None}"
  shows "bridge_inv b'"
  unfolding bridge_inv_def
proof (intro conjI allI impI)
  fix c ca' assume "br_calls b' c = Some ca'"
  with assms(2) obtain ca where ca: "br_calls b c = Some ca" "ca' = ca \<or> ca' = ca \<lparr> ca_answer := a \<rparr> \<and> listening b c \<noteq> None"
    unfolding calls_kept_def by blast
  from bridge_invD(2) [OF assms(1) ca(1)] have "call_ok b c ca" .
  with ca assms(2,4) show "call_ok b' c ca'"
    by (auto simp: call_ok_def calls_kept_def call_entry_def listens_def split: if_splits)
next
  show "tables_ok b'" by (rule assms(3))
next
  fix g assume "br_connection b' = Some g"
  with assms(2,6) bridge_invD(3) [OF assms(1)] show "br_conns b' g \<noteq> None" by (auto simp: calls_kept_def)
next
  fix g assume "br_conns b' g \<noteq> None"
  with assms(2,5) bridge_invD(4) [OF assms(1)] show "g < br_spawned b'" by (auto simp: calls_kept_def)
qed

text \<open>A call goes to its next phase.\<close>

lemma bridge_inv_call:
  assumes "bridge_inv b" "tables_ok (set_call c f b)" "\<And>ca. br_calls b c = Some ca \<Longrightarrow> call_ok b c (f ca)"
  shows "bridge_inv (set_call c f b)"
  unfolding bridge_inv_def
proof (intro conjI allI impI)
  fix d ca assume "br_calls (set_call c f b) d = Some ca"
  with assms(3) bridge_invD(2) [OF assms(1)] show "call_ok (set_call c f b) d ca"
    by (auto simp: call_ok_def split: if_splits)
qed (use assms(2) bridge_invD [OF assms(1)] in auto)

lemma bridge_inv_return:
  assumes "bridge_inv b" "\<And>g i. pending_of g i b \<noteq> Some c"
  shows "bridge_inv (set_call c (\<lambda>ca. ca \<lparr> ca_phase := Returned r \<rparr>) b)"
  using assms bridge_invD(2) [OF assms(1)]
  by (intro bridge_inv_call tables_ok_call)
    (auto simp: call_ok_def bridge_invD call_entry_set_call listens_def split: option.split)

lemma bridge_inv_take: "bridge_inv b \<Longrightarrow> a \<noteq> Open \<Longrightarrow> bridge_inv (take_pending g i a b)"
  by (rule bridge_inv_kept [OF _ calls_kept_take tables_ok_take]) (auto simp: bridge_invD)

lemma bridge_inv_drain: "bridge_inv b \<Longrightarrow> bridge_inv (drain_pending g r b)"
  by (rule bridge_inv_kept [OF _ calls_kept_drain tables_ok_drain]) (auto simp: bridge_invD)

lemma bridge_inv_frame:
  assumes "bridge_inv b" "calls_kept Open b b'" "\<And>g i. pending_of g i b' = pending_of g i b" "br_calls b' = br_calls b"
    and "br_started b' = br_started b" "br_spawned b' = br_spawned b" "br_connection b' \<in> {br_connection b, None}"
  shows "bridge_inv b'"
proof -
  have "call_entry P b' c = call_entry P b c" for P c by (simp add: call_entry_def assms(4))
  from bridge_inv_kept [OF assms(1,2) tables_ok_frame [OF bridge_invD(1) [OF assms(1)] assms(3) this this] assms(5-7)]
  show ?thesis .
qed

lemma bridge_inv_fields:
  assumes "bridge_inv b"
  shows "bridge_inv (b \<lparr> br_run := x \<rparr>)" "bridge_inv (b \<lparr> br_connection := None \<rparr>)" "bridge_inv (b \<lparr> br_events := z \<rparr>)"
    "bridge_inv (b \<lparr> br_closing := u \<rparr>)" "bridge_inv (b \<lparr> br_next_command_id := k \<rparr>)"
  by (rule bridge_inv_frame [OF assms]; simp)+

lemma bridge_inv_set_conn:
  "bridge_inv b \<Longrightarrow> (\<And>cn. bc_pending (f cn) = bc_pending cn) \<Longrightarrow> bridge_inv (set_conn g f b)"
  by (erule bridge_inv_frame) simp_all

subsection \<open>Every step keeps the invariant\<close>

lemma entry_phase:
  "br_calls b c = Some ca \<Longrightarrow> \<not> P ca \<Longrightarrow> call_entry P b c = None"
  by (simp add: call_entry_def)

lemma start_call_inv:
  assumes "bridge_inv b"
  shows "bridge_inv (start_call rq b)"
proof -
  have new: "br_calls b (br_started b) = None"
    using bridge_invD(2) [OF assms, of "br_started b"] by (cases "br_calls b (br_started b)") (auto simp: call_ok_def)
  have e: "call_entry P (start_call rq b) c = call_entry P b c" if "\<And>ca. ca_phase ca = Fetched \<Longrightarrow> \<not> P ca" for P c
    using new that by (simp add: call_entry_def start_call_def)
  have p: "pending_of g i (start_call rq b) = pending_of g i b" for g i
    by (simp add: start_call_def pending_of_def)
  have "tables_ok (start_call rq b)"
    by (rule tables_ok_frame [OF bridge_invD(1) [OF assms] p]) (rule e, simp add: listens_def left_entry_def)+
  moreover have "call_ok (start_call rq b) c ca" if "br_calls (start_call rq b) c = Some ca" for c ca
    using that bridge_invD(2) [OF assms, of c ca] by (auto simp: start_call_def call_ok_def split: if_splits)
  moreover have "br_connection (start_call rq b) = br_connection b" "br_conns (start_call rq b) = br_conns b"
    "br_spawned (start_call rq b) = br_spawned b" by (simp_all add: start_call_def)
  ultimately show ?thesis using bridge_invD(3,4) [OF assms] by (simp add: bridge_inv_def)
qed

lemma clone_connection_inv:
  assumes "bridge_inv b" "br_calls b c = Some ca" "ca_phase ca = Fetched"
  shows "bridge_inv (clone_connection c b)"
proof (cases "br_connection b")
  case None
  have "holding b c = None" using assms(2,3) by (simp add: entry_phase listens_def left_entry_def)
  from no_entry [OF bridge_invD(1) [OF assms(1)] this] None assms(1) show ?thesis
    by (simp add: clone_connection_def bridge_inv_return)
next
  case (Some g)
  have "holding b c = None" using assms(2,3) by (simp add: entry_phase listens_def left_entry_def)
  from no_entry [OF bridge_invD(1) [OF assms(1)] this]
  have "tables_ok (set_call c (\<lambda>ca. ca \<lparr> ca_conn := g, ca_phase := Cloned \<rparr>) b)"
    using assms(2,3) by (intro tables_ok_call [OF bridge_invD(1) [OF assms(1)]]) (auto simp: call_entry_set_call listens_def)
  with bridge_invD [OF assms(1)] assms(2,3) Some show ?thesis
    by (auto simp: clone_connection_def call_ok_def intro!: bridge_inv_call [OF assms(1)])
qed

lemma register_call_inv:
  assumes "bridge_inv b" "br_calls b c = Some ca" "ca_phase ca = Cloned"
  shows "bridge_inv (register_call c ca b)"
proof -
  let ?g = "ca_conn ca" let ?i = "command_id (ca_command ca)"
  let ?b1 = "put_pending ?g ?i (Some c) (answer_call (pending_of ?g ?i b) Gone b)"
  note T = bridge_invD(1) [OF assms(1)]
  have ok: "ca_answer ca = Open" "br_conns b ?g \<noteq> None" "holding b c = None"
    using bridge_invD(2) [OF assms(1,2)] assms(2,3) by (auto simp: call_ok_def entry_phase listens_def left_entry_def)
  have not_c: "pending_of g i b \<noteq> Some c" for g i by (rule no_entry [OF T ok(3)])
  have calls: "br_calls ?b1 c = Some ca"
    using assms(2) not_c by (simp add: put_pending_def answer_call_def split: option.split)
  have p: "pending_of g i (register_call c ca b) = (if g = ?g \<and> i = ?i then Some c else pending_of g i b)" for g i
    using ok(2) by (simp add: register_call_def Let_def pending_of_put)
  have here: "call_entry P (register_call c ca b) c = Some (?g, ?i)" if "P (ca \<lparr> ca_phase := Registered \<rparr>)" for P
    unfolding register_call_def Let_def call_entry_set_call calls using that by simp
  have there: "call_entry P (register_call c ca b) d = call_entry P b d" if "d \<noteq> c" "pending_of ?g ?i b \<noteq> Some d" for P d
    unfolding register_call_def Let_def using that by simp
  have t: "tables_ok (register_call c ca b)"
  proof (rule tables_okI)
    fix g i d assume "pending_of g i (register_call c ca b) = Some d"
    then consider "g = ?g" "i = ?i" "d = c" | "\<not> (g = ?g \<and> i = ?i)" "pending_of g i b = Some d"
      unfolding p by (auto split: if_splits)
    then show "holding (register_call c ca b) d = Some (g, i)"
    proof cases
      case 1
      have "holding (register_call c ca b) c = Some (?g, ?i)" by (rule here) (simp add: listens_def ok(1))
      with 1 show ?thesis by simp
    next
      case 2
      then have "d \<noteq> c" "pending_of ?g ?i b \<noteq> Some d" using not_c tables_ok_unique [OF T 2(2)] by blast+
      with tables_okD(1) [OF T 2(2)] show ?thesis by (simp add: there)
    qed
  next
    fix g i d assume l: "listening (register_call c ca b) d = Some (g, i)"
    show "pending_of g i (register_call c ca b) = Some d"
    proof (cases "d = c")
      case True
      have "listening (register_call c ca b) c = Some (?g, ?i)" by (rule here) (simp add: listens_def ok(1))
      with True l p show ?thesis by simp
    next
      case False
      have "pending_of ?g ?i b \<noteq> Some d"
        using l False listening_answered [of Gone d b] by (auto simp: register_call_def Let_def)
      with l False there have "pending_of g i b = Some d" by (simp add: tables_okD(2) [OF T])
      with \<open>pending_of ?g ?i b \<noteq> Some d\<close> p show ?thesis by auto
    qed
  qed
  have kept: "calls_kept Gone b ?b1" by (simp add: calls_kept_answer bridge_invD(1) [OF assms(1)])
  have conns: "br_conns (register_call c ca b) g = None \<longleftrightarrow> br_conns b g = None" for g
    by (simp add: register_call_def Let_def put_pending_def)
  have same: "br_connection (register_call c ca b) = br_connection b" "br_spawned (register_call c ca b) = br_spawned b"
    by (simp_all add: register_call_def Let_def put_pending_def)
  show ?thesis
    unfolding bridge_inv_def conns same
  proof (intro conjI allI impI)
    show "tables_ok (register_call c ca b)" by (rule t)
  next
    fix d ca' assume d: "br_calls (register_call c ca b) d = Some ca'"
    show "call_ok (register_call c ca b) d ca'"
    proof (cases "d = c")
      case True
      with d calls have "ca' = ca \<lparr> ca_phase := Registered \<rparr>" by (simp add: register_call_def Let_def)
      with True ok bridge_invD(2) [OF assms(1,2)] conns show ?thesis
        by (simp add: call_ok_def register_call_def Let_def put_pending_def)
    next
      case False
      with d have "br_calls ?b1 d = Some ca'" by (simp add: register_call_def Let_def)
      with kept obtain cb where cb: "br_calls b d = Some cb" "ca' = cb \<or> ca' = cb \<lparr> ca_answer := Gone \<rparr> \<and> listening b d \<noteq> None"
        unfolding calls_kept_def by blast
      with bridge_invD(2) [OF assms(1) cb(1)] conns show ?thesis
        by (auto simp: call_ok_def register_call_def Let_def put_pending_def call_entry_def listens_def split: if_splits)
    qed
  qed (use bridge_invD [OF assms(1)] in auto)
qed

text \<open>A call that listens goes on listening.\<close>

lemma bridge_inv_listens:
  assumes "bridge_inv b" "br_calls b c = Some ca" "ca_phase ca = Registered" "p \<in> {Waiting, Unsent}"
  shows "bridge_inv (set_call c (\<lambda>ca. ca \<lparr> ca_phase := p \<rparr>) b)"
proof -
  have "call_entry P (set_call c (\<lambda>ca. ca \<lparr> ca_phase := p \<rparr>) b) d = call_entry P b d"
    if "P (ca \<lparr> ca_phase := p \<rparr>) = P ca" for P d
    using assms(2) that by (cases "d = c") (simp_all add: call_entry_set_call call_entry_def)
  then have "tables_ok (set_call c (\<lambda>ca. ca \<lparr> ca_phase := p \<rparr>) b)"
    using assms(3,4) by (intro tables_ok_frame [OF bridge_invD(1) [OF assms(1)]]) (auto simp: listens_def left_entry_def)
  with assms bridge_invD(2) [OF assms(1,2)] show ?thesis by (intro bridge_inv_call) (auto simp: call_ok_def)
qed

lemma send_call_inv:
  assumes "bridge_inv b" "br_calls b c = Some ca" "ca_phase ca = Registered"
  shows "bridge_inv (send_call c ca b)"
  using assms
  by (auto simp: send_call_def Let_def intro!: bridge_inv_listens bridge_inv_set_conn simp del: set_call_calls split: option.split)

lemma receive_answer_inv:
  assumes "bridge_inv b" "br_calls b c = Some ca" "ca_phase ca = Waiting" "ca_answer ca \<noteq> Open"
  shows "bridge_inv (receive_answer c ca b)"
proof -
  have "holding b c = None" using assms(2-4) by (simp add: entry_phase listens_def left_entry_def)
  from no_entry [OF bridge_invD(1) [OF assms(1)] this] assms(1) show ?thesis
    by (simp add: receive_answer_def bridge_inv_return split: call_answer.split)
qed

lemma give_up_inv:
  assumes "bridge_inv b" "br_calls b c = Some ca"
  shows "bridge_inv (give_up e c ca b)"
  using assms no_entry_after_take [OF bridge_invD(1) [OF assms(1)] assms(2)]
  unfolding give_up_def by (intro bridge_inv_return bridge_inv_take) simp_all

text \<open>A call that stops listening without its entry.\<close>

lemma leave_entry_inv:
  assumes "bridge_inv b" "br_calls b c = Some ca" "p = Cancelled \<or> p = Expired \<and> ca_phase ca = Waiting"
  shows "bridge_inv (set_call c (\<lambda>ca. ca \<lparr> ca_phase := p, ca_answer := Closed \<rparr>) b)"
proof -
  have "holding (set_call c (\<lambda>ca. ca \<lparr> ca_phase := p, ca_answer := Closed \<rparr>) b) c = Some (g, i)"
    if "pending_of g i b = Some c" for g i
    using tables_okD(1) [OF bridge_invD(1) [OF assms(1)] that] assms(2,3)
    by (auto simp: call_entry_def left_entry_def split: if_splits)
  moreover have "listening (set_call c (\<lambda>ca. ca \<lparr> ca_phase := p, ca_answer := Closed \<rparr>) b) c = None"
    by (simp add: call_entry_set_call listens_def split: option.split)
  ultimately show ?thesis
    using assms bridge_invD(2) [OF assms(1,2)]
    by (intro bridge_inv_call [OF assms(1)] tables_ok_call [OF bridge_invD(1) [OF assms(1)]]) (auto simp: call_ok_def)
qed

lemma ack_expire_inv: "bridge_inv b \<Longrightarrow> br_calls b c = Some ca \<Longrightarrow> ca_phase ca = Waiting \<Longrightarrow> bridge_inv (ack_expire c b)"
  unfolding ack_expire_def by (rule leave_entry_inv) simp_all

lemma cancel_call_inv: "bridge_inv b \<Longrightarrow> br_calls b c = Some ca \<Longrightarrow> bridge_inv (cancel_call c b)"
  unfolding cancel_call_def by (rule leave_entry_inv) simp_all

lemma bridge_connect_inv:
  assumes "bridge_inv b"
  shows "bridge_inv (snd (bridge_connect spawned b))"
proof (cases spawned)
  case (Inr u)
  let ?b = "b \<lparr> br_conns := (br_conns b)(br_spawned b \<mapsto> conn_new), br_spawned := br_spawned b + 1,
      br_connection := Some (br_spawned b) \<rparr>"
  have new: "br_conns b (br_spawned b) = None" using bridge_invD(4) [OF assms, of "br_spawned b"] by blast
  then have "tables_ok ?b"
    by (intro tables_ok_frame [OF bridge_invD(1) [OF assms]]) (auto simp: pending_of_def conn_new_def)
  with bridge_invD [OF assms] have "bridge_inv ?b"
    by (force simp: bridge_inv_def call_ok_def split: if_splits)
  with Inr assms show ?thesis by (simp add: bridge_connect_def)
qed (use assms in \<open>simp add: bridge_connect_def\<close>)

lemma run_begin_inv: "bridge_inv b \<Longrightarrow> bridge_inv (snd (run_begin b))"
  by (auto simp: run_begin_def intro!: bridge_inv_fields bridge_inv_set_conn split: option.split)

lemma run_stop_inv: "bridge_inv b \<Longrightarrow> bridge_inv (run_stop e b)"
  using bridge_inv_fields(1) [OF bridge_inv_fields(2)] by (simp add: run_stop_def)

lemma run_finish_inv: "bridge_inv b \<Longrightarrow> bridge_inv (snd (run_finish e b))"
  by (auto simp: run_finish_def fail_pending_acks_def intro!: bridge_inv_fields bridge_inv_drain split: option.split)

lemma on_worker_message_inv: "bridge_inv b \<Longrightarrow> bridge_inv (snd (on_worker_message env g m b))"
  by (auto simp: on_worker_message_def handle_event_def intro!: bridge_inv_take bridge_inv_fields
      split: worker_message.split option.split sum.split)

lemma run_line_inv:
  assumes "bridge_inv b"
  shows "bridge_inv (run_line env g l b)"
proof -
  let ?b = "set_conn g (\<lambda>cn. cn \<lparr> bc_output := tl (bc_output cn) \<rparr>) b"
  have i: "bridge_inv ?b" "bridge_inv (set_conn g (\<lambda>cn. cn \<lparr> bc_read := bc_read cn @ [m] \<rparr>) ?b)" for m
    using assms by (simp_all add: bridge_inv_set_conn)
  show ?thesis
  proof (cases "worker_message_of_json l")
    case (Some m)
    obtain r b' where r: "on_worker_message env g m (set_conn g (\<lambda>cn. cn \<lparr> bc_read := bc_read cn @ [m] \<rparr>) ?b) = (r, b')"
      by fastforce
    with on_worker_message_inv [OF i(2), of env g m m] have "bridge_inv b'" by simp
    with r Some show ?thesis by (simp add: run_line_def Let_def run_stop_inv split: sum.split)
  qed (use i(1) in \<open>simp add: run_line_def run_stop_inv\<close>)
qed

lemma close_inv:
  "bridge_inv b \<Longrightarrow> bridge_inv (close_take b)" "bridge_inv b \<Longrightarrow> bridge_inv (close_send g i b)"
  "bridge_inv b \<Longrightarrow> bridge_inv (close_finish g b)"
  by (auto simp: close_take_def close_send_def close_finish_def
      intro!: bridge_inv_drain bridge_inv_set_conn bridge_inv_fields bridge_inv_frame [of b] split: option.split)

lemma pipes_pending [simp]:
  "bc_pending (worker_read pe perform cn) = bc_pending cn" "bc_pending (worker_send m cn) = bc_pending cn"
  "bc_pending (worker_write cn) = bc_pending cn" "bc_pending (worker_exit cn) = bc_pending cn"
  by (auto simp: worker_read_def worker_line_def worker_send_def worker_write_def worker_exit_def Let_def
      split: list.split option.split worker_command.split)

lemma bridge_step_inv:
  assumes "bridge_step env b b'" "bridge_inv b"
  shows "bridge_inv b'"
  using assms(1)
proof cases
  case (connect spawned r)
  with bridge_connect_inv [OF assms(2), of spawned] show ?thesis by simp
next
  case (run r)
  with run_begin_inv [OF assms(2)] show ?thesis by simp
next
  case (finish e r)
  with run_finish_inv [OF assms(2), of e] show ?thesis by simp
next
  case (writes g)
  with assms(2) show ?thesis by (auto simp: write_command_def intro!: bridge_inv_set_conn split: list.split)
next
  case (stop_writing g)
  with assms(2) show ?thesis by (auto simp: stop_writing_def intro!: bridge_inv_set_conn)
qed (use assms(2) in \<open>simp_all add: start_call_inv clone_connection_inv register_call_inv send_call_inv receive_answer_inv
    give_up_inv send_failed_def ack_timeout_def ack_expire_inv cancel_call_inv run_line_inv run_stop_inv close_inv bridge_inv_set_conn\<close>)

lemma bridge_new_inv: "bridge_inv bridge_new"
  by (simp add: bridge_inv_def tables_ok_def pending_of_def call_entry_def bridge_new_def)

lemma bridge_steps_inv: "bridge_steps env n b b' \<Longrightarrow> bridge_inv b \<Longrightarrow> bridge_inv b'"
  by (induction rule: bridge_steps.induct) (simp_all add: bridge_step_inv)

subsection \<open>The pipes to the worker\<close>

text \<open>
  What holds of a connection: its lines are commands and messages, what the bridge read is a prefix of what
  the worker sent, and the worker acknowledges what it has done.
\<close>

definition in_order :: "bridge_conn \<Rightarrow> bool" where
  "in_order cn \<longleftrightarrow> (\<exists>out rest. bc_output cn = map json_of_worker_message out \<and>
     bc_sent cn = bc_read cn @ out @ bc_messages cn @ rest \<and> (bc_alive cn \<longrightarrow> rest = []))"

definition acks_done :: "worker_message list \<Rightarrow> (worker_command \<times> unit result) list \<Rightarrow> bool" where
  "acks_done ms ds \<longleftrightarrow> (\<forall>i ok e. Ack i ok e \<in> set ms \<longrightarrow> (\<exists>cmd r. (cmd, r) \<in> set ds \<and> command_id cmd = i \<and> ok = is_ok r))"

definition commands_only :: "json list \<Rightarrow> bool" where
  "commands_only ls \<longleftrightarrow> set ls \<subseteq> range json_of_command"

definition pipe_ok :: "bridge_conn \<Rightarrow> bool" where
  "pipe_ok cn \<longleftrightarrow> commands_only (bc_stdin cn) \<and> in_order cn \<and> acks_done (bc_sent cn) (bc_done cn)"

lemma in_orderI:
  "bc_output cn = map json_of_worker_message out \<Longrightarrow> bc_sent cn = bc_read cn @ out @ bc_messages cn @ rest \<Longrightarrow>
   (bc_alive cn \<Longrightarrow> rest = []) \<Longrightarrow> in_order cn"
  by (auto simp: in_order_def)

lemma in_order_fields [simp]:
  "in_order (cn \<lparr> bc_pending := x \<rparr>) = in_order cn" "in_order (cn \<lparr> bc_queue := q \<rparr>) = in_order cn"
  "in_order (cn \<lparr> bc_writer := w \<rparr>) = in_order cn" "in_order (cn \<lparr> bc_stdout := y \<rparr>) = in_order cn"
  "in_order (cn \<lparr> bc_stdin := ls \<rparr>) = in_order cn" "in_order (cn \<lparr> bc_done := ds \<rparr>) = in_order cn"
  by (simp_all add: in_order_def)

lemma in_orderE:
  assumes "in_order cn"
  obtains out rest where "bc_output cn = map json_of_worker_message out"
    "bc_sent cn = bc_read cn @ out @ bc_messages cn @ rest" "bc_alive cn \<longrightarrow> rest = []"
  using assms by (auto simp: in_order_def)

lemma acks_done_mono: "acks_done ms ds \<Longrightarrow> set ds \<subseteq> set ds' \<Longrightarrow> acks_done ms ds'"
  unfolding acks_done_def by blast

lemma acks_done_snoc:
  "acks_done (ms @ [m]) ds \<longleftrightarrow> acks_done ms ds \<and> acks_done [m] ds"
  by (simp add: acks_done_def, blast)

lemma acks_done_spontaneous: "spontaneous m \<Longrightarrow> acks_done [m] ds"
  by (auto simp: acks_done_def)

lemma pipe_ok_fields [simp]:
  "pipe_ok (cn \<lparr> bc_pending := x \<rparr>) = pipe_ok cn" "pipe_ok (cn \<lparr> bc_queue := q \<rparr>) = pipe_ok cn"
  "pipe_ok (cn \<lparr> bc_writer := w \<rparr>) = pipe_ok cn" "pipe_ok (cn \<lparr> bc_stdout := y \<rparr>) = pipe_ok cn"
  by (simp_all add: pipe_ok_def in_order_def)

lemma pipe_ok_new [simp]: "pipe_ok conn_new"
  by (simp add: pipe_ok_def conn_new_def in_order_def commands_only_def acks_done_def)

lemma pipe_ok_close: "pipe_ok cn \<Longrightarrow> pipe_ok (cn \<lparr> bc_alive := False \<rparr>)"
  by (auto simp: pipe_ok_def in_order_def)

lemma pipe_ok_exit: "pipe_ok cn \<Longrightarrow> pipe_ok (cn \<lparr> bc_alive := False, bc_messages := [] \<rparr>)"
  by (auto simp: pipe_ok_def in_order_def)

lemma pipe_ok_send:
  assumes "pipe_ok cn" "bc_alive cn" "acks_done [m] (bc_done cn)"
  shows "pipe_ok (worker_send m cn)"
proof -
  from assms(1,2) obtain out where "bc_output cn = map json_of_worker_message out"
      "bc_sent cn = bc_read cn @ out @ bc_messages cn" by (auto simp: pipe_ok_def elim!: in_orderE)
  then have "in_order (worker_send m cn)" by (intro in_orderI [of _ out "[]"]) (simp_all add: worker_send_def)
  with assms(1,3) show ?thesis by (simp add: pipe_ok_def worker_send_def acks_done_snoc)
qed

lemma pipe_ok_done: "pipe_ok cn \<Longrightarrow> pipe_ok (cn \<lparr> bc_done := bc_done cn @ [x] \<rparr>)"
  by (auto simp: pipe_ok_def in_order_def elim: acks_done_mono)

lemma pipe_ok_stdin: "pipe_ok cn \<Longrightarrow> commands_only ls \<Longrightarrow> pipe_ok (cn \<lparr> bc_stdin := ls \<rparr>)"
  by (simp add: pipe_ok_def in_order_def)

lemma pipe_ok_worker_line:
  assumes "pipe_ok cn" "bc_alive cn"
  shows "pipe_ok (worker_line pe perform l cn)"
proof (cases "command_of_json l")
  case None
  with assms show ?thesis by (simp add: worker_line_def pipe_ok_send acks_done_spontaneous del: append_Cons)
next
  case (Some cmd)
  let ?r = "command_result cmd (perform cmd)"
  let ?cn = "cn \<lparr> bc_done := bc_done cn @ [(cmd, ?r)] \<rparr>"
  have "pipe_ok (worker_send (ack_of (command_id cmd) ?r) ?cn)"
    using pipe_ok_done [OF assms(1)] assms(2)
    by (intro pipe_ok_send) (auto simp: ack_of_def is_ok_def acks_done_def split: sum.splits)
  with Some show ?thesis by (cases cmd) (simp_all add: worker_line_def Let_def pipe_ok_close)
qed

lemma pipe_ok_worker:
  "pipe_ok cn \<Longrightarrow> bc_alive cn \<Longrightarrow> pipe_ok (worker_read pe perform cn)"
  "pipe_ok cn \<Longrightarrow> bc_alive cn \<Longrightarrow> spontaneous m \<Longrightarrow> pipe_ok (worker_send m cn)"
  "pipe_ok cn \<Longrightarrow> pipe_ok (worker_exit cn)"
  by (auto simp: worker_read_def worker_exit_def commands_only_def pipe_ok_def [of cn] acks_done_spontaneous
      intro!: pipe_ok_worker_line pipe_ok_stdin pipe_ok_send pipe_ok_exit split: list.split)

lemma pipe_ok_worker_write: "pipe_ok cn \<Longrightarrow> pipe_ok (worker_write cn)"
proof (cases "bc_messages cn")
  case (Cons m ms)
  assume ok: "pipe_ok cn"
  then obtain out rest where "bc_output cn = map json_of_worker_message out"
      "bc_sent cn = bc_read cn @ out @ bc_messages cn @ rest" "bc_alive cn \<longrightarrow> rest = []"
    by (auto simp: pipe_ok_def elim!: in_orderE)
  with Cons have "in_order (worker_write cn)"
    by (intro in_orderI [of _ "out @ [m]" rest]) (simp_all add: worker_write_def)
  with Cons ok show ?thesis by (simp add: pipe_ok_def worker_write_def)
qed (simp add: worker_write_def)

text \<open>A line that the bridge reads is a message the worker sent.\<close>

lemma pipe_ok_read:
  assumes "pipe_ok cn" "bc_output cn = l # ls"
  obtains m where "l = json_of_worker_message m" "m \<in> set (bc_sent cn)"
    "pipe_ok (cn \<lparr> bc_output := ls, bc_read := bc_read cn @ [m] \<rparr>)"
proof -
  from assms(1) have "in_order cn" by (simp add: pipe_ok_def)
  then obtain out rest where out: "bc_output cn = map json_of_worker_message out"
      "bc_sent cn = bc_read cn @ out @ bc_messages cn @ rest" "bc_alive cn \<longrightarrow> rest = []" by (rule in_orderE)
  with assms(2) obtain m ms where m: "out = m # ms" "ls = map json_of_worker_message ms" "l = json_of_worker_message m"
    by (cases out) auto
  with out have "in_order (cn \<lparr> bc_output := ls, bc_read := bc_read cn @ [m] \<rparr>)"
    by (intro in_orderI [of _ ms rest]) simp_all
  with assms(1) out m that show ?thesis by (simp add: pipe_ok_def)
qed

definition pipes_ok :: "bridge \<Rightarrow> bool" where
  "pipes_ok b \<longleftrightarrow> (\<forall>g cn. br_conns b g = Some cn \<longrightarrow> pipe_ok cn)"

lemma pipes_ok_conns: "br_conns b' = br_conns b \<Longrightarrow> pipes_ok b' = pipes_ok b"
  by (simp add: pipes_ok_def)

lemma pipes_ok_set_conn:
  "pipes_ok b \<Longrightarrow> (\<And>cn. br_conns b g = Some cn \<Longrightarrow> pipe_ok cn \<Longrightarrow> pipe_ok (f cn)) \<Longrightarrow> pipes_ok (set_conn g f b)"
  by (auto simp: pipes_ok_def split: if_splits)

lemma pipes_ok_calls [simp]:
  "pipes_ok (set_call c f b) = pipes_ok b" "pipes_ok (answer_call d a b) = pipes_ok b"
  "pipes_ok (b \<lparr> br_run := x \<rparr>) = pipes_ok b" "pipes_ok (b \<lparr> br_connection := y \<rparr>) = pipes_ok b"
  "pipes_ok (b \<lparr> br_events := z \<rparr>) = pipes_ok b" "pipes_ok (b \<lparr> br_closing := u \<rparr>) = pipes_ok b"
  "pipes_ok (b \<lparr> br_next_command_id := k \<rparr>) = pipes_ok b" "pipes_ok (b \<lparr> br_calls := v \<rparr>) = pipes_ok b"
  by (simp_all add: pipes_ok_def)

lemma pipes_ok_pending:
  "pipes_ok b \<Longrightarrow> pipes_ok (put_pending g i v b)" "pipes_ok b \<Longrightarrow> pipes_ok (take_pending g i a b)"
  "pipes_ok b \<Longrightarrow> pipes_ok (drain_pending g r b)"
  by (auto simp: put_pending_def take_pending_def drain_pending_def intro!: pipes_ok_set_conn)

lemma on_worker_message_pipes: "pipes_ok b \<Longrightarrow> pipes_ok (snd (on_worker_message env g m b))"
  by (auto simp: on_worker_message_def handle_event_def pipes_ok_pending split: worker_message.split option.split sum.split)

lemma set_conn_twice: "set_conn g f (set_conn g h b) = set_conn g (\<lambda>cn. f (h cn)) b"
  by (cases "br_conns b g") (simp_all add: set_conn_def)

text \<open>How a line is read when the pipes are in order: as a message, and never with a parse error.\<close>

lemma run_line_message:
  assumes "pipes_ok b" "br_conns b g = Some cn" "bc_output cn = l # ls"
  obtains m r b' where "m \<in> set (bc_sent cn)"
    "pipes_ok (set_conn g (\<lambda>cn. cn \<lparr> bc_output := tl (bc_output cn), bc_read := bc_read cn @ [m] \<rparr>) b)"
    "on_worker_message env g m
      (set_conn g (\<lambda>cn. cn \<lparr> bc_output := tl (bc_output cn), bc_read := bc_read cn @ [m] \<rparr>) b) = (r, b')"
    "run_line env g l b = (case r of Inr _ \<Rightarrow> b' | Inl e \<Rightarrow> run_stop e b')"
proof -
  from assms have "pipe_ok cn" by (simp add: pipes_ok_def)
  from pipe_ok_read [OF this assms(3)] obtain m where m: "l = json_of_worker_message m" "m \<in> set (bc_sent cn)"
    "pipe_ok (cn \<lparr> bc_output := ls, bc_read := bc_read cn @ [m] \<rparr>)" .
  let ?b = "set_conn g (\<lambda>cn. cn \<lparr> bc_output := tl (bc_output cn), bc_read := bc_read cn @ [m] \<rparr>) b"
  obtain r b' where r: "on_worker_message env g m ?b = (r, b')" by fastforce
  have "pipes_ok ?b" using m(3) assms by (intro pipes_ok_set_conn) auto
  moreover have "run_line env g l b = (case r of Inr _ \<Rightarrow> b' | Inl e \<Rightarrow> run_stop e b')"
    using r by (simp add: run_line_def Let_def m(1) set_conn_twice)
  ultimately show ?thesis using that m(2) r by blast
qed

lemma bridge_step_pipes:
  assumes "bridge_step env b b'" "pipes_ok b"
  shows "pipes_ok b'"
  using assms(1)
proof cases
  case (start rq)
  with assms(2) show ?thesis by (simp add: start_call_def pipes_ok_def)
next
  case (clone c ca)
  with assms(2) show ?thesis by (simp add: clone_connection_def split: option.split)
next
  case (register c ca)
  with assms(2) show ?thesis by (simp add: register_call_def Let_def pipes_ok_pending)
next
  case (send c ca)
  with assms(2) show ?thesis
    by (auto simp: send_call_def Let_def intro!: pipes_ok_pending pipes_ok_set_conn split: option.split)
next
  case (receive c ca)
  with assms(2) show ?thesis by (simp add: receive_answer_def split: call_answer.split)
next
  case (unsent c ca)
  with assms(2) show ?thesis by (simp add: send_failed_def give_up_def pipes_ok_pending)
next
  case (expired c ca)
  with assms(2) show ?thesis by (simp add: ack_timeout_def give_up_def pipes_ok_pending)
next
  case (connect spawned r)
  with assms(2) show ?thesis by (auto simp: bridge_connect_def pipes_ok_def split: sum.splits if_splits)
next
  case (run r)
  have "pipes_ok (snd (run_begin b))"
    using assms(2) by (auto simp: run_begin_def intro!: pipes_ok_set_conn split: option.split)
  with run show ?thesis by simp
next
  case (line g cn l ls)
  from run_line_message [OF assms(2) line(3,4)] obtain m r b'' where m:
    "pipes_ok (set_conn g (\<lambda>cn. cn \<lparr> bc_output := tl (bc_output cn), bc_read := bc_read cn @ [m] \<rparr>) b)"
    "on_worker_message env g m (set_conn g (\<lambda>cn. cn \<lparr> bc_output := tl (bc_output cn), bc_read := bc_read cn @ [m] \<rparr>) b) = (r, b'')"
    "run_line env g l b = (case r of Inr _ \<Rightarrow> b'' | Inl e \<Rightarrow> run_stop e b'')" .
  from on_worker_message_pipes [OF m(1), of env g m] m(2) have "pipes_ok b''" by simp
  with m(3) line(1) show ?thesis by (simp add: run_stop_def split: sum.split)
next
  case (finish e r)
  have "pipes_ok (snd (run_finish e b))"
    using assms(2) by (simp add: run_finish_def fail_pending_acks_def pipes_ok_pending split: option.split)
  with finish show ?thesis by simp
next
  case close
  with assms(2) show ?thesis by (simp add: close_take_def split: option.split)
next
  case (close_send g i)
  with assms(2) show ?thesis by (auto simp: close_send_def intro!: pipes_ok_set_conn)
next
  case (close_finish g)
  with assms(2) show ?thesis by (auto simp: close_finish_def pipe_ok_exit intro!: pipes_ok_pending pipes_ok_set_conn)
next
  case (writes g)
  with assms(2) show ?thesis
    by (auto simp: write_command_def intro!: pipes_ok_set_conn pipe_ok_stdin simp: commands_only_def pipe_ok_def split: list.split)
qed (use assms(2) in \<open>auto simp: run_stop_def stop_writing_def ack_expire_def cancel_call_def pipe_ok_worker pipe_ok_worker_write
    intro!: pipes_ok_set_conn\<close>)

subsection \<open>A call that succeeds was acknowledged\<close>

definition ack_read :: "bridge \<Rightarrow> nat \<Rightarrow> u64 \<Rightarrow> bool" where
  "ack_read b g i \<longleftrightarrow> (\<exists>cn e. br_conns b g = Some cn \<and> Ack i True e \<in> set (bc_read cn))"

definition succeeded :: "bridge_call \<Rightarrow> bool" where
  "succeeded ca \<longleftrightarrow> ca_answer ca = Got (Inr ()) \<or> ca_phase ca = Returned (Inr ())"

definition acked :: "bridge \<Rightarrow> bool" where
  "acked b \<longleftrightarrow> (\<forall>c ca. br_calls b c = Some ca \<longrightarrow> succeeded ca \<longrightarrow> ack_read b (ca_conn ca) (command_id (ca_command ca)))"

lemma ackedD: "acked b \<Longrightarrow> br_calls b c = Some ca \<Longrightarrow> succeeded ca \<Longrightarrow> ack_read b (ca_conn ca) (command_id (ca_command ca))"
  by (simp add: acked_def)

lemma ack_read_set_conn:
  "(\<And>cn. set (bc_read cn) \<subseteq> set (bc_read (f cn))) \<Longrightarrow> ack_read b g i \<Longrightarrow> ack_read (set_conn g' f b) g i"
  by (fastforce simp: ack_read_def)

lemma ack_read_same [simp]:
  "ack_read (set_call c f b) = ack_read b" "ack_read (b \<lparr> br_run := x \<rparr>) = ack_read b"
  "ack_read (b \<lparr> br_connection := y \<rparr>) = ack_read b" "ack_read (b \<lparr> br_events := z \<rparr>) = ack_read b"
  "ack_read (b \<lparr> br_closing := u \<rparr>) = ack_read b" "ack_read (b \<lparr> br_next_command_id := k \<rparr>) = ack_read b"
  "ack_read (answer_call d a b) = ack_read b" "ack_read (b \<lparr> br_calls := v \<rparr>) = ack_read b"
  by (simp_all add: ack_read_def fun_eq_iff)

lemma ack_read_pending:
  "ack_read b g i \<Longrightarrow> ack_read (put_pending g' j v b) g i" "ack_read b g i \<Longrightarrow> ack_read (take_pending g' j a b) g i"
  "ack_read b g i \<Longrightarrow> ack_read (drain_pending g' r b) g i"
  by (auto simp: put_pending_def take_pending_def drain_pending_def intro!: ack_read_set_conn)

lemma acked_kept:
  assumes "acked b" "calls_kept a b b'" "a \<noteq> Got (Inr ())" "\<And>g i. ack_read b g i \<Longrightarrow> ack_read b' g i"
  shows "acked b'"
  unfolding acked_def
proof (intro allI impI)
  fix c ca' assume c: "br_calls b' c = Some ca'" "succeeded ca'"
  with assms(2) obtain ca where "br_calls b c = Some ca" "ca' = ca \<or> ca' = ca \<lparr> ca_answer := a \<rparr>"
    unfolding calls_kept_def by blast
  with c(2) assms ackedD [OF assms(1)] show "ack_read b' (ca_conn ca') (command_id (ca_command ca'))"
    by (auto simp: succeeded_def)
qed

lemma acked_call:
  assumes "acked b" "\<And>ca. br_calls b c = Some ca \<Longrightarrow> succeeded (f ca) \<Longrightarrow>
      succeeded ca \<and> ca_conn (f ca) = ca_conn ca \<and> ca_command (f ca) = ca_command ca"
  shows "acked (set_call c f b)"
  using assms by (fastforce simp: acked_def)

lemma acked_take:
  assumes "acked b" "tables_ok b" "ack_read b g i \<or> a \<noteq> Got (Inr ())"
  shows "acked (take_pending g i a b)"
proof (cases "a = Got (Inr ())")
  case False
  then show ?thesis by (rule acked_kept [OF assms(1) calls_kept_take [OF assms(2)]]) (rule ack_read_pending)
next
  case True
  have "ack_read (take_pending g i a b) (ca_conn ca') (command_id (ca_command ca'))"
    if c: "br_calls (take_pending g i a b) c = Some ca'" "succeeded ca'" for c ca'
  proof (rule ack_read_pending(2), cases "pending_of g i b = Some c")
    case pend: True
    with assms(2) have "holding b c = Some (g, i)" by (simp add: tables_okD)
    with c pend assms(3) True show "ack_read b (ca_conn ca') (command_id (ca_command ca'))"
      by (auto simp: take_pending_def put_pending_def answer_call_def call_entry_def left_entry_def listens_def succeeded_def
          split: option.splits if_splits)
  next
    case False
    with c(1) have "br_calls b c = Some ca'"
      by (auto simp: take_pending_def put_pending_def answer_call_def split: option.splits if_splits)
    from ackedD [OF assms(1) this c(2)] show "ack_read b (ca_conn ca') (command_id (ca_command ca'))" .
  qed
  then show ?thesis unfolding acked_def by blast
qed

lemma acked_drain: "acked b \<Longrightarrow> tables_ok b \<Longrightarrow> acked (drain_pending g (Inl e) b)"
  by (rule acked_kept [OF _ calls_kept_drain]) (simp_all add: ack_read_pending)

lemma acked_frame: "acked b \<Longrightarrow> br_calls b' = br_calls b \<Longrightarrow> (\<And>g i. ack_read b g i \<Longrightarrow> ack_read b' g i) \<Longrightarrow> acked b'"
  by (auto simp: acked_def)

lemma acked_set_conn: "acked b \<Longrightarrow> (\<And>cn. set (bc_read cn) \<subseteq> set (bc_read (f cn))) \<Longrightarrow> acked (set_conn g f b)"
  by (erule acked_frame) (auto intro: ack_read_set_conn)

lemma acked_fields [simp]:
  "acked (b \<lparr> br_run := x \<rparr>) = acked b" "acked (b \<lparr> br_connection := y \<rparr>) = acked b"
  "acked (b \<lparr> br_events := z \<rparr>) = acked b" "acked (b \<lparr> br_closing := u \<rparr>) = acked b"
  "acked (b \<lparr> br_next_command_id := k \<rparr>) = acked b"
  by (simp_all add: acked_def)

lemma acked_return: "acked b \<Longrightarrow> acked (set_call c (\<lambda>ca. ca \<lparr> ca_phase := Returned (Inl e) \<rparr>) b)"
  by (rule acked_call) (auto simp: succeeded_def)

lemma acked_phase:
  "acked b \<Longrightarrow> (\<And>r. p \<noteq> Returned r) \<Longrightarrow> acked (set_call c (\<lambda>ca. ca \<lparr> ca_phase := p \<rparr>) b)"
  by (rule acked_call) (auto simp: succeeded_def)

lemma on_worker_message_acked:
  assumes "acked b" "tables_ok b" "br_conns b g = Some cn" "m \<in> set (bc_read cn)"
  shows "acked (snd (on_worker_message env g m b))"
proof (cases m)
  case (Ack i ok e)
  with assms(3,4) have "ok \<Longrightarrow> ack_read b g i" by (auto simp: ack_read_def)
  with Ack assms show ?thesis by (auto simp: on_worker_message_def intro!: acked_take)
qed (use assms(1) in \<open>simp_all add: on_worker_message_def handle_event_def split: option.split sum.split\<close>)

lemma bridge_step_acked:
  assumes "bridge_step env b b'" "bridge_inv b" "pipes_ok b" "acked b"
  shows "acked b'"
  using assms(1)
proof cases
  note t = bridge_invD(1) [OF assms(2)]
  case (start rq)
  have "acked (start_call rq b)"
    using assms(4) unfolding acked_def by (auto simp: start_call_def succeeded_def ack_read_def)
  with start show ?thesis by simp
next
  case (clone c ca)
  have "acked (set_call c (\<lambda>ca. ca \<lparr> ca_conn := g, ca_phase := Cloned \<rparr>) b)" for g
    using assms(4) clone(2,3) bridge_invD(2) [OF assms(2) clone(2)] by (intro acked_call) (auto simp: succeeded_def call_ok_def)
  with clone assms(4) show ?thesis by (simp add: clone_connection_def acked_return split: option.split)
next
  case (register c ca)
  have "acked (answer_call (pending_of g i b) Gone b)" for g i
    by (rule acked_kept [OF assms(4) calls_kept_answer [OF bridge_invD(1) [OF assms(2)]]]) simp_all
  with register show ?thesis
    by (auto simp: register_call_def Let_def put_pending_def intro!: acked_phase acked_set_conn)
next
  case (send c ca)
  with assms(4) show ?thesis
    by (auto simp: send_call_def Let_def intro!: acked_phase acked_set_conn split: option.split)
next
  case (receive c ca)
  have "acked (set_call c (\<lambda>ca. ca \<lparr> ca_phase := Returned r \<rparr>) b)" if "ca_answer ca = Got r" for r
    using assms(4) receive(2) that by (intro acked_call) (auto simp: succeeded_def)
  with receive assms(4) show ?thesis by (simp add: receive_answer_def acked_return split: call_answer.split)
next
  case (unsent c ca)
  with assms(4) bridge_invD(1) [OF assms(2)] show ?thesis by (simp add: send_failed_def give_up_def acked_return acked_take)
next
  case (expired c ca)
  with assms(4) bridge_invD(1) [OF assms(2)] show ?thesis by (simp add: ack_timeout_def give_up_def acked_return acked_take)
next
  case (expire c ca)
  with assms(4) show ?thesis by (auto simp: ack_expire_def succeeded_def intro!: acked_call)
next
  case (cancel c ca)
  with assms(4) show ?thesis by (auto simp: cancel_call_def succeeded_def intro!: acked_call)
next
  case (connect spawned r)
  have "br_conns b (br_spawned b) = None" using bridge_invD(4) [OF assms(2), of "br_spawned b"] by blast
  then have "acked (snd (bridge_connect spawned b))"
    using assms(4) by (auto simp: bridge_connect_def ack_read_def intro!: acked_frame [of b] split: sum.split)
  with connect show ?thesis by simp
next
  case (run r)
  have "acked (snd (run_begin b))"
    using assms(4) by (auto simp: run_begin_def intro!: acked_set_conn split: option.split)
  with run show ?thesis by simp
next
  case (line g cn l ls)
  from run_line_message [OF assms(3) line(3,4)] obtain m r b'' where m:
    "on_worker_message env g m (set_conn g (\<lambda>cn. cn \<lparr> bc_output := tl (bc_output cn), bc_read := bc_read cn @ [m] \<rparr>) b) = (r, b'')"
    "run_line env g l b = (case r of Inr _ \<Rightarrow> b'' | Inl e \<Rightarrow> run_stop e b'')" by blast
  let ?b = "set_conn g (\<lambda>cn. cn \<lparr> bc_output := tl (bc_output cn), bc_read := bc_read cn @ [m] \<rparr>) b"
  have "acked ?b" using assms(4) by (rule acked_set_conn) auto
  moreover have "tables_ok ?b" by (rule bridge_invD(1) [OF bridge_inv_set_conn [OF assms(2)]]) simp
  ultimately have "acked (snd (on_worker_message env g m ?b))"
    by (rule on_worker_message_acked) (use line(3) in auto)
  with m line(1) show ?thesis by (simp add: run_stop_def split: sum.split)
next
  case (finish e r)
  have "acked (snd (run_finish e b))"
    using assms(4) bridge_invD(1) [OF assms(2)] by (simp add: run_finish_def fail_pending_acks_def acked_drain split: option.split)
  with finish show ?thesis by simp
next
  case close
  with assms(4) show ?thesis by (simp add: close_take_def split: option.split)
next
  case (close_send g i)
  with assms(4) show ?thesis by (auto simp: close_send_def intro!: acked_set_conn)
next
  case (close_finish g)
  let ?b = "set_conn g (\<lambda>cn. cn \<lparr> bc_alive := False, bc_messages := [] \<rparr>) (b \<lparr> br_closing := (br_closing b)(g := None) \<rparr>)"
  have "acked ?b" using assms(4) by (intro acked_set_conn) simp_all
  moreover have "tables_ok ?b"
    using bridge_invD(1) [OF bridge_inv_set_conn [OF bridge_inv_fields(4) [OF assms(2)]]] by simp
  ultimately show ?thesis using close_finish by (simp add: close_finish_def acked_drain)
next
  case (writes g)
  with assms(4) show ?thesis by (auto simp: write_command_def intro!: acked_set_conn split: list.split)
qed (use assms(4) in \<open>auto simp: run_stop_def stop_writing_def worker_read_def worker_line_def worker_send_def worker_write_def
    worker_exit_def Let_def intro!: acked_set_conn split: list.split option.split worker_command.split\<close>)

subsection \<open>Numbers name commands\<close>

text \<open>The commands that were issued: those of the calls, those on the way to the worker, those it has done.\<close>

definition in_flight :: "bridge_conn \<Rightarrow> worker_command set" where
  "in_flight cn = set (bc_queue cn) \<union> {cmd. json_of_command cmd \<in> set (bc_stdin cn)} \<union> fst ` set (bc_done cn)"

definition issued :: "bridge \<Rightarrow> worker_command set" where
  "issued b = {ca_command ca | c ca. br_calls b c = Some ca} \<union> (\<Union>cn \<in> ran (br_conns b). in_flight cn) \<union>
     {CloseWorker i | g i. br_closing b g = Some (Closing i)}"

lemma json_of_command_eq [simp]: "json_of_command x = json_of_command y \<longleftrightarrow> x = y"
  using command_round_trip by (metis option.inject)

text \<open>What a step issues: nothing, or one command with the next number.\<close>

definition issues :: "bridge \<Rightarrow> bridge \<Rightarrow> bool" where
  "issues b b' \<longleftrightarrow>
     br_next_command_id b' = br_next_command_id b \<and> issued b' \<subseteq> issued b \<or>
     br_next_command_id b' = br_next_command_id b + 1 \<and>
       (\<exists>cmd. command_id cmd = br_next_command_id b \<and> issued b' \<subseteq> insert cmd (issued b))"

lemma issued_fields [simp]:
  "issued (b \<lparr> br_run := x \<rparr>) = issued b" "issued (b \<lparr> br_connection := y \<rparr>) = issued b"
  "issued (b \<lparr> br_events := z \<rparr>) = issued b" "issued (b \<lparr> br_next_command_id := k \<rparr>) = issued b"
  by (simp_all add: issued_def)

lemma issued_parts:
  "br_calls b c = Some ca \<Longrightarrow> ca_command ca \<in> issued b"
  "br_conns b g = Some cn \<Longrightarrow> in_flight cn \<subseteq> issued b"
  "br_closing b g = Some (Closing i) \<Longrightarrow> CloseWorker i \<in> issued b"
  by (auto simp: issued_def ran_def)

lemma issued_set_call: "(\<And>ca. ca_command (f ca) = ca_command ca) \<Longrightarrow> issued (set_call c f b) \<subseteq> issued b"
  by (auto simp: issued_def split: if_splits)

lemma issued_set_conn:
  assumes "\<And>cn. br_conns b g = Some cn \<Longrightarrow> in_flight (f cn) \<subseteq> in_flight cn \<union> X"
  shows "issued (set_conn g f b) \<subseteq> issued b \<union> X"
proof -
  have "in_flight cn' \<subseteq> (\<Union>cn \<in> ran (br_conns b). in_flight cn) \<union> X" if "cn' \<in> ran (br_conns (set_conn g f b))" for cn'
    using that assms by (fastforce simp: ran_def split: if_splits)
  then show ?thesis unfolding issued_def by (auto simp del: set_conn_conns)
qed

lemma issued_set_conn_same:
  "(\<And>cn. in_flight (f cn) = in_flight cn) \<Longrightarrow> issued (set_conn g f b) \<subseteq> issued b"
  using issued_set_conn [of b g f "{}"] by simp

lemma in_flight_fields [simp]:
  "in_flight (cn \<lparr> bc_pending := x \<rparr>) = in_flight cn" "in_flight (cn \<lparr> bc_stdout := y \<rparr>) = in_flight cn"
  "in_flight (cn \<lparr> bc_output := l, bc_read := m \<rparr>) = in_flight cn" "in_flight (cn \<lparr> bc_alive := a \<rparr>) = in_flight cn"
  "in_flight (cn \<lparr> bc_alive := a, bc_messages := m \<rparr>) = in_flight cn"
  "in_flight (worker_send msg cn) = in_flight cn" "in_flight (worker_exit cn) = in_flight cn"
  "in_flight (worker_write cn) = in_flight cn"
  by (simp_all add: in_flight_def worker_send_def worker_exit_def worker_write_def split: list.split)

lemma issued_pending:
  "issued (put_pending g i v b) \<subseteq> issued b" "issued (answer_call d a b) \<subseteq> issued b"
  "issued (take_pending g i a b) \<subseteq> issued b" "issued (drain_pending g r b) \<subseteq> issued b"
proof -
  have p: "issued (put_pending g i v b) \<subseteq> issued b" for v b
    unfolding put_pending_def by (rule issued_set_conn_same) simp
  then show "issued (put_pending g i v b) \<subseteq> issued b" .
  have a: "issued (answer_call d a b) \<subseteq> issued b" for d
    unfolding answer_call_def by (cases d) (auto dest: subsetD [OF issued_set_call, rotated])
  then show "issued (answer_call d a b) \<subseteq> issued b" .
  show "issued (take_pending g i a b) \<subseteq> issued b"
    unfolding take_pending_def by (rule order_trans [OF p a])
  have "issued (b \<lparr> br_calls := \<lambda>c. case br_calls b c of None \<Rightarrow> None
      | Some ca \<Rightarrow> Some (if pending_of g (command_id (ca_command ca)) b = Some c \<and> ca_answer ca = Open
          then ca \<lparr> ca_answer := Got r \<rparr> else ca) \<rparr>) \<subseteq> issued b"
    by (force simp: issued_def split: option.splits if_splits)
  then show "issued (drain_pending g r b) \<subseteq> issued b"
    unfolding drain_pending_def by (rule order_trans [OF issued_set_conn_same, rotated]) simp
qed

lemma issues_same: "br_next_command_id b' = br_next_command_id b \<Longrightarrow> issued b' \<subseteq> issued b \<Longrightarrow> issues b b'"
  by (simp add: issues_def)

lemma issues_give_up: "issues b (give_up e c ca b)"
proof (rule issues_same)
  show "issued (give_up e c ca b) \<subseteq> issued b"
    unfolding give_up_def by (rule order_trans [OF issued_set_call issued_pending(3)]) simp
qed (simp add: give_up_def)

lemma on_worker_message_issued: "issued (snd (on_worker_message env g m b)) \<subseteq> issued b"
  using issued_pending(3) by (auto simp: on_worker_message_def handle_event_def split: worker_message.split option.split sum.split)

lemma on_worker_message_next: "br_next_command_id (snd (on_worker_message env g m b)) = br_next_command_id b"
  by (auto simp: on_worker_message_def handle_event_def split: worker_message.split option.split sum.split)

lemma in_flight_worker_read: "commands_only (bc_stdin cn) \<Longrightarrow> in_flight (worker_read pe perform cn) \<subseteq> in_flight cn"
proof (cases "bc_stdin cn")
  case (Cons l ls)
  assume "commands_only (bc_stdin cn)"
  with Cons obtain cmd where "l = json_of_command cmd" by (auto simp: commands_only_def)
  with Cons show ?thesis
    by (auto simp: worker_read_def worker_line_def Let_def in_flight_def worker_send_def simp del: json_of_command.simps
        split: worker_command.splits)
qed (simp add: worker_read_def)

lemma bridge_step_issues:
  assumes "bridge_step env b b'" "bridge_inv b" "pipes_ok b"
  shows "issues b b'"
  using assms(1)
proof cases
  case (start rq)
  have "command_id (command_of_request rq i) = i" for i by (cases rq) simp_all
  then have "issues b (start_call rq b)"
    unfolding issues_def
    by (intro disjI2 conjI exI [of _ "command_of_request rq (br_next_command_id b)"])
      (auto simp: start_call_def issued_def split: if_splits)
  with start show ?thesis by simp
next
  case (clone c ca)
  with issued_set_call show ?thesis by (simp add: issues_same clone_connection_def split: option.split)
next
  case (register c ca)
  let ?g = "ca_conn ca" let ?i = "command_id (ca_command ca)"
  have "issued (register_call c ca b) \<subseteq> issued b"
    unfolding register_call_def Let_def
    by (rule order_trans [OF issued_set_call order_trans [OF issued_pending(1) issued_pending(2)]]) simp
  with register show ?thesis by (intro issues_same) (simp_all add: register_call_def Let_def put_pending_def)
next
  case (send c ca)
  have "issued (set_conn (ca_conn ca) (\<lambda>cn. cn \<lparr> bc_queue := bc_queue cn @ [ca_command ca] \<rparr>) b) \<subseteq> issued b \<union> {ca_command ca}"
    by (rule issued_set_conn) (auto simp: in_flight_def)
  also have "\<dots> = issued b" using issued_parts(1) [OF send(2)] by blast
  finally have q: "issued (set_call c (\<lambda>ca. ca \<lparr> ca_phase := Waiting \<rparr>)
      (set_conn (ca_conn ca) (\<lambda>cn. cn \<lparr> bc_queue := bc_queue cn @ [ca_command ca] \<rparr>) b)) \<subseteq> issued b"
    by (rule order_trans [OF issued_set_call, rotated]) simp
  have "issued (set_call c (\<lambda>ca. ca \<lparr> ca_phase := Unsent \<rparr>) b) \<subseteq> issued b" by (rule issued_set_call) simp
  with q send show ?thesis by (intro issues_same) (simp_all add: send_call_def Let_def del: set_call_calls split: option.split)
next
  case (receive c ca)
  with issued_set_call show ?thesis by (simp add: issues_same receive_answer_def split: call_answer.split)
next
  case (unsent c ca)
  then show ?thesis by (simp add: issues_give_up send_failed_def)
next
  case (expired c ca)
  then show ?thesis by (simp add: issues_give_up ack_timeout_def)
next
  case (expire c ca)
  with issued_set_call show ?thesis by (simp add: issues_same ack_expire_def)
next
  case (cancel c ca)
  with issued_set_call show ?thesis by (simp add: issues_same cancel_call_def)
next
  case (connect spawned r)
  have "issues b (snd (bridge_connect spawned b))"
    by (auto simp: bridge_connect_def issues_def issued_def ran_def conn_new_def in_flight_def split: sum.split if_splits)
  with connect show ?thesis by simp
next
  case (run r)
  have "issued (set_conn g (bc_stdout_update (\<lambda>_. False)) b) \<subseteq> issued b" for g
    by (rule issued_set_conn_same) simp
  then have "issues b (snd (run_begin b))" by (simp add: run_begin_def issues_same split: option.split)
  with run show ?thesis by simp
next
  case (line g cn l ls)
  from run_line_message [OF assms(3) line(3,4)] obtain m r b'' where m:
    "on_worker_message env g m (set_conn g (\<lambda>cn. cn \<lparr> bc_output := tl (bc_output cn), bc_read := bc_read cn @ [m] \<rparr>) b) = (r, b'')"
    "run_line env g l b = (case r of Inr _ \<Rightarrow> b'' | Inl e \<Rightarrow> run_stop e b'')" by blast
  let ?b = "set_conn g (\<lambda>cn. cn \<lparr> bc_output := tl (bc_output cn), bc_read := bc_read cn @ [m] \<rparr>) b"
  have "issued b'' \<subseteq> issued ?b" "br_next_command_id b'' = br_next_command_id b"
    using on_worker_message_issued [of env g m ?b] on_worker_message_next [of env g m ?b] m(1) by simp_all
  moreover have "issued ?b \<subseteq> issued b" by (rule issued_set_conn_same) simp
  ultimately show ?thesis using m(2) line(1) by (intro issues_same) (auto simp: run_stop_def split: sum.split)
next
  case (stop g e)
  then show ?thesis by (simp add: issues_same run_stop_def)
next
  case (finish e r)
  have "issues b (snd (run_finish e b))"
    using issued_pending(4) by (simp add: run_finish_def fail_pending_acks_def issues_same split: option.split)
  with finish show ?thesis by simp
next
  case close
  have "issues b (close_take b)"
  proof (cases "br_connection b")
    case (Some g)
    then show ?thesis unfolding issues_def
      by (intro disjI2 conjI exI [of _ "CloseWorker (br_next_command_id b)"])
        (auto simp: close_take_def issued_def split: if_splits)
  qed (simp add: close_take_def issues_same)
  with close show ?thesis by simp
next
  case (close_send g i)
  have "issued (close_send g i b) \<subseteq> issued (b \<lparr> br_closing := (br_closing b)(g \<mapsto> Killing) \<rparr>) \<union> {CloseWorker i}"
    unfolding close_send_def by (rule issued_set_conn) (auto simp: in_flight_def)
  also have "\<dots> \<subseteq> issued b" using issued_parts(3) [OF close_send(2)] by (auto simp: issued_def split: if_splits)
  finally show ?thesis using close_send by (intro issues_same) (simp_all add: close_send_def)
next
  case (close_finish g)
  have "issued (b \<lparr> br_closing := (br_closing b)(g := None) \<rparr>) \<subseteq> issued b" by (auto simp: issued_def split: if_splits)
  then have "issued (close_finish g b) \<subseteq> issued b"
    unfolding close_finish_def by (intro order_trans [OF issued_pending(4) order_trans [OF issued_set_conn_same]]) simp_all
  with close_finish show ?thesis by (intro issues_same) (simp_all add: close_finish_def)
next
  case (writes g)
  have "issued (write_command g b) \<subseteq> issued b"
    unfolding write_command_def by (rule issued_set_conn_same) (auto simp: in_flight_def split: list.split)
  with writes show ?thesis by (intro issues_same) (simp_all add: write_command_def)
next
  case (stop_writing g)
  have "issued (stop_writing g b) \<subseteq> issued b \<union> {}"
    unfolding stop_writing_def by (rule issued_set_conn) (auto simp: in_flight_def)
  with stop_writing show ?thesis by (intro issues_same) (simp_all add: stop_writing_def)
next
  case (worker_read g cn pe perform)
  have "issued (set_conn g (Docker_Bridge.worker_read pe perform) b) \<subseteq> issued b \<union> {}"
  proof (rule issued_set_conn)
    fix cn assume "br_conns b g = Some cn"
    with assms(3) have "commands_only (bc_stdin cn)" by (simp add: pipes_ok_def pipe_ok_def)
    then show "in_flight (Docker_Bridge.worker_read pe perform cn) \<subseteq> in_flight cn \<union> {}" by (simp add: in_flight_worker_read)
  qed
  with worker_read show ?thesis by (intro issues_same) simp_all
qed (simp_all add: issues_same issued_set_conn_same del: set_conn_conns)

text \<open>After \<open>k\<close> numbers were given out, the commands issued have different ones, as long as the counter has not wrapped.\<close>

definition numbered :: "nat \<Rightarrow> bridge \<Rightarrow> bool" where
  "numbered k b \<longleftrightarrow> br_next_command_id b = of_nat (Suc k) \<and>
     (\<forall>cmd \<in> issued b. \<exists>j < k. command_id cmd = of_nat (Suc j)) \<and> inj_on command_id (issued b)"

lemma of_nat_u64_eq: "j < 2 ^ 64 \<Longrightarrow> k < 2 ^ 64 \<Longrightarrow> (of_nat j :: u64) = of_nat k \<longleftrightarrow> j = k"
  by (simp add: word_of_nat_eq_iff take_bit_nat_eq_self)

lemma numbered_step:
  assumes "issues b b'" "numbered k b" "Suc k < 2 ^ 64"
  shows "\<exists>k' \<le> Suc k. numbered k' b'"
  using assms(1) unfolding issues_def
proof (elim disjE conjE exE)
  assume "br_next_command_id b' = br_next_command_id b" "issued b' \<subseteq> issued b"
  with assms(2) have "numbered k b'" by (auto simp: numbered_def simp del: of_nat_Suc intro: inj_on_subset)
  then show ?thesis by (intro exI [of _ k]) simp
next
  fix cmd
  assume n: "br_next_command_id b' = br_next_command_id b + 1" and cmd: "command_id cmd = br_next_command_id b"
    and sub: "issued b' \<subseteq> insert cmd (issued b)"
  have id: "command_id cmd = of_nat (Suc k)" using cmd assms(2) by (simp add: numbered_def)
  have old: "\<exists>j < k. command_id x = of_nat (Suc j)" if "x \<in> issued b" for x
    using assms(2) that by (simp add: numbered_def)
  have "command_id x \<noteq> command_id cmd" if x: "x \<in> issued b" for x
  proof -
    obtain j where "j < k" "command_id x = of_nat (Suc j)" using old [OF x] by blast
    moreover have "(of_nat (Suc j) :: u64) \<noteq> of_nat (Suc k)"
      using \<open>j < k\<close> assms(3) of_nat_u64_eq [of "Suc j" "Suc k"] by simp
    ultimately show ?thesis using id by simp
  qed
  then have "inj_on command_id (insert cmd (issued b))"
    using assms(2) by (fastforce simp: numbered_def inj_on_insert)
  then have "inj_on command_id (issued b')" using sub by (rule inj_on_subset)
  moreover have "\<exists>j < Suc k. command_id x = of_nat (Suc j)" if "x \<in> issued b'" for x
    using that sub id old less_SucI by (metis insertE lessI subsetD)
  moreover have "br_next_command_id b' = of_nat (Suc (Suc k))" using n assms(2) by (simp add: numbered_def)
  ultimately have "numbered (Suc k) b'" by (simp add: numbered_def)
  then show ?thesis by blast
qed

text \<open>What holds after some steps.\<close>

lemma bridge_steps_ok:
  "bridge_steps env n b0 b \<Longrightarrow> b0 = bridge_new \<Longrightarrow> bridge_inv b \<and> pipes_ok b \<and> acked b"
proof (induction rule: bridge_steps.induct)
  case (none b)
  have "pipes_ok bridge_new" "acked bridge_new" by (simp_all add: pipes_ok_def acked_def bridge_new_def)
  with none bridge_new_inv show ?case by simp
next
  case (more n b b' b'')
  then show ?case using bridge_step_inv bridge_step_pipes bridge_step_acked by blast
qed

lemma bridge_steps_numbered:
  "bridge_steps env n b0 b \<Longrightarrow> b0 = bridge_new \<Longrightarrow> n < 2 ^ 64 - 1 \<Longrightarrow> \<exists>k \<le> n. numbered k b"
proof (induction rule: bridge_steps.induct)
  case (none b)
  then show ?case by (simp add: numbered_def issued_def bridge_new_def)
next
  case (more n b b' b'')
  then obtain k where k: "k \<le> n" "numbered k b'" by auto
  have "issues b' b''" using bridge_step_issues [OF more(2)] bridge_steps_ok [OF more(1)] more(4) by blast
  from numbered_step [OF this k(2)] k(1) more(5) obtain k' where "k' \<le> Suc k" "numbered k' b''" by auto
  with k(1) show ?case by (intro exI [of _ k']) simp
qed

subsection \<open>A connection whose loop has ended\<close>

text \<open>No task will look at the table of a connection that is not the current one, is not read and not being closed.\<close>

definition abandoned :: "nat \<Rightarrow> bridge \<Rightarrow> bool" where
  "abandoned g b \<longleftrightarrow> br_connection b \<noteq> Some g \<and> br_run b \<noteq> Reading g \<and> br_closing b g = None \<and> g < br_spawned b"

definition ack_timed_out :: string where
  "ack_timed_out = ''Timed out waiting for docker runtime worker ack''"

definition ack_closed :: string where
  "ack_closed = ''Docker runtime worker closed ack channel''"

definition left_waiting :: "nat \<Rightarrow> bridge_call \<Rightarrow> bool" where
  "left_waiting g ca \<longleftrightarrow> ca_conn ca = g \<and>
     (ca_phase ca = Waiting \<and> ca_answer ca \<in> {Open, Gone} \<or>
      ca_phase ca \<in> {Expired, Cancelled} \<or> ca_phase ca = Returned (Inl ack_timed_out) \<or> ca_phase ca = Returned (Inl ack_closed))"

lemma take_pending_call:
  "pending_of g i b \<noteq> Some c \<Longrightarrow> br_calls (take_pending g i a b) c = br_calls b c"
  by (auto simp: take_pending_def put_pending_def answer_call_def split: option.split)

lemma drain_pending_call:
  "(\<And>i. pending_of g i b \<noteq> Some c) \<Longrightarrow> br_calls (drain_pending g r b) c = br_calls b c"
  by (auto simp: drain_pending_def split: option.split)

lemma left_waiting_elsewhere:
  assumes "tables_ok b" "br_calls b c = Some ca" "left_waiting g ca" "g' \<noteq> g"
  shows "pending_of g' i b \<noteq> Some c"
  using assms(2-) by (auto simp: call_entry_def left_waiting_def dest!: tables_okD(1) [OF assms(1)] split: if_splits)

lemma on_worker_message_call:
  assumes "\<And>i. pending_of g' i b \<noteq> Some c"
  shows "br_calls (snd (on_worker_message env g' m b)) c = br_calls b c"
  using assms by (auto simp: on_worker_message_def handle_event_def take_pending_call
      split: worker_message.split option.split sum.split)

lemma run_line_rule:
  assumes "P b" "\<And>f b. (\<And>cn. bc_pending (f cn) = bc_pending cn) \<Longrightarrow> P b \<Longrightarrow> P (set_conn g f b)"
    and "\<And>m b. P b \<Longrightarrow> P (snd (on_worker_message env g m b))" "\<And>e b. P b \<Longrightarrow> P (run_stop e b)"
  shows "P (run_line env g l b)"
proof -
  have "P (set_conn g (\<lambda>cn. cn \<lparr> bc_output := tl (bc_output cn) \<rparr>) b)" by (rule assms(2) [OF _ assms(1)]) simp
  moreover from this have "P (snd (on_worker_message env g m (set_conn g (\<lambda>cn. cn \<lparr> bc_read := bc_read cn @ [m] \<rparr>)
      (set_conn g (\<lambda>cn. cn \<lparr> bc_output := tl (bc_output cn) \<rparr>) b))))" for m
    by (intro assms(3) assms(2) assms(1)) simp_all
  ultimately show ?thesis
    using assms(4) by (simp add: run_line_def Let_def split_def split: option.split sum.split)
qed

lemma abandoned_simps [simp]:
  "abandoned g (set_call c f b) = abandoned g b" "abandoned g (set_conn h k b) = abandoned g b"
  "abandoned g (answer_call d a b) = abandoned g b" "abandoned g (take_pending h i a b) = abandoned g b"
  "abandoned g (drain_pending h r b) = abandoned g b" "abandoned g (put_pending h i v b) = abandoned g b"
  "abandoned g (b \<lparr> br_events := z \<rparr>) = abandoned g b"
  by (simp_all add: abandoned_def put_pending_def)

lemma bridge_step_abandoned:
  assumes "bridge_step env b b'" "abandoned g b"
  shows "abandoned g b'"
  using assms(1)
proof cases
  case (start rq)
  with assms(2) show ?thesis by (simp add: abandoned_def start_call_def)
next
  case (connect spawned r)
  have "abandoned g (snd (bridge_connect spawned b))"
    using assms(2) by (simp add: bridge_connect_def abandoned_def split: sum.split)
  with connect show ?thesis by simp
next
  case (run r)
  have "abandoned g (snd (run_begin b))"
    using assms(2) by (auto simp: run_begin_def abandoned_def split: option.split)
  with run show ?thesis by simp
next
  case (line g' cn l ls)
  have "abandoned g (run_line env g' l b)"
    using assms(2) by (rule run_line_rule [where P = "abandoned g"])
      (auto simp: on_worker_message_def handle_event_def run_stop_def abandoned_def split: worker_message.split option.split sum.split)
  with line(1) show ?thesis by simp
next
  case (finish e r)
  have "abandoned g (fail_pending_acks e b)" using assms(2) by (simp add: fail_pending_acks_def split: option.split)
  then have "abandoned g (snd (run_finish e b))" by (simp add: run_finish_def abandoned_def)
  with finish show ?thesis by simp
next
  case (stop h e)
  with assms(2) show ?thesis by (simp add: abandoned_def run_stop_def)
next
  case close
  with assms(2) show ?thesis by (auto simp: abandoned_def close_take_def split: option.split)
next
  case (close_send h i)
  with assms(2) show ?thesis by (auto simp: abandoned_def Docker_Bridge.close_send_def)
next
  case (close_finish h)
  with assms(2) show ?thesis by (auto simp: abandoned_def Docker_Bridge.close_finish_def)
qed (use assms(2) in \<open>simp_all add: clone_connection_def register_call_def send_call_def receive_answer_def ack_timeout_def
    send_failed_def give_up_def ack_expire_def cancel_call_def write_command_def Docker_Bridge.stop_writing_def Let_def split: option.split call_answer.split\<close>)

text \<open>The calls left on such a connection stay as they are until their time is over.\<close>

lemma bridge_step_left_waiting:
  assumes "bridge_step env b b'" "bridge_inv b" "abandoned g b" "br_calls b c = Some ca" "left_waiting g ca"
  shows "\<exists>ca'. br_calls b' c = Some ca' \<and> left_waiting g ca'"
proof -
  note t = bridge_invD(1) [OF assms(2)]
  have stay: "\<exists>ca'. br_calls b' c = Some ca' \<and> left_waiting g ca'" if "br_calls b' c = br_calls b c"
    using that assms(4,5) by simp
  have answer: "\<exists>ca'. br_calls (answer_call d Gone b) c = Some ca' \<and> left_waiting g ca'" for d
    using assms(4,5) by (auto simp: answer_call_def left_waiting_def split: option.split)
  have take: "\<exists>ca'. br_calls (take_pending h i Gone b) c = Some ca' \<and> left_waiting g ca'" for h i
    using answer by (simp add: take_pending_def put_pending_def)
  have "c < br_started b" using bridge_invD(2) [OF assms(2,4)] by (simp add: call_ok_def)
  from assms(1) show ?thesis
  proof cases
    case (start rq)
    with \<open>c < br_started b\<close> show ?thesis by (intro stay) (simp add: start_call_def)
  next
    case (clone d da)
    with assms(4,5) have "d \<noteq> c" by (auto simp: left_waiting_def)
    with clone show ?thesis by (intro stay) (simp add: clone_connection_def split: option.split)
  next
    case (register d da)
    with assms(4,5) have "d \<noteq> c" by (auto simp: left_waiting_def)
    with register answer [of "pending_of (ca_conn da) (command_id (ca_command da)) b"] show ?thesis
      by (simp add: register_call_def Let_def put_pending_def)
  next
    case (send d da)
    with assms(4,5) have "d \<noteq> c" by (auto simp: left_waiting_def)
    with send assms(4,5) show ?thesis by (simp add: send_call_def Let_def split: option.split)
  next
    case (receive d da)
    with assms(4,5) show ?thesis
      by (cases "d = c") (auto simp: receive_answer_def left_waiting_def ack_closed_def split: call_answer.splits)
  next
    case (unsent d da)
    with assms(4,5) have "d \<noteq> c" by (auto simp: left_waiting_def)
    with unsent(1) take show ?thesis by (simp add: send_failed_def give_up_def)
  next
    case (expired d da)
    show ?thesis
    proof (cases "d = c")
      case True
      obtain ca' where "br_calls (take_pending (ca_conn da) (command_id (ca_command da)) Gone b) c = Some ca'" "left_waiting g ca'"
        using take by blast
      with True expired(1) show ?thesis by (auto simp: ack_timeout_def give_up_def left_waiting_def ack_timed_out_def)
    next
      case False
      with expired(1) take show ?thesis by (simp add: ack_timeout_def give_up_def)
    qed
  next
    case (expire d da)
    with assms(4,5) show ?thesis by (cases "d = c") (auto simp: ack_expire_def left_waiting_def)
  next
    case (cancel d da)
    with assms(4,5) show ?thesis by (cases "d = c") (auto simp: cancel_call_def left_waiting_def)
  next
    case (connect spawned r)
    have "br_calls (snd (bridge_connect spawned b)) = br_calls b" by (simp add: bridge_connect_def split: sum.split)
    with connect show ?thesis by (intro stay) simp
  next
    case (run r)
    have "br_calls (snd (run_begin b)) = br_calls b" by (simp add: run_begin_def split: option.split)
    with run show ?thesis by (intro stay) simp
  next
    case (line g' cn l ls)
    with assms(3) have "g' \<noteq> g" by (auto simp: abandoned_def)
    then have "pending_of g' i b \<noteq> Some c" for i by (rule left_waiting_elsewhere [OF t assms(4,5)])
    then have "br_calls b c = br_calls b c \<and> (\<forall>i. pending_of g' i b \<noteq> Some c)" by simp
    then have "br_calls (run_line env g' l b) c = br_calls b c \<and> (\<forall>i. pending_of g' i (run_line env g' l b) \<noteq> Some c)"
    proof (rule run_line_rule)
      fix m x assume "br_calls x c = br_calls b c \<and> (\<forall>i. pending_of g' i x \<noteq> Some c)"
      then show "br_calls (snd (on_worker_message env g' m x)) c = br_calls b c \<and>
          (\<forall>i. pending_of g' i (snd (on_worker_message env g' m x)) \<noteq> Some c)"
        by (simp add: on_worker_message_call)
          (simp add: on_worker_message_def handle_event_def split: worker_message.split option.split sum.split)
    qed (simp_all add: run_stop_def)
    with line(1) show ?thesis by (intro stay) simp
  next
    case (finish e r)
    have "pending_of h i b \<noteq> Some c" if "br_connection b = Some h" for h i
      using that assms(3) by (intro left_waiting_elsewhere [OF t assms(4,5)]) (auto simp: abandoned_def)
    then have "br_calls (snd (run_finish e b)) c = br_calls b c"
      by (simp add: run_finish_def fail_pending_acks_def drain_pending_call split: option.split)
    with finish show ?thesis by (intro stay) simp
  next
    case (close_finish g')
    with assms(3) have "g' \<noteq> g" by (auto simp: abandoned_def)
    then have "pending_of g' i b \<noteq> Some c" for i by (rule left_waiting_elsewhere [OF t assms(4,5)])
    with close_finish show ?thesis by (intro stay) (simp add: close_finish_def drain_pending_call)
  qed (rule stay, simp add: run_stop_def close_take_def Docker_Bridge.close_send_def write_command_def
      Docker_Bridge.stop_writing_def split: option.split)+
qed

lemma bridge_steps_left_waiting:
  "bridge_steps env n b b' \<Longrightarrow> bridge_inv b \<Longrightarrow> abandoned g b \<Longrightarrow> br_calls b c = Some ca \<Longrightarrow> left_waiting g ca \<Longrightarrow>
   \<exists>ca'. br_calls b' c = Some ca' \<and> left_waiting g ca'"
proof (induction rule: bridge_steps.induct)
  case (more n b b' b'')
  have "bridge_inv b'" "abandoned g b'"
    using more(1,4,5) by (induction rule: bridge_steps.induct) (simp_all add: bridge_step_inv bridge_step_abandoned)
  moreover obtain ca' where "br_calls b' c = Some ca'" "left_waiting g ca'" using more by blast
  ultimately show ?case using bridge_step_left_waiting [OF more(2)] by blast
qed blast

lemma env_arguments_option:
  assumes "CHR ''='' \<notin> set k"
  shows "env_arguments (env_option k v @ args) = env_arguments args @ [(k, v)]"
proof -
  have "takeWhile (\<lambda>c. c \<noteq> CHR ''='') (k @ ''='' @ v) = k" "dropWhile (\<lambda>c. c \<noteq> CHR ''='') (k @ ''='' @ v) = ''='' @ v"
    using assms by (auto simp: takeWhile_append dropWhile_append)
  then show ?thesis by (simp add: env_option_def)
qed

lemma env_arguments_image: "env_arguments [i, ''--runtime-worker''] \<in> {[], [(''--runtime-worker'', [])]}"
  by simp

lemma env_arguments_skip:
  "list_all (\<lambda>a. a \<noteq> ''-e'') as \<Longrightarrow> args \<noteq> [] \<Longrightarrow> env_arguments (as @ args) = env_arguments args"
proof (induction as)
  case (Cons a as)
  then obtain b bs where "as @ args = b # bs" by (cases "as @ args") auto
  with Cons show ?case by simp
qed simp

lemma container_environment:
  "env_arguments (docker_runtime_command_args spec) = env_arguments [cs_image spec, ''--runtime-worker''] @
     (case cs_base_url spec of None \<Rightarrow> [] | Some u \<Rightarrow> [(''LIVECLAW_RUNTIME_BASE_URL'', u)]) @
     (case cs_instructions spec of None \<Rightarrow> [] | Some t \<Rightarrow> [(''LIVECLAW_RUNTIME_INSTRUCTIONS'', t)]) @
     [(''LIVECLAW_RUNTIME_VOICE'', cs_voice spec), (''LIVECLAW_RUNTIME_MODEL'', cs_model spec),
      (''LIVECLAW_RUNTIME_API_KEY'', cs_api_key spec)]"
proof -
  have keys: "CHR ''='' \<notin> set ''LIVECLAW_RUNTIME_API_KEY''" "CHR ''='' \<notin> set ''LIVECLAW_RUNTIME_MODEL''"
    "CHR ''='' \<notin> set ''LIVECLAW_RUNTIME_VOICE''" "CHR ''='' \<notin> set ''LIVECLAW_RUNTIME_INSTRUCTIONS''"
    "CHR ''='' \<notin> set ''LIVECLAW_RUNTIME_BASE_URL''" by simp_all
  have head: "list_all (\<lambda>a. a \<noteq> ''-e'') [''run'', ''--rm'', ''-i'', ''--network'', ''host'', ''--name'', ''liveclaw-runtime-'' @ s]" for s
    by simp
  show ?thesis
    unfolding docker_runtime_command_args_def
    by (subst env_arguments_skip [OF head], simp add: env_option_def)
      (simp only: env_arguments_option [OF keys(1)] env_arguments_option [OF keys(2)] env_arguments_option [OF keys(3)]
        env_arguments_option [OF keys(4)] env_arguments_option [OF keys(5)] append_Nil append_assoc append_Cons
        split: option.split, simp)
qed

subsection \<open>Properties\<close>


text \<open>C29: A call that succeeds was carried out: when it returns without an error, the worker of its connection has
  performed this very command, with success. It holds for fewer steps than the counter of the commands has values.\<close>

theorem acknowledged_means_done:
  assumes "bridge_steps env n bridge_new b" "n < 2 ^ 64 - 1"
    and "br_calls b c = Some ca" "ca_phase ca = Returned (Inr ())"
  shows "\<exists>cn. br_conns b (ca_conn ca) = Some cn \<and> (ca_command ca, Inr ()) \<in> set (bc_done cn)"
proof -
  have ok: "pipes_ok b" "acked b" using bridge_steps_ok [OF assms(1) refl] by auto
  have "ack_read b (ca_conn ca) (command_id (ca_command ca))"
    using ackedD [OF ok(2) assms(3)] assms(4) by (simp add: succeeded_def)
  then obtain cn e where cn: "br_conns b (ca_conn ca) = Some cn" "Ack (command_id (ca_command ca)) True e \<in> set (bc_read cn)"
    by (auto simp: ack_read_def)
  with ok(1) have p: "pipe_ok cn" by (simp add: pipes_ok_def)
  then have "Ack (command_id (ca_command ca)) True e \<in> set (bc_sent cn)"
    using cn(2) by (auto simp: pipe_ok_def elim!: in_orderE)
  with p obtain cmd r where cmd: "(cmd, r) \<in> set (bc_done cn)" "command_id cmd = command_id (ca_command ca)" "is_ok r"
    unfolding pipe_ok_def acks_done_def by blast
  have "cmd \<in> in_flight cn" using cmd(1) unfolding in_flight_def by force
  then have "cmd \<in> issued b" "ca_command ca \<in> issued b"
    using issued_parts(1) [OF assms(3)] issued_parts(2) [OF cn(1)] by blast+
  moreover obtain k where "numbered k b" using bridge_steps_numbered [OF assms(1) refl assms(2)] by blast
  ultimately have "cmd = ca_command ca" using cmd(2) unfolding numbered_def inj_on_def by blast
  with cmd cn(1) show ?thesis by (cases r) auto
qed

text \<open>The calls of a broken connection are never told. When the loop that reads a container's output ends, it
  forgets the connection before it looks for the calls to fail, and finds none: the calls are as before. In every
  later state such a call is still waiting, its time is over, it was dropped, or it has returned with the timeout
  (or, had the counter wrapped, because its number was taken by another): the error that ended the loop reaches none of them.\<close>

theorem lost_worker_strands_callers:
  assumes "bridge_steps env n bridge_new b" "br_run b = Reading g" "br_closing b g = None" "br_connection b \<in> {Some g, None}"
    and "br_calls b c = Some ca" "ca_conn ca = g" "ca_phase ca = Waiting" "ca_answer ca = Open"
    and "run_finish e (run_stop e b) = (r, b1)" "bridge_steps env m b1 b2"
  shows "br_calls b1 = br_calls b \<and>
    (\<exists>ca'. br_calls b2 c = Some ca' \<and>
       (ca_phase ca' \<in> {Waiting, Expired, Cancelled} \<or> ca_phase ca' \<in> {Returned (Inl ack_timed_out), Returned (Inl ack_closed)}))"
proof -
  have inv: "bridge_inv b" by (rule bridge_steps_inv [OF assms(1) bridge_new_inv])
  have b1: "b1 = b \<lparr> br_connection := None, br_run := NotRunning \<rparr>"
    using assms(9) by (simp add: run_finish_def run_stop_def fail_pending_acks_def)
  have "g < br_spawned b"
    using bridge_invD(2) [OF inv assms(5)] assms(6,7) bridge_invD(4) [OF inv] by (auto simp: call_ok_def)
  with b1 assms(3) have "abandoned g b1" by (simp add: abandoned_def)
  moreover have "bridge_inv b1"
    using run_finish_inv [OF run_stop_inv [OF inv, of e], of e] assms(9) by simp
  moreover have "br_calls b1 c = Some ca" "left_waiting g ca" using b1 assms(5-8) by (simp_all add: left_waiting_def)
  ultimately obtain ca' where "br_calls b2 c = Some ca'" "left_waiting g ca'"
    using bridge_steps_left_waiting [OF assms(10)] by blast
  with b1 show ?thesis by (auto simp: left_waiting_def)
qed

text \<open>Closing answers everybody: after a close no call listens on the connection any more, and each that did has
  the error that says so.\<close>

theorem close_answers_callers:
  assumes "bridge_steps env n bridge_new b" "br_calls b c = Some ca" "listening b c = Some (g, i)"
  shows "listening (close_finish g b) c = None \<and>
    br_calls (close_finish g b) c =
      Some (ca \<lparr> ca_answer := Got (Inl ''Docker runtime worker closed before acknowledging command'') \<rparr>)"
proof -
  have "pending_of g i b = Some c"
    using tables_okD(2) [OF bridge_invD(1) [OF bridge_steps_inv [OF assms(1) bridge_new_inv]] assms(3)] .
  with assms(2,3) show ?thesis
    by (auto simp: close_finish_def drain_pending_def call_entry_def listens_def split: if_splits)
qed


subsection \<open>Witnesses\<close>

text \<open>A run of the bridge: it connects, its loop begins, a caller commits the audio, the worker performs and
  acknowledges the command.\<close>

definition demo_env :: bridge_env where
  "demo_env = \<lparr> be_decode = (\<lambda>_. None), be_print = (\<lambda>_. []), be_handle = (\<lambda>_. Inr ()) \<rparr>"

definition demo_call :: "call_phase \<Rightarrow> call_answer \<Rightarrow> bridge_call" where
  "demo_call p a = \<lparr> ca_command = CommitAudio 1, ca_conn = 0, ca_phase = p, ca_answer = a \<rparr>"

definition demo_conn :: bridge_conn where
  "demo_conn = conn_new \<lparr> bc_stdout := False \<rparr>"

definition demo_state :: "bridge_conn \<Rightarrow> call_phase \<Rightarrow> call_answer \<Rightarrow> bridge" where
  "demo_state cn p a = \<lparr> br_next_command_id = 2, br_connection = Some 0, br_conns = [0 \<mapsto> cn], br_spawned = 1,
     br_calls = [0 \<mapsto> demo_call p a], br_started = 1, br_run = Reading 0, br_closing = Map.empty, br_events = [] \<rparr>"

definition demo_waiting :: bridge where
  "demo_waiting = demo_state (demo_conn \<lparr> bc_pending := [1 \<mapsto> 0], bc_queue := [CommitAudio 1] \<rparr>) Waiting Open"

definition demo_done :: bridge_conn where
  "demo_done = demo_conn \<lparr> bc_done := [(CommitAudio 1, Inr ())], bc_sent := [Ack 1 True None], bc_read := [Ack 1 True None] \<rparr>"

definition demo_returned :: bridge where
  "demo_returned = demo_state demo_done (Returned (Inr ())) (Got (Inr ()))"

lemmas demo_simps = demo_state_def demo_call_def demo_conn_def demo_waiting_def demo_done_def demo_returned_def conn_new_def
  set_call_def set_conn_def

lemma demo_waiting_reached: "bridge_steps demo_env 6 bridge_new demo_waiting"
proof -
  let ?d1 = "snd (bridge_connect (Inr ()) bridge_new)"
  let ?d2 = "snd (run_begin ?d1)"
  let ?d3 = "start_call CommitRequest ?d2"
  let ?d4 = "clone_connection 0 ?d3"
  let ?d5 = "register_call 0 (demo_call Cloned Open) ?d4"
  have d2: "?d2 = \<lparr> br_next_command_id = 1, br_connection = Some 0, br_conns = [0 \<mapsto> demo_conn], br_spawned = 1,
     br_calls = Map.empty, br_started = 0, br_run = Reading 0, br_closing = Map.empty, br_events = [] \<rparr>"
    by (simp add: demo_simps bridge_connect_def bridge_new_def run_begin_def)
  have d4: "?d4 = demo_state demo_conn Cloned Open" and d3: "br_calls ?d3 0 = Some (demo_call Fetched Open)"
    unfolding d2 by (simp_all add: start_call_def clone_connection_def demo_state_def demo_call_def set_call_def)
  have d5: "?d5 = demo_state (demo_conn \<lparr> bc_pending := [1 \<mapsto> 0] \<rparr>) Registered Open"
    unfolding d4 by (simp add: register_call_def Let_def answer_call_def put_pending_def pending_of_def demo_simps)
  have d6: "send_call 0 (demo_call Registered Open) ?d5 = demo_waiting"
    unfolding d5 by (simp add: send_call_def Let_def demo_simps)
  have "bridge_steps demo_env 1 bridge_new ?d1"
    using more [OF none connect [of bridge_new "Inr ()" "Inr ()" ?d1 demo_env]] by (simp add: bridge_connect_def bridge_new_def)
  moreover have "bridge_step demo_env ?d1 ?d2"
    by (rule run [of _ "fst (run_begin ?d1)"]) (simp_all add: bridge_connect_def bridge_new_def)
  moreover have "bridge_step demo_env ?d2 ?d3" by (rule start)
  moreover have "bridge_step demo_env ?d3 ?d4" by (rule clone [OF d3]) (simp add: demo_call_def)
  moreover have "bridge_step demo_env ?d4 ?d5"
    by (rule register) (simp_all add: d4 demo_state_def, simp add: demo_call_def)
  moreover have "bridge_step demo_env ?d5 demo_waiting"
    unfolding d6 [symmetric] by (rule send) (simp_all add: d5 demo_state_def, simp add: demo_call_def)
  ultimately have "bridge_steps demo_env (Suc (Suc (Suc (Suc (Suc 1))))) bridge_new demo_waiting"
    by (intro more)
  then show ?thesis by (simp add: numeral_eq_Suc)
qed

lemma demo_returned_reached: "bridge_steps demo_env 11 bridge_new demo_returned"
proof -
  let ?pend = "demo_conn \<lparr> bc_pending := [1 \<mapsto> 0] \<rparr>"
  let ?w1 = "write_command 0 demo_waiting"
  let ?w2 = "set_conn 0 (Docker_Bridge.worker_read [] (\<lambda>_. Inr ())) ?w1"
  let ?w3 = "set_conn 0 Docker_Bridge.worker_write ?w2"
  let ?ack = "json_of_worker_message (Ack 1 True None)"
  let ?w4 = "run_line demo_env 0 ?ack ?w3"
  have w1: "?w1 = demo_state (?pend \<lparr> bc_stdin := [json_of_command (CommitAudio 1)] \<rparr>) Waiting Open"
    by (simp add: write_command_def demo_simps del: json_of_command.simps)
  have w2: "?w2 = demo_state (?pend \<lparr> bc_messages := [Ack 1 True None], bc_done := [(CommitAudio 1, Inr ())],
      bc_sent := [Ack 1 True None] \<rparr>) Waiting Open"
    unfolding w1 by (simp add: demo_simps Docker_Bridge.worker_read_def worker_line_def worker_send_def ack_of_def command_result_def
        Let_def del: json_of_command.simps)
  have w3: "?w3 = demo_state (?pend \<lparr> bc_output := [?ack], bc_done := [(CommitAudio 1, Inr ())],
      bc_sent := [Ack 1 True None] \<rparr>) Waiting Open"
    unfolding w2 by (simp add: demo_simps Docker_Bridge.worker_write_def del: json_of_worker_message.simps)
  have w4: "?w4 = demo_state demo_done Waiting (Got (Inr ()))"
    unfolding w3 by (simp add: run_line_def on_worker_message_def take_pending_def put_pending_def pending_of_def answer_call_def
        demo_simps del: json_of_worker_message.simps)
  have w5: "receive_answer 0 (demo_call Waiting (Got (Inr ()))) ?w4 = demo_returned"
    unfolding w4 by (simp add: receive_answer_def demo_simps)
  note demo_waiting_reached
  moreover have "bridge_step demo_env demo_waiting ?w1" by (rule writes)
  moreover have "bridge_step demo_env ?w1 ?w2"
    by (rule bridge_step.worker_read) (simp_all add: w1 demo_state_def, simp add: demo_conn_def conn_new_def)
  moreover have "bridge_step demo_env ?w2 ?w3" by (rule bridge_step.worker_write)
  moreover have "bridge_step demo_env ?w3 ?w4"
    by (rule line [where ls = "[]"]) (simp_all add: w3 demo_state_def del: json_of_worker_message.simps, simp del: json_of_worker_message.simps)
  moreover have "bridge_step demo_env ?w4 demo_returned"
    unfolding w5 [symmetric] by (rule receive) (simp_all add: w4 demo_state_def demo_call_def del: json_of_worker_message.simps)
  ultimately have "bridge_steps demo_env (Suc (Suc (Suc (Suc (Suc 6))))) bridge_new demo_returned"
    by (intro more)
  then show ?thesis by (simp add: numeral_eq_Suc)
qed

text \<open>A caller is dropped while it waits: its entry stays.\<close>

definition demo_cancelled :: bridge where
  "demo_cancelled = demo_state (demo_conn \<lparr> bc_pending := [1 \<mapsto> 0], bc_queue := [CommitAudio 1] \<rparr>) Cancelled Closed"

lemma demo_cancelled_reached: "bridge_steps demo_env 7 bridge_new demo_cancelled"
proof -
  have "cancel_call 0 demo_waiting = demo_cancelled"
    by (simp add: cancel_call_def demo_cancelled_def demo_simps)
  moreover have "bridge_step demo_env demo_waiting (cancel_call 0 demo_waiting)"
    by (rule cancel [of _ _ "demo_call Waiting Open"]) (simp_all add: demo_waiting_def demo_state_def demo_call_def)
  ultimately have "bridge_steps demo_env (Suc 6) bridge_new demo_cancelled" using more [OF demo_waiting_reached] by simp
  then show ?thesis by simp
qed


theorem acknowledged_means_done_witness:
  "\<exists>cn. br_conns demo_returned 0 = Some cn \<and> (CommitAudio 1, Inr ()) \<in> set (bc_done cn)"
  using acknowledged_means_done [OF demo_returned_reached, of 0 "demo_call (Returned (Inr ())) (Got (Inr ()))"]
  by (simp add: demo_returned_def demo_state_def demo_call_def)

theorem lost_worker_strands_callers_witness:
  "br_calls (snd (run_finish ''broken'' (run_stop ''broken'' demo_waiting))) = br_calls demo_waiting"
  using lost_worker_strands_callers [OF demo_waiting_reached, of 0 0 "demo_call Waiting Open" "''broken''"
      "fst (run_finish ''broken'' (run_stop ''broken'' demo_waiting))" "snd (run_finish ''broken'' (run_stop ''broken'' demo_waiting))" 0
      "snd (run_finish ''broken'' (run_stop ''broken'' demo_waiting))"] bridge_steps.none
  by (simp add: demo_waiting_def demo_state_def demo_call_def)

theorem close_answers_callers_witness:
  "listening (close_finish 0 demo_waiting) 0 = None"
  using close_answers_callers [OF demo_waiting_reached, of 0 "demo_call Waiting Open" 0 1]
  by (simp add: demo_waiting_def demo_state_def demo_call_def call_entry_def listens_def)

definition demo_spec :: connection_spec where
  "demo_spec = \<lparr> cs_kind = Docker, cs_session_id = ''s'', cs_image = ''img'', cs_api_key = ''k'', cs_model = ''m'', cs_voice = ''v'',
     cs_instructions = None, cs_base_url = Some ''ws://h'', cs_tool_names = [] \<rparr>"


end
