(* ===== verification/Tool_Handlers.thy ===== *)
theory Tool_Handlers
  imports Runner_Adapter "HOL-Library.Multiset"
begin

section \<open>Tools and operations offered to the provider\<close>

text \<open>
  What \<open>RunnerAdapter::create_session\<close> of \<open>liveclaw-app/src/main.rs\<close> hands to the library's realtime runner: for every
  tool of a session an \<open>AdkToolHandler\<close>, which the library calls when the provider's model asks for the tool, with the
  \<open>ToolInvocationContext\<close> the tool sees and the \<open>ToolExecutionMetrics\<close> that all sessions share; and
  \<open>RealtimeRunnerRuntime\<close>, which gives the library's errors their texts. The library's runner is a record of operations.
\<close>

subsection \<open>What a tool sees of its call\<close>

record tool_context =
  tx_invocation_id :: string
  tx_agent_name :: string
  tx_user_id :: string
  tx_app_name :: string
  tx_session_id :: string
  tx_branch :: string
  tx_user_content :: content
  tx_has_artifacts :: bool
  tx_function_call_id :: string
  tx_search_memory :: "string \<Rightarrow> (content \<times> string) list"

definition tool_context_of :: "invocation \<Rightarrow> tool_context" where
  "tool_context_of iv = \<lparr> tx_invocation_id = iv_function_call_id iv, tx_agent_name = ''liveclaw-tool-runtime'',
     tx_user_id = iv_user_id iv, tx_app_name = ''liveclaw'', tx_session_id = iv_session_id iv, tx_branch = [],
     tx_user_content = \<lparr> co_role = ''user'', co_parts = [] \<rparr>, tx_has_artifacts = False,
     tx_function_call_id = iv_function_call_id iv, tx_search_memory = (\<lambda>_. []) \<rparr>"

subsection \<open>The metrics\<close>

record tool_metrics =
  tm_total_calls :: u64
  tm_failed_calls :: u64
  tm_total_duration_millis :: u64

definition tool_metrics_default :: tool_metrics where
  "tool_metrics_default = \<lparr> tm_total_calls = 0, tm_failed_calls = 0, tm_total_duration_millis = 0 \<rparr>"

text \<open>The atomic additions, each of which wraps around, and those that one call makes, in their order.\<close>

datatype metrics_op = AddTotal | AddFailed | AddDuration u64

fun metrics_step :: "metrics_op \<Rightarrow> tool_metrics \<Rightarrow> tool_metrics" where
  "metrics_step AddTotal m = m \<lparr> tm_total_calls := tm_total_calls m + 1 \<rparr>"
| "metrics_step AddFailed m = m \<lparr> tm_failed_calls := tm_failed_calls m + 1 \<rparr>"
| "metrics_step (AddDuration d) m = m \<lparr> tm_total_duration_millis := tm_total_duration_millis m + d \<rparr>"

definition metrics_ops :: "nat \<Rightarrow> bool \<Rightarrow> metrics_op list" where
  "metrics_ops elapsed_millis success =
     [AddTotal] @ (if success then [] else [AddFailed]) @ [AddDuration (of_nat elapsed_millis)]"

definition metrics_run :: "metrics_op list \<Rightarrow> tool_metrics \<Rightarrow> tool_metrics" where
  "metrics_run ops m = fold metrics_step ops m"

definition metrics_record :: "nat \<Rightarrow> bool \<Rightarrow> tool_metrics \<Rightarrow> tool_metrics" where
  "metrics_record elapsed_millis success m = metrics_run (metrics_ops elapsed_millis success) m"

definition metrics_snapshot :: "tool_metrics \<Rightarrow> u64 \<times> u64 \<times> u64" where
  "metrics_snapshot m = (tm_total_calls m, tm_failed_calls m, tm_total_duration_millis m)"

subsection \<open>The handler of a tool\<close>

record 'w tool_handler =
  th_tool_name :: string
  th_tool :: "'w tool"
  th_session_id :: string
  th_user_id :: string

text \<open>A call with its identifier and arguments, which took \<open>elapsed_millis\<close> on the monotonic clock.\<close>

definition handler_execute ::
  "'w tool_handler \<Rightarrow> string \<Rightarrow> json \<Rightarrow> nat \<Rightarrow> tool_metrics \<times> 'w \<Rightarrow> json result \<times> tool_metrics \<times> 'w" where
  "handler_execute h call_id arguments elapsed_millis mw =
     (let (m, w) = mw;
          ctx = \<lparr> iv_function_call_id = call_id, iv_user_id = th_user_id h, iv_session_id = th_session_id h \<rparr>
      in case th_tool h ctx arguments w of
           (Inr out, w) \<Rightarrow> (Inr out, metrics_record elapsed_millis True m, w)
         | (Inl e, w) \<Rightarrow> (Inl e, metrics_record elapsed_millis False m, w))"

text \<open>The handlers of a session: a container gets none.\<close>

definition session_handlers :: "string \<Rightarrow> 'w realtime_session \<Rightarrow> (string \<times> 'w tool_handler) list" where
  "session_handlers session_id sess =
     (if cs_kind (rt_connection sess) = Native
      then map (\<lambda>(name, tool). (name, \<lparr> th_tool_name = name, th_tool = tool, th_session_id = session_id,
                                        th_user_id = rt_user_id sess \<rparr>)) (rt_tools sess)
      else [])"

subsection \<open>The runtime of a native session\<close>

record 'w realtime_runner =
  rr_connect :: "'w \<Rightarrow> unit result \<times> 'w"
  rr_run :: "'w \<Rightarrow> unit result \<times> 'w"
  rr_close :: "'w \<Rightarrow> unit result \<times> 'w"
  rr_send_audio :: "string \<Rightarrow> 'w \<Rightarrow> unit result \<times> 'w"
  rr_send_text :: "string \<Rightarrow> 'w \<Rightarrow> unit result \<times> 'w"
  rr_commit_audio :: "'w \<Rightarrow> unit result \<times> 'w"
  rr_create_response :: "'w \<Rightarrow> unit result \<times> 'w"
  rr_interrupt :: "'w \<Rightarrow> unit result \<times> 'w"

record 'w session_runtime =
  sr_connect :: "'w \<Rightarrow> unit result \<times> 'w"
  sr_run :: "'w \<Rightarrow> unit result \<times> 'w"
  sr_close :: "'w \<Rightarrow> unit result \<times> 'w"
  sr_send_audio_base64 :: "string \<Rightarrow> 'w \<Rightarrow> unit result \<times> 'w"
  sr_send_text :: "string \<Rightarrow> 'w \<Rightarrow> unit result \<times> 'w"
  sr_commit_audio :: "'w \<Rightarrow> unit result \<times> 'w"
  sr_create_response :: "'w \<Rightarrow> unit result \<times> 'w"
  sr_interrupt_response :: "'w \<Rightarrow> unit result \<times> 'w"

definition map_err :: "string \<Rightarrow> unit result \<times> 'w \<Rightarrow> unit result \<times> 'w" where
  "map_err told rw = (case fst rw of Inl e \<Rightarrow> (Inl (told @ e), snd rw) | Inr _ \<Rightarrow> rw)"

definition realtime_runner_runtime :: "'w realtime_runner \<Rightarrow> 'w session_runtime" where
  "realtime_runner_runtime r =
     \<lparr> sr_connect = (\<lambda>w. map_err ''Failed to connect realtime session: '' (rr_connect r w)),
       sr_run = (\<lambda>w. map_err ''Realtime runner loop ended: '' (rr_run r w)),
       sr_close = (\<lambda>w. map_err ''Failed to close realtime session cleanly: '' (rr_close r w)),
       sr_send_audio_base64 = (\<lambda>a w. map_err ''Failed to send audio to realtime provider: '' (rr_send_audio r a w)),
       sr_send_text = (\<lambda>t w. map_err ''Failed to send text to realtime provider: '' (rr_send_text r t w)),
       sr_commit_audio = (\<lambda>w. map_err ''Failed to commit realtime audio buffer: '' (rr_commit_audio r w)),
       sr_create_response = (\<lambda>w. map_err ''Failed to request realtime response: '' (rr_create_response r w)),
       sr_interrupt_response = (\<lambda>w. map_err ''Failed to interrupt realtime response: '' (rr_interrupt r w)) \<rparr>"

text \<open>An environment in which the connections of native sessions are runtimes of this kind.\<close>

definition runtime_env :: "(connection_spec \<Rightarrow> 'w session_runtime) \<Rightarrow> 'w adapter_env \<Rightarrow> 'w adapter_env" where
  "runtime_env rt env = env \<lparr>
     ae_connect := (\<lambda>spec. sr_connect (rt spec)), ae_close := (\<lambda>spec. sr_close (rt spec)),
     ae_send_audio_base64 := (\<lambda>spec. sr_send_audio_base64 (rt spec)), ae_send_text := (\<lambda>spec. sr_send_text (rt spec)),
     ae_commit_audio := (\<lambda>spec. sr_commit_audio (rt spec)), ae_create_response := (\<lambda>spec. sr_create_response (rt spec)),
     ae_interrupt_response := (\<lambda>spec. sr_interrupt_response (rt spec)) \<rparr>"

subsection \<open>The metrics of concurrent calls\<close>

text \<open>
  The calls of all sessions share the counters. Any interleaving of their additions, cut off anywhere, is a list that
  \<open>interleaved\<close> relates to the lists of the calls.
\<close>

inductive interleaved :: "'a list list \<Rightarrow> 'a list \<Rightarrow> bool" where
  cut: "interleaved tss []"
| step: "i < length tss \<Longrightarrow> tss ! i = x # xs \<Longrightarrow> interleaved (tss[i := xs]) ops \<Longrightarrow> interleaved tss (x # ops)"

inductive_cases interleaved_step: "interleaved tss (x # ops)"

definition call_ops :: "(nat \<times> bool) list \<Rightarrow> metrics_op list list" where
  "call_ops calls = map (\<lambda>(elapsed, success). metrics_ops elapsed success) calls"

text \<open>What is still to be added by a list: its calls, and its failures beyond them.\<close>

definition owed :: "metrics_op list \<Rightarrow> nat \<times> nat" where
  "owed ts = (count_list ts AddTotal, count_list ts AddFailed - count_list ts AddTotal)"

text \<open>The tails of the operations of a call.\<close>

definition call_tail :: "metrics_op list \<Rightarrow> bool" where
  "call_tail ts \<longleftrightarrow> (\<exists>d. ts \<in> {[], [AddDuration d], [AddFailed, AddDuration d], [AddTotal, AddFailed, AddDuration d],
     [AddTotal, AddDuration d]})"

lemma call_tail_ops: "call_tail (metrics_ops e ok)"
  by (auto simp: call_tail_def metrics_ops_def)

lemma call_tail_Cons: "call_tail (x # xs) \<Longrightarrow> call_tail xs"
  by (auto simp: call_tail_def)

lemma owed_step:
  assumes "call_tail (x # xs)"
  shows "fst (owed xs) + (if x = AddTotal then 1 else 0) = fst (owed (x # xs))"
    "snd (owed xs) + (if x = AddFailed then 1 else 0) \<le> snd (owed (x # xs)) + (if x = AddTotal then 1 else 0)"
  using assms by (auto simp: call_tail_def owed_def)

lemma sum_list_update:
  fixes f :: "'a \<Rightarrow> nat"
  assumes "i < length xs"
  shows "sum_list (map f (xs[i := y])) + f (xs ! i) = sum_list (map f xs) + f y"
  using assms by (induction xs arbitrary: i) (auto split: nat.split)

lemma interleaved_counts:
  assumes "interleaved tss ops" "list_all call_tail tss"
  shows "count_list ops AddTotal \<le> sum_list (map (fst \<circ> owed) tss) \<and>
    count_list ops AddFailed \<le> count_list ops AddTotal + sum_list (map (snd \<circ> owed) tss)"
  using assms
proof (induction rule: interleaved.induct)
  case (step i tss x xs ops)
  have t: "call_tail (x # xs)" using step.hyps(1,2) step.prems by (metis list_all_length)
  then have "list_all call_tail (tss[i := xs])"
    using step.hyps(1) step.prems call_tail_Cons [OF t] by (auto simp: list_all_length nth_list_update)
  note IH = step.IH [OF this]
  note o = owed_step [OF t]
  have "sum_list (map (fst \<circ> owed) (tss[i := xs])) + fst (owed (x # xs)) = sum_list (map (fst \<circ> owed) tss) + fst (owed xs)"
    "sum_list (map (snd \<circ> owed) (tss[i := xs])) + snd (owed (x # xs)) = sum_list (map (snd \<circ> owed) tss) + snd (owed xs)"
    using sum_list_update [OF step.hyps(1), of "fst \<circ> owed" xs] sum_list_update [OF step.hyps(1), of "snd \<circ> owed" xs] step.hyps(2)
    by (simp_all only: comp_apply)
  moreover have "count_list (x # ops) AddTotal = (if x = AddTotal then 1 else 0) + count_list ops AddTotal"
    "count_list (x # ops) AddFailed = (if x = AddFailed then 1 else 0) + count_list ops AddFailed" by simp_all
  ultimately show ?case using IH [THEN conjunct1] IH [THEN conjunct2] o by (intro conjI) linarith+
qed simp

lemma metrics_run_counts:
  "tm_total_calls (metrics_run ops m) = tm_total_calls m + of_nat (count_list ops AddTotal) \<and>
   tm_failed_calls (metrics_run ops m) = tm_failed_calls m + of_nat (count_list ops AddFailed)"
proof (induction ops arbitrary: m)
  case (Cons x ops)
  show ?case using Cons.IH [of "metrics_step x m"] by (cases x) (simp_all add: metrics_run_def)
qed (simp add: metrics_run_def)

text \<open>At every moment the metrics show no more failures than calls, and no more calls than were made.\<close>

theorem metrics_consistent:
  assumes "interleaved (call_ops calls) ops" "length calls < 2 ^ 64"
  shows "let (total, failed, _) = metrics_snapshot (metrics_run ops tool_metrics_default)
    in failed \<le> total \<and> unat total \<le> length calls"
proof -
  have tails: "list_all call_tail (call_ops calls)" by (auto simp: call_ops_def list_all_iff call_tail_ops)
  have "sum_list (map (fst \<circ> owed) (call_ops calls)) = length calls" "sum_list (map (snd \<circ> owed) (call_ops calls)) = 0"
    by (induction calls) (auto simp: call_ops_def owed_def metrics_ops_def)
  with interleaved_counts [OF assms(1) tails]
  have c: "count_list ops AddFailed \<le> count_list ops AddTotal" "count_list ops AddTotal \<le> length calls" by simp_all
  then have "unat (of_nat (count_list ops AddTotal) :: u64) = count_list ops AddTotal"
    "unat (of_nat (count_list ops AddFailed) :: u64) = count_list ops AddFailed"
    using assms(2) by (simp_all add: unat_of_nat)
  with c show ?thesis
    by (simp add: metrics_snapshot_def metrics_run_counts tool_metrics_default_def word_le_nat_alt)
qed

subsection \<open>Calls of the provider's model\<close>

lemma map_of_named: "map_of (map (\<lambda>(name, x). (name, f name x)) xs) name = map_option (f name) (map_of xs name)"
  by (induction xs) auto

lemma handler_of_session:
  assumes "map_of (session_handlers sid sess) name = Some h"
  shows "map_of (rt_tools sess) name = Some (th_tool h)" "th_user_id h = rt_user_id sess" "th_session_id h = sid"
  using assms by (auto simp: session_handlers_def map_of_named split: if_splits)

lemma handler_refused:
  assumes "auth_contract audit env" "rt_tools sess = protected_tools env ad (rt_user_id sess) (rt_role sess)"
    and "rt_role sess \<in> {''readonly'', ''supervised'', ''full''}" "\<not> role_permits ad (rt_role sess) name"
    and "map_of (session_handlers sid sess) name = Some h"
  shows "\<exists>e. handler_execute h call_id arguments ms (m, w) =
    (Inl e, metrics_record ms False m, audit (rt_user_id sess) name False w)"
proof -
  note h = handler_of_session [OF assms(5)]
  let ?iv = "\<lparr> iv_function_call_id = call_id, iv_user_id = th_user_id h, iv_session_id = th_session_id h \<rparr>"
  obtain e where "th_tool h ?iv arguments w = (Inl e, audit (rt_user_id sess) name False w)"
    using refused_tool [OF assms(1) _ assms(3,4), of "rt_user_id sess" "th_tool h" ?iv] h assms(2) by auto
  then show ?thesis by (simp add: handler_execute_def)
qed

text \<open>C25: A tool that the role of a session does not permit never runs in it. Whatever calls led to the session,
  a call of such a tool, directly or through the graph, answers that it failed or was interrupted (or fails itself,
  which happens only through the graph with a recursion limit of 1),
  and changes nothing outside but the clock and the audit file; and when the provider's model asks for the tool, its
  handler answers an error, writes the refusal to the audit file and does nothing else outside. The library keeps the
  contracts: its guard asks the access control first, its engine runs the nodes of a graph along the edges.\<close>

theorem unauthorised_tool_never_runs:
  assumes "play (adapter_runner env ad) calls (adapter_start w) = (oks, ap)" "ap_sessions ap sid = Some sess"
    and "auth_contract audit env" "engine_contract first (ae_engine env)"
    and "\<not> role_permits ad (rt_role sess) (trim tool_name)"
  shows "(\<exists>res ap'. session_tool_call env sid tool_name arguments ap = (res, ap') \<and>
       (case res of Inr (r, report) \<Rightarrow> json_get ''status'' r \<noteq> Some (JStr ''ok'')
        | Inl e \<Rightarrow> rt_graph_enabled sess \<and> rt_graph_recursion_limit sess < 2) \<and>
       (let w1 = snd (ae_clock env (ap_world ap)); w2 = snd (ae_clock env w1);
            refused = audit (rt_user_id sess) (trim tool_name) False
        in ap_world ap' \<in> {w1, w2, refused w1, refused w2})) \<and>
     (\<forall>h. map_of (session_handlers sid sess) (trim tool_name) = Some h \<longrightarrow>
       (\<exists>e. handler_execute h call_id arguments ms (m, v) =
          (Inl e, metrics_record ms False m, audit (rt_user_id sess) (trim tool_name) False v)))"
proof -
  have "adapter_ok env ad (adapter_start w)" by (simp add: adapter_ok_def adapter_start_def)
  from adapter_play_ok [OF assms(1) this] assms(2)
  have ok: "rt_role sess \<in> {''readonly'', ''supervised'', ''full''}"
    "rt_tools sess = protected_tools env ad (rt_user_id sess) (rt_role sess)"
    by (auto simp: adapter_ok_def session_ok_def)
  show ?thesis
    by (rule conjI [OF session_call_refused [OF assms]]) (use handler_refused [OF assms(3) ok(2,1) assms(5)] in blast)
qed

text \<open>A tool that the role permits does run, once, after the permission was written to the audit file.\<close>

theorem permitted_tool_runs:
  assumes "play (adapter_runner env ad) calls (adapter_start w) = (oks, ap)" "ap_sessions ap sid = Some sess"
    and "auth_contract audit env" "role_permits ad (rt_role sess) name" "name \<in> set baseline_tool_names"
    and "ad_runtime_kind ad = Native"
  shows "\<exists>h raw. map_of (session_handlers sid sess) name = Some h \<and>
     map_of (baseline_tools env \<lparr> wp_workspace_root = ts_workspace_root (ad_tool_security ad),
        wp_forbidden_paths = ts_forbidden_tool_paths (ad_tool_security ad), wp_max_read_bytes = 16384 \<rparr>) name = Some raw \<and>
     handler_execute h call_id arguments ms (m, v) =
       (let (r, v') = raw \<lparr> iv_function_call_id = call_id, iv_user_id = rt_user_id sess, iv_session_id = sid \<rparr> arguments
                        (audit (rt_user_id sess) name True v)
        in (r, metrics_record ms (\<not> isl r) m, v'))"
proof -
  have "adapter_ok env ad (adapter_start w)" by (simp add: adapter_ok_def adapter_start_def)
  from adapter_play_ok [OF assms(1) this] assms(2)
  have ok: "rt_role sess \<in> {''readonly'', ''supervised'', ''full''}" "cs_kind (rt_connection sess) = Native"
    "rt_tools sess = protected_tools env ad (rt_user_id sess) (rt_role sess)"
    using assms(6) by (auto simp: adapter_ok_def session_ok_def)
  let ?policy = "\<lparr> wp_workspace_root = ts_workspace_root (ad_tool_security ad),
    wp_forbidden_paths = ts_forbidden_tool_paths (ad_tool_security ad), wp_max_read_bytes = 16384 \<rparr>"
  let ?roles = "access_roles (ts_tool_allowlist (ad_tool_security ad))" and ?as = "[(rt_user_id sess, rt_role sess)]"
  have "name \<in> fst ` set (baseline_tools env ?policy)"
    using assms(5) by (auto simp: baseline_tools_def baseline_tool_names_def)
  then obtain raw where raw: "map_of (baseline_tools env ?policy) name = Some raw"
    by (meson map_of_eq_None_iff not_None_eq)
  have h: "map_of (session_handlers sid sess) name = Some \<lparr> th_tool_name = name,
      th_tool = ae_protect env ?roles ?as name raw, th_session_id = sid, th_user_id = rt_user_id sess \<rparr>"
    unfolding session_handlers_def ok(2,3) protected_tools_def by (simp add: map_of_named raw del: map_map)
  have "permits ?roles ?as (rt_user_id sess) name" using permits_access_roles [OF ok(1)] assms(4) by simp
  then have run: "ae_protect env ?roles ?as name raw iv arguments v = raw iv arguments (audit (rt_user_id sess) name True v)"
    if "iv_user_id iv = rt_user_id sess" for iv
    using assms(3) that unfolding auth_contract_def by metis
  show ?thesis
    using h raw by (intro exI conjI) (auto simp: handler_execute_def run split: prod.split sum.split)
qed

subsection \<open>Errors of a native session\<close>

text \<open>The client of the gateway reads what failed and what the library said.\<close>

theorem native_errors_reported:
  assumes "ap_sessions ap sid = Some sess" "rt (rt_connection sess) = realtime_runner_runtime r" "trim prompt \<noteq> []"
    and "rr_send_text r (trim prompt) (ap_world ap) = (Inl e, w')"
  shows "send_text (runtime_env rt env) sid prompt ap =
    (Inl (''Failed to send text to realtime provider: '' @ e), ap \<lparr> ap_world := w' \<rparr>)"
  using assms by (simp add: send_text_def Let_def on_session_def on_world_def runtime_env_def realtime_runner_runtime_def map_err_def)

subsection \<open>Witnesses\<close>

lemma sample_handlers:
  assumes "ap_sessions sample_adapter ''s'' = Some sess"
  shows "map fst (session_handlers ''s'' sess) = baseline_tool_names"
proof -
  have "adapter_ok sample_env sample_settings (adapter_start 0)" by (simp add: adapter_ok_def adapter_start_def)
  from adapter_play_ok [OF sample_play this] assms
  have "cs_kind (rt_connection sess) = ad_runtime_kind sample_settings"
    "rt_tools sess = protected_tools sample_env sample_settings (rt_user_id sess) (rt_role sess)"
    by (auto simp: adapter_ok_def session_ok_def)
  moreover have "ad_runtime_kind sample_settings = Native" by code_simp
  moreover have "map fst (map (\<lambda>(n, x). (n, f n x)) xs) = map fst xs" for f :: "string \<Rightarrow> nat tool \<Rightarrow> nat tool_handler" and xs
    by (induction xs) auto
  ultimately show ?thesis by (simp add: session_handlers_def del: map_map)
qed

theorem unauthorised_tool_never_runs_witness:
  "(\<exists>r report ap'. session_tool_call sample_env ''s'' ''echo_text'' JNull sample_adapter = (Inr (r, report), ap') \<and>
       json_get ''status'' r \<noteq> Some (JStr ''ok'')) \<and>
   (\<exists>h e. map_of (session_handlers ''s'' (the (ap_sessions sample_adapter ''s''))) ''echo_text'' = Some h \<and>
       handler_execute h ''c'' JNull 0 (tool_metrics_default, 7) = (Inl e, metrics_record 0 False tool_metrics_default, 8))"
proof -
  obtain sess where s: "ap_sessions sample_adapter ''s'' = Some sess" "rt_role sess = ''readonly''"
    "rt_graph_recursion_limit sess = 25" by (rule sample_session)
  have name: "trim ''echo_text'' = ''echo_text''" by code_simp
  have "\<not> role_permits sample_settings (rt_role sess) (trim ''echo_text'')" by (simp add: s(2) role_permits_def)
  note both = unauthorised_tool_never_runs [OF sample_play s(1) sample_env_contracts this, of JNull "''c''" 0
        tool_metrics_default 7, unfolded name]
  have refused: "\<exists>r report ap'. session_tool_call sample_env ''s'' ''echo_text'' JNull sample_adapter =
        (Inr (r, report), ap') \<and> json_get ''status'' r \<noteq> Some (JStr ''ok'')"
  proof -
    obtain res ap' where res: "session_tool_call sample_env ''s'' ''echo_text'' JNull sample_adapter = (res, ap')"
      "case res of Inr (r, report) \<Rightarrow> json_get ''status'' r \<noteq> Some (JStr ''ok'')
       | Inl e \<Rightarrow> rt_graph_enabled sess \<and> rt_graph_recursion_limit sess < 2"
      using conjunct1 [OF both] by blast
    then show ?thesis by (cases res) (auto simp: s(3))
  qed
  have handlers: "(\<forall>h. map_of (session_handlers ''s'' sess) ''echo_text'' = Some h \<longrightarrow>
        (\<exists>e. handler_execute h ''c'' JNull 0 (tool_metrics_default, 7) = (Inl e, metrics_record 0 False tool_metrics_default, 8)))"
    using conjunct2 [OF both] by simp
  have "''echo_text'' \<in> fst ` set (session_handlers ''s'' sess)"
    unfolding image_set sample_handlers [OF s(1)] by (simp add: baseline_tool_names_def)
  then obtain h where "map_of (session_handlers ''s'' sess) ''echo_text'' = Some h"
    by (meson map_of_eq_None_iff not_None_eq)
  with refused handlers s(1) show ?thesis by auto
qed

theorem metrics_consistent_witness:
  "tm_failed_calls (metrics_run [AddTotal, AddTotal, AddFailed] tool_metrics_default) \<le>
     tm_total_calls (metrics_run [AddTotal, AddTotal, AddFailed] tool_metrics_default)"
proof -
  let ?calls = "[(3, True), (5, False)] :: (nat \<times> bool) list"
  have "interleaved (call_ops ?calls) [AddTotal, AddTotal, AddFailed]"
    unfolding call_ops_def metrics_ops_def
    by (rule interleaved.step [of 0], simp, simp, rule interleaved.step [of 1], simp, simp,
        rule interleaved.step [of 1], simp, simp, rule interleaved.cut)
  from metrics_consistent [OF this] show ?thesis by (simp add: metrics_snapshot_def Let_def)
qed

end
