(* ===== verification/Cli.thy ===== *)
theory Cli
  imports Provider
begin

section \<open>The command line\<close>

text \<open>
  The commands of \<open>liveclaw-app/src/main.rs\<close> and their parsers: \<open>parse_command\<close>, \<open>parse_onboard_args\<close> and
  \<open>parse_service_args\<close>. The index of the source's loops is the rest of the arguments here, and the loop over the
  options of the onboarding reads a table of the options without and with a value.
\<close>

subsection \<open>Numbers\<close>

text \<open>\<open>str::parse\<close> for an unsigned integer up to a largest value: a plus sign may come first.\<close>

fun parse_unsigned_from :: "nat \<Rightarrow> nat \<Rightarrow> string \<Rightarrow> nat result" where
  "parse_unsigned_from max_value acc [] = Inr acc"
| "parse_unsigned_from max_value acc (c # s) =
     (if \<not> is_dec_digit c then Inl ''invalid digit found in string''
      else let acc = acc * 10 + (byte_of c - 48)
           in if max_value < acc then Inl ''number too large to fit in target type''
              else parse_unsigned_from max_value acc s)"

definition parse_unsigned :: "nat \<Rightarrow> string \<Rightarrow> nat result" where
  "parse_unsigned max_value s =
     (if s = [] then Inl ''cannot parse integer from empty string''
      else if s = ''+'' then Inl ''invalid digit found in string''
      else parse_unsigned_from max_value 0 (if starts_with s ''+'' then drop 1 s else s))"

type_synonym u16 = "16 word"

definition parse_u16 :: "string \<Rightarrow> u16 result" where
  "parse_u16 s = map_sum id of_nat (parse_unsigned (2 ^ 16 - 1) s)"

definition parse_usize :: "string \<Rightarrow> 64 word result" where
  "parse_usize s = map_sum id of_nat (parse_unsigned (2 ^ 64 - 1) s)"

subsection \<open>The commands\<close>

definition DEFAULT_CONFIG_PATH :: string where
  "DEFAULT_CONFIG_PATH = ''liveclaw.toml''"

datatype service_log_stream = Stdout | Stderr | Both

datatype service_command =
    Install string bool
  | Start
  | Stop
  | Restart
  | Status
  | Logs "64 word" bool service_log_stream
  | Uninstall

record onboard_options =
  oo_config_path :: string
  oo_force :: bool
  oo_non_interactive :: bool
  oo_install_service :: bool
  oo_start_service :: bool
  oo_api_key :: "string option"
  oo_model :: "string option"
  oo_provider_profile :: "string option"
  oo_base_url :: "string option"
  oo_gateway_host :: "string option"
  oo_gateway_port :: "u16 option"
  oo_require_pairing :: "bool option"

definition onboard_default :: onboard_options where
  "onboard_default = \<lparr> oo_config_path = DEFAULT_CONFIG_PATH, oo_force = False, oo_non_interactive = False,
     oo_install_service = False, oo_start_service = False, oo_api_key = None, oo_model = None,
     oo_provider_profile = None, oo_base_url = None, oo_gateway_host = None, oo_gateway_port = None,
     oo_require_pairing = None \<rparr>"

datatype app_command =
    Run string
  | Doctor string
  | RuntimeWorker
  | Onboard onboard_options
  | Service service_command
  | Help

definition text_lines :: "string list \<Rightarrow> string" where
  "text_lines ls = concat (map (\<lambda>l. l @ [CHR 0x0A]) ls)"

definition cli_usage :: string where
  "cli_usage = text_lines [
     ''Usage:'',
     ''  liveclaw-app [CONFIG_PATH]'',
     ''  liveclaw-app --doctor [CONFIG_PATH]'',
     ''  liveclaw-app doctor [CONFIG_PATH]'',
     ''  liveclaw-app onboard [CONFIG_PATH] [--force] [--non-interactive]'',
     ''      [--api-key KEY] [--model MODEL]'',
     ''      [--provider-profile legacy|openai|openai_compatible]'',
     ''      [--base-url WS_URL]'',
     ''      [--gateway-host HOST] [--gateway-port PORT]'',
     ''      [--require-pairing true|false | --no-pairing]'',
     ''      [--install-service] [--start-service]'',
     ''  liveclaw-app service install [--config CONFIG_PATH] [--force]'',
     ''  liveclaw-app service start|stop|restart|status|uninstall'',
     ''  liveclaw-app service logs [--lines N] [--follow] [--stream both|stdout|stderr]'',
     ''  liveclaw-app service doctor [--config CONFIG_PATH]'',
     ''  liveclaw-app --runtime-worker'']"

definition with_usage :: "string \<Rightarrow> string" where
  "with_usage e = e @ CHR 0x0A # cli_usage"

subsection \<open>The options of the onboarding\<close>

definition parse_bool_flag :: "string \<Rightarrow> string \<Rightarrow> bool result" where
  "parse_bool_flag raw flag_name =
     (let v = to_ascii_lowercase (trim raw)
      in if v \<in> {''true'', ''1'', ''yes'', ''y'', ''on''} then Inr True
         else if v \<in> {''false'', ''0'', ''no'', ''n'', ''off''} then Inr False
         else Inl (''Invalid value '' @ quoted raw @ '' for '' @ flag_name @ '' (expected true/false)''))"

definition onboard_flag :: "string \<Rightarrow> (onboard_options \<Rightarrow> onboard_options) option" where
  "onboard_flag arg =
     (if arg = ''--force'' then Some (oo_force_update (\<lambda>_. True))
      else if arg = ''--non-interactive'' then Some (oo_non_interactive_update (\<lambda>_. True))
      else if arg = ''--install-service'' then Some (oo_install_service_update (\<lambda>_. True))
      else if arg = ''--start-service''
      then Some (\<lambda>opts. opts \<lparr> oo_start_service := True, oo_install_service := True \<rparr>)
      else if arg = ''--no-pairing'' then Some (oo_require_pairing_update (\<lambda>_. Some False))
      else None)"

text \<open>The error of a missing value, and the effect of a value; the flag says whether the path was given.\<close>

type_synonym onboard_state = "onboard_options \<times> bool"

definition set_option :: "(onboard_options \<Rightarrow> onboard_options) \<Rightarrow> onboard_state \<Rightarrow> onboard_state result" where
  "set_option f st = Inr (f (fst st), snd st)"

definition onboard_value :: "string \<Rightarrow> (string \<times> (string \<Rightarrow> onboard_state \<Rightarrow> onboard_state result)) option" where
  "onboard_value arg =
     (if arg = ''--config''
      then Some (''--config requires a path'', \<lambda>v st. Inr (fst st \<lparr> oo_config_path := v \<rparr>, True))
      else if arg = ''--api-key''
      then Some (''--api-key requires a value'', \<lambda>v. set_option (oo_api_key_update (\<lambda>_. Some v)))
      else if arg = ''--model''
      then Some (''--model requires a value'', \<lambda>v. set_option (oo_model_update (\<lambda>_. Some v)))
      else if arg = ''--provider-profile''
      then Some (''--provider-profile requires a value'', \<lambda>v. set_option (oo_provider_profile_update (\<lambda>_. Some v)))
      else if arg = ''--base-url''
      then Some (''--base-url requires a value'', \<lambda>v. set_option (oo_base_url_update (\<lambda>_. Some v)))
      else if arg = ''--gateway-host''
      then Some (''--gateway-host requires a value'', \<lambda>v. set_option (oo_gateway_host_update (\<lambda>_. Some v)))
      else if arg = ''--gateway-port''
      then Some (''--gateway-port requires a value'', \<lambda>v st.
        (case parse_u16 v of
           Inl e \<Rightarrow> Inl (''Invalid --gateway-port '' @ quoted v @ '': '' @ e)
         | Inr port \<Rightarrow> set_option (oo_gateway_port_update (\<lambda>_. Some port)) st))
      else if arg = ''--require-pairing''
      then Some (''--require-pairing requires true/false'', \<lambda>v st.
        (case parse_bool_flag v ''--require-pairing'' of
           Inl e \<Rightarrow> Inl e
         | Inr b \<Rightarrow> set_option (oo_require_pairing_update (\<lambda>_. Some b)) st))
      else None)"

fun onboard_loop :: "string list \<Rightarrow> onboard_state \<Rightarrow> app_command result" where
  "onboard_loop [] st = Inr (Onboard (fst st))"
| "onboard_loop (arg # args) st =
     (case onboard_flag arg of
        Some f \<Rightarrow> onboard_loop args (f (fst st), snd st)
      | None \<Rightarrow>
          (case onboard_value arg of
             Some (missing, set_value) \<Rightarrow>
               (case args of
                  [] \<Rightarrow> Inl missing
                | value # args \<Rightarrow>
                    (case set_value value st of
                       Inl e \<Rightarrow> Inl e
                     | Inr st \<Rightarrow> onboard_loop args st))
           | None \<Rightarrow>
               (if starts_with arg ''-'' then Inl (with_usage (''Unknown onboard option '' @ quoted arg))
                else if snd st then Inl (with_usage (''Unexpected positional argument '' @ quoted arg @ '' for onboard''))
                else onboard_loop args (fst st \<lparr> oo_config_path := arg \<rparr>, True))))"

definition parse_onboard_args :: "string list \<Rightarrow> app_command result" where
  "parse_onboard_args args = onboard_loop args (onboard_default, False)"

subsection \<open>The service commands\<close>

definition parse_service_log_stream :: "string \<Rightarrow> service_log_stream result" where
  "parse_service_log_stream raw =
     (let v = to_ascii_lowercase (trim raw)
      in if v \<in> {''stdout'', ''out''} then Inr Stdout
         else if v \<in> {''stderr'', ''err''} then Inr Stderr
         else if v \<in> {''both'', ''all''} then Inr Both
         else Inl (''Invalid --stream value '' @ quoted raw @ '' (expected both|stdout|stderr)''))"

fun service_install_loop :: "string list \<Rightarrow> string \<Rightarrow> bool \<Rightarrow> app_command result" where
  "service_install_loop [] config_path force = Inr (Service (Install config_path force))"
| "service_install_loop (arg # args) config_path force =
     (if arg = ''--config'' then
        (case args of
           [] \<Rightarrow> Inl ''service install --config requires a path''
         | value # args \<Rightarrow> service_install_loop args value force)
      else if arg = ''--force'' then service_install_loop args config_path True
      else Inl (with_usage (''Unknown service install option '' @ quoted arg)))"

fun service_logs_loop :: "string list \<Rightarrow> 64 word \<Rightarrow> bool \<Rightarrow> service_log_stream \<Rightarrow> app_command result" where
  "service_logs_loop [] n follow stream = Inr (Service (Logs n follow stream))"
| "service_logs_loop (arg # args) n follow stream =
     (if arg = ''--lines'' then
        (case args of
           [] \<Rightarrow> Inl ''service logs --lines requires a number''
         | value # args \<Rightarrow>
             (case parse_usize value of
                Inl e \<Rightarrow> Inl (''Invalid --lines '' @ quoted value @ '': '' @ e)
              | Inr n \<Rightarrow>
                  (if n = 0 then Inl ''service logs --lines must be greater than zero''
                   else service_logs_loop args n follow stream)))
      else if arg = ''--follow'' then service_logs_loop args n True stream
      else if arg = ''--stream'' then
        (case args of
           [] \<Rightarrow> Inl ''service logs --stream requires a value''
         | value # args \<Rightarrow>
             (case parse_service_log_stream value of
                Inl e \<Rightarrow> Inl e
              | Inr stream \<Rightarrow> service_logs_loop args n follow stream))
      else if arg = ''--stdout'' then service_logs_loop args n follow Stdout
      else if arg = ''--stderr'' then service_logs_loop args n follow Stderr
      else Inl (with_usage (''Unknown service logs option '' @ quoted arg)))"

fun service_doctor_loop :: "string list \<Rightarrow> string \<Rightarrow> app_command result" where
  "service_doctor_loop [] config_path = Inr (Doctor config_path)"
| "service_doctor_loop (arg # args) config_path =
     (if arg = ''--config'' then
        (case args of
           [] \<Rightarrow> Inl ''service doctor --config requires a path''
         | value # args \<Rightarrow> service_doctor_loop args value)
      else Inl (with_usage (''Unknown service doctor option '' @ quoted arg)))"

definition parse_service_args :: "string list \<Rightarrow> app_command result" where
  "parse_service_args args =
     (case args of
        [] \<Rightarrow> Inl (with_usage ''service requires a subcommand'')
      | action # args \<Rightarrow>
          (if action = ''install'' then service_install_loop args DEFAULT_CONFIG_PATH False
           else if action = ''start'' then Inr (Service Start)
           else if action = ''stop'' then Inr (Service Stop)
           else if action = ''restart'' then Inr (Service Restart)
           else if action = ''status'' then Inr (Service Status)
           else if action = ''logs'' then service_logs_loop args 80 False Both
           else if action = ''doctor'' then service_doctor_loop args DEFAULT_CONFIG_PATH
           else if action = ''uninstall'' then Inr (Service Uninstall)
           else Inl (with_usage (''Unknown service subcommand '' @ quoted action))))"

text \<open>\<open>args\<close> are the arguments of the process after the name of the program.\<close>

definition parse_command :: "string list \<Rightarrow> app_command result" where
  "parse_command args =
     (case args of
        [] \<Rightarrow> Inr (Run DEFAULT_CONFIG_PATH)
      | first # args \<Rightarrow>
          (if first = ''--runtime-worker'' then Inr RuntimeWorker
           else if first = ''--doctor'' \<or> first = ''doctor''
           then Inr (Doctor (case args of [] \<Rightarrow> DEFAULT_CONFIG_PATH | path # _ \<Rightarrow> path))
           else if first = ''onboard'' \<or> first = ''--onboard'' then parse_onboard_args args
           else if first = ''service'' then parse_service_args args
           else if first = ''--help'' \<or> first = ''-h'' \<or> first = ''help'' then Inr Help
           else if starts_with first ''-'' then Inl (with_usage (''Unknown option '' @ quoted first))
           else Inr (Run first)))"

subsection \<open>Writing commands\<close>

text \<open>The arguments that name a command, for the commands the parser can produce.\<close>

definition option_args :: "string \<Rightarrow> string option \<Rightarrow> string list" where
  "option_args name v = (case v of None \<Rightarrow> [] | Some s \<Rightarrow> [name, s])"

definition flag_args :: "string \<Rightarrow> bool \<Rightarrow> string list" where
  "flag_args name b = (if b then [name] else [])"

definition onboard_args :: "onboard_options \<Rightarrow> string list" where
  "onboard_args opts =
     flag_args ''--force'' (oo_force opts) @ flag_args ''--non-interactive'' (oo_non_interactive opts) @
     flag_args ''--install-service'' (oo_install_service opts) @ flag_args ''--start-service'' (oo_start_service opts) @
     option_args ''--api-key'' (oo_api_key opts) @ option_args ''--model'' (oo_model opts) @
     option_args ''--provider-profile'' (oo_provider_profile opts) @ option_args ''--base-url'' (oo_base_url opts) @
     option_args ''--gateway-host'' (oo_gateway_host opts) @
     option_args ''--gateway-port'' (map_option (\<lambda>port. show_nat (unat port)) (oo_gateway_port opts)) @
     option_args ''--require-pairing'' (map_option show_bool (oo_require_pairing opts)) @
     [''--config'', oo_config_path opts]"

fun service_args :: "service_command \<Rightarrow> string list" where
  "service_args (Install path force) = [''install'', ''--config'', path] @ flag_args ''--force'' force"
| "service_args Start = [''start'']"
| "service_args Stop = [''stop'']"
| "service_args Restart = [''restart'']"
| "service_args Status = [''status'']"
| "service_args (Logs n follow stream) =
     [''logs'', ''--lines'', show_nat (unat n), ''--stream'',
      (case stream of Stdout \<Rightarrow> ''stdout'' | Stderr \<Rightarrow> ''stderr'' | Both \<Rightarrow> ''both'')] @ flag_args ''--follow'' follow"
| "service_args Uninstall = [''uninstall'']"

fun command_args :: "app_command \<Rightarrow> string list" where
  "command_args (Run path) = [path]"
| "command_args (Doctor path) = [''doctor'', path]"
| "command_args RuntimeWorker = [''--runtime-worker'']"
| "command_args (Onboard opts) = ''onboard'' # onboard_args opts"
| "command_args (Service c) = ''service'' # service_args c"
| "command_args Help = [''--help'']"

text \<open>The path of a run is no name of a command and no option.\<close>

definition command_words :: "string set" where
  "command_words = {''doctor'', ''onboard'', ''service'', ''help''}"

fun command_ok :: "app_command \<Rightarrow> bool" where
  "command_ok (Run path) = (path \<notin> command_words \<and> \<not> starts_with path ''-'')"
| "command_ok (Onboard opts) = (oo_start_service opts \<longrightarrow> oo_install_service opts)"
| "command_ok (Service (Logs n _ _)) = (n \<noteq> 0)"
| "command_ok _ = True"

subsection \<open>Facts about the parsers\<close>

lemma digits_grow: "acc \<le> foldl (\<lambda>acc c. acc * 10 + (byte_of c - 48)) acc s"
proof (induction s arbitrary: acc)
  case (Cons c s)
  from Cons [of "acc * 10 + (byte_of c - 48)"] show ?case by simp
qed simp

lemma parse_unsigned_from_digits:
  assumes "list_all is_dec_digit s" "foldl (\<lambda>acc c. acc * 10 + (byte_of c - 48)) acc s \<le> max_value"
  shows "parse_unsigned_from max_value acc s = Inr (foldl (\<lambda>acc c. acc * 10 + (byte_of c - 48)) acc s)"
  using assms
proof (induction s arbitrary: acc)
  case (Cons c s)
  then show ?case using digits_grow [of "acc * 10 + (byte_of c - 48)" s] by (simp add: Let_def)
qed simp

lemma show_nat_no_plus: "\<not> starts_with (show_nat n) ''+''" "show_nat n \<noteq> ''+''"
  using hd_show_nat [of n] by (cases "show_nat n"; auto simp: starts_with_def is_dec_digit_def byte_of_def)+

lemma parse_unsigned_show: "n \<le> max_value \<Longrightarrow> parse_unsigned max_value (show_nat n) = Inr n"
  using parse_unsigned_from_digits [of "show_nat n" 0 max_value] parse_show_nat [of n] show_nat_no_plus [of n]
  by (simp add: parse_unsigned_def digits_val_def)

lemma parse_unsigned_word:
  "parse_unsigned (2 ^ LENGTH('a) - 1) (show_nat (unat (w :: 'a::len word))) = Inr (unat w)"
  using unsigned_less [of w, where 'a = nat] by (intro parse_unsigned_show) linarith

lemma parse_u16_show [simp]: "parse_u16 (show_nat (unat w)) = Inr w"
  using parse_unsigned_word [of w] by (simp add: parse_u16_def)

lemma parse_usize_show [simp]: "parse_usize (show_nat (unat w)) = Inr w"
  using parse_unsigned_word [of w] by (simp add: parse_usize_def)

lemma parse_show_bool [simp]: "parse_bool_flag (show_bool b) n = Inr b"
proof -
  have "to_ascii_lowercase (trim ''true'') = ''true''" "to_ascii_lowercase (trim ''false'') = ''false''" by code_simp+
  then show ?thesis by (simp add: parse_bool_flag_def show_bool_def)
qed

lemma parse_stream_name [simp]:
  "parse_service_log_stream (case stream of Stdout \<Rightarrow> ''stdout'' | Stderr \<Rightarrow> ''stderr'' | Both \<Rightarrow> ''both'') = Inr stream"
proof -
  have "to_ascii_lowercase (trim ''stdout'') = ''stdout''" "to_ascii_lowercase (trim ''stderr'') = ''stderr''"
    "to_ascii_lowercase (trim ''both'') = ''both''" by code_simp+
  then show ?thesis by (simp add: parse_service_log_stream_def split: service_log_stream.split)
qed

lemma loop_flag [simp]:
  "\<not> oo_force opts \<Longrightarrow> onboard_loop (flag_args ''--force'' b @ args) (opts, c) =
     onboard_loop args (opts \<lparr> oo_force := b \<rparr>, c)"
  "\<not> oo_non_interactive opts \<Longrightarrow> onboard_loop (flag_args ''--non-interactive'' b @ args) (opts, c) =
     onboard_loop args (opts \<lparr> oo_non_interactive := b \<rparr>, c)"
  "\<not> oo_install_service opts \<Longrightarrow> onboard_loop (flag_args ''--install-service'' b @ args) (opts, c) =
     onboard_loop args (opts \<lparr> oo_install_service := b \<rparr>, c)"
  "\<not> oo_start_service opts \<Longrightarrow> onboard_loop (flag_args ''--start-service'' b @ args) (opts, c) =
     onboard_loop args (opts \<lparr> oo_start_service := b, oo_install_service := oo_install_service opts \<or> b \<rparr>, c)"
  by (cases opts; simp add: flag_args_def onboard_flag_def)+

lemmas onboard_defs = onboard_flag_def onboard_value_def set_option_def

lemma loop_option [simp]:
  "oo_api_key opts = None \<Longrightarrow> onboard_loop (option_args ''--api-key'' v @ args) (opts, c) =
     onboard_loop args (opts \<lparr> oo_api_key := v \<rparr>, c)"
  "oo_model opts = None \<Longrightarrow> onboard_loop (option_args ''--model'' v @ args) (opts, c) =
     onboard_loop args (opts \<lparr> oo_model := v \<rparr>, c)"
  "oo_provider_profile opts = None \<Longrightarrow> onboard_loop (option_args ''--provider-profile'' v @ args) (opts, c) =
     onboard_loop args (opts \<lparr> oo_provider_profile := v \<rparr>, c)"
  "oo_base_url opts = None \<Longrightarrow> onboard_loop (option_args ''--base-url'' v @ args) (opts, c) =
     onboard_loop args (opts \<lparr> oo_base_url := v \<rparr>, c)"
  "oo_gateway_host opts = None \<Longrightarrow> onboard_loop (option_args ''--gateway-host'' v @ args) (opts, c) =
     onboard_loop args (opts \<lparr> oo_gateway_host := v \<rparr>, c)"
  "oo_gateway_port opts = None \<Longrightarrow> onboard_loop (option_args ''--gateway-port'' (map_option (\<lambda>port. show_nat (unat port)) w) @ args) (opts, c) =
     onboard_loop args (opts \<lparr> oo_gateway_port := w \<rparr>, c)"
  "oo_require_pairing opts = None \<Longrightarrow> onboard_loop (option_args ''--require-pairing'' (map_option show_bool b) @ args) (opts, c) =
     onboard_loop args (opts \<lparr> oo_require_pairing := b \<rparr>, c)"
  by (cases opts; simp add: option_args_def onboard_defs split: option.split)+

lemma loop_config [simp]:
  "onboard_loop [''--config'', path] (opts, c) = Inr (Onboard (opts \<lparr> oo_config_path := path \<rparr>))"
  by (simp add: onboard_defs)

lemma onboard_args_parsed:
  assumes "oo_start_service opts \<longrightarrow> oo_install_service opts"
  shows "parse_onboard_args (onboard_args opts) = Inr (Onboard opts)"
proof -
  have "oo_install_service opts \<or> oo_start_service opts \<longleftrightarrow> oo_install_service opts" using assms by blast
  then show ?thesis
    by (simp add: parse_onboard_args_def onboard_args_def onboard_default_def del: onboard_loop.simps)
qed

lemma service_args_parsed:
  assumes "command_ok (Service c)"
  shows "parse_service_args (service_args c) = Inr (Service c)"
  using assms by (cases c) (simp_all add: parse_service_args_def flag_args_def)

text \<open>The loop of the onboarding keeps the start of a service below its installation.\<close>

lemma flag_keeps_ok:
  assumes "onboard_flag arg = Some f" "oo_start_service opts \<longrightarrow> oo_install_service opts"
  shows "oo_start_service (f opts) \<longrightarrow> oo_install_service (f opts)"
  using assms by (auto simp: onboard_flag_def split: if_splits)

lemma value_keeps_ok:
  assumes "onboard_value arg = Some (missing, set_value)" "set_value v st = Inr st'"
    and "oo_start_service (fst st) \<longrightarrow> oo_install_service (fst st)"
  shows "oo_start_service (fst st') \<longrightarrow> oo_install_service (fst st')"
  using assms by (auto simp: onboard_value_def set_option_def split: if_splits sum.splits)

lemma onboard_loop_ok:
  "onboard_loop args st = Inr c \<Longrightarrow> oo_start_service (fst st) \<longrightarrow> oo_install_service (fst st) \<Longrightarrow> command_ok c"
proof (induction args st rule: onboard_loop.induct)
  case (2 arg args st)
  show ?case
  proof (cases "onboard_flag arg")
    case (Some f)
    with 2 show ?thesis using flag_keeps_ok [OF Some, of "fst st"] by simp
  next
    case None
    show ?thesis
    proof (cases "onboard_value arg")
      case N: None
      with 2 None show ?thesis by (auto split: if_splits)
    next
      case (Some mv)
      then obtain missing set_value where mv: "onboard_value arg = Some (missing, set_value)" by (cases mv) auto
      with None "2.prems"(1) obtain v rest st' where
        "args = v # rest" "set_value v st = Inr st'" "onboard_loop rest st' = Inr c"
        by (auto split: list.splits sum.splits)
      with "2.IH"(2) [OF None] mv value_keeps_ok [OF mv, of v st st'] "2.prems"(2) show ?thesis by auto
    qed
  qed
qed auto

lemma if_resultE:
  assumes "(if b then x else y) = Inr c"
  obtains "b" "x = Inr c" | "\<not> b" "y = Inr c"
  using assms by (auto split: if_splits)

lemma install_loop_ok: "service_install_loop args path force = Inr c \<Longrightarrow> command_ok c"
  by (induction args path force rule: service_install_loop.induct) (auto split: if_splits list.splits)

lemma doctor_loop_ok: "service_doctor_loop args path = Inr c \<Longrightarrow> command_ok c"
  by (induction args path rule: service_doctor_loop.induct) (auto split: if_splits list.splits)

lemma logs_loop_ok: "service_logs_loop args n follow stream = Inr c \<Longrightarrow> n \<noteq> 0 \<Longrightarrow> command_ok c"
proof (induction args n follow stream rule: service_logs_loop.induct)
  case (2 arg args n follow stream)
  from "2.prems" show ?case
    unfolding service_logs_loop.simps
    apply (elim if_resultE)
         apply (simp split: list.splits sum.splits if_splits add: "2.IH"(1))
        apply (erule "2.IH"(2); assumption)
       apply (simp split: list.splits sum.splits add: "2.IH"(3))
      apply (erule "2.IH"(4); assumption)
     apply (erule "2.IH"(5); assumption)
    by simp
qed auto

lemma service_parsed_ok: "parse_service_args args = Inr c \<Longrightarrow> command_ok c"
  unfolding parse_service_args_def
  apply (cases args)
   apply simp
  apply (simp only: list.case)
  apply (elim if_resultE)
          apply (auto intro: install_loop_ok) [3]
       apply (auto intro: logs_loop_ok doctor_loop_ok)
  done

lemma onboard_parsed_ok: "parse_onboard_args args = Inr c \<Longrightarrow> command_ok c"
  unfolding parse_onboard_args_def by (erule onboard_loop_ok) (simp add: onboard_default_def)

lemma ok_Inr: "Inr x = Inr c \<Longrightarrow> command_ok x \<Longrightarrow> command_ok c"
  by simp

lemma command_parsed_ok: "parse_command args = Inr c \<Longrightarrow> command_ok c"
proof (cases args)
  case Nil
  then show "parse_command args = Inr c \<Longrightarrow> command_ok c"
    by (auto simp: parse_command_def DEFAULT_CONFIG_PATH_def command_words_def starts_with_def)
next
  case (Cons first rest)
  then show "parse_command args = Inr c \<Longrightarrow> command_ok c"
    unfolding parse_command_def
    apply (simp only: list.case)
    apply (elim if_resultE)
          apply (erule ok_Inr, simp)
         apply (erule ok_Inr, simp)
        apply (erule onboard_parsed_ok)
       apply (erule service_parsed_ok)
      apply (erule ok_Inr, simp)
     apply simp
    apply (erule ok_Inr, simp add: command_words_def)
    done
qed

lemma no_dash: "\<not> starts_with path ''-'' \<Longrightarrow> path \<noteq> CHR ''-'' # s"
  by (auto simp: starts_with_def)

lemma run_path_parsed: "command_ok (Run path) \<Longrightarrow> parse_command [path] = Inr (Run path)"
  using no_dash [of path] by (simp add: parse_command_def command_words_def)

subsection \<open>Properties\<close>

text \<open>C33: Whatever the arguments, a command that the parser accepts is well-formed: a service is started only after it was
  installed, a log command asks for a line at least, and the path of a run is no option and no word of a command.\<close>

theorem parsed_commands_well_formed:
  assumes "parse_command args = Inr c"
  shows "command_ok c"
  using assms by (rule command_parsed_ok)

text \<open>C34: Every well-formed command can be given on the command line: the parser reads it back from its arguments, every
  option of an onboarding and of a service included, and no other command is read back from its own.\<close>

theorem command_line_round_trip:
  "parse_command (command_args c) = Inr c \<longleftrightarrow> command_ok c"
proof
  assume "command_ok c"
  then show "parse_command (command_args c) = Inr c"
  proof (cases c)
    case (Run path)
    with \<open>command_ok c\<close> show ?thesis using run_path_parsed [of path] by simp
  qed (simp_all add: parse_command_def onboard_args_parsed service_args_parsed)
qed (rule command_parsed_ok)

subsection \<open>Witnesses\<close>

theorem parsed_commands_well_formed_witness:
  "command_ok (Onboard (onboard_default \<lparr> oo_start_service := True, oo_install_service := True \<rparr>))"
  by (rule parsed_commands_well_formed [of "[''onboard'', ''--start-service'']"])
    (simp add: parse_command_def parse_onboard_args_def onboard_defs onboard_default_def)

end
