(* ===== verification/Service_Manager.thy ===== *)
theory Service_Manager
  imports Cli Memory_Store
begin

section \<open>The host and the service manager\<close>

text \<open>
  \<open>LiveClawConfig::load\<close> of \<open>liveclaw-app/src/config.rs\<close>, and \<open>run_service_command\<close> of \<open>liveclaw-app/src/main.rs\<close>
  in its two versions, for \<open>systemd\<close> and for \<open>launchd\<close>. The host is a disk, the external commands run so far and
  the lines shown; what the system answers to a command or refuses is a parameter, the host environment.
  A path is resolved against the working directory of the process. The text of a TOML file is its value under a
  printer and a parser, which are parameters too.
\<close>

subsection \<open>The disk\<close>

datatype disk_entry = Directory | Regular string

type_synonym disk = "string \<rightharpoonup> disk_entry"

datatype host_op = HostCreateDir | HostWrite | HostRead | HostRemove

record command_output =
  co_success :: bool
  co_code :: "int option"
  co_stdout :: string
  co_stderr :: string

record host =
  ho_disk :: disk
  ho_commands :: "string list list"
  ho_shown :: "string list"

text \<open>
  The working directory, the variables, the executable, the answer to a command after those run before, the system
  calls that fail with the error they give, and what a failed write leaves in the file if it touches it.
\<close>

record host_env =
  he_cwd :: string
  he_vars :: environment
  he_exe :: "string result"
  he_answer :: "string list list \<Rightarrow> string list \<Rightarrow> command_output result"
  he_fault :: "host_op \<Rightarrow> string \<Rightarrow> string option"
  he_left :: "string \<Rightarrow> string option"

definition full_path :: "string \<Rightarrow> string \<Rightarrow> string" where
  "full_path cwd path = path_body (path_join cwd path)"

definition disk_at :: "disk \<Rightarrow> string \<Rightarrow> string \<Rightarrow> disk_entry option" where
  "disk_at d cwd path = (if path = [] then None else d (full_path cwd path))"

definition host_exists :: "host_env \<Rightarrow> string \<Rightarrow> host \<Rightarrow> bool" where
  "host_exists env path h \<longleftrightarrow> disk_at (ho_disk h) (he_cwd env) path \<noteq> None"

definition host_bind :: "'a result \<times> host \<Rightarrow> ('a \<Rightarrow> host \<Rightarrow> 'b result \<times> host) \<Rightarrow> 'b result \<times> host" where
  "host_bind m f = (case m of (Inl e, h) \<Rightarrow> (Inl e, h) | (Inr x, h) \<Rightarrow> f x h)"

definition with_context :: "string \<Rightarrow> 'a result \<times> host \<Rightarrow> 'a result \<times> host" where
  "with_context e m = (case m of (Inl _, h) \<Rightarrow> (Inl e, h) | (Inr x, h) \<Rightarrow> (Inr x, h))"

definition host_show :: "string \<Rightarrow> host \<Rightarrow> unit result \<times> host" where
  "host_show line h = (Inr (), h \<lparr> ho_shown := ho_shown h @ [line] \<rparr>)"

text \<open>The directories on the way to a path, from the top.\<close>

function path_chain :: "string \<Rightarrow> string list" where
  "path_chain p =
     (if parent_of p = [] \<or> length p \<le> length (parent_of p) then [p] else path_chain (parent_of p) @ [p])"
  by pat_completeness auto
termination
  by (relation "measure length") auto

declare path_chain.simps [simp del]

fun make_directories :: "string list \<Rightarrow> host \<Rightarrow> unit result \<times> host" where
  "make_directories [] h = (Inr (), h)"
| "make_directories (p # ps) h =
     (case ho_disk h p of
        Some Directory \<Rightarrow> make_directories ps h
      | Some (Regular _) \<Rightarrow> (Inl ''Not a directory (os error 20)'', h)
      | None \<Rightarrow> make_directories ps (h \<lparr> ho_disk := (ho_disk h)(p \<mapsto> Directory) \<rparr>))"

definition host_create_dir_all :: "host_env \<Rightarrow> string \<Rightarrow> host \<Rightarrow> unit result \<times> host" where
  "host_create_dir_all env path h =
     (case he_fault env HostCreateDir path of
        Some e \<Rightarrow> (Inl e, h)
      | None \<Rightarrow> make_directories (path_chain (full_path (he_cwd env) path)) h)"

definition host_write :: "host_env \<Rightarrow> string \<Rightarrow> string \<Rightarrow> host \<Rightarrow> unit result \<times> host" where
  "host_write env path text h =
     (let target = full_path (he_cwd env) path
      in if path = [] then (Inl ''No such file or directory (os error 2)'', h)
         else if ho_disk h target = Some Directory \<or> ends_with path ''/''
         then (Inl ''Is a directory (os error 21)'', h)
         else case he_fault env HostWrite path of
           Some e \<Rightarrow>
             (Inl e, (case he_left env path of
                        None \<Rightarrow> h
                      | Some left \<Rightarrow> h \<lparr> ho_disk := (ho_disk h)(target \<mapsto> Regular left) \<rparr>))
         | None \<Rightarrow> (Inr (), h \<lparr> ho_disk := (ho_disk h)(target \<mapsto> Regular text) \<rparr>))"

definition host_read :: "host_env \<Rightarrow> string \<Rightarrow> host \<Rightarrow> string result" where
  "host_read env path h =
     (case he_fault env HostRead path of
        Some e \<Rightarrow> Inl e
      | None \<Rightarrow>
          (case disk_at (ho_disk h) (he_cwd env) path of
             Some (Regular text) \<Rightarrow> Inr text
           | Some Directory \<Rightarrow> Inl ''Is a directory (os error 21)''
           | None \<Rightarrow> Inl ''No such file or directory (os error 2)''))"

definition host_remove_file :: "host_env \<Rightarrow> string \<Rightarrow> host \<Rightarrow> unit result \<times> host" where
  "host_remove_file env path h =
     (case he_fault env HostRemove path of
        Some e \<Rightarrow> (Inl e, h)
      | None \<Rightarrow>
          (case disk_at (ho_disk h) (he_cwd env) path of
             Some (Regular _) \<Rightarrow> (Inr (), h \<lparr> ho_disk := (ho_disk h)(full_path (he_cwd env) path := None) \<rparr>)
           | Some Directory \<Rightarrow> (Inl ''Is a directory (os error 21)'', h)
           | None \<Rightarrow> (Inl ''No such file or directory (os error 2)'', h)))"

subsection \<open>Loading the configuration\<close>

definition load_config :: "(string \<Rightarrow> toml result) \<Rightarrow> host_env \<Rightarrow> string \<Rightarrow> host \<Rightarrow> liveclaw_config result" where
  "load_config parse env path h =
     (case host_read env path h of
        Inl e \<Rightarrow> Inl (''Failed to read config file '' @ quoted path @ '': '' @ e)
      | Inr content \<Rightarrow>
          (case parse content of
             Inl e \<Rightarrow> Inl (''Failed to parse TOML config '' @ quoted path @ '': '' @ e)
           | Inr t \<Rightarrow>
               (case config_of_toml t of
                  None \<Rightarrow> Inl (''Failed to parse TOML config '' @ quoted path @ '': invalid type'')
                | Some config \<Rightarrow> Inr config)))"

subsection \<open>External commands\<close>

definition run_external :: "host_env \<Rightarrow> string list \<Rightarrow> host \<Rightarrow> command_output result \<times> host" where
  "run_external env args h = (he_answer env (ho_commands h) args, h \<lparr> ho_commands := ho_commands h @ [args] \<rparr>)"

definition show_code :: "command_output \<Rightarrow> string" where
  "show_code out = show_int (unwrap_or (co_code out) (- 1))"

definition run_command_capture :: "host_env \<Rightarrow> string list \<Rightarrow> string \<Rightarrow> host \<Rightarrow> string result \<times> host" where
  "run_command_capture env args ctx h =
     host_bind (with_context (''Failed to execute '' @ ctx) (run_external env args h)) (\<lambda>out h.
       if \<not> co_success out
       then (Inl (ctx @ '' failed (exit='' @ show_code out @ ''): '' @ from_utf8_lossy (co_stdout out) @
                  from_utf8_lossy (co_stderr out)), h)
       else (Inr (trim (from_utf8_lossy (co_stdout out))), h))"

text \<open>\<open>str::lines\<close>: a carriage return before a line feed belongs to the line's end.\<close>

definition strip_cr :: "string \<Rightarrow> string" where
  "strip_cr l = (if l \<noteq> [] \<and> last l = CHR 0x0D then butlast l else l)"

definition str_lines :: "string \<Rightarrow> string list" where
  "str_lines s =
     (let ls = split_on (CHR 0x0A) s
      in map strip_cr (butlast ls) @ (if last ls = [] then [] else [last ls]))"

definition tail_lines :: "nat \<Rightarrow> string \<Rightarrow> string list" where
  "tail_lines n content = rev (take n (rev (str_lines content)))"

definition host_show_all :: "string list \<Rightarrow> host \<Rightarrow> unit result \<times> host" where
  "host_show_all ls h = (Inr (), h \<lparr> ho_shown := ho_shown h @ ls \<rparr>)"

definition print_text_file_tail :: "host_env \<Rightarrow> string \<Rightarrow> 64 word \<Rightarrow> string \<Rightarrow> host \<Rightarrow> unit result \<times> host" where
  "print_text_file_tail env path n label h =
     host_bind (host_show (''--- '' @ label @ '' ('' @ path @ '') ---'') h) (\<lambda>_ h.
       if \<not> host_exists env path h then host_show ''(missing)'' h
       else case host_read env path h of
         Inl e \<Rightarrow> (Inl (''Failed reading service log '' @ quoted path), h)
       | Inr content \<Rightarrow>
           (let shown = tail_lines (unat n) content
            in if shown = [] then host_show ''(empty)'' h else host_show_all shown h))"

definition follow_text_files :: "host_env \<Rightarrow> string list \<Rightarrow> 64 word \<Rightarrow> string \<Rightarrow> host \<Rightarrow> unit result \<times> host" where
  "follow_text_files env paths n ctx h =
     (let existing = filter (\<lambda>p. host_exists env p h) paths;
          missing = filter (\<lambda>p. \<not> host_exists env p h) paths
      in host_bind (host_show_all (map (\<lambda>p. ''Missing log file: '' @ p) missing) h) (\<lambda>_ h.
           if existing = [] then host_show ''No log files found to follow.'' h
           else host_bind (with_context (''Failed to execute '' @ ctx)
                  (run_external env ([''tail'', ''-n'', show_nat (unat n), ''-f''] @ existing) h)) (\<lambda>out h.
             if \<not> co_success out then (Inl (ctx @ '' failed (exit='' @ show_code out @ '')''), h) else (Inr (), h))))"

subsection \<open>Places and texts\<close>

definition home_dir :: "environment \<Rightarrow> string result" where
  "home_dir vars =
     (case non_empty (vars ''HOME'') of
        Some home \<Rightarrow> Inr home
      | None \<Rightarrow>
          (case non_empty (vars ''USERPROFILE'') of
             Some home \<Rightarrow> Inr home
           | None \<Rightarrow> Inl ''Unable to resolve home directory from HOME/USERPROFILE''))"

definition path_joins :: "string \<Rightarrow> string list \<Rightarrow> string" where
  "path_joins base names = foldl path_join base names"

definition manifest_path_linux :: "environment \<Rightarrow> string result" where
  "manifest_path_linux vars =
     map_sum id (\<lambda>home. path_joins home [''.config'', ''systemd'', ''user'', ''liveclaw.service'']) (home_dir vars)"

definition manifest_path_macos :: "environment \<Rightarrow> string result" where
  "manifest_path_macos vars =
     map_sum id (\<lambda>home. path_joins home [''Library'', ''LaunchAgents'', ''ai.liveclaw.gateway.plist'']) (home_dir vars)"

definition logs_dir :: "string \<Rightarrow> string" where
  "logs_dir home = path_joins home [''.liveclaw'', ''logs'']"

definition service_log_paths :: "environment \<Rightarrow> (string \<times> string) result" where
  "service_log_paths vars =
     map_sum id (\<lambda>home. (path_join (logs_dir home) ''service.out.log'', path_join (logs_dir home) ''service.err.log''))
       (home_dir vars)"

definition dquote :: "string \<Rightarrow> string" where
  "dquote s = CHR 0x22 # s @ [CHR 0x22]"

text \<open>Each backslash is doubled first, then each quote gets one.\<close>

definition systemd_quote :: "string \<Rightarrow> string" where
  "systemd_quote s =
     dquote (concat (map (\<lambda>c. if c = CHR 0x22 then [CHR 0x5C, c] else [c])
       (concat (map (\<lambda>c. if c = CHR 0x5C then [c, c] else [c]) s))))"

definition unit_text :: "string \<Rightarrow> string \<Rightarrow> string" where
  "unit_text exe config = text_lines
     [''[Unit]'', ''Description=LiveClaw gateway runtime'', ''After=network-online.target'', [],
      ''[Service]'', ''Type=simple'', ''ExecStart='' @ systemd_quote exe @ '' '' @ systemd_quote config,
      ''Restart=always'', ''RestartSec=2'', ''Environment=RUST_LOG=info'', [],
      ''[Install]'', ''WantedBy=default.target'']"

definition plist_text :: "string \<Rightarrow> string \<Rightarrow> string \<Rightarrow> string \<Rightarrow> string" where
  "plist_text exe config out err = text_lines
     [''<?xml version='' @ dquote ''1.0'' @ '' encoding='' @ dquote ''UTF-8'' @ ''?>'',
      ''<!DOCTYPE plist PUBLIC '' @ dquote ''-//Apple//DTD PLIST 1.0//EN'' @ '' '' @
        dquote ''http://www.apple.com/DTDs/PropertyList-1.0.dtd'' @ ''>'',
      ''<plist version='' @ dquote ''1.0'' @ ''>'', ''<dict>'',
      ''  <key>Label</key>'', ''  <string>ai.liveclaw.gateway</string>'',
      ''  <key>ProgramArguments</key>'', ''  <array>'',
      ''    <string>'' @ exe @ ''</string>'', ''    <string>'' @ config @ ''</string>'', ''  </array>'',
      ''  <key>RunAtLoad</key>'', ''  <true/>'', ''  <key>KeepAlive</key>'', ''  <true/>'',
      ''  <key>StandardOutPath</key>'', ''  <string>'' @ out @ ''</string>'',
      ''  <key>StandardErrorPath</key>'', ''  <string>'' @ err @ ''</string>'', ''</dict>'', ''</plist>'']"

definition service_manifest_missing :: "host_env \<Rightarrow> string \<Rightarrow> host \<Rightarrow> unit result \<times> host" where
  "service_manifest_missing env path h =
     (if \<not> host_exists env path h
      then (Inl (''LiveClaw service is not installed (missing '' @ quoted path @ '')''), h) else (Inr (), h))"

definition install_checks :: "host_env \<Rightarrow> string \<Rightarrow> string \<Rightarrow> bool \<Rightarrow> host \<Rightarrow> string result \<times> host" where
  "install_checks env manifest config_path force h =
     (if \<not> host_exists env config_path h
      then (Inl (''Config '' @ quoted config_path @ '' does not exist. Run onboarding first.''), h)
      else if host_exists env manifest h \<and> \<not> force
      then (Inl (''Service manifest '' @ quoted manifest @ '' already exists. Use --force to overwrite.''), h)
      else with_context ''Failed to resolve current executable'' (he_exe env, h))"

definition simple_command :: "host_env \<Rightarrow> string list \<Rightarrow> string \<Rightarrow> string \<Rightarrow> string \<Rightarrow> host \<Rightarrow> unit result \<times> host" where
  "simple_command env args ctx manifest told h =
     host_bind (service_manifest_missing env manifest h) (\<lambda>_ h.
       host_bind (run_command_capture env args ctx h) (\<lambda>_ h. host_show told h))"

definition active_text :: "bool \<Rightarrow> string" where
  "active_text active = ''LiveClaw service status: '' @ (if active then ''active'' else ''inactive'')"

subsection \<open>The commands on Linux\<close>

definition unit_name :: string where
  "unit_name = ''liveclaw.service''"

definition systemctl :: "string list \<Rightarrow> string list" where
  "systemctl args = [''systemctl'', ''--user''] @ args"

definition install_linux :: "host_env \<Rightarrow> string \<Rightarrow> string \<Rightarrow> bool \<Rightarrow> host \<Rightarrow> unit result \<times> host" where
  "install_linux env manifest config_path force h =
     host_bind (install_checks env manifest config_path force h) (\<lambda>exe h.
     host_bind (host_create_dir_all env (parent_of manifest) h) (\<lambda>_ h.
     host_bind (with_context (''Failed writing systemd unit '' @ quoted manifest)
       (host_write env manifest (unit_text exe config_path) h)) (\<lambda>_ h.
     host_bind (run_command_capture env (systemctl [''daemon-reload'']) ''systemctl --user daemon-reload'' h) (\<lambda>_ h.
     host_show (''Installed systemd user unit: '' @ manifest) h))))"

definition stop_linux :: "host_env \<Rightarrow> string \<Rightarrow> host \<Rightarrow> unit result \<times> host" where
  "stop_linux env manifest = simple_command env (systemctl [''stop'', unit_name]) ''systemctl --user stop'' manifest
     ''LiveClaw service stopped.''"

definition status_linux :: "host_env \<Rightarrow> string \<Rightarrow> host \<Rightarrow> unit result \<times> host" where
  "status_linux env manifest h =
     (if \<not> host_exists env manifest h then host_show ''LiveClaw service status: not installed'' h
      else host_bind (with_context ''Failed to execute systemctl --user is-active''
             (run_external env (systemctl [''is-active'', unit_name]) h)) (\<lambda>out h.
        host_show (active_text (co_success out \<and> trim (from_utf8_lossy (co_stdout out)) = ''active'')) h))"

definition logs_linux :: "host_env \<Rightarrow> string \<Rightarrow> 64 word \<Rightarrow> bool \<Rightarrow> service_log_stream \<Rightarrow> host \<Rightarrow> unit result \<times> host" where
  "logs_linux env manifest n follow stream h =
     host_bind (service_manifest_missing env manifest h) (\<lambda>_ h.
     host_bind (host_show_all
       (if stream \<noteq> Both
        then [''Note: --stream filtering is not supported for journalctl; showing combined logs.''] else []) h) (\<lambda>_ h.
       let args = [''journalctl'', ''--user'', ''-u'', unit_name, ''-n'', show_nat (unat n), ''--no-pager'']
       in if follow then
            host_bind (with_context ''Failed to execute journalctl --user (follow)''
              (run_external env (args @ [''-f'']) h)) (\<lambda>out h.
              if \<not> co_success out
              then (Inl (''journalctl --user follow failed (exit='' @ show_code out @ '')''), h) else (Inr (), h))
          else
            host_bind (run_command_capture env args ''journalctl --user'' h) (\<lambda>output h.
              host_show (if output = [] then ''(no logs yet)'' else output) h)))"

definition uninstall_linux :: "host_env \<Rightarrow> string \<Rightarrow> host \<Rightarrow> unit result \<times> host" where
  "uninstall_linux env manifest h =
     (if host_exists env manifest h then
        host_bind (with_context (''Failed to remove systemd unit '' @ quoted manifest)
          (host_remove_file env manifest (snd (stop_linux env manifest h)))) (\<lambda>_ h.
          host_show (''Removed systemd user unit: '' @ manifest)
            (snd (run_command_capture env (systemctl [''daemon-reload'']) ''systemctl --user daemon-reload'' h)))
      else host_show ''LiveClaw service not installed.'' h)"

definition run_service_command_linux :: "host_env \<Rightarrow> service_command \<Rightarrow> host \<Rightarrow> unit result \<times> host" where
  "run_service_command_linux env command h =
     (case manifest_path_linux (he_vars env) of
        Inl e \<Rightarrow> (Inl e, h)
      | Inr manifest \<Rightarrow>
          (case command of
             Install config_path force \<Rightarrow> install_linux env manifest config_path force h
           | Start \<Rightarrow> simple_command env (systemctl [''start'', unit_name]) ''systemctl --user start'' manifest
               ''LiveClaw service started.'' h
           | Stop \<Rightarrow> stop_linux env manifest h
           | Restart \<Rightarrow> simple_command env (systemctl [''restart'', unit_name]) ''systemctl --user restart'' manifest
               ''LiveClaw service restarted.'' h
           | Status \<Rightarrow> status_linux env manifest h
           | Logs n follow stream \<Rightarrow> logs_linux env manifest n follow stream h
           | Uninstall \<Rightarrow> uninstall_linux env manifest h))"

subsection \<open>The commands on macOS\<close>

definition install_macos :: "host_env \<Rightarrow> string \<Rightarrow> string \<Rightarrow> bool \<Rightarrow> host \<Rightarrow> unit result \<times> host" where
  "install_macos env manifest config_path force h =
     host_bind (install_checks env manifest config_path force h) (\<lambda>exe h.
     host_bind (host_create_dir_all env (parent_of manifest) h) (\<lambda>_ h.
     host_bind (home_dir (he_vars env), h) (\<lambda>home h.
     host_bind (host_create_dir_all env (logs_dir home) h) (\<lambda>_ h.
     host_bind (with_context (''Failed writing launchd plist '' @ quoted manifest)
       (host_write env manifest (plist_text exe config_path (path_join (logs_dir home) ''service.out.log'')
          (path_join (logs_dir home) ''service.err.log'')) h)) (\<lambda>_ h.
     host_show (''Installed launchd manifest: '' @ manifest) h)))))"

definition start_macos :: "host_env \<Rightarrow> string \<Rightarrow> host \<Rightarrow> unit result \<times> host" where
  "start_macos env manifest = simple_command env [''launchctl'', ''load'', ''-w'', manifest] ''launchctl load'' manifest
     ''LiveClaw service started.''"

definition stop_macos :: "host_env \<Rightarrow> string \<Rightarrow> host \<Rightarrow> unit result \<times> host" where
  "stop_macos env manifest = simple_command env [''launchctl'', ''unload'', ''-w'', manifest] ''launchctl unload'' manifest
     ''LiveClaw service stopped.''"

definition status_macos :: "host_env \<Rightarrow> string \<Rightarrow> host \<Rightarrow> unit result \<times> host" where
  "status_macos env manifest h =
     (if \<not> host_exists env manifest h then host_show ''LiveClaw service status: not installed'' h
      else host_bind (run_command_capture env [''launchctl'', ''list''] ''launchctl list'' h) (\<lambda>listed h.
        host_show (active_text (list_ex (\<lambda>l. str_contains l ''ai.liveclaw.gateway'') (str_lines listed))) h))"

definition logs_macos :: "host_env \<Rightarrow> string \<Rightarrow> 64 word \<Rightarrow> bool \<Rightarrow> service_log_stream \<Rightarrow> host \<Rightarrow> unit result \<times> host" where
  "logs_macos env manifest n follow stream h =
     host_bind (service_manifest_missing env manifest h) (\<lambda>_ h.
     host_bind (service_log_paths (he_vars env), h) (\<lambda>paths h.
       let (out, err) = paths
       in if follow then
            (case stream of
               Stdout \<Rightarrow> follow_text_files env [out] n ''tail -f (launchd stdout logs)'' h
             | Stderr \<Rightarrow> follow_text_files env [err] n ''tail -f (launchd stderr logs)'' h
             | Both \<Rightarrow> follow_text_files env [out, err] n ''tail -f (launchd logs)'' h)
          else
            (case stream of
               Stdout \<Rightarrow> print_text_file_tail env out n ''launchd stdout'' h
             | Stderr \<Rightarrow> print_text_file_tail env err n ''launchd stderr'' h
             | Both \<Rightarrow> host_bind (print_text_file_tail env out n ''launchd stdout'' h) (\<lambda>_ h.
                 print_text_file_tail env err n ''launchd stderr'' h))))"

definition uninstall_macos :: "host_env \<Rightarrow> string \<Rightarrow> host \<Rightarrow> unit result \<times> host" where
  "uninstall_macos env manifest h =
     (if host_exists env manifest h then
        host_bind (with_context (''Failed to remove launchd plist '' @ quoted manifest)
          (host_remove_file env manifest (snd (stop_macos env manifest h)))) (\<lambda>_ h.
          host_show (''Removed launchd manifest: '' @ manifest) h)
      else host_show ''LiveClaw service not installed.'' h)"

definition run_service_command_macos :: "host_env \<Rightarrow> service_command \<Rightarrow> host \<Rightarrow> unit result \<times> host" where
  "run_service_command_macos env command h =
     (case manifest_path_macos (he_vars env) of
        Inl e \<Rightarrow> (Inl e, h)
      | Inr manifest \<Rightarrow>
          (case command of
             Install config_path force \<Rightarrow> install_macos env manifest config_path force h
           | Start \<Rightarrow> start_macos env manifest h
           | Stop \<Rightarrow> stop_macos env manifest h
           | Restart \<Rightarrow> host_bind (stop_macos env manifest h) (\<lambda>_ h. start_macos env manifest h)
           | Status \<Rightarrow> status_macos env manifest h
           | Logs n follow stream \<Rightarrow> logs_macos env manifest n follow stream h
           | Uninstall \<Rightarrow> uninstall_macos env manifest h))"

text \<open>On any other system nothing is done.\<close>

definition run_service_command_other :: "host_env \<Rightarrow> service_command \<Rightarrow> host \<Rightarrow> unit result \<times> host" where
  "run_service_command_other env command h =
     (Inl ''Service management is currently supported on macOS and Linux only'', h)"

subsection \<open>Facts about the host\<close>

lemma host_bind_Inr [simp]: "host_bind m f = (Inr y, h') \<longleftrightarrow> (\<exists>x h. m = (Inr x, h) \<and> f x h = (Inr y, h'))"
  by (auto simp: host_bind_def split: prod.splits sum.splits)

lemma with_context_Inr [simp]: "with_context e m = (Inr x, h) \<longleftrightarrow> m = (Inr x, h)"
  by (auto simp: with_context_def split: prod.splits sum.splits)

lemma host_show_Inr [simp]: "host_show line h = (r, h') \<longleftrightarrow> r = Inr () \<and> h' = h \<lparr> ho_shown := ho_shown h @ [line] \<rparr>"
  by (auto simp: host_show_def)

lemma run_command_capture_disk [simp]:
  "ho_disk (snd (run_command_capture env args ctx h)) = ho_disk h"
  "ho_commands (snd (run_command_capture env args ctx h)) = ho_commands h @ [args]"
  by (simp_all add: run_command_capture_def run_external_def host_bind_def with_context_def split: sum.split)

lemma run_command_captureD:
  "run_command_capture env args ctx h = (r, h') \<Longrightarrow> ho_disk h' = ho_disk h \<and> ho_commands h' = ho_commands h @ [args]"
  using run_command_capture_disk [of env args ctx h] by simp

lemma make_directories_other:
  "make_directories ps h = (r, h') \<Longrightarrow> ho_commands h' = ho_commands h \<and> ho_shown h' = ho_shown h \<and>
     (\<forall>p. ho_disk h p \<noteq> None \<or> p \<notin> set ps \<longrightarrow> ho_disk h' p = ho_disk h p)"
  by (induction ps h rule: make_directories.induct) (auto split: option.splits disk_entry.splits)

lemma create_dir_all_other:
  assumes "host_create_dir_all env path h = (r, h')"
  shows "ho_commands h' = ho_commands h" "ho_shown h' = ho_shown h"
    and "ho_disk h p \<noteq> None \<Longrightarrow> ho_disk h' p = ho_disk h p"
  using assms make_directories_other [of "path_chain (full_path (he_cwd env) path)" h r h']
  by (auto simp: host_create_dir_all_def split: option.splits)

lemma host_write_Inr:
  "host_write env path text h = (Inr (), h') \<Longrightarrow>
     path \<noteq> [] \<and> h' = h \<lparr> ho_disk := (ho_disk h)(full_path (he_cwd env) path \<mapsto> Regular text) \<rparr>"
  by (auto simp: host_write_def Let_def split: if_splits option.splits)

lemma host_write_disk_at:
  "host_write env path text h = (Inr (), h') \<Longrightarrow> disk_at (ho_disk h') (he_cwd env) path = Some (Regular text)"
  by (auto dest!: host_write_Inr simp: disk_at_def)

lemma install_checks_Inr:
  "install_checks env manifest config_path force h = (Inr exe, h') \<longleftrightarrow>
     h' = h \<and> host_exists env config_path h \<and> (host_exists env manifest h \<longrightarrow> force) \<and> he_exe env = Inr exe"
  by (auto simp: install_checks_def)

subsection \<open>The words of a command line\<close>

text \<open>
  A quoted word the way the unit file is meant to be read: up to the next quote, a backslash keeps the character after
  it. The words of a line are separated by one blank.
\<close>

fun quoted_rest :: "string \<Rightarrow> (string \<times> string) option" where
  "quoted_rest [] = None"
| "quoted_rest (c # s) =
     (if c = CHR 0x22 then Some ([], s)
      else if c = CHR 0x5C then
        (case s of [] \<Rightarrow> None | d # s \<Rightarrow> map_option (\<lambda>(w, rest). (d # w, rest)) (quoted_rest s))
      else map_option (\<lambda>(w, rest). (c # w, rest)) (quoted_rest s))"

definition two_words :: "string \<Rightarrow> (string \<times> string) option" where
  "two_words s =
     Option.bind (quoted_rest (drop 1 s)) (\<lambda>(a, rest).
       Option.bind (quoted_rest (drop 2 rest)) (\<lambda>(b, rest'). if rest' = [] then Some (a, b) else None))"

definition escaped_char :: "char \<Rightarrow> string" where
  "escaped_char c = (if c = CHR 0x22 \<or> c = CHR 0x5C then [CHR 0x5C, c] else [c])"

lemma systemd_quote_escaped: "systemd_quote s = dquote (concat (map escaped_char s))"
  unfolding systemd_quote_def by (rule arg_cong [of _ _ dquote], induction s) (simp_all add: escaped_char_def)

lemma quoted_rest_escaped: "quoted_rest (concat (map escaped_char s) @ CHR 0x22 # rest) = Some (s, rest)"
  by (induction s) (simp_all add: escaped_char_def)

lemma two_words_quoted: "two_words (systemd_quote a @ '' '' @ systemd_quote b) = Some (a, b)"
  using quoted_rest_escaped [of b "[]"]
  by (simp add: two_words_def systemd_quote_escaped dquote_def quoted_rest_escaped)

lemma split_on_line: "c \<notin> set l \<Longrightarrow> split_on c (l @ c # s) = l # split_on c s"
  by (induction l) auto

lemma split_on_text_lines:
  "\<forall>l \<in> set ls. CHR 0x0A \<notin> set l \<Longrightarrow> split_on (CHR 0x0A) (text_lines ls) = ls @ [[]]"
  unfolding text_lines_def by (induction ls) (simp_all add: split_on_line)

lemma str_lines_text_lines:
  assumes "\<forall>l \<in> set ls. CHR 0x0A \<notin> set l \<and> (l \<noteq> [] \<longrightarrow> last l \<noteq> CHR 0x0D)"
  shows "str_lines (text_lines ls) = ls"
proof -
  have "map strip_cr ls = ls" using assms by (intro map_idI) (auto simp: strip_cr_def)
  with assms show ?thesis using split_on_text_lines [of ls] by (simp add: str_lines_def Let_def)
qed

lemma quote_no_newline: "CHR 0x0A \<notin> set (systemd_quote s) \<longleftrightarrow> CHR 0x0A \<notin> set s"
  unfolding systemd_quote_escaped dquote_def by (induction s) (auto simp: escaped_char_def)

lemma unit_exec_line:
  assumes "CHR 0x0A \<notin> set exe" "CHR 0x0A \<notin> set config"
  shows "filter (\<lambda>l. starts_with l ''ExecStart='') (str_lines (unit_text exe config)) =
    [''ExecStart='' @ systemd_quote exe @ '' '' @ systemd_quote config]"
  unfolding unit_text_def
  by (subst str_lines_text_lines) (use assms in \<open>simp_all add: quote_no_newline starts_with_def systemd_quote_def dquote_def\<close>)

subsection \<open>What a command touches\<close>

text \<open>An operation keeps the files but one when whatever was on the disk elsewhere still is, error or not.\<close>

named_theorems host_keeps_intro \<open>operations that keep the files but one\<close>

definition host_keeps :: "string \<Rightarrow> host \<Rightarrow> host \<Rightarrow> bool" where
  "host_keeps target h h' \<longleftrightarrow> (\<forall>p. p \<noteq> target \<longrightarrow> ho_disk h p \<noteq> None \<longrightarrow> ho_disk h' p = ho_disk h p)"

lemma host_keeps_trans: "host_keeps t h h' \<Longrightarrow> host_keeps t h' h'' \<Longrightarrow> host_keeps t h h''"
  by (auto simp: host_keeps_def)

lemma host_keeps_bind [host_keeps_intro]:
  assumes "host_keeps t h (snd m)" "\<And>x h'. host_keeps t h' (snd (f x h'))"
  shows "host_keeps t h (snd (host_bind m f))"
  using assms host_keeps_trans by (fastforce simp: host_bind_def split: prod.split sum.split)

lemma host_keeps_pair [host_keeps_intro]: "host_keeps t h (snd (r, h))"
  by (simp add: host_keeps_def)

lemma host_keeps_context [host_keeps_intro]: "host_keeps t h (snd m) \<Longrightarrow> host_keeps t h (snd (with_context e m))"
  by (cases m; cases "fst m") (auto simp: with_context_def)

lemma host_keeps_show [host_keeps_intro]: "host_keeps t h (snd (host_show l h))" "host_keeps t h (snd (host_show_all ls h))"
  by (simp_all add: host_show_def host_show_all_def host_keeps_def)

lemma host_keeps_external [host_keeps_intro]: "host_keeps t h (snd (run_external env args h))"
  by (simp add: run_external_def host_keeps_def)

lemma host_keeps_capture [host_keeps_intro]: "host_keeps t h (snd (run_command_capture env args ctx h))"
  by (simp add: host_keeps_def)

lemma host_keeps_create [host_keeps_intro]: "host_keeps t h (snd (host_create_dir_all env path h))"
  using create_dir_all_other(3) [of env path h] by (metis host_keeps_def prod.collapse)

lemma host_keeps_write [host_keeps_intro]: "host_keeps (full_path (he_cwd env) path) h (snd (host_write env path text h))"
  by (simp add: host_keeps_def host_write_def Let_def split: option.split)

lemma host_keeps_remove [host_keeps_intro]: "host_keeps (full_path (he_cwd env) path) h (snd (host_remove_file env path h))"
  by (simp add: host_keeps_def host_remove_file_def split: option.split disk_entry.split)

lemma host_keeps_missing [host_keeps_intro]: "host_keeps t h (snd (service_manifest_missing env path h))"
  by (simp add: service_manifest_missing_def host_keeps_def)

lemma host_keeps_if [host_keeps_intro]: "host_keeps t h (snd x) \<Longrightarrow> host_keeps t h (snd y) \<Longrightarrow> host_keeps t h (snd (if b then x else y))"
  by simp

lemma host_keeps_sum [host_keeps_intro]:
  "(\<And>e. host_keeps t h (snd (f e))) \<Longrightarrow> (\<And>x. host_keeps t h (snd (g x))) \<Longrightarrow> host_keeps t h (snd (case r of Inl e \<Rightarrow> f e | Inr x \<Rightarrow> g x))"
  by (simp split: sum.split)

lemma host_keeps_simple [host_keeps_intro]: "host_keeps t h (snd (simple_command env args ctx manifest told h))"
  unfolding simple_command_def by (intro host_keeps_intro)

lemma host_keeps_checks [host_keeps_intro]: "host_keeps t h (snd (install_checks env manifest config_path force h))"
  unfolding install_checks_def by (intro host_keeps_intro)

lemma host_keeps_tail [host_keeps_intro]: "host_keeps t h (snd (print_text_file_tail env path n label h))"
  unfolding print_text_file_tail_def Let_def by (intro host_keeps_intro)

lemma host_keeps_follow [host_keeps_intro]: "host_keeps t h (snd (follow_text_files env paths n ctx h))"
  unfolding follow_text_files_def Let_def by (intro host_keeps_intro)

lemma host_keeps_stream [host_keeps_intro]:
  "host_keeps t h (snd a) \<Longrightarrow> host_keeps t h (snd b) \<Longrightarrow> host_keeps t h (snd c) \<Longrightarrow>
     host_keeps t h (snd (case s of Stdout \<Rightarrow> a | Stderr \<Rightarrow> b | Both \<Rightarrow> c))"
  by (cases s) simp_all

lemma host_keeps_pair_case [host_keeps_intro]:
  "(\<And>x y. host_keeps t h (snd (f x y))) \<Longrightarrow> host_keeps t h (snd (case p of (x, y) \<Rightarrow> f x y))"
  by (cases p) simp

lemma host_keeps_remove_after: "host_keeps (full_path (he_cwd env) path) h h1 \<Longrightarrow>
    host_keeps (full_path (he_cwd env) path) h (snd (host_remove_file env path h1))"
  using host_keeps_remove host_keeps_trans by blast

lemma host_keeps_show_after: "host_keeps t h h1 \<Longrightarrow> host_keeps t h (snd (host_show l h1))"
  using host_keeps_show(1) host_keeps_trans by blast

lemma host_keeps_stop_linux [host_keeps_intro]: "host_keeps t h (snd (stop_linux env manifest h))"
  unfolding stop_linux_def by (intro host_keeps_intro)

lemma host_keeps_stop_macos [host_keeps_intro]: "host_keeps t h (snd (stop_macos env manifest h))" "host_keeps t h (snd (start_macos env manifest h))"
  unfolding stop_macos_def start_macos_def by (intro host_keeps_intro)+

lemma host_keeps_uninstall:
  "host_keeps (full_path (he_cwd env) manifest) h (snd (uninstall_linux env manifest h))"
  "host_keeps (full_path (he_cwd env) manifest) h (snd (uninstall_macos env manifest h))"
  unfolding uninstall_linux_def uninstall_macos_def
  by (rule host_keeps_if host_keeps_bind host_keeps_context host_keeps_remove_after host_keeps_show_after host_keeps_stop_linux host_keeps_stop_macos(1)
      host_keeps_capture host_keeps_show(1))+

lemma host_keeps_install:
  "host_keeps (full_path (he_cwd env) manifest) h (snd (install_linux env manifest config_path force h))"
  "host_keeps (full_path (he_cwd env) manifest) h (snd (install_macos env manifest config_path force h))"
  unfolding install_linux_def install_macos_def by (intro host_keeps_intro)+

lemma host_keeps_reading [host_keeps_intro]:
  "host_keeps t h (snd (status_linux env manifest h))" "host_keeps t h (snd (logs_linux env manifest n follow stream h))"
  "host_keeps t h (snd (status_macos env manifest h))" "host_keeps t h (snd (logs_macos env manifest n follow stream h))"
  unfolding status_linux_def logs_linux_def status_macos_def logs_macos_def Let_def by (intro host_keeps_intro)+

lemma run_keeps:
  "manifest_path_linux (he_vars env) = Inr m \<Longrightarrow> host_keeps (full_path (he_cwd env) m) h (snd (run_service_command_linux env c h))"
  "manifest_path_macos (he_vars env) = Inr m \<Longrightarrow> host_keeps (full_path (he_cwd env) m) h (snd (run_service_command_macos env c h))"
  by (cases c; simp add: run_service_command_linux_def run_service_command_macos_def host_keeps_install host_keeps_uninstall host_keeps_intro)+

lemma install_refused:
  "host_exists env manifest h \<Longrightarrow> \<not> force \<Longrightarrow> \<exists>e. install_linux env manifest config_path force h = (Inl e, h)"
  "host_exists env manifest h \<Longrightarrow> \<not> force \<Longrightarrow> \<exists>e. install_macos env manifest config_path force h = (Inl e, h)"
  by (auto simp: install_linux_def install_macos_def install_checks_def host_bind_def)

lemma path_join_not_Nil: "base \<noteq> [] \<Longrightarrow> path_join base name \<noteq> []"
  by (cases name) (simp_all add: path_join_def is_absolute_def starts_with_def)

lemma path_joins_not_Nil: "base \<noteq> [] \<Longrightarrow> path_joins base names \<noteq> []"
  unfolding path_joins_def by (induction names arbitrary: base) (simp_all add: path_join_not_Nil)

lemma manifest_not_Nil:
  "manifest_path_linux vars = Inr m \<Longrightarrow> m \<noteq> []" "manifest_path_macos vars = Inr m \<Longrightarrow> m \<noteq> []"
proof -
  have "home_dir vars = Inr h \<Longrightarrow> h \<noteq> []" for h
    by (auto simp: home_dir_def split: option.splits dest: non_empty_Some)
  then show "manifest_path_linux vars = Inr m \<Longrightarrow> m \<noteq> []" "manifest_path_macos vars = Inr m \<Longrightarrow> m \<noteq> []"
    using path_joins_not_Nil
    by (cases "home_dir vars"; force simp: manifest_path_linux_def manifest_path_macos_def)+
qed

lemma simple_command_effect:
  assumes "host_exists env manifest h"
  shows "ho_disk (snd (simple_command env args ctx manifest told h)) = ho_disk h"
    and "ho_commands (snd (simple_command env args ctx manifest told h)) = ho_commands h @ [args]"
  using assms run_command_capture_disk [of env args ctx h]
  by (cases "run_command_capture env args ctx h"; cases "fst (run_command_capture env args ctx h)";
      simp add: simple_command_def service_manifest_missing_def host_bind_def host_show_def)+

subsection \<open>Properties\<close>


text \<open>C36: On both systems, whatever the command and whether it fails or not: everything that was on the disk outside the
  manifest of the service is still there as it was, and an installation that is not forced leaves a manifest that
  exists alone as well.\<close>

theorem service_touches_manifest_only:
  assumes "(manifest_path_linux (he_vars env) = Inr manifest \<and> run_service_command_linux env c h = (r, h')) \<or>
    (manifest_path_macos (he_vars env) = Inr manifest \<and> run_service_command_macos env c h = (r, h'))"
    and "ho_disk h p \<noteq> None" "p \<noteq> full_path (he_cwd env) manifest \<or> (\<exists>config_path. c = Install config_path False)"
  shows "ho_disk h' p = ho_disk h p"
proof (cases "p = full_path (he_cwd env) manifest")
  case False
  then show ?thesis using run_keeps(1) [of env manifest h c] run_keeps(2) [of env manifest h c] assms(1,2) by (auto simp: host_keeps_def)
next
  case True
  with assms(3) obtain config_path where c: "c = Install config_path False" by blast
  have "manifest \<noteq> []" using assms(1) manifest_not_Nil by blast
  with True assms(2) have "host_exists env manifest h" by (simp add: host_exists_def disk_at_def)
  then show ?thesis
    using assms(1) install_refused [of env manifest h False config_path]
    by (auto simp: c run_service_command_linux_def run_service_command_macos_def)
qed

text \<open>Removing the service on Linux works whatever \<open>systemd\<close> answers: with a unit that the system lets go, the command
  succeeds, the disk is as before without the unit, and \<open>systemd\<close> was asked to stop the service and to forget it.\<close>

theorem uninstall_removes_unit:
  assumes "manifest_path_linux (he_vars env) = Inr manifest"
    and "disk_at (ho_disk h) (he_cwd env) manifest = Some (Regular unit)" "he_fault env HostRemove manifest = None"
  shows "\<exists>h'. run_service_command_linux env Uninstall h = (Inr (), h') \<and>
    ho_disk h' = (ho_disk h)(full_path (he_cwd env) manifest := None) \<and>
    ho_commands h' = ho_commands h @ [systemctl [''stop'', unit_name], systemctl [''daemon-reload'']]"
proof -
  have e: "host_exists env manifest h" using assms(2) by (simp add: host_exists_def)
  let ?h = "snd (stop_linux env manifest h)"
  have stop: "ho_disk ?h = ho_disk h" "ho_commands ?h = ho_commands h @ [systemctl [''stop'', unit_name]]"
    using e simple_command_effect [of env manifest h] by (simp_all add: stop_linux_def)
  have "host_remove_file env manifest ?h = (Inr (), ?h \<lparr> ho_disk := (ho_disk h)(full_path (he_cwd env) manifest := None) \<rparr>)"
    using assms(2,3) stop by (simp add: host_remove_file_def)
  with assms(1) e stop show ?thesis
    by (simp add: run_service_command_linux_def uninstall_linux_def host_bind_def with_context_def host_show_def)
qed

subsection \<open>Witnesses\<close>

text \<open>A home with a configuration, and a system that carries out every command.\<close>

definition demo_host_env :: host_env where
  "demo_host_env = \<lparr> he_cwd = ''/h'', he_vars = [''HOME'' \<mapsto> ''/h''], he_exe = Inr ''/b'',
     he_answer = (\<lambda>_ _. Inr \<lparr> co_success = True, co_code = Some 0, co_stdout = [], co_stderr = [] \<rparr>),
     he_fault = (\<lambda>_ _. None), he_left = (\<lambda>_. None) \<rparr>"

definition demo_host :: host where
  "demo_host = \<lparr> ho_disk = [''/'' \<mapsto> Directory, ''/h'' \<mapsto> Directory, ''/h/c'' \<mapsto> Regular []], ho_commands = [], ho_shown = [] \<rparr>"

definition demo_manifest :: string where
  "demo_manifest = ''/h/.config/systemd/user/liveclaw.service''"

lemma demo_manifest_path: "manifest_path_linux (he_vars demo_host_env) = Inr demo_manifest"
  by code_simp

definition demo_installed :: host where
  "demo_installed = snd (run_service_command_linux demo_host_env (Install ''c'' False) demo_host)"

lemma demo_install: "run_service_command_linux demo_host_env (Install ''c'' False) demo_host = (Inr (), demo_installed)"
proof -
  have "fst (run_service_command_linux demo_host_env (Install ''c'' False) demo_host) = Inr ()" by code_simp
  then show ?thesis by (simp add: demo_installed_def prod_eq_iff)
qed


theorem service_touches_manifest_only_witness: "ho_disk demo_installed ''/h/c'' = Some (Regular [])"
proof -
  have there: "ho_disk demo_host ''/h/c'' = Some (Regular [])" by (simp add: demo_host_def)
  show ?thesis
    using service_touches_manifest_only [of demo_host_env demo_manifest "Install ''c'' False" demo_host "Inr ()" demo_installed "''/h/c''"]
      demo_manifest_path demo_install there by simp
qed

theorem uninstall_removes_unit_witness:
  "\<exists>h'. run_service_command_linux demo_host_env Uninstall demo_installed = (Inr (), h') \<and>
     ho_disk h' = (ho_disk demo_installed)(full_path ''/h'' demo_manifest := None)"
proof -
  have "disk_at (ho_disk demo_installed) (he_cwd demo_host_env) demo_manifest = Some (Regular (unit_text ''/b'' ''c''))"
    "he_fault demo_host_env HostRemove demo_manifest = None" "he_cwd demo_host_env = ''/h''"
    by code_simp (simp_all add: demo_host_env_def)
  with uninstall_removes_unit [OF demo_manifest_path this(1,2)] show ?thesis by auto
qed

end
