(* ===== verification/Onboarding.thy ===== *)
theory Onboarding
  imports Service_Manager "HOL-Library.Countable"
begin

section \<open>The onboarding\<close>

text \<open>
  \<open>run_onboarding\<close> of \<open>liveclaw-app/src/main.rs\<close>: the questions, the configuration they give, its file, and the
  checks after it. The standard input is the list of its lines, each read or failing; after the last one a read
  gives the empty line, as at the end of a file. A question that is asked again and again need not end, so
  the questions are partial functions: \<open>None\<close> is a program that never returns. The prompts on the terminal are
  left out, as is a terminal that cannot be written.
\<close>

subsection \<open>Asking\<close>

type_synonym input = "string result list"
type_synonym 'a ask = "input \<Rightarrow> ('a result \<times> input) option"

definition next_line :: "input \<Rightarrow> string result \<times> input" where
  "next_line input = (case input of [] \<Rightarrow> (Inr [], []) | l # ls \<Rightarrow> (l, ls))"

definition ask_bind :: "'a ask \<Rightarrow> ('a \<Rightarrow> 'b ask) \<Rightarrow> 'b ask" where
  "ask_bind m f = (\<lambda>input. case m input of
     None \<Rightarrow> None
   | Some (Inl e, input) \<Rightarrow> Some (Inl e, input)
   | Some (Inr x, input) \<Rightarrow> f x input)"

definition ask_result :: "'a result \<Rightarrow> 'a ask" where
  "ask_result r = (\<lambda>input. Some (r, input))"

partial_function (option) prompt_text :: "string option \<Rightarrow> bool \<Rightarrow> string ask" where
  "prompt_text preset required input =
     (case next_line input of
        (Inl e, input) \<Rightarrow> Some (Inl ''Failed to read onboarding input'', input)
      | (Inr line, input) \<Rightarrow>
          (let trimmed = trim line
           in if trimmed = [] then
                (case preset of
                   Some v \<Rightarrow> Some (Inr v, input)
                 | None \<Rightarrow> (if required then prompt_text preset required input else Some (Inr [], input)))
              else Some (Inr trimmed, input)))"

partial_function (option) prompt_bool :: "bool \<Rightarrow> bool ask" where
  "prompt_bool preset input =
     (case prompt_text (Some (if preset then ''yes'' else ''no'')) False input of
        None \<Rightarrow> None
      | Some (Inl e, input) \<Rightarrow> Some (Inl e, input)
      | Some (Inr v, input) \<Rightarrow>
          (let v = to_ascii_lowercase (trim v)
           in if v \<in> {''yes'', ''y'', ''true'', ''1'', ''on''} then Some (Inr True, input)
              else if v \<in> {''no'', ''n'', ''false'', ''0'', ''off''} then Some (Inr False, input)
              else prompt_bool preset input))"

partial_function (option) prompt_u16 :: "16 word \<Rightarrow> 16 word ask" where
  "prompt_u16 preset input =
     (case prompt_text (Some (show_nat (unat preset))) True input of
        None \<Rightarrow> None
      | Some (Inl e, input) \<Rightarrow> Some (Inl e, input)
      | Some (Inr v, input) \<Rightarrow>
          (case parse_u16 v of
             Inr port \<Rightarrow> Some (Inr port, input)
           | Inl _ \<Rightarrow> prompt_u16 preset input))"

subsection \<open>The answers\<close>

definition normalize_provider_profile :: "string \<Rightarrow> string result" where
  "normalize_provider_profile raw =
     (let normalized = map (\<lambda>c. if c = CHR ''-'' then CHR ''_'' else c) (to_ascii_lowercase (trim raw))
      in if normalized \<in> {''legacy'', ''openai'', ''openai_compatible''} then Inr normalized
         else Inl (''Unsupported provider profile '' @ quoted raw @ ''. Use legacy, openai, or openai_compatible.''))"

text \<open>An option that was given and must not be blank, else a default or a question with it.\<close>

definition given_or_ask :: "string option \<Rightarrow> string \<Rightarrow> bool \<Rightarrow> string \<Rightarrow> string ask" where
  "given_or_ask given blank non_interactive preset =
     (case given of
        Some v \<Rightarrow> ask_result (if trim v = [] then Inl blank else Inr (trim v))
      | None \<Rightarrow> (if non_interactive then ask_result (Inr preset) else prompt_text (Some preset) True))"

definition ask_profile :: "onboard_options \<Rightarrow> string ask" where
  "ask_profile opts =
     (case oo_provider_profile opts of
        Some p \<Rightarrow> ask_result (normalize_provider_profile p)
      | None \<Rightarrow>
          (if oo_non_interactive opts then ask_result (Inr ''legacy'')
           else ask_bind (prompt_text (Some ''legacy'') True) (\<lambda>p. ask_result (normalize_provider_profile p))))"

definition ask_api_key :: "environment \<Rightarrow> onboard_options \<Rightarrow> string ask" where
  "ask_api_key env opts =
     (case oo_api_key opts of
        Some key \<Rightarrow> ask_result (if trim key = [] then Inl ''--api-key cannot be empty'' else Inr (trim key))
      | None \<Rightarrow>
          (let env_key = effective_api_key env []
           in if trim env_key \<noteq> [] then ask_result (Inr env_key)
              else if oo_non_interactive opts
              then ask_result (Inl (''Missing API key for non-interactive onboarding. '' @
                     ''Provide --api-key or set LIVECLAW_API_KEY/OPENAI_API_KEY.''))
              else ask_bind (prompt_text None True) (\<lambda>entered.
                ask_result (if trim entered = [] then Inl ''API key is required'' else Inr entered))))"

definition checked_url :: "string \<Rightarrow> string \<Rightarrow> string option result" where
  "checked_url url kept = map_sum id (\<lambda>_. Some kept) (validate_ws_base_url url ''openai_compatible'')"

definition ask_base_url :: "string \<Rightarrow> onboard_options \<Rightarrow> string option ask" where
  "ask_base_url profile opts =
     (if profile = ''openai_compatible'' then
        (case oo_base_url opts of
           Some u \<Rightarrow>
             (if trim u = [] then ask_result (Inl ''--base-url cannot be empty for openai_compatible profile'')
              else ask_result (checked_url (trim u) (trim u)))
         | None \<Rightarrow>
             (if oo_non_interactive opts
              then ask_result (Inl ''openai_compatible profile requires --base-url in non-interactive onboarding'')
              else ask_bind (prompt_text None True) (\<lambda>entered. ask_result (checked_url entered entered))))
      else ask_result (Inr (case oo_base_url opts of None \<Rightarrow> None | Some v \<Rightarrow> non_empty (Some v))))"

definition onboarded_config ::
  "string \<Rightarrow> string \<Rightarrow> string \<Rightarrow> string \<Rightarrow> 16 word \<Rightarrow> bool \<Rightarrow> string option \<Rightarrow> liveclaw_config" where
  "onboarded_config profile key model_name host port pairing url =
     (let config = config_default
        \<lparr> lc_gateway := (lc_gateway config_default) \<lparr> gw_host := host, gw_port := port, gw_require_pairing := pairing \<rparr>,
          lc_voice := (lc_voice config_default) \<lparr> vc_model := model_name, vc_api_key := key \<rparr>,
          lc_providers := (lc_providers config_default) \<lparr> pv_active_profile := profile \<rparr> \<rparr>;
        voice = lc_voice config; providers = lc_providers config
      in if profile = ''legacy'' then
           config \<lparr> lc_voice := voice
             \<lparr> vc_provider := (if url \<noteq> None then ''openai_compatible'' else ''openai''), vc_base_url := url \<rparr> \<rparr>
         else if profile = ''openai'' then
           config \<lparr> lc_voice := voice \<lparr> vc_provider := ''openai'' \<rparr>,
             lc_providers := providers \<lparr> pv_openai := (pv_openai providers)
               \<lparr> pp_enabled := True, pp_api_key := key, pp_model := model_name, pp_base_url := url \<rparr> \<rparr> \<rparr>
         else
           config \<lparr> lc_voice := voice \<lparr> vc_provider := ''openai_compatible'' \<rparr>,
             lc_providers := providers \<lparr> pv_openai_compatible := (pv_openai_compatible providers)
               \<lparr> pp_enabled := True, pp_api_key := key, pp_model := model_name, pp_base_url := url \<rparr> \<rparr> \<rparr>)"

definition build_onboard_config :: "environment \<Rightarrow> onboard_options \<Rightarrow> liveclaw_config ask" where
  "build_onboard_config env opts =
     (let ni = oo_non_interactive opts; gateway = lc_gateway config_default
      in ask_bind (ask_profile opts) (\<lambda>profile.
         ask_bind (ask_api_key env opts) (\<lambda>key.
         ask_bind (given_or_ask (oo_model opts) ''--model cannot be empty'' ni default_model_name) (\<lambda>model_name.
         ask_bind (given_or_ask (oo_gateway_host opts) ''--gateway-host cannot be empty'' ni (gw_host gateway)) (\<lambda>host.
         ask_bind (case oo_gateway_port opts of
                     Some port \<Rightarrow> ask_result (Inr port)
                   | None \<Rightarrow> (if ni then ask_result (Inr (gw_port gateway)) else prompt_u16 (gw_port gateway))) (\<lambda>port.
         ask_bind (case oo_require_pairing opts of
                     Some b \<Rightarrow> ask_result (Inr b)
                   | None \<Rightarrow> (if ni then ask_result (Inr (gw_require_pairing gateway))
                             else prompt_bool (gw_require_pairing gateway))) (\<lambda>pairing.
         ask_bind (ask_base_url profile opts) (\<lambda>url.
           ask_result (Inr (onboarded_config profile key model_name host port pairing url))))))))))"

subsection \<open>The file and the checks\<close>

definition write_onboard_config ::
  "(toml \<Rightarrow> string) \<Rightarrow> host_env \<Rightarrow> string \<Rightarrow> liveclaw_config \<Rightarrow> bool \<Rightarrow> host \<Rightarrow> unit result \<times> host" where
  "write_onboard_config pretty env path config force h =
     (if host_exists env path h \<and> \<not> force
      then (Inl (''Refusing to overwrite existing config '' @ quoted path @ ''. Re-run with --force to overwrite.''), h)
      else host_bind
        (if parent_of path \<noteq> []
         then with_context (''Failed to create parent directory '' @ quoted (parent_of path))
                (host_create_dir_all env (parent_of path) h)
         else (Inr (), h)) (\<lambda>_ h.
          case config_to_toml config of
            None \<Rightarrow> (Inl ''Failed to serialize onboarding configuration'', h)
          | Some t \<Rightarrow>
              with_context (''Failed to write onboarding configuration to '' @ quoted path)
                (host_write env path (pretty t) h)))"

definition doctor_lines :: "string \<Rightarrow> provider_selection \<Rightarrow> doctor_report \<Rightarrow> string list" where
  "doctor_lines path provider report =
     [''LiveClaw doctor report for '' @ quoted path,
      ''protocol: '' @ PROTOCOL_VERSION,
      ''provider: profile='' @ ps_profile_name provider @ '' kind='' @ provider_kind_label (ps_kind provider) @
        '' model='' @ ps_default_model provider @ '' base_url='' @ unwrap_or (ps_base_url provider) ''<default>''] @
     map (\<lambda>note. ''note: '' @ note) (dr_notes report) @
     (if dr_warnings report = [] then [''warnings: none''] else map (\<lambda>w. ''warning: '' @ w) (dr_warnings report))"

text \<open>The version of \<open>run_service_command\<close> is the one of the system the program is built for.\<close>

definition run_onboarding ::
  "(string \<Rightarrow> string) \<Rightarrow> (string \<Rightarrow> toml result) \<Rightarrow> (toml \<Rightarrow> string) \<Rightarrow>
     (host_env \<Rightarrow> service_command \<Rightarrow> host \<Rightarrow> unit result \<times> host) \<Rightarrow> host_env \<Rightarrow> onboard_options \<Rightarrow> input \<Rightarrow> host \<Rightarrow>
     (unit result \<times> host) option" where
  "run_onboarding lower parse pretty run_service env opts input h =
     (let path = oo_config_path opts; (_, h) = host_show ''LiveClaw onboarding'' h
      in case build_onboard_config (he_vars env) opts input of
           None \<Rightarrow> None
         | Some (Inl e, _) \<Rightarrow> Some (Inl e, h)
         | Some (Inr config, _) \<Rightarrow> Some (
             host_bind (write_onboard_config pretty env path config (oo_force opts) h) (\<lambda>_ h.
             host_bind (load_config parse env path h, h) (\<lambda>loaded h.
             host_bind (validate_runtime_and_provider lower (he_vars env) loaded True, h) (\<lambda>(provider, report) h.
             host_bind (host_show_all ([''Wrote config: '' @ path] @ doctor_lines path provider report) h) (\<lambda>_ h.
             host_bind
               (if oo_install_service opts then
                  host_bind (run_service env (Install path (oo_force opts)) h) (\<lambda>_ h.
                    if oo_start_service opts then run_service env Start h else (Inr (), h))
                else (Inr (), h)) (\<lambda>_ h.
             host_show (''Next step: cargo run -p liveclaw-app -- '' @ path) h)))))))"

subsection \<open>The program\<close>

text \<open>
  \<open>main\<close> up to the point where the worker or the gateway runs. What the library does with the start of the
  worker and of the gateway is left to the components they model.
\<close>

datatype outcome = Finished | Worker | Gateway liveclaw_config provider_selection

definition finished :: "unit result \<times> host \<Rightarrow> outcome result \<times> host" where
  "finished m = host_bind m (\<lambda>_ h. (Inr Finished, h))"

definition main_checks ::
  "(string \<Rightarrow> string) \<Rightarrow> (string \<Rightarrow> toml result) \<Rightarrow> host_env \<Rightarrow> string \<Rightarrow> bool \<Rightarrow> host \<Rightarrow> outcome result \<times> host" where
  "main_checks lower parse env path doctor h =
     host_bind (load_config parse env path h, h) (\<lambda>config h.
     host_bind (validate_runtime_and_provider lower (he_vars env) config (\<not> doctor), h) (\<lambda>(provider, report) h.
       if doctor then finished (host_show_all (doctor_lines path provider report) h)
       else (Inr (Gateway config provider), h)))"

definition main_program ::
  "(string \<Rightarrow> string) \<Rightarrow> (string \<Rightarrow> toml result) \<Rightarrow> (toml \<Rightarrow> string) \<Rightarrow>
     (host_env \<Rightarrow> service_command \<Rightarrow> host \<Rightarrow> unit result \<times> host) \<Rightarrow> host_env \<Rightarrow> string list \<Rightarrow> input \<Rightarrow> host \<Rightarrow>
     (outcome result \<times> host) option" where
  "main_program lower parse pretty run_service env args input h =
     (case parse_command args of
        Inl e \<Rightarrow> Some (Inl e, h)
      | Inr RuntimeWorker \<Rightarrow> Some (Inr Worker, h)
      | Inr Help \<Rightarrow> Some (finished (host_show cli_usage h))
      | Inr (Onboard opts) \<Rightarrow> map_option finished (run_onboarding lower parse pretty run_service env opts input h)
      | Inr (Service c) \<Rightarrow> Some (finished (run_service env c h))
      | Inr (Run path) \<Rightarrow> Some (main_checks lower parse env path False h)
      | Inr (Doctor path) \<Rightarrow> Some (main_checks lower parse env path True h))"

subsection \<open>When a question is answered\<close>

lemma prompt_preset:
  "prompt_text (Some v) required input = Some
     (case next_line input of
        (Inl e, input) \<Rightarrow> (Inl ''Failed to read onboarding input'', input)
      | (Inr line, input) \<Rightarrow> (Inr (if trim line = [] then v else trim line), input))"
  by (subst prompt_text.simps) (simp add: Let_def split: prod.split sum.split)

lemma prompt_required_end: "prompt_text None True [] = None"
proof (rule ccontr)
  assume "prompt_text None True [] \<noteq> None"
  then obtain y where y: "prompt_text None True [] = Some y" by blast
  have "\<not> ((None :: string option) = None \<and> True \<and> ([] :: input) = [])"
    by (rule prompt_text.raw_induct [of "\<lambda>preset required input y. \<not> (preset = None \<and> required \<and> input = [])", OF _ y])
      (auto simp: next_line_def, blast)
  then show False by simp
qed

text \<open>The lines a question without a default passes over.\<close>

definition blank_line :: "string result \<Rightarrow> bool" where
  "blank_line l = (case l of Inl _ \<Rightarrow> False | Inr s \<Rightarrow> trim s = [])"

lemma blank_Inr [simp]: "blank_line (Inr s) \<longleftrightarrow> trim s = []" "\<not> blank_line (Inl e)"
  by (simp_all add: blank_line_def)

lemma prompt_required:
  "prompt_text None True input =
     (case dropWhile blank_line input of
        [] \<Rightarrow> None
      | l # ls \<Rightarrow> Some (map_sum (\<lambda>_. ''Failed to read onboarding input'') trim l, ls))"
proof (induction input)
  case Nil
  show ?case by (simp add: prompt_required_end)
next
  case (Cons l ls)
  then show ?case
    by (subst prompt_text.simps) (cases l; simp add: next_line_def blank_Inr Let_def)
qed

lemma prompt_bool_returns: "prompt_bool b input \<noteq> None"
proof (induction input)
  case Nil
  have "to_ascii_lowercase (trim ''yes'') = ''yes''" "to_ascii_lowercase (trim ''no'') = ''no''" by code_simp+
  then show ?case by (subst prompt_bool.simps) (simp add: prompt_preset next_line_def)
next
  case (Cons l ls)
  then show ?case by (subst prompt_bool.simps) (cases l; simp add: prompt_preset next_line_def Let_def)
qed

lemma prompt_u16_returns: "prompt_u16 w input \<noteq> None"
proof (induction input)
  case Nil
  show ?case by (subst prompt_u16.simps) (simp add: prompt_preset next_line_def)
next
  case (Cons l ls)
  then show ?case by (subst prompt_u16.simps) (cases l; simp add: prompt_preset next_line_def split: sum.split)
qed

text \<open>An input that says nothing: every question with a default gives it.\<close>

abbreviation silent :: "input \<Rightarrow> bool" where
  "silent input \<equiv> list_all blank_line input"

lemma silent_next:
  assumes "silent input"
  obtains s where "next_line input = (Inr s, tl input)" "trim s = []" "silent (tl input)"
  using assms by (cases input) (auto simp: next_line_def blank_line_def split: sum.splits)

lemma silent_tl [simp]: "silent input \<Longrightarrow> silent (tl input)"
  by (cases input) simp_all

lemma silent_preset: "silent input \<Longrightarrow> prompt_text (Some v) required input = Some (Inr v, tl input)"
  by (erule silent_next) (simp add: prompt_preset)

lemma silent_required: "silent input \<Longrightarrow> prompt_text None True input = None"
  by (subst prompt_required, subst dropWhile_eq_Nil_conv [THEN iffD2]) (simp_all add: list_all_iff)

lemma silent_bool: "silent input \<Longrightarrow> prompt_bool b input = Some (Inr b, tl input)"
proof -
  have "to_ascii_lowercase (trim ''yes'') = ''yes''" "to_ascii_lowercase (trim ''no'') = ''no''" by code_simp+
  then show "silent input \<Longrightarrow> prompt_bool b input = Some (Inr b, tl input)"
    by (subst prompt_bool.simps) (simp add: silent_preset)
qed

lemma silent_u16: "silent input \<Longrightarrow> prompt_u16 w input = Some (Inr w, tl input)"
  by (subst prompt_u16.simps) (simp add: silent_preset)

lemmas silent_simps = silent_preset silent_required silent_bool silent_u16

subsection \<open>Facts about asking\<close>

lemma ask_bind_Inr:
  "ask_bind m f input = Some (Inr y, i') \<longleftrightarrow> (\<exists>x i. m input = Some (Inr x, i) \<and> f x i = Some (Inr y, i'))"
  by (auto simp: ask_bind_def split: option.splits prod.splits sum.splits)

lemma ask_bind_None:
  "ask_bind m f input = None \<longleftrightarrow> m input = None \<or> (\<exists>x i. m input = Some (Inr x, i) \<and> f x i = None)"
  by (auto simp: ask_bind_def split: option.splits prod.splits sum.splits)

lemma ask_bind_result [simp]:
  "ask_bind (ask_result r) f = (case r of Inl e \<Rightarrow> ask_result (Inl e) | Inr x \<Rightarrow> f x)"
  by (auto simp: ask_bind_def ask_result_def fun_eq_iff split: sum.split)

lemma ask_result_apply [simp]: "ask_result r input = Some (r, input)"
  by (simp add: ask_result_def)

text \<open>Whether the key and the address have to be asked for without a default.\<close>

definition needs_key :: "environment \<Rightarrow> onboard_options \<Rightarrow> bool" where
  "needs_key env opts \<longleftrightarrow> oo_api_key opts = None \<and> effective_api_key env [] = []"

definition fine_option :: "string option \<Rightarrow> bool" where
  "fine_option v \<longleftrightarrow> (case v of None \<Rightarrow> True | Some s \<Rightarrow> trim s \<noteq> [])"

lemma effective_key_trim: "trim (effective_api_key env k) = effective_api_key env k"
  by (simp add: effective_api_key_first)

lemma result_choice:
  "\<exists>r. (case v of None \<Rightarrow> ask_result a | Some x \<Rightarrow> ask_result (b x)) = ask_result r"
  by (cases v) auto

lemma quiet_questions:
  assumes "oo_non_interactive opts"
  shows "\<exists>r. ask_profile opts = ask_result r" "\<exists>r. ask_api_key env opts = ask_result r"
    "\<exists>r. ask_base_url profile opts = ask_result r" "\<exists>r. given_or_ask given e True v = ask_result r"
  using assms
  by (auto simp: ask_profile_def ask_api_key_def ask_base_url_def given_or_ask_def Let_def split: option.split)

lemma quiet_bind: "(\<exists>r. m = ask_result r) \<Longrightarrow> (\<And>x. \<exists>r. f x = ask_result r) \<Longrightarrow> \<exists>r. ask_bind m f = ask_result r"
  by (auto split: sum.split)

lemma non_interactive_result:
  assumes "oo_non_interactive opts"
  shows "\<exists>r. build_onboard_config env opts = ask_result r"
  unfolding build_onboard_config_def Let_def
  by (intro quiet_bind quiet_questions [OF assms])
    (use assms in \<open>auto simp: quiet_questions split: option.split\<close>)

lemma asked_returns:
  "ask_profile opts input \<noteq> None" "given_or_ask given e ni v input \<noteq> None"
  "\<not> needs_key env opts \<Longrightarrow> ask_api_key env opts input \<noteq> None"
  "oo_base_url opts \<noteq> None \<Longrightarrow> ask_base_url profile opts input \<noteq> None"
proof -
  show "ask_profile opts input \<noteq> None" "given_or_ask given e ni v input \<noteq> None"
    by (simp_all add: ask_profile_def given_or_ask_def prompt_preset ask_bind_None del: not_None_eq split: option.split)
  show "\<not> needs_key env opts \<Longrightarrow> ask_api_key env opts input \<noteq> None"
    by (cases "oo_api_key opts") (simp_all add: ask_api_key_def needs_key_def effective_key_trim del: not_None_eq)
  show "oo_base_url opts \<noteq> None \<Longrightarrow> ask_base_url profile opts input \<noteq> None"
    by (cases "oo_base_url opts") (simp_all add: ask_base_url_def del: not_None_eq)
qed

subsection \<open>The configuration of the answers\<close>

lemma built_parts:
  assumes "build_onboard_config env opts input = Some (Inr config, input')"
  obtains profile key model_name host port pairing url i1 i2 i3 where
    "config = onboarded_config profile key model_name host port pairing url"
    "ask_profile opts input = Some (Inr profile, i1)" "ask_api_key env opts i1 = Some (Inr key, i2)"
    "ask_base_url profile opts i3 = Some (Inr url, input')"
  using assms unfolding build_onboard_config_def Let_def ask_bind_Inr ask_result_apply option.inject prod.inject sum.inject
  by metis

lemma normalized_profile: "normalize_provider_profile raw = Inr p \<Longrightarrow> p \<in> {''legacy'', ''openai'', ''openai_compatible''}"
  by (auto simp: normalize_provider_profile_def Let_def split: if_splits)

lemma ask_profile_Inr:
  assumes "ask_profile opts input = Some (Inr p, i)"
  shows "p \<in> {''legacy'', ''openai'', ''openai_compatible''}"
  using assms unfolding ask_profile_def
  by (auto simp: ask_bind_Inr split: option.splits if_splits dest: normalized_profile)

lemma prompt_required_Inr: "prompt_text None True input = Some (Inr s, i) \<Longrightarrow> s \<noteq> [] \<and> trim s = s"
proof -
  assume a: "prompt_text None True input = Some (Inr s, i)"
  then obtain l ls where d: "dropWhile blank_line input = l # ls" "map_sum (\<lambda>_. ''Failed to read onboarding input'') trim l = Inr s"
    by (auto simp: prompt_required split: list.splits)
  then have "\<not> blank_line l" by (metis hd_dropWhile list.distinct(1) list.sel(1))
  with d(2) show ?thesis by (cases l) auto
qed

lemma ask_api_key_Inr:
  assumes "ask_api_key env opts input = Some (Inr key, i)"
  shows "trim key = key" "key \<noteq> []"
proof -
  have "trim key = key \<and> key \<noteq> []"
  proof (cases "oo_api_key opts")
    case (Some k)
    with assms show ?thesis by (auto simp: ask_api_key_def split: if_splits)
  next
    case None
    with assms show ?thesis
      by (auto simp: ask_api_key_def Let_def effective_key_trim ask_bind_Inr split: if_splits dest: prompt_required_Inr)
  qed
  then show "trim key = key" "key \<noteq> []" by simp_all
qed

lemma ask_base_url_Inr:
  assumes "ask_base_url profile opts input = Some (Inr url, i)"
  shows "profile = ''openai_compatible'' \<Longrightarrow> \<exists>u. url = Some u \<and> ws_url u \<and> trim u = u \<and> u \<noteq> []"
    and "profile \<noteq> ''openai_compatible'' \<Longrightarrow> url = non_empty (oo_base_url opts)"
proof -
  have url: "checked_url u u = Inr url \<Longrightarrow> url = Some u \<and> ws_url u" for u
    by (cases "validate_ws_base_url u ''openai_compatible''") (auto simp: checked_url_def validate_ws_base_url_Inr)
  show "\<exists>u. url = Some u \<and> ws_url u \<and> trim u = u \<and> u \<noteq> []" if p: "profile = ''openai_compatible''"
  proof (cases "oo_base_url opts")
    case (Some u)
    with assms p url [of "trim u"] show ?thesis by (auto simp: ask_base_url_def split: if_splits)
  next
    case None
    with assms p obtain e j where "prompt_text None True input = Some (Inr e, j)" "checked_url e e = Inr url"
      by (auto simp: ask_base_url_def ask_bind_Inr split: if_splits)
    with url [of e] prompt_required_Inr [of input e j] show ?thesis by auto
  qed
  show "url = non_empty (oo_base_url opts)" if "profile \<noteq> ''openai_compatible''"
    using assms that by (auto simp: ask_base_url_def non_empty_def split: option.splits)
qed

text \<open>What the library says of \<open>to_lowercase\<close> on ASCII text.\<close>

definition lower_contract :: "(string \<Rightarrow> string) \<Rightarrow> bool" where
  "lower_contract lower \<longleftrightarrow> (\<forall>s. list_all (\<lambda>c. byte_of c < 128) s \<longrightarrow> lower s = to_ascii_lowercase s)"

lemma lower_words:
  assumes "lower_contract lower"
  shows "lower ''legacy'' = ''legacy''" "lower ''openai'' = ''openai''" "lower ''openai_compatible'' = ''openai_compatible''"
proof -
  have "list_all (\<lambda>c. byte_of c < 128) s \<Longrightarrow> lower s = to_ascii_lowercase s" for s using assms by (simp add: lower_contract_def)
  moreover have "to_ascii_lowercase ''legacy'' = ''legacy''" "to_ascii_lowercase ''openai'' = ''openai''"
    "to_ascii_lowercase ''openai_compatible'' = ''openai_compatible''" by code_simp+
  ultimately show "lower ''legacy'' = ''legacy''" "lower ''openai'' = ''openai''" "lower ''openai_compatible'' = ''openai_compatible''"
    by (simp_all add: byte_of_def)
qed

lemma trim_words [simp]: "trim ''legacy'' = ''legacy''" "trim ''openai'' = ''openai''" "trim ''openai_compatible'' = ''openai_compatible''"
  by code_simp+

lemma non_empty_fix: "trim s = s \<Longrightarrow> s \<noteq> [] \<Longrightarrow> non_empty (Some s) = Some s"
  by (simp add: non_empty_def)

lemma non_empty_twice: "non_empty v = Some u \<Longrightarrow> non_empty (Some u) = Some u"
  using non_empty_Some by (auto intro: non_empty_fix)

definition onboarded_selection :: "string \<Rightarrow> string \<Rightarrow> string \<Rightarrow> string option \<Rightarrow> provider_selection" where
  "onboarded_selection profile key model_name url =
     (let kind = (if profile = ''openai_compatible'' \<or> profile = ''legacy'' \<and> url \<noteq> None then OpenAICompatible else OpenAI)
      in \<lparr> ps_kind = kind, ps_profile_name = profile, ps_provider_label = provider_kind_label kind, ps_api_key = key,
           ps_default_model = unwrap_or (non_empty (Some model_name)) default_model_name, ps_base_url = url \<rparr>)"

lemma onboarded_resolves:
  assumes "lower_contract lower" "profile \<in> {''legacy'', ''openai'', ''openai_compatible''}"
    and "trim key = key" "key \<noteq> []" "url = None \<or> (\<exists>u. url = Some u \<and> trim u = u \<and> u \<noteq> [])"
    and "config = onboarded_config profile key model_name host port pairing url"
  shows "resolve_provider_selection lower env (lc_voice config) (lc_providers config) =
    Inr (onboarded_selection profile key model_name url)"
proof -
  have u: "non_empty url = url" using assms(5) by (auto simp: non_empty_def)
  have key: "effective_api_key env key = key" "non_empty (Some key) = Some key"
    using assms(3,4) by (simp_all add: effective_api_key_def non_empty_fix)
  have words: "non_empty (Some ''legacy'') = Some ''legacy''" "non_empty (Some ''openai'') = Some ''openai''"
    "non_empty (Some ''openai_compatible'') = Some ''openai_compatible''" by (simp_all add: non_empty_def)
  have none: "non_empty None = None" by (simp add: non_empty_def)
  show ?thesis
    using assms(2) unfolding assms(6)
    by (elim insertE; simp add: resolve_provider_selection_def onboarded_config_def onboarded_selection_def Let_def words key u
        lower_words [OF assms(1)] unwrap_or_def or_else_def resolve_profile_api_key_def resolve_profile_model_def
        resolve_profile_base_url_def provider_kind_label_def config_default_def voice_default_def none split: option.split)
qed

lemma onboarded_startable:
  "profile \<in> {''legacy'', ''openai'', ''openai_compatible''} \<Longrightarrow>
   startable (onboarded_config profile key model_name host port pairing url) (onboarded_selection profile key model_name url) \<longleftrightarrow>
     (profile = ''openai_compatible'' \<longrightarrow> url \<noteq> None) \<and> (\<forall>u. url = Some u \<longrightarrow> ws_url u) \<and> \<not> public_bind host"
  by (auto simp: startable_def onboarded_config_def onboarded_selection_def Let_def config_default_def runtime_default_def
      security_default_def split: option.split)

lemma onboarded_fits: "config_fits (onboarded_config profile key model_name host port pairing url)"
  by (simp add: onboarded_config_def Let_def config_fits_def config_default_def default_defs word_fits_def)

subsection \<open>Questions at the end of the input\<close>

text \<open>The answers that a silent input gives.\<close>

definition profile_answer :: "onboard_options \<Rightarrow> string result" where
  "profile_answer opts =
     (case oo_provider_profile opts of None \<Rightarrow> Inr ''legacy'' | Some p \<Rightarrow> normalize_provider_profile p)"

lemma normalize_legacy [simp]: "normalize_provider_profile ''legacy'' = Inr ''legacy''"
  by code_simp

lemma silent_profile:
  assumes "silent input"
  shows "\<exists>i. ask_profile opts input = Some (profile_answer opts, i) \<and> silent i"
  using assms
  by (cases "oo_provider_profile opts")
    (simp_all add: ask_profile_def profile_answer_def ask_bind_def silent_simps)

lemma silent_key:
  assumes "silent input" "\<not> oo_non_interactive opts"
  shows "ask_api_key env opts input =
    (if needs_key env opts then None
     else Some (case oo_api_key opts of
         None \<Rightarrow> Inr (effective_api_key env [])
       | Some k \<Rightarrow> if trim k = [] then Inl ''--api-key cannot be empty'' else Inr (trim k), input))"
  using assms
  by (cases "oo_api_key opts")
    (simp_all add: ask_api_key_def needs_key_def effective_key_trim Let_def ask_bind_def silent_simps)

lemma silent_given:
  assumes "silent input"
  obtains i r where "given_or_ask given e ni v input = Some (r, i)" "silent i" "isl r \<longleftrightarrow> \<not> fine_option given"
  using assms that [of "Inr v" input] that [of "Inr v" "tl input"] that [of "Inl e" input] that [of "Inr (trim (the given))" input]
  by (cases given; cases ni) (auto simp: given_or_ask_def fine_option_def silent_simps)

lemma silent_url:
  assumes "silent input" "\<not> oo_non_interactive opts"
  shows "ask_base_url profile opts input = None \<longleftrightarrow> profile = ''openai_compatible'' \<and> oo_base_url opts = None"
  using assms by (auto simp: ask_base_url_def ask_bind_None silent_simps split: option.splits)

lemma ask_chain_None:
  assumes "m1 i0 = Some (r1, i1)" "m2 i1 = Some (r2, i2)" "m3 i2 = Some (Inr x3, i3)" "m4 i3 = Some (Inr x4, i4)"
  shows "ask_bind m1 (\<lambda>x1. ask_bind m2 (\<lambda>x2. ask_bind m3 (\<lambda>x3. ask_bind m4 (\<lambda>x4.
      ask_bind m5 (\<lambda>x5. ask_result (Inr (f x1 x2 x3 x4 x5))))))) i0 = None \<longleftrightarrow> \<not> isl r1 \<and> \<not> isl r2 \<and> m5 i4 = None"
  using assms by (simp add: ask_bind_def split: sum.split option.split)

lemma silent_rest:
  assumes "silent input" "\<not> oo_non_interactive opts"
  shows "ask_bind (given_or_ask (oo_model opts) e1 False v1) (\<lambda>model_name.
      ask_bind (given_or_ask (oo_gateway_host opts) e2 False v2) (\<lambda>host.
      ask_bind (case oo_gateway_port opts of Some port \<Rightarrow> ask_result (Inr port) | None \<Rightarrow> prompt_u16 p) (\<lambda>port.
      ask_bind (case oo_require_pairing opts of Some b \<Rightarrow> ask_result (Inr b) | None \<Rightarrow> prompt_bool q) (\<lambda>pairing.
      ask_bind (ask_base_url profile opts) (\<lambda>url. ask_result (Inr (f model_name host port pairing url))))))) input = None \<longleftrightarrow>
    fine_option (oo_model opts) \<and> fine_option (oo_gateway_host opts) \<and> profile = ''openai_compatible'' \<and> oo_base_url opts = None"
proof -
  obtain i1 r1 where 1: "given_or_ask (oo_model opts) e1 False v1 input = Some (r1, i1)" "silent i1" "isl r1 \<longleftrightarrow> \<not> fine_option (oo_model opts)"
    using silent_given [OF assms(1)] by blast
  obtain i2 r2 where 2: "given_or_ask (oo_gateway_host opts) e2 False v2 i1 = Some (r2, i2)" "silent i2" "isl r2 \<longleftrightarrow> \<not> fine_option (oo_gateway_host opts)"
    using silent_given [OF 1(2)] by blast
  obtain port i3 where 3: "(case oo_gateway_port opts of Some port \<Rightarrow> ask_result (Inr port) | None \<Rightarrow> prompt_u16 p) i2
      = Some (Inr port, i3)" "silent i3"
    using 2(2) by (cases "oo_gateway_port opts") (auto simp: silent_simps)
  obtain b i4 where 4: "(case oo_require_pairing opts of Some b \<Rightarrow> ask_result (Inr b) | None \<Rightarrow> prompt_bool q) i3
      = Some (Inr b, i4)" "silent i4"
    using 3(2) by (cases "oo_require_pairing opts") (auto simp: silent_simps)
  show ?thesis
    by (rule trans [OF ask_chain_None], rule 1(1), rule 2(1), rule 3(1), rule 4(1))
      (simp add: 1(3) 2(3) silent_url [OF 4(2) assms(2)])
qed

lemma silent_build:
  assumes "silent input" "\<not> oo_non_interactive opts"
  shows "build_onboard_config env opts input = None \<longleftrightarrow>
    (\<exists>profile. profile_answer opts = Inr profile \<and>
      (needs_key env opts \<or>
       fine_option (oo_api_key opts) \<and> fine_option (oo_model opts) \<and> fine_option (oo_gateway_host opts) \<and>
         profile = ''openai_compatible'' \<and> oo_base_url opts = None))"
proof -
  obtain i where i: "ask_profile opts input = Some (profile_answer opts, i)" "silent i"
    using silent_profile [OF assms(1)] by blast
  note key = silent_key [OF i(2) assms(2), of env]
  show ?thesis
  proof (cases "profile_answer opts")
    case (Inl e)
    then show ?thesis using i by (simp add: build_onboard_config_def Let_def ask_bind_None)
  next
    case (Inr profile)
    show ?thesis
    proof (cases "needs_key env opts")
      case True
      with i Inr key show ?thesis by (auto simp: build_onboard_config_def Let_def ask_bind_None)
    next
      case False
      then obtain r where r: "ask_api_key env opts i = Some (r, i)" "isl r \<longleftrightarrow> \<not> fine_option (oo_api_key opts)"
        using key by (auto simp: fine_option_def split: option.splits)
      show ?thesis
      proof (cases r)
        case (Inl e)
        with r i Inr False show ?thesis by (simp add: build_onboard_config_def Let_def ask_bind_def)
      next
        case R: (Inr k)
        have "build_onboard_config env opts input = None \<longleftrightarrow>
          fine_option (oo_model opts) \<and> fine_option (oo_gateway_host opts) \<and> profile = ''openai_compatible'' \<and> oo_base_url opts = None"
          unfolding silent_rest [where ?e1.0 = "''--model cannot be empty''" and ?v1.0 = default_model_name
            and ?e2.0 = "''--gateway-host cannot be empty''" and ?v2.0 = "gw_host (lc_gateway config_default)"
            and p = "gw_port (lc_gateway config_default)" and q = "gw_require_pairing (lc_gateway config_default)"
            and f = "onboarded_config profile k", OF i(2) assms(2), symmetric]
          using r(1) i Inr R assms(2) by (simp add: build_onboard_config_def Let_def ask_bind_def [of "ask_profile opts"] ask_bind_def [of "ask_api_key env opts"])
        with r R False Inr show ?thesis by simp
      qed
    qed
  qed
qed

subsection \<open>The file of the configuration\<close>

text \<open>What the library says of its printer and parser.\<close>

definition toml_contract :: "(string \<Rightarrow> toml result) \<Rightarrow> (toml \<Rightarrow> string) \<Rightarrow> bool" where
  "toml_contract parse pretty \<longleftrightarrow> (\<forall>t. parse (pretty t) = Inr t)"

lemma written_config:
  assumes "write_onboard_config pretty env path config force h = (Inr (), h')"
  shows "\<exists>t. config_to_toml config = Some t \<and> disk_at (ho_disk h') (he_cwd env) path = Some (Regular (pretty t))"
  using assms by (auto simp: write_onboard_config_def split: if_splits option.splits dest: host_write_disk_at)

lemma loaded_config:
  assumes "toml_contract parse pretty" "config_to_toml config = Some t"
    and "disk_at (ho_disk h) (he_cwd env) path = Some (Regular (pretty t))" "he_fault env HostRead path = None"
  shows "load_config parse env path h = Inr config"
proof -
  have "config_of_toml t = Some config"
    using assms(2) by (auto simp: config_to_toml_def config_field.get_put split: if_splits)
  with assms show ?thesis by (simp add: load_config_def host_read_def toml_contract_def)
qed

lemma load_config_fault: "load_config parse env path h = Inr c \<Longrightarrow> he_fault env HostRead path = None"
  by (cases "he_fault env HostRead path") (simp_all add: load_config_def host_read_def)

lemma host_show_all_Inr [simp]: "host_show_all ls h = (r, h') \<longleftrightarrow> r = Inr () \<and> h' = h \<lparr> ho_shown := ho_shown h @ ls \<rparr>"
  by (auto simp: host_show_all_def)

lemma load_config_shown [simp]: "load_config parse env path (h \<lparr> ho_shown := s \<rparr>) = load_config parse env path h"
  by (cases "he_fault env HostRead path") (simp_all add: load_config_def host_read_def)

lemma host_exists_shown [simp]: "host_exists env path (h \<lparr> ho_shown := s \<rparr>) = host_exists env path h"
  by (simp add: host_exists_def)

text \<open>The two versions of the service manager, with the place of the manifest.\<close>

definition service_manager ::
  "(host_env \<Rightarrow> service_command \<Rightarrow> host \<Rightarrow> unit result \<times> host) \<Rightarrow> (environment \<Rightarrow> string result) \<Rightarrow> bool" where
  "service_manager run_service place \<longleftrightarrow>
     run_service = run_service_command_linux \<and> place = manifest_path_linux \<or>
     run_service = run_service_command_macos \<and> place = manifest_path_macos"

lemma service_keeps_file:
  assumes "service_manager run_service place" "run_service env c h = (Inr (), h')"
    and "\<forall>m. place (he_vars env) = Inr m \<longrightarrow> full_path (he_cwd env) m \<noteq> full_path (he_cwd env) path"
    and "disk_at (ho_disk h) (he_cwd env) path = Some f"
  shows "disk_at (ho_disk h') (he_cwd env) path = Some f"
proof -
  obtain m where "place (he_vars env) = Inr m"
    using assms(1,2) by (cases "place (he_vars env)")
      (auto simp: service_manager_def run_service_command_linux_def run_service_command_macos_def)
  with assms show ?thesis
    using run_keeps(1) [of env m h c] run_keeps(2) [of env m h c]
    by (auto simp: service_manager_def host_keeps_def disk_at_def split: if_splits)
qed

lemma onboarding_steps:
  assumes "run_onboarding lower parse pretty run_service env opts input h = Some (Inr (), h')"
  obtains config input' h1 loaded h2 where
    "build_onboard_config (he_vars env) opts input = Some (Inr config, input')"
    "write_onboard_config pretty env (oo_config_path opts) config (oo_force opts)
       (h \<lparr> ho_shown := ho_shown h @ [''LiveClaw onboarding''] \<rparr>) = (Inr (), h1)"
    "load_config parse env (oo_config_path opts) h1 = Inr loaded"
    "\<exists>p r. validate_runtime_and_provider lower (he_vars env) loaded True = Inr (p, r)"
    "ho_disk h2 = ho_disk h1" "\<exists>h3. ho_disk h' = ho_disk h3 \<and>
      (h3 = h2 \<or> (\<exists>h4. run_service env (Install (oo_config_path opts) (oo_force opts)) h2 = (Inr (), h4) \<and>
         (h3 = h4 \<or> run_service env Start h4 = (Inr (), h3))))"
proof -
  from assms obtain config input' where b: "build_onboard_config (he_vars env) opts input = Some (Inr config, input')"
    by (auto simp: run_onboarding_def Let_def split_def split: option.splits sum.splits prod.splits)
  define service where "service h2 =
    (if oo_install_service opts then
        host_bind (run_service env (Install (oo_config_path opts) (oo_force opts)) h2) (\<lambda>_ h.
          if oo_start_service opts then run_service env Start h else (Inr (), h))
      else (Inr (), h2))" for h2
  define told where "told p r = [''Wrote config: '' @ oo_config_path opts] @ doctor_lines (oo_config_path opts) p r" for p r
  define next_step where "next_step = ''Next step: cargo run -p liveclaw-app -- '' @ oo_config_path opts"
  from assms b have "\<exists>h1 loaded p r h3. write_onboard_config pretty env (oo_config_path opts) config (oo_force opts)
         (h \<lparr> ho_shown := ho_shown h @ [''LiveClaw onboarding''] \<rparr>) = (Inr (), h1) \<and>
      load_config parse env (oo_config_path opts) h1 = Inr loaded \<and>
      validate_runtime_and_provider lower (he_vars env) loaded True = Inr (p, r) \<and>
      service (h1 \<lparr> ho_shown := ho_shown h1 @ told p r \<rparr>) = (Inr (), h3) \<and>
      h' = h3 \<lparr> ho_shown := ho_shown h3 @ [next_step] \<rparr>"
    unfolding run_onboarding_def Let_def host_show_def told_def [symmetric] service_def [symmetric] next_step_def [symmetric]
    by fastforce
  then obtain h1 loaded p r h3 where *: "write_onboard_config pretty env (oo_config_path opts) config (oo_force opts)
         (h \<lparr> ho_shown := ho_shown h @ [''LiveClaw onboarding''] \<rparr>) = (Inr (), h1)"
      "load_config parse env (oo_config_path opts) h1 = Inr loaded"
      "validate_runtime_and_provider lower (he_vars env) loaded True = Inr (p, r)"
      "service (h1 \<lparr> ho_shown := ho_shown h1 @ told p r \<rparr>) = (Inr (), h3)" "ho_disk h' = ho_disk h3"
    by auto
  let ?h2 = "h1 \<lparr> ho_shown := ho_shown h1 @ told p r \<rparr>"
  have "h3 = ?h2 \<or> (\<exists>h4. run_service env (Install (oo_config_path opts) (oo_force opts)) ?h2 = (Inr (), h4) \<and>
      (h3 = h4 \<or> run_service env Start h4 = (Inr (), h3)))"
    using *(4) unfolding service_def by (auto split: if_splits)
  with b * that [of config input' h1 loaded ?h2] show thesis by auto
qed

lemma built_config_checks:
  assumes "lower_contract lower" "build_onboard_config vars opts input = Some (Inr config, input')"
  shows "(\<exists>p r. validate_runtime_and_provider lower vars config True = Inr (p, r)) \<longleftrightarrow>
    (pv_active_profile (lc_providers config) = ''openai_compatible'' \<or>
      (case non_empty (oo_base_url opts) of None \<Rightarrow> True | Some u \<Rightarrow> starts_with u ''ws://'' \<or> starts_with u ''wss://'')) \<and>
    trim (gw_host (lc_gateway config)) \<notin> {''0.0.0.0'', ''::''}"
proof -
  from built_parts [OF assms(2)] obtain profile key model_name host port pairing url i1 i2 i3 where
    config: "config = onboarded_config profile key model_name host port pairing url" and
    asked: "ask_profile opts input = Some (Inr profile, i1)" "ask_api_key vars opts i1 = Some (Inr key, i2)"
      "ask_base_url profile opts i3 = Some (Inr url, input')" by metis
  note profile = ask_profile_Inr [OF asked(1)]
  note key = ask_api_key_Inr [OF asked(2)]
  have url: "url = None \<or> (\<exists>u. url = Some u \<and> trim u = u \<and> u \<noteq> [])"
    using ask_base_url_Inr [OF asked(3)] non_empty_Some by (cases "profile = ''openai_compatible''") (auto, metis not_None_eq)
  have parts: "pv_active_profile (lc_providers config) = profile" "gw_host (lc_gateway config) = host"
    by (simp_all add: config onboarded_config_def Let_def)
  have "ws_url u \<longleftrightarrow> starts_with u ''ws://'' \<or> starts_with u ''wss://''" if "non_empty v = Some u" for u v
    using non_empty_Some [OF that] by (simp add: ws_url_def)
  moreover have "(\<exists>p r. validate_runtime_and_provider lower vars config True = Inr (p, r)) \<longleftrightarrow>
      startable config (onboarded_selection profile key model_name url)"
    unfolding validate_Inr onboarded_resolves [OF assms(1) profile key url config]
    using key by (auto simp: onboarded_selection_def Let_def)
  ultimately show ?thesis
    unfolding config onboarded_startable [OF profile] parts [unfolded config] public_bind_def
    using ask_base_url_Inr [OF asked(3)] by (cases "profile = ''openai_compatible''") (auto split: option.split)
qed

text \<open>From the end of an onboarding to the start of the gateway.\<close>

lemma onboarded_run:
  assumes "toml_contract parse pretty" "service_manager run_service place"
    and "\<forall>m. place (he_vars env) = Inr m \<longrightarrow> full_path (he_cwd env) m \<noteq> full_path (he_cwd env) (oo_config_path opts)"
    and "command_ok (Run (oo_config_path opts))"
    and "run_onboarding lower parse pretty run_service env opts input h = Some (Inr (), h')"
  shows "\<exists>config input' p. build_onboard_config (he_vars env) opts input = Some (Inr config, input') \<and>
    main_program lower parse pretty run_service env [oo_config_path opts] input2 h' = Some (Inr (Gateway config p), h')"
proof -
  let ?path = "oo_config_path opts"
  from onboarding_steps [OF assms(5)] obtain config input' h1 loaded h2 h3 h4 where
    b: "build_onboard_config (he_vars env) opts input = Some (Inr config, input')" and
    w: "write_onboard_config pretty env ?path config (oo_force opts)
       (h \<lparr> ho_shown := ho_shown h @ [''LiveClaw onboarding''] \<rparr>) = (Inr (), h1)" and
    l: "load_config parse env ?path h1 = Inr loaded" and
    v: "\<exists>p r. validate_runtime_and_provider lower (he_vars env) loaded True = Inr (p, r)" and
    d: "ho_disk h2 = ho_disk h1" "ho_disk h' = ho_disk h3" and
    c: "h3 = h2 \<or> (run_service env (Install ?path (oo_force opts)) h2 = (Inr (), h4) \<and>
        (h3 = h4 \<or> run_service env Start h4 = (Inr (), h3)))" by metis
  obtain t where t: "config_to_toml config = Some t" "disk_at (ho_disk h1) (he_cwd env) ?path = Some (Regular (pretty t))"
    using written_config [OF w] by blast
  note fault = load_config_fault [OF l]
  have loaded: "loaded = config" using loaded_config [OF assms(1) t fault] l by simp
  have "disk_at (ho_disk h3) (he_cwd env) ?path = Some (Regular (pretty t))"
    using c t(2) d(1) service_keeps_file [OF assms(2) _ assms(3)] by metis
  then have "load_config parse env ?path h' = Inr config"
    using loaded_config [OF assms(1) t(1) _ fault] d(2) by simp
  moreover have "parse_command [?path] = Inr (Run ?path)" by (rule run_path_parsed [OF assms(4)])
  ultimately show ?thesis
    using b v unfolding loaded by (auto simp: main_program_def main_checks_def host_bind_def)
qed

subsection \<open>Properties\<close>

text \<open>The configuration of an onboarding passes the checks before a start exactly when the address of the
  provider, where one was given, is a WebSocket address, and the host of the gateway is no wildcard: the key and
  the model are never what stops it, and the address of the third profile was checked while asking.\<close>

theorem built_config_starts:
  assumes "lower_contract lower" "build_onboard_config vars opts input = Some (Inr config, input')"
  shows "(\<exists>p r. validate_runtime_and_provider lower vars config True = Inr (p, r)) \<longleftrightarrow>
    (pv_active_profile (lc_providers config) = ''openai_compatible'' \<or>
      (case non_empty (oo_base_url opts) of None \<Rightarrow> True | Some u \<Rightarrow> starts_with u ''ws://'' \<or> starts_with u ''wss://'')) \<and>
    trim (gw_host (lc_gateway config)) \<notin> {''0.0.0.0'', ''::''}"
  using assms by (rule built_config_checks)

text \<open>C37: When the onboarding never returns: at the end of its input, or on blank lines only, exactly when it is
  interactive, the profile is one it knows, and a question without a default is open: the key, found neither
  among the options nor in the environment, or the address of the third profile. It then asks for ever.\<close>

theorem onboarding_hangs_exactly:
  assumes "\<forall>l \<in> set input. \<exists>s. l = Inr s \<and> trim s = []"
  shows "run_onboarding lower parse pretty run_service env opts input h = None \<longleftrightarrow>
    \<not> oo_non_interactive opts \<and>
    (\<exists>profile. (case oo_provider_profile opts of None \<Rightarrow> Inr ''legacy'' | Some p \<Rightarrow> normalize_provider_profile p) = Inr profile \<and>
      (oo_api_key opts = None \<and> effective_api_key (he_vars env) [] = [] \<or>
       fine_option (oo_api_key opts) \<and> fine_option (oo_model opts) \<and> fine_option (oo_gateway_host opts) \<and>
         profile = ''openai_compatible'' \<and> oo_base_url opts = None))"
proof -
  have silent: "silent input" using assms by (auto simp: list_all_iff)
  have "run_onboarding lower parse pretty run_service env opts input h = None \<longleftrightarrow>
      build_onboard_config (he_vars env) opts input = None"
    by (simp add: run_onboarding_def Let_def split_def split: option.split sum.split prod.split)
  also have "\<dots> \<longleftrightarrow> \<not> oo_non_interactive opts \<and> build_onboard_config (he_vars env) opts input = None"
    using non_interactive_result [of opts "he_vars env"] by auto
  finally show ?thesis
    using silent_build [OF silent, of opts "he_vars env"] unfolding profile_answer_def needs_key_def by blast
qed

text \<open>With \<open>--non-interactive\<close> the onboarding returns, and what it does and answers does not depend on the input.\<close>

theorem non_interactive_returns:
  assumes "oo_non_interactive opts"
  shows "\<exists>r. \<forall>input. run_onboarding lower parse pretty run_service env opts input h = Some r"
proof -
  obtain r where "build_onboard_config (he_vars env) opts = ask_result r" using non_interactive_result [OF assms] by blast
  then show ?thesis by (cases r) (auto simp: run_onboarding_def Let_def split_def)
qed

text \<open>Without \<open>--force\<close> the onboarding never touches a file that exists: it fails and leaves the whole disk as it was,
  the service included, whatever it was answered.\<close>

theorem onboarding_never_overwrites:
  assumes "host_exists env (oo_config_path opts) h" "\<not> oo_force opts"
    and "run_onboarding lower parse pretty run_service env opts input h = Some (r, h')"
  shows "isl r \<and> ho_disk h' = ho_disk h \<and> ho_commands h' = ho_commands h"
  using assms
  by (auto simp: run_onboarding_def Let_def host_show_def write_onboard_config_def host_bind_def split: option.splits sum.splits prod.splits)

text \<open>After a successful onboarding the command it recommends starts the gateway, with the configuration of the
  answers, a service that was installed and started in between or not. The service's own file must be another one.\<close>

theorem onboarded_program_starts:
  assumes "toml_contract parse pretty" "service_manager run_service place"
    and "\<forall>m. place (he_vars env) = Inr m \<longrightarrow> full_path (he_cwd env) m \<noteq> full_path (he_cwd env) (oo_config_path opts)"
    and "command_ok (Run (oo_config_path opts))"
    and "run_onboarding lower parse pretty run_service env opts input h = Some (Inr (), h')"
  shows "\<exists>config input' p. build_onboard_config (he_vars env) opts input = Some (Inr config, input') \<and>
    main_program lower parse pretty run_service env [oo_config_path opts] input2 h' = Some (Inr (Gateway config p), h')"
  using assms by (rule onboarded_run)

text \<open>The file is written before it is checked: when the checks refuse the answers, the onboarding fails and leaves a
  configuration behind that does not start, and the same onboarding with better answers fails too, unless forced,
  because the file is there.\<close>

theorem refused_config_is_left:
  assumes "toml_contract parse pretty" "he_fault env HostRead (oo_config_path opts) = None"
    and "build_onboard_config (he_vars env) opts input = Some (Inr config, input')"
    and "validate_runtime_and_provider lower (he_vars env) config True = Inl e"
    and "write_onboard_config pretty env (oo_config_path opts) config (oo_force opts)
       (h \<lparr> ho_shown := ho_shown h @ [''LiveClaw onboarding''] \<rparr>) = (Inr (), h1)"
    and "oo_config_path opts2 = oo_config_path opts" "\<not> oo_force opts2"
  shows "run_onboarding lower parse pretty run_service env opts input h = Some (Inl e, h1) \<and>
    main_checks lower parse env (oo_config_path opts) False h1 = (Inl e, h1) \<and>
    (\<forall>r h2. run_onboarding lower parse pretty run_service env opts2 input2 h1 = Some (r, h2) \<longrightarrow>
       isl r \<and> ho_disk h2 = ho_disk h1)"
proof -
  obtain t where t: "config_to_toml config = Some t"
      "disk_at (ho_disk h1) (he_cwd env) (oo_config_path opts) = Some (Regular (pretty t))"
    using written_config [OF assms(5)] by blast
  have l: "load_config parse env (oo_config_path opts) h1 = Inr config" by (rule loaded_config [OF assms(1) t assms(2)])
  have "host_exists env (oo_config_path opts) h1" using t(2) by (simp add: host_exists_def)
  then have "\<forall>r h2. run_onboarding lower parse pretty run_service env opts2 input2 h1 = Some (r, h2) \<longrightarrow>
       isl r \<and> ho_disk h2 = ho_disk h1"
    using assms(6,7)
    by (auto simp: run_onboarding_def Let_def host_show_def write_onboard_config_def host_bind_def
        split: option.splits sum.splits prod.splits)
  moreover have "run_onboarding lower parse pretty run_service env opts input h = Some (Inl e, h1)"
    by (simp only: run_onboarding_def Let_def host_show_def prod.case option.case sum.case assms(3-5) l host_bind_def)
  moreover have "main_checks lower parse env (oo_config_path opts) False h1 = (Inl e, h1)"
    by (simp add: main_checks_def host_bind_def l assms(4))
  ultimately show ?thesis by blast
qed

subsection \<open>Witnesses\<close>

text \<open>A printer and a parser that meet the contract: the values are numbered.\<close>

instance toml :: countable
  by countable_datatype

definition number_pretty :: "toml \<Rightarrow> string" where
  "number_pretty t = show_nat (to_nat t)"

definition number_parse :: "string \<Rightarrow> toml result" where
  "number_parse s = Inr (from_nat (digits_val s))"

lemma number_contract: "toml_contract number_parse number_pretty"
  by (simp add: toml_contract_def number_parse_def number_pretty_def parse_show_nat)

lemma ascii_contract: "lower_contract to_ascii_lowercase"
  by (simp add: lower_contract_def)

definition demo_options :: "string \<Rightarrow> onboard_options" where
  "demo_options host = onboard_default \<lparr> oo_config_path := ''n'', oo_non_interactive := True, oo_api_key := Some ''k'',
     oo_gateway_host := Some host \<rparr>"

definition demo_built :: "string \<Rightarrow> liveclaw_config" where
  "demo_built host = onboarded_config ''legacy'' ''k'' default_model_name host (gw_port (lc_gateway config_default))
     (gw_require_pairing (lc_gateway config_default)) None"

lemma demo_trims: "trim ''k'' = ''k''" "trim ''127.0.0.1'' = ''127.0.0.1''" "trim ''0.0.0.0'' = ''0.0.0.0''"
  by code_simp+

lemma demo_build:
  assumes "trim host = host" "host \<noteq> []"
  shows "build_onboard_config env (demo_options host) input = Some (Inr (demo_built host), input)"
  using assms
  by (simp add: build_onboard_config_def Let_def demo_options_def onboard_default_def ask_profile_def ask_api_key_def
      given_or_ask_def ask_base_url_def demo_built_def demo_trims)

lemma demo_parts: "oo_config_path (demo_options host) = ''n''" "\<not> oo_force (demo_options host)" "oo_base_url (demo_options host) = None"
  "oo_non_interactive (demo_options host)" "\<not> oo_install_service (demo_options host)"
  "gw_host (lc_gateway (demo_built host)) = host"
  by (simp_all add: demo_options_def onboard_default_def demo_built_def onboarded_config_def Let_def)

theorem built_config_starts_witness:
  "\<exists>p r. validate_runtime_and_provider to_ascii_lowercase Map.empty (demo_built ''127.0.0.1'') True = Inr (p, r)"
  using built_config_starts [OF ascii_contract demo_build [of "''127.0.0.1''" Map.empty "[]"]]
  by (simp add: demo_trims demo_parts non_empty_def)

definition no_answers :: onboard_options where
  "no_answers = onboard_default"

theorem onboarding_hangs_exactly_witness:
  "run_onboarding to_ascii_lowercase number_parse number_pretty run_service_command_linux (demo_host_env \<lparr> he_vars := Map.empty \<rparr>)
     no_answers [Inr ''   '', Inr []] demo_host = None"
proof -
  have "\<forall>l \<in> set ([Inr ''   '', Inr []] :: input). \<exists>s. l = Inr s \<and> trim s = []"
  proof -
    have "trim ''   '' = []" by code_simp
    then show ?thesis by simp
  qed
  from onboarding_hangs_exactly [OF this] show ?thesis
    by (simp add: no_answers_def onboard_default_def effective_api_key_def unwrap_or_def)
qed

theorem non_interactive_returns_witness:
  "\<exists>r. \<forall>input. run_onboarding to_ascii_lowercase number_parse number_pretty run_service_command_linux demo_host_env
     (demo_options ''127.0.0.1'') input demo_host = Some r"
  by (rule non_interactive_returns) (rule demo_parts)

lemma demo_write:
  assumes "ho_disk h ''/h/n'' = None"
  shows "\<exists>h'. write_onboard_config number_pretty demo_host_env ''n'' (demo_built host) False h = (Inr (), h') \<and>
    ho_disk h' = (ho_disk h)(''/h/n'' \<mapsto> Regular (number_pretty (toml_of_config (demo_built host))))"
proof -
  have "parent_of ''n'' = []" "full_path ''/h'' ''n'' = ''/h/n''" by code_simp+
  moreover have "config_to_toml (demo_built host) = Some (toml_of_config (demo_built host))"
    by (simp add: config_to_toml_def demo_built_def onboarded_fits)
  moreover have "he_cwd demo_host_env = ''/h''" "\<And>op p. he_fault demo_host_env op p = None" by (simp_all add: demo_host_env_def)
  ultimately show ?thesis
    using assms by (simp add: write_onboard_config_def host_exists_def disk_at_def host_bind_def host_write_def
        with_context_def ends_with_def starts_with_def)
qed

lemma demo_fresh: "ho_disk demo_host ''/h/n'' = None"
  by (simp add: demo_host_def)

lemma demo_load:
  assumes "ho_disk h ''/h/n'' = Some (Regular (number_pretty (toml_of_config (demo_built host))))"
  shows "load_config number_parse demo_host_env ''n'' h = Inr (demo_built host)"
proof (rule loaded_config [OF number_contract])
  show "config_to_toml (demo_built host) = Some (toml_of_config (demo_built host))"
    by (simp add: config_to_toml_def demo_built_def onboarded_fits)
  have "full_path ''/h'' ''n'' = ''/h/n''" by code_simp
  with assms show "disk_at (ho_disk h) (he_cwd demo_host_env) ''n'' = Some (Regular (number_pretty (toml_of_config (demo_built host))))"
    by (simp add: disk_at_def demo_host_env_def)
qed (simp add: demo_host_env_def)

lemma demo_run:
  "\<exists>h'. run_onboarding to_ascii_lowercase number_parse number_pretty run_service_command_linux demo_host_env
     (demo_options ''127.0.0.1'') [] demo_host = Some (Inr (), h')"
proof -
  let ?h = "demo_host \<lparr> ho_shown := ho_shown demo_host @ [''LiveClaw onboarding''] \<rparr>"
  obtain h1 where h1: "write_onboard_config number_pretty demo_host_env ''n'' (demo_built ''127.0.0.1'') False ?h = (Inr (), h1)"
    "load_config number_parse demo_host_env ''n'' h1 = Inr (demo_built ''127.0.0.1'')"
    using demo_write [of ?h "''127.0.0.1''"] demo_fresh demo_load by auto
  obtain p r where "validate_runtime_and_provider to_ascii_lowercase (he_vars demo_host_env) (demo_built ''127.0.0.1'') True = Inr (p, r)"
    using built_config_checks [OF ascii_contract demo_build [of "''127.0.0.1''" "he_vars demo_host_env" "[]"]]
    by (auto simp: demo_trims demo_parts non_empty_def)
  with h1 show ?thesis
    by (simp add: run_onboarding_def Let_def host_show_def demo_build demo_trims demo_parts host_bind_def host_show_all_def)
qed

lemma demo_manager: "service_manager run_service_command_linux manifest_path_linux"
  by (simp add: service_manager_def)

theorem onboarded_program_starts_witness:
  "\<exists>h' p. main_program to_ascii_lowercase number_parse number_pretty run_service_command_linux demo_host_env [''n''] [] h' =
     Some (Inr (Gateway (demo_built ''127.0.0.1'') p), h')"
proof -
  obtain h' where run: "run_onboarding to_ascii_lowercase number_parse number_pretty run_service_command_linux demo_host_env
     (demo_options ''127.0.0.1'') [] demo_host = Some (Inr (), h')" using demo_run by blast
  have "full_path ''/h'' demo_manifest \<noteq> full_path ''/h'' ''n''" by code_simp
  then have other: "\<forall>m. manifest_path_linux (he_vars demo_host_env) = Inr m \<longrightarrow>
      full_path (he_cwd demo_host_env) m \<noteq> full_path (he_cwd demo_host_env) (oo_config_path (demo_options ''127.0.0.1''))"
    using demo_manifest_path by (simp add: demo_parts demo_host_env_def)
  have ok: "command_ok (Run (oo_config_path (demo_options ''127.0.0.1'')))"
    by (simp add: demo_parts command_words_def starts_with_def)
  show ?thesis
    using onboarded_program_starts [OF number_contract demo_manager other ok run, of "[]"]
    by (auto simp: demo_parts demo_build demo_trims)
qed

theorem onboarding_never_overwrites_witness:
  "ho_disk (snd (the (run_onboarding to_ascii_lowercase number_parse number_pretty run_service_command_linux demo_host_env
     (demo_options ''127.0.0.1'' \<lparr> oo_config_path := ''c'' \<rparr>) [] demo_host))) = ho_disk demo_host"
proof -
  let ?opts = "demo_options ''127.0.0.1'' \<lparr> oo_config_path := ''c'' \<rparr>"
  have "oo_non_interactive ?opts" by (simp add: demo_parts)
  then obtain r where "build_onboard_config (he_vars demo_host_env) ?opts = ask_result r" using non_interactive_result by blast
  then obtain q h' where run: "run_onboarding to_ascii_lowercase number_parse number_pretty run_service_command_linux demo_host_env
      ?opts [] demo_host = Some (q, h')"
    by (cases r) (auto simp: run_onboarding_def Let_def split_def prod_eq_iff)
  have "full_path ''/h'' ''c'' = ''/h/c''" by code_simp
  then have "host_exists demo_host_env (oo_config_path ?opts) demo_host"
    by (simp add: host_exists_def disk_at_def demo_host_env_def demo_host_def)
  from onboarding_never_overwrites [OF this _ run] run show ?thesis by (simp add: demo_parts)
qed

theorem refused_config_is_left_witness:
  "\<exists>e h1. run_onboarding to_ascii_lowercase number_parse number_pretty run_service_command_linux demo_host_env
     (demo_options ''0.0.0.0'') [] demo_host = Some (Inl e, h1) \<and>
   isl (fst (the (run_onboarding to_ascii_lowercase number_parse number_pretty run_service_command_linux demo_host_env
     (demo_options ''127.0.0.1'') [] h1)))"
proof -
  let ?h = "demo_host \<lparr> ho_shown := ho_shown demo_host @ [''LiveClaw onboarding''] \<rparr>"
  obtain h1 where h1: "write_onboard_config number_pretty demo_host_env ''n'' (demo_built ''0.0.0.0'') False ?h = (Inr (), h1)"
    using demo_write [of ?h "''0.0.0.0''"] demo_fresh by auto
  have build: "build_onboard_config (he_vars demo_host_env) (demo_options ''0.0.0.0'') [] = Some (Inr (demo_built ''0.0.0.0''), [])"
    by (rule demo_build) (simp_all add: demo_trims)
  then have "\<nexists>p r. validate_runtime_and_provider to_ascii_lowercase (he_vars demo_host_env) (demo_built ''0.0.0.0'') True = Inr (p, r)"
    using built_config_checks [OF ascii_contract build] by (simp add: demo_trims demo_parts)
  then obtain e where e: "validate_runtime_and_provider to_ascii_lowercase (he_vars demo_host_env) (demo_built ''0.0.0.0'') True = Inl e"
    by (cases "validate_runtime_and_provider to_ascii_lowercase (he_vars demo_host_env) (demo_built ''0.0.0.0'') True") auto
  have fault: "he_fault demo_host_env HostRead (oo_config_path (demo_options ''0.0.0.0'')) = None" by (simp add: demo_host_env_def)
  obtain r where "build_onboard_config (he_vars demo_host_env) (demo_options ''127.0.0.1'') = ask_result r"
    using non_interactive_result [of "demo_options ''127.0.0.1''"] by (auto simp: demo_parts)
  then obtain q h2 where run: "run_onboarding to_ascii_lowercase number_parse number_pretty run_service_command_linux demo_host_env
      (demo_options ''127.0.0.1'') [] h1 = Some (q, h2)"
    by (cases r) (auto simp: run_onboarding_def Let_def split_def prod_eq_iff)
  have w: "write_onboard_config number_pretty demo_host_env (oo_config_path (demo_options ''0.0.0.0'')) (demo_built ''0.0.0.0'')
      (oo_force (demo_options ''0.0.0.0'')) ?h = (Inr (), h1)" using h1 by (simp add: demo_parts)
  have same: "oo_config_path (demo_options ''127.0.0.1'') = oo_config_path (demo_options ''0.0.0.0'')" "\<not> oo_force (demo_options ''127.0.0.1'')"
    by (simp_all add: demo_parts)
  from refused_config_is_left [OF number_contract fault build e w same] run show ?thesis by fastforce
qed

end
