(* ===== verification/Forwarder.thy ===== *)
theory Forwarder
  imports Gateway_Runner Artifacts Docker_Bridge
begin

section \<open>The outputs of a session\<close>

text \<open>
  \<open>GatewayEventForwarder\<close> of \<open>liveclaw-app/src/main.rs\<close>, with the ingest and the snapshot of
  \<open>SessionLifecycleManager\<close>: what the program does with the audio and the texts of a provider. The state is the
  adapter's, whose tables the forwarder shares, the directory tree of the artifacts, and the two channels to the
  gateway. The run of the lifecycle library and the session it keeps are operations of the environment. A forwarder
  waits for the gateway when a channel is full; that wait is left out, as is logging.
\<close>

subsection \<open>State\<close>

record 'w forwarder_env =
  fe_adapter :: "'w adapter_env"
  fe_ingest :: "string \<Rightarrow> string \<Rightarrow> string \<Rightarrow> 'w \<Rightarrow> unit result \<times> 'w"
  fe_events :: "string \<Rightarrow> string \<Rightarrow> 'w \<Rightarrow> session_event list result"
  fe_faults :: faults

record 'w forwarder =
  fo_session_id :: string
  fo_user_id :: string
  fo_lifecycle :: bool
  fo_artifacts :: bool
  fo_policy :: compaction_policy
  fo_audio_sequence :: u64
  fo_transcript_sequence :: u64
  fo_adapter :: "'w adapter"
  fo_tree :: tree
  fo_gateway_open :: bool
  fo_audio_out :: "session_audio_output list"
  fo_transcript_out :: "session_transcript_output list"

subsection \<open>The session lifecycle\<close>

definition record_transcript ::
  "'w forwarder_env \<Rightarrow> string \<Rightarrow> string \<Rightarrow> string \<Rightarrow> 'w adapter \<Rightarrow> nat result \<times> 'w adapter" where
  "record_transcript env user_id session_id transcript ap =
     (let trimmed = trim transcript
      in if trimmed = [] then (Inr 0, ap)
         else case initialize_session (fe_adapter env) user_id session_id ap of
           (Inl e, ap) \<Rightarrow> (Inl e, ap)
         | (Inr _, ap) \<Rightarrow>
             (case on_world (fe_ingest env user_id session_id trimmed) ap of
                (Inl e, ap) \<Rightarrow> (Inl (''Lifecycle ingest stream failed for session '' @ quoted session_id @ '': '' @ e), ap)
              | (Inr _, ap) \<Rightarrow>
                  (case fe_events env user_id session_id (ap_world ap) of
                     Inl e \<Rightarrow> (Inl e, ap)
                   | Inr events \<Rightarrow>
                       (let current = current_compaction_count events;
                            previous = unwrap_or (ap_compaction_counts ap session_id) 0
                        in (Inr (current - previous),
                            ap \<lparr> ap_compaction_counts := (ap_compaction_counts ap)(session_id \<mapsto> current) \<rparr>)))))"

definition snapshot_memory_entries ::
  "'w forwarder_env \<Rightarrow> string \<Rightarrow> string \<Rightarrow> 'w adapter \<Rightarrow> memory_entry list result" where
  "snapshot_memory_entries env user_id session_id ap =
     map_sum id memory_entries_from_session_events (fe_events env user_id session_id (ap_world ap))"

subsection \<open>The memory of a transcript\<close>

definition add_compactions :: "nat \<Rightarrow> 'w adapter \<Rightarrow> 'w adapter" where
  "add_compactions n ap = ap \<lparr> ap_counters := (ap_counters ap)
     \<lparr> dc_compactions_applied_total := dc_compactions_applied_total (ap_counters ap) + of_nat n \<rparr> \<rparr>"

text \<open>The entries of a session go to the table and to the memory service; an error of the service is only logged.\<close>

definition store_entries :: "'w forwarder_env \<Rightarrow> string \<Rightarrow> string \<Rightarrow> memory_entry list \<Rightarrow> 'w adapter \<Rightarrow> 'w adapter" where
  "store_entries env user_id session_id entries ap =
     snd (on_world (ae_add_session (fe_adapter env) ''liveclaw'' user_id session_id entries)
       (ap \<lparr> ap_memory_entries := (ap_memory_entries ap)(session_id \<mapsto> entries) \<rparr>))"

text \<open>The local path. The clock is read a second time for the summary only; \<open>None\<close> is a panic in the summary.\<close>

definition persist_local ::
  "'w forwarder_env \<Rightarrow> compaction_policy \<Rightarrow> string \<Rightarrow> string \<Rightarrow> int \<Rightarrow> string \<Rightarrow> 'w adapter \<Rightarrow> 'w adapter option" where
  "persist_local env policy user_id session_id now transcript ap =
     (let entries = unwrap_or (ap_memory_entries ap session_id) [];
          (now', ap') = on_world (ae_clock (fe_adapter env)) ap
      in case push_transcript policy now now' entries transcript of
           None \<Rightarrow> None
         | Some (compacted, entries) \<Rightarrow>
             Some (store_entries env user_id session_id entries (if compacted then add_compactions 1 ap' else ap)))"

definition persist_transcript_memory :: "'w forwarder_env \<Rightarrow> string \<Rightarrow> 'w forwarder \<Rightarrow> 'w forwarder option" where
  "persist_transcript_memory env transcript fo =
     (let (now, ap) = on_world (ae_clock (fe_adapter env)) (fo_adapter fo);
          user_id = fo_user_id fo; session_id = fo_session_id fo;
          local_path = (\<lambda>ap. map_option (\<lambda>ap. fo \<lparr> fo_adapter := ap \<rparr>)
            (persist_local env (fo_policy fo) user_id session_id now transcript ap))
      in if fo_lifecycle fo then
           (let (recorded, ap) = record_transcript env user_id session_id transcript ap;
                ap = (case recorded of
                        Inr n \<Rightarrow> if 0 < n then add_compactions n ap else ap
                      | Inl _ \<Rightarrow> ap)
            in case snapshot_memory_entries env user_id session_id ap of
                 Inr entries \<Rightarrow> Some (fo \<lparr> fo_adapter := store_entries env user_id session_id entries ap \<rparr>)
               | Inl _ \<Rightarrow> local_path ap)
         else local_path ap)"

subsection \<open>Artifacts\<close>

text \<open>A number with at least six digits, \<open>{:06}\<close>.\<close>

definition show_padded :: "nat \<Rightarrow> string" where
  "show_padded n = replicate (6 - length (show_nat n)) (CHR ''0'') @ show_nat n"

definition transcript_file :: "u64 \<Rightarrow> string" where
  "transcript_file i = ''transcript-'' @ show_padded (unat i) @ ''.txt''"

definition audio_file :: "u64 \<Rightarrow> string" where
  "audio_file i = ''audio-'' @ show_padded (unat i) @ ''.pcm''"

definition artifact_key_of :: "'w forwarder \<Rightarrow> string \<Rightarrow> artifact_key" where
  "artifact_key_of fo name = \<lparr> ak_app_name = ''liveclaw'', ak_user_id = fo_user_id fo,
     ak_session_id = fo_session_id fo, ak_file_name = name \<rparr>"

definition save_output :: "'w forwarder_env \<Rightarrow> string \<Rightarrow> part \<Rightarrow> 'w forwarder \<Rightarrow> 'w forwarder" where
  "save_output env name part fo =
     fo \<lparr> fo_tree := snd (artifact_save (fe_faults env) (artifact_key_of fo name) part None (fo_tree fo)) \<rparr>"

definition persist_transcript_artifact :: "'w forwarder_env \<Rightarrow> string \<Rightarrow> 'w forwarder \<Rightarrow> 'w forwarder" where
  "persist_transcript_artifact env transcript fo =
     (if \<not> fo_artifacts fo then fo
      else let i = fo_transcript_sequence fo + 1
           in save_output env (transcript_file i) (TextPart transcript) (fo \<lparr> fo_transcript_sequence := i \<rparr>))"

definition persist_audio_artifact :: "'w forwarder_env \<Rightarrow> bytes \<Rightarrow> 'w forwarder \<Rightarrow> 'w forwarder" where
  "persist_audio_artifact env audio fo =
     (if \<not> fo_artifacts fo then fo
      else let i = fo_audio_sequence fo + 1
           in save_output env (audio_file i) (InlineData ''audio/pcm'' audio) (fo \<lparr> fo_audio_sequence := i \<rparr>))"

subsection \<open>The events of a provider\<close>

definition send_transcript :: "string \<Rightarrow> 'w forwarder \<Rightarrow> 'w forwarder" where
  "send_transcript text fo =
     (if fo_gateway_open fo
      then fo \<lparr> fo_transcript_out := fo_transcript_out fo @
                 [\<lparr> to_session_id = fo_session_id fo, to_text = text, to_is_final = False \<rparr>] \<rparr>
      else fo)"

definition send_chunk :: "bytes \<Rightarrow> 'w forwarder \<Rightarrow> 'w forwarder" where
  "send_chunk audio fo =
     (if fo_gateway_open fo
      then fo \<lparr> fo_audio_out := fo_audio_out fo @ [\<lparr> ao_session_id = fo_session_id fo, ao_data = audio \<rparr>] \<rparr>
      else fo)"

definition on_audio :: "'w forwarder_env \<Rightarrow> bytes \<Rightarrow> 'w forwarder \<Rightarrow> 'w forwarder option" where
  "on_audio env audio fo = Some (persist_audio_artifact env audio (send_chunk audio fo))"

definition on_text :: "'w forwarder_env \<Rightarrow> string \<Rightarrow> 'w forwarder \<Rightarrow> 'w forwarder option" where
  "on_text env text fo =
     map_option (persist_transcript_artifact env text) (persist_transcript_memory env text (send_transcript text fo))"

definition on_transcript :: "'w forwarder_env \<Rightarrow> string \<Rightarrow> 'w forwarder \<Rightarrow> 'w forwarder option" where
  "on_transcript env transcript fo =
     map_option (persist_transcript_artifact env transcript)
       (persist_transcript_memory env transcript (send_transcript transcript fo))"

fun on_event :: "'w forwarder_env \<Rightarrow> bridge_event \<Rightarrow> 'w forwarder \<Rightarrow> 'w forwarder option" where
  "on_event env (AudioEvent audio _) fo = on_audio env audio fo"
| "on_event env (TextEvent text _) fo = on_text env text fo"
| "on_event env (TranscriptEvent transcript _) fo = on_transcript env transcript fo"

fun on_events :: "'w forwarder_env \<Rightarrow> bridge_event list \<Rightarrow> 'w forwarder \<Rightarrow> 'w forwarder option" where
  "on_events env [] fo = Some fo"
| "on_events env (ev # evs) fo = Option.bind (on_event env ev fo) (on_events env evs)"

text \<open>The forwarder of a new session.\<close>

definition forwarder_new :: "adapter_settings \<Rightarrow> bool \<Rightarrow> string \<Rightarrow> string \<Rightarrow> 'w adapter \<Rightarrow> tree \<Rightarrow> 'w forwarder" where
  "forwarder_new ad artifacts user_id session_id ap t =
     \<lparr> fo_session_id = session_id, fo_user_id = user_id, fo_lifecycle = ad_lifecycle ad, fo_artifacts = artifacts,
       fo_policy = ad_compaction_policy ad, fo_audio_sequence = 0, fo_transcript_sequence = 0, fo_adapter = ap, fo_tree = t,
       fo_gateway_open = True, fo_audio_out = [], fo_transcript_out = [] \<rparr>"

subsection \<open>What the parts leave alone\<close>

lemma output_parts [simp]:
  "fo_session_id (send_transcript t fo) = fo_session_id fo" "fo_user_id (send_transcript t fo) = fo_user_id fo"
  "fo_tree (send_transcript t fo) = fo_tree fo" "fo_adapter (send_transcript t fo) = fo_adapter fo"
  "fo_lifecycle (send_transcript t fo) = fo_lifecycle fo" "fo_policy (send_transcript t fo) = fo_policy fo"
  "fo_artifacts (send_transcript t fo) = fo_artifacts fo"
  "fo_audio_sequence (send_transcript t fo) = fo_audio_sequence fo"
  "fo_transcript_sequence (send_transcript t fo) = fo_transcript_sequence fo"
  "fo_session_id (send_chunk a fo) = fo_session_id fo" "fo_user_id (send_chunk a fo) = fo_user_id fo"
  "fo_tree (send_chunk a fo) = fo_tree fo" "fo_artifacts (send_chunk a fo) = fo_artifacts fo"
  "fo_audio_sequence (send_chunk a fo) = fo_audio_sequence fo"
  "fo_transcript_sequence (send_chunk a fo) = fo_transcript_sequence fo"
  by (simp_all add: send_transcript_def send_chunk_def)

lemma saved_parts [simp]:
  "fo_session_id (persist_audio_artifact env a fo) = fo_session_id fo" "fo_user_id (persist_audio_artifact env a fo) = fo_user_id fo"
  "fo_artifacts (persist_audio_artifact env a fo) = fo_artifacts fo" "fo_adapter (persist_audio_artifact env a fo) = fo_adapter fo"
  "fo_audio_out (persist_audio_artifact env a fo) = fo_audio_out fo"
  "fo_transcript_out (persist_audio_artifact env a fo) = fo_transcript_out fo"
  "fo_session_id (persist_transcript_artifact env t fo) = fo_session_id fo"
  "fo_user_id (persist_transcript_artifact env t fo) = fo_user_id fo"
  "fo_artifacts (persist_transcript_artifact env t fo) = fo_artifacts fo"
  "fo_adapter (persist_transcript_artifact env t fo) = fo_adapter fo"
  "fo_audio_out (persist_transcript_artifact env t fo) = fo_audio_out fo"
  "fo_transcript_out (persist_transcript_artifact env t fo) = fo_transcript_out fo"
  by (simp_all add: persist_audio_artifact_def persist_transcript_artifact_def save_output_def Let_def)

lemma persist_memory_adapter:
  assumes "persist_transcript_memory env t fo = Some fo'"
  shows "\<exists>ap. fo' = fo \<lparr> fo_adapter := ap \<rparr>"
  using assms by (auto simp: persist_transcript_memory_def Let_def split: prod.splits if_splits sum.splits)

text \<open>The number and the contents an event is saved under.\<close>

definition output_file :: "'w forwarder \<Rightarrow> bridge_event \<Rightarrow> string" where
  "output_file fo ev =
     (case ev of AudioEvent _ _ \<Rightarrow> audio_file (fo_audio_sequence fo + 1) | _ \<Rightarrow> transcript_file (fo_transcript_sequence fo + 1))"

definition output_part :: "bridge_event \<Rightarrow> part" where
  "output_part ev =
     (case ev of AudioEvent audio _ \<Rightarrow> InlineData ''audio/pcm'' audio | TextEvent t _ \<Rightarrow> TextPart t | TranscriptEvent t _ \<Rightarrow> TextPart t)"

definition is_audio :: "bridge_event \<Rightarrow> bool" where
  "is_audio ev = (case ev of AudioEvent _ _ \<Rightarrow> True | _ \<Rightarrow> False)"

lemma on_event_effect:
  assumes "on_event env ev fo = Some fo'"
  shows "fo_session_id fo' = fo_session_id fo" "fo_user_id fo' = fo_user_id fo" "fo_artifacts fo' = fo_artifacts fo"
    and "fo_artifacts fo \<Longrightarrow> fo_tree fo' =
      snd (artifact_save (fe_faults env) (artifact_key_of fo (output_file fo ev)) (output_part ev) None (fo_tree fo))"
    and "fo_artifacts fo \<Longrightarrow> fo_audio_sequence fo' = fo_audio_sequence fo + (if is_audio ev then 1 else 0)"
    and "fo_artifacts fo \<Longrightarrow> fo_transcript_sequence fo' = fo_transcript_sequence fo + (if is_audio ev then 0 else 1)"
proof -
  have *: "fo_session_id fo' = fo_session_id fo \<and> fo_user_id fo' = fo_user_id fo \<and> fo_artifacts fo' = fo_artifacts fo \<and>
    (fo_artifacts fo \<longrightarrow> fo_tree fo' =
      snd (artifact_save (fe_faults env) (artifact_key_of fo (output_file fo ev)) (output_part ev) None (fo_tree fo)) \<and>
     fo_audio_sequence fo' = fo_audio_sequence fo + (if is_audio ev then 1 else 0) \<and>
     fo_transcript_sequence fo' = fo_transcript_sequence fo + (if is_audio ev then 0 else 1))"
    using assms
    by (cases ev; cases "fo_artifacts fo") (auto simp: on_audio_def on_text_def on_transcript_def persist_audio_artifact_def
        persist_transcript_artifact_def save_output_def artifact_key_of_def output_file_def output_part_def is_audio_def Let_def
        dest!: persist_memory_adapter)
  then show "fo_session_id fo' = fo_session_id fo" "fo_user_id fo' = fo_user_id fo" "fo_artifacts fo' = fo_artifacts fo"
    and "fo_artifacts fo \<Longrightarrow> fo_tree fo' =
      snd (artifact_save (fe_faults env) (artifact_key_of fo (output_file fo ev)) (output_part ev) None (fo_tree fo))"
    and "fo_artifacts fo \<Longrightarrow> fo_audio_sequence fo' = fo_audio_sequence fo + (if is_audio ev then 1 else 0)"
    and "fo_artifacts fo \<Longrightarrow> fo_transcript_sequence fo' = fo_transcript_sequence fo + (if is_audio ev then 0 else 1)"
    by blast+
qed

subsection \<open>The names of the artifacts\<close>

lemma digits_val_zeros: "digits_val (replicate n (CHR ''0'') @ s) = digits_val s"
  unfolding digits_val_def by (induction n) (simp_all add: byte_of_def)

lemma show_padded_inj: "show_padded m = show_padded n \<Longrightarrow> m = n"
  unfolding show_padded_def by (metis digits_val_zeros parse_show_nat)

lemma show_padded_digits: "list_all is_dec_digit (show_padded n)"
  using parse_show_nat [of n] by (auto simp: show_padded_def list_all_iff) (simp add: is_dec_digit_def byte_of_def)

lemma replace_dots_no_dot: "CHR ''.'' \<notin> set s \<Longrightarrow> replace_dots s = s"
  by (induction s rule: replace_dots.induct) auto

lemma replace_dots_one_dot: "CHR ''.'' \<notin> set a \<Longrightarrow> CHR ''.'' \<notin> set b \<Longrightarrow> replace_dots (a @ CHR ''.'' # b) = a @ CHR ''.'' # b"
proof (induction a)
  case Nil
  then show ?case using replace_dots_no_dot [of b] by (cases b) auto
next
  case (Cons c a)
  then have "replace_dots (a @ CHR ''.'' # b) = a @ CHR ''.'' # b" by simp
  with Cons.prems show ?case by (cases a) auto
qed

lemma sanitize_plain:
  assumes "CHR ''.'' \<notin> set a" "CHR ''.'' \<notin> set b" "trim (a @ CHR ''.'' # b) = a @ CHR ''.'' # b"
    and "\<forall>c \<in> set (a @ b). c \<noteq> CHR ''/'' \<and> c \<noteq> CHR 0x5C \<and> c \<noteq> CHR '':''"
  shows "sanitize_component (a @ CHR ''.'' # b) = a @ CHR ''.'' # b"
proof -
  have "map (\<lambda>c. if c = CHR ''/'' \<or> c = CHR 0x5C \<or> c = CHR '':'' then CHR ''_'' else c) (a @ CHR ''.'' # b) = a @ CHR ''.'' # b"
    using assms(4) by (intro map_idI) auto
  then show ?thesis using replace_dots_one_dot [OF assms(1,2)] assms(3) by (simp add: sanitize_component_def)
qed

lemma digit_plain: "is_dec_digit c \<Longrightarrow> c \<noteq> CHR ''.'' \<and> c \<noteq> CHR ''/'' \<and> c \<noteq> CHR 0x5C \<and> c \<noteq> CHR '':''"
  by (auto simp: is_dec_digit_def byte_of_def)

lemma trim_ascii_ends: "byte_of a < 128 \<Longrightarrow> \<not> ws1 a \<Longrightarrow> byte_of b < 128 \<Longrightarrow> \<not> ws1 b \<Longrightarrow> trim (a # s @ [b]) = a # s @ [b]"
  by (rule trim_fix) (simp_all add: ws_len_ascii ws_len_rev_ascii)

lemma sanitize_files: "sanitize_component (audio_file i) = audio_file i" "sanitize_component (transcript_file i) = transcript_file i"
proof -
  have d: "\<forall>c \<in> set (show_padded (unat i)). c \<noteq> CHR ''.'' \<and> c \<noteq> CHR ''/'' \<and> c \<noteq> CHR 0x5C \<and> c \<noteq> CHR '':''"
    using show_padded_digits [of "unat i"] digit_plain by (fastforce simp: list_all_iff)
  have ends: "byte_of (CHR ''a'') < 128" "\<not> ws1 (CHR ''a'')" "byte_of (CHR ''m'') < 128" "\<not> ws1 (CHR ''m'')"
    "byte_of (CHR ''t'') < 128" "\<not> ws1 (CHR ''t'')" by (simp_all add: byte_of_def ws1_def)
  have "trim (audio_file i) = audio_file i"
    using trim_ascii_ends [OF ends(1-4), of "''udio-'' @ show_padded (unat i) @ ''.pc''"] by (simp add: audio_file_def)
  then show "sanitize_component (audio_file i) = audio_file i"
    using sanitize_plain [of "''audio-'' @ show_padded (unat i)" "''pcm''"] d by (auto simp: audio_file_def)
  have "trim (transcript_file i) = transcript_file i"
    using trim_ascii_ends [OF ends(5,6,5,6), of "''ranscript-'' @ show_padded (unat i) @ ''.tx''"] by (simp add: transcript_file_def)
  then show "sanitize_component (transcript_file i) = transcript_file i"
    using sanitize_plain [of "''transcript-'' @ show_padded (unat i)" "''txt''"] d by (auto simp: transcript_file_def)
qed

lemma file_names_distinct:
  "audio_file i = audio_file j \<longleftrightarrow> i = j" "transcript_file i = transcript_file j \<longleftrightarrow> i = j" "audio_file i \<noteq> transcript_file j"
  using show_padded_inj [of "unat i" "unat j"] by (auto simp: audio_file_def transcript_file_def word_unat_eq_iff)

lemma file_dirs_distinct:
  assumes "m \<noteq> n" "m \<in> range audio_file \<union> range transcript_file" "n \<in> range audio_file \<union> range transcript_file"
  shows "file_dir (artifact_key_of fo m) \<noteq> file_dir (artifact_key_of fo n)"
proof -
  have s: "sanitize_component m = m" "sanitize_component n = n" using assms(2,3) sanitize_files by auto
  have "m \<noteq> []" "n \<noteq> []" "m \<noteq> ''.''" "n \<noteq> ''.''" using assms(2,3) by (auto simp: audio_file_def transcript_file_def)
  with assms(1) s show ?thesis by (simp add: file_dir_def session_dir_def artifact_key_of_def join_names_def)
qed

subsection \<open>What is saved stays\<close>

lemma make_dirs_keeps: "map_of t q = Some x \<Longrightarrow> map_of (snd (make_dirs ps t)) q = Some x"
proof (induction ps arbitrary: t)
  case (Cons p ps)
  then have "map_of (tree_put p DirNode t) q = Some x" if "map_of t p = None"
    using that by (auto simp: tree_put_def map_of_filter_ne)
  with Cons show ?case by (auto split: option.split tree_node.split)
qed simp

lemma create_dir_all_keeps: "map_of t q = Some x \<Longrightarrow> map_of (snd (create_dir_all fault p t)) q = Some x"
  by (simp add: create_dir_all_def make_dirs_keeps split: option.split)

definition holds_artifact :: "artifact_key \<Rightarrow> int \<Rightarrow> part \<Rightarrow> tree \<Rightarrow> bool" where
  "holds_artifact k v part t \<longleftrightarrow> map_of t (file_dir k) = Some DirNode \<and> map_of t (file_dir k @ [version_file v]) = Some (FileNode (Some part))"

lemma holds_saved: "artifact_save fault k part version t = (Inr v, t') \<Longrightarrow> holds_artifact k v part t'"
  by (erule artifact_save_Inr) (auto simp: holds_artifact_def dest: create_dir_all_Inr(1))

lemma holds_loaded: "holds_artifact k v part t \<Longrightarrow> artifact_load (\<lambda>_ _. None) k (Some v) t = Inr part"
  by (simp add: holds_artifact_def artifact_load_Inr_iff)

lemma holds_other:
  assumes "holds_artifact k v part t" "file_dir k' \<noteq> file_dir k"
  shows "holds_artifact k v part (snd (artifact_save fault k' part' version t))"
proof -
  let ?t1 = "snd (create_dir_all fault (file_dir k') t)"
  have 1: "holds_artifact k v part ?t1" using assms(1) create_dir_all_keeps by (simp add: holds_artifact_def)
  from artifact_save_tree [of fault k' part' version t] show ?thesis
  proof
    assume "\<exists>w x. snd (artifact_save fault k' part' version t) = tree_put (file_dir k' @ [version_file w]) (FileNode x) ?t1 \<and>
       map_of ?t1 (file_dir k') = Some DirNode \<and> map_of ?t1 (file_dir k' @ [version_file w]) \<noteq> Some DirNode"
    with 1 assms(2) show ?thesis by (auto simp: holds_artifact_def)
  qed (use 1 in simp)
qed

lemma word_after:
  assumes "0 < k" "k < 2 ^ LENGTH('a)"
  shows "(w :: 'a::len word) + of_nat k \<noteq> w"
proof
  assume "w + of_nat k = w"
  then have "2 ^ LENGTH('a) dvd k" by (simp add: word_of_nat_eq_0_iff)
  with assms show False using dvd_imp_le by fastforce
qed

text \<open>After an event has got its number, the later ones get others, as long as the counter does not wrap around.\<close>

definition past :: "'w forwarder \<Rightarrow> bool \<Rightarrow> u64 \<Rightarrow> nat \<Rightarrow> bool" where
  "past fo audio i n \<longleftrightarrow> (if audio then fo_audio_sequence fo else fo_transcript_sequence fo) = i + of_nat n"

definition numbered_file :: "bool \<Rightarrow> u64 \<Rightarrow> string" where
  "numbered_file audio i = (if audio then audio_file i else transcript_file i)"

lemma events_hold:
  assumes "on_events env evs fo = Some fo'" "fo_artifacts fo" "past fo audio i n" "n + length evs < 2 ^ 64"
    and "holds_artifact (artifact_key_of fo (numbered_file audio i)) v part (fo_tree fo)"
  shows "holds_artifact (artifact_key_of fo (numbered_file audio i)) v part (fo_tree fo')"
  using assms
proof (induction evs arbitrary: fo n)
  case (Cons ev evs)
  then obtain fo1 where e: "on_event env ev fo = Some fo1" "on_events env evs fo1 = Some fo'"
    by (auto simp: bind_eq_Some_conv)
  note eff = on_event_effect [OF e(1)]
  have key: "artifact_key_of fo1 m = artifact_key_of fo m" for m by (simp add: artifact_key_of_def eff)
  define n1 where "n1 = n + (if is_audio ev = audio then 1 else 0)"
  have p: "past fo1 audio i n1"
    using Cons.prems(3) eff(5,6) [OF Cons.prems(2)] by (auto simp: past_def n1_def)
  have l: "n1 + length evs < 2 ^ 64" using Cons.prems(4) by (auto simp: n1_def)
  have "output_file fo ev \<noteq> numbered_file audio i"
  proof (cases "is_audio ev = audio")
    case True
    have "i + of_nat (Suc n) \<noteq> i" using Cons.prems(4) by (intro word_after) auto
    with True Cons.prems(3) show ?thesis
      by (cases ev) (auto simp: past_def output_file_def numbered_file_def is_audio_def file_names_distinct ac_simps split: if_splits)
  next
    case False
    then show ?thesis using file_names_distinct(3)
      by (cases ev) (auto simp: output_file_def numbered_file_def is_audio_def split: if_splits, metis+)
  qed
  moreover have "output_file fo ev \<in> range audio_file \<union> range transcript_file"
    "numbered_file audio i \<in> range audio_file \<union> range transcript_file"
    by (cases ev; simp add: output_file_def numbered_file_def)+
  ultimately have "holds_artifact (artifact_key_of fo (numbered_file audio i)) v part (fo_tree fo1)"
    unfolding eff(4) [OF Cons.prems(2)] by (intro holds_other Cons.prems(5) file_dirs_distinct)
  with Cons.IH [OF e(2) _ p l] Cons.prems(2) show ?case by (simp add: key eff)
qed simp

subsection \<open>What the gateway is told\<close>

definition outputs_ok :: "'w forwarder \<Rightarrow> bool" where
  "outputs_ok fo \<longleftrightarrow> (\<forall>out \<in> set (fo_transcript_out fo). to_session_id out = fo_session_id fo \<and> \<not> to_is_final out) \<and>
     (\<forall>out \<in> set (fo_audio_out fo). ao_session_id out = fo_session_id fo)"

lemma on_event_outputs: "on_event env ev fo = Some fo' \<Longrightarrow> outputs_ok fo \<Longrightarrow> outputs_ok fo'"
  by (cases ev; cases "fo_gateway_open fo")
    (auto simp: on_audio_def on_text_def on_transcript_def send_transcript_def send_chunk_def outputs_ok_def
      dest!: persist_memory_adapter)

lemma on_events_outputs: "on_events env evs fo = Some fo' \<Longrightarrow> outputs_ok fo \<Longrightarrow> outputs_ok fo'"
  by (induction evs arbitrary: fo) (auto simp: bind_eq_Some_conv dest: on_event_outputs)

lemma on_events_session: "on_events env evs fo = Some fo' \<Longrightarrow> fo_session_id fo' = fo_session_id fo"
  by (induction evs arbitrary: fo) (auto simp: bind_eq_Some_conv dest: on_event_effect(1))

lemma forwarded_outbox:
  assumes "forward_transcript am out st = Some st'" "\<not> to_is_final out"
  shows "channel_outbox st' = channel_outbox st"
proof -
  obtain st1 where "forward_to_session (to_session_id out)
      (TranscriptUpdate (to_session_id out) (to_text out) (to_is_final out)) st = Some st1"
    and st': "st' = queue_channel_outbound_transcript am out st1"
    using assms(1) by (auto simp: forward_transcript_def)
  then have "only_chans st st1" using forward_only_chans by blast
  then have "channel_outbox st1 = channel_outbox st" by (auto simp: only_chans_def)
  then show ?thesis by (simp add: st' queue_channel_outbound_transcript_def assms(2))
qed

subsection \<open>What the memory is told\<close>

lemma push_keeps_new:
  assumes "push_transcript policy now now' es t = Some (b, es')"
  shows "transcript_entry now t \<in> set es'"
proof (cases "cp_enabled policy \<and> 2 \<le> cp_max_events_threshold policy \<and> cp_max_events_threshold policy < length es + 1")
  case True
  let ?n = "cp_max_events_threshold policy" and ?es = "es @ [transcript_entry now t]"
  have "compact_memory_entries now' ?es ?n = Some (b, es')"
    using assms True by (simp add: push_transcript_def transcript_entry_def)
  with True obtain s where es': "es' = s # drop (length ?es - ?n div 2) ?es"
    using compact_applied [of ?n ?es now'] by (auto simp del: drop_append)
  have "1 \<le> ?n div 2" using True by linarith
  then have "length ?es - ?n div 2 \<le> length es" by simp
  then show ?thesis by (simp add: es')
next
  case False
  then have "es' = es @ [transcript_entry now t]"
    using assms compact_unchanged [of "cp_max_events_threshold policy" "es @ [transcript_entry now t]" now']
    by (auto simp: push_transcript_def transcript_entry_def Let_def split: if_splits)
  then show ?thesis by simp
qed

lemma store_entries_parts [simp]:
  "ap_sessions (store_entries env u sid es ap) = ap_sessions ap"
  "ap_memory_entries (store_entries env u sid es ap) = (ap_memory_entries ap)(sid \<mapsto> es)"
  "ap_world (store_entries env u sid es ap) = snd (ae_add_session (fe_adapter env) ''liveclaw'' u sid es (ap_world ap))"
  by (simp_all add: store_entries_def)

lemma on_text_local:
  assumes "on_text env t fo = Some fo'" "\<not> fo_lifecycle fo"
  obtains now now' b es ap where
    "push_transcript (fo_policy fo) now now' (unwrap_or (ap_memory_entries (fo_adapter fo) (fo_session_id fo)) []) t = Some (b, es)"
    "fo_adapter fo' = store_entries env (fo_user_id fo) (fo_session_id fo) es ap"
    "ap_sessions ap = ap_sessions (fo_adapter fo)" "ap_memory_entries ap = ap_memory_entries (fo_adapter fo)"
proof -
  obtain fo1 where fo1: "persist_transcript_memory env t (send_transcript t fo) = Some fo1" "fo_adapter fo' = fo_adapter fo1"
    using assms(1) by (auto simp: on_text_def)
  obtain now ap0 where c: "on_world (ae_clock (fe_adapter env)) (fo_adapter fo) = (now, ap0)" by fastforce
  obtain now' ap1 where c1: "on_world (ae_clock (fe_adapter env)) ap0 = (now', ap1)" by fastforce
  have same: "ap_sessions ap0 = ap_sessions (fo_adapter fo)" "ap_memory_entries ap0 = ap_memory_entries (fo_adapter fo)"
    "ap_sessions ap1 = ap_sessions ap0" "ap_memory_entries ap1 = ap_memory_entries ap0"
    using on_world_parts(1,2) [of "ae_clock (fe_adapter env)" "fo_adapter fo"]
      on_world_parts(1,2) [of "ae_clock (fe_adapter env)" ap0] c c1 by simp_all
  obtain b es where p: "push_transcript (fo_policy fo) now now' (unwrap_or (ap_memory_entries ap0 (fo_session_id fo)) []) t = Some (b, es)"
    "fo1 = (send_transcript t fo) \<lparr> fo_adapter :=
       store_entries env (fo_user_id fo) (fo_session_id fo) es (if b then add_compactions 1 ap1 else ap0) \<rparr>"
    using fo1(1) assms(2) c c1
    by (auto simp: persist_transcript_memory_def persist_local_def Let_def split: option.splits)
  have "ap_sessions (add_compactions n ap) = ap_sessions ap" "ap_memory_entries (add_compactions n ap) = ap_memory_entries ap"
    for n and ap :: "'a adapter" by (simp_all add: add_compactions_def)
  with p fo1(2) same show thesis
    by (intro that [of now now' b es "if b then add_compactions 1 ap1 else ap0"]) simp_all
qed

lemma compact_one [simp]: "compact_memory_entries now [e] n = Some (False, [e])"
  by (rule compact_unchanged) auto

lemma push_one [simp]: "push_transcript policy now now' [] t = Some (False, [transcript_entry now t])"
  by (simp add: push_transcript_def transcript_entry_def Let_def)

text \<open>The memory service of a file as the service behind the adapter; its state is the first part of the world.\<close>

definition file_memory ::
  "memory_library \<Rightarrow> persist_faults \<Rightarrow>
     (memory_service \<times> (string \<rightharpoonup> string) \<times> 'v) forwarder_env \<Rightarrow> bool" where
  "file_memory lib faults env \<longleftrightarrow>
     (\<forall>app user sid es svc fs v. ae_add_session (fe_adapter env) app user sid es (svc, fs, v) =
        (let (r, svc, fs) = add_session lib faults app user sid es svc fs in (r, svc, fs, v)))"

lemma added_stored:
  assumes "file_memory lib faults env"
  shows "ms_store (fst (snd (ae_add_session (fe_adapter env) app user sid es w))) =
    store_insert \<lparr> mk_app_name = app, mk_user_id = user \<rparr> sid (map to_persisted es) (ms_store (fst w))"
  using assms by (cases w) (simp add: file_memory_def add_session_def Let_def split_def)

lemma terminate_session_memory:
  "ap_sessions ap sid \<noteq> None \<Longrightarrow> ap_memory_entries (snd (terminate_session env ad sid ap)) sid = None"
  by (auto simp: terminate_session_def Let_def on_world_def split: option.splits prod.splits)

subsection \<open>Properties\<close>

text \<open>C38: No word of a provider ever reaches a channel. Whatever a session puts out, it is its own, and forwarding it leaves
  every outbox of the gateway as it was: the gateway queues final transcripts only, and the forwarder marks none as final.\<close>

theorem transcripts_never_reach_channels:
  assumes "on_events env evs (forwarder_new ad artifacts user_id session_id ap t) = Some fo" "out \<in> set (fo_transcript_out fo)"
    and "forward_transcript am out st = Some st'"
  shows "to_session_id out = session_id \<and> channel_outbox st' = channel_outbox st"
proof -
  have "outputs_ok (forwarder_new ad artifacts user_id session_id ap t)" by (simp add: outputs_ok_def forwarder_new_def)
  from on_events_outputs [OF assms(1) this] assms(2) have "to_session_id out = fo_session_id fo" "\<not> to_is_final out"
    by (simp_all add: outputs_ok_def)
  then show ?thesis
    using forwarded_outbox [OF assms(3)] on_events_session [OF assms(1)] by (simp add: forwarder_new_def)
qed

text \<open>C39: What is saved stays: once the audio or the text of an event is saved as an artifact, under its number and a version,
  it is what is loaded from there after any further events, whatever they save and whatever saving fails.
  It holds for fewer events than the counters have values.\<close>

theorem saved_outputs_stay:
  assumes "fo_artifacts fo" "on_event env ev fo = Some fo1" "on_events env evs fo1 = Some fo2" "length evs < 2 ^ 64"
    and "artifact_save (fe_faults env) (artifact_key_of fo (output_file fo ev)) (output_part ev) None (fo_tree fo) = (Inr v, t)"
  shows "artifact_load (\<lambda>_ _. None) (artifact_key_of fo (output_file fo ev)) (Some v) (fo_tree fo2) = Inr (output_part ev)"
proof -
  note eff = on_event_effect [OF assms(2)]
  define i where "i = (if is_audio ev then fo_audio_sequence fo1 else fo_transcript_sequence fo1)"
  have named: "output_file fo ev = numbered_file (is_audio ev) i"
    using eff(5,6) [OF assms(1)] by (cases ev) (simp_all add: output_file_def numbered_file_def is_audio_def i_def)
  have key: "artifact_key_of fo1 m = artifact_key_of fo m" for m by (simp add: artifact_key_of_def eff)
  have "holds_artifact (artifact_key_of fo1 (numbered_file (is_audio ev) i)) v (output_part ev) (fo_tree fo1)"
    using holds_saved [OF assms(5)] eff(4) [OF assms(1)] assms(5) by (simp add: key named)
  moreover have "past fo1 (is_audio ev) i 0" by (simp add: past_def i_def)
  ultimately show ?thesis
    using events_hold [OF assms(3)] assms(1,4) eff(3) holds_loaded by (simp add: key named)
qed


text \<open>A late text undoes the end of a session. The forwarder runs until the task of the session is aborted, after the
  summary was stored: a text that it handles in between opens a new entry in the table for a session that is no
  more, and hands the memory service that text alone, in the place of the memory and the summary of the session.\<close>

theorem late_text_replaces_memory:
  assumes "ap_sessions ap session_id = Some sess" "fo_adapter fo = snd (terminate_session env_t ad session_id ap)"
    and "fo_session_id fo = session_id" "\<not> fo_lifecycle fo" "on_text env t fo = Some fo'"
  shows "ap_sessions (fo_adapter fo') session_id = None \<and>
    (\<exists>now w. ap_memory_entries (fo_adapter fo') session_id = Some [transcript_entry now t] \<and>
       ap_world (fo_adapter fo') =
         snd (ae_add_session (fe_adapter env) ''liveclaw'' (fo_user_id fo) session_id [transcript_entry now t] w))"
proof -
  have gone: "ap_sessions (fo_adapter fo) session_id = None" "ap_memory_entries (fo_adapter fo) session_id = None"
    using assms(1) by (auto simp: assms(2) terminate_session_sessions terminate_session_memory)
  obtain now now' b es ap1 where p: "push_transcript (fo_policy fo) now now' [] t = Some (b, es)"
    and ap1: "fo_adapter fo' = store_entries env (fo_user_id fo) session_id es ap1" "ap_sessions ap1 = ap_sessions (fo_adapter fo)"
    using gone(2) assms(3) by (metis on_text_local [OF assms(5,4)] option.case(1) unwrap_or_def)
  have "es = [transcript_entry now t]" using p by simp
  with ap1 gone(1) show ?thesis by auto
qed

subsection \<open>Witnesses\<close>

text \<open>A session \<open>s\<close> of the user \<open>u\<close> over the file store, without lifecycle, with artifacts.\<close>

type_synonym demo_world = "memory_service \<times> (string \<rightharpoonup> string) \<times> unit"

definition demo_memory_env :: "demo_world adapter_env" where
  "demo_memory_env = \<lparr> ae_lower = to_ascii_lowercase, ae_clock = (\<lambda>w. (7, w)), ae_build = (\<lambda>_. Inr ()),
     ae_connect = (\<lambda>_ w. (Inr (), w)), ae_close = (\<lambda>_ w. (Inr (), w)),
     ae_send_audio_base64 = (\<lambda>_ _ w. (Inr (), w)), ae_send_text = (\<lambda>_ _ w. (Inr (), w)),
     ae_commit_audio = (\<lambda>_ w. (Inr (), w)), ae_create_response = (\<lambda>_ w. (Inr (), w)),
     ae_interrupt_response = (\<lambda>_ w. (Inr (), w)), ae_service_get = (\<lambda>_ _ _. True),
     ae_service_create = (\<lambda>_ _ w. (Inr (), w)),
     ae_add_session = (\<lambda>app user sid es (svc, fs, v).
       let (r, svc, fs) = add_session sample_library no_faults app user sid es svc fs in (r, svc, fs, v)),
     ae_audit_sink = (\<lambda>_ w. (Inr (), w)), ae_access_control = (\<lambda>_ _. Inr ()), ae_protect = (\<lambda>_ _ _ tool. tool),
     ae_engine = reference_engine, ae_utc_now = (\<lambda>w. ((''1970-01-01T00:00:07+00:00'', 7), w)),
     ae_canon = (\<lambda>_ _. Inl ''no such file''), ae_read = (\<lambda>_ _. Inl ''no such file''), ae_tool_error = (\<lambda>e. e) \<rparr>"

definition demo_forwarder_env :: "demo_world forwarder_env" where
  "demo_forwarder_env = \<lparr> fe_adapter = demo_memory_env, fe_ingest = (\<lambda>_ _ _ w. (Inr (), w)), fe_events = (\<lambda>_ _ _. Inr []),
     fe_faults = (\<lambda>_ _. None) \<rparr>"

definition demo_ad :: adapter_settings where
  "demo_ad = adapter_settings_new sample_config sample_selection False"

definition demo_forwarder :: "demo_world forwarder" where
  "demo_forwarder = forwarder_new demo_ad True ''u'' ''s'' (adapter_start (sample_service, Map.empty, ())) [([], DirNode)]"

lemma demo_file_memory: "file_memory sample_library no_faults demo_forwarder_env"
  by (simp add: file_memory_def demo_forwarder_env_def demo_memory_env_def)

lemma demo_forwarder_parts [simp]:
  "fo_lifecycle demo_forwarder = False" "fo_artifacts demo_forwarder = True" "fo_user_id demo_forwarder = ''u''"
  "fo_session_id demo_forwarder = ''s''" "ap_sessions (fo_adapter demo_forwarder) = Map.empty"
  "ap_memory_entries (fo_adapter demo_forwarder) = Map.empty"
  by (simp_all add: demo_forwarder_def forwarder_new_def demo_ad_def adapter_settings_new_def adapter_start_def)

definition demo_heard :: "demo_world forwarder" where
  "demo_heard = the (on_text demo_forwarder_env ''red'' demo_forwarder)"

lemmas demo_eval = on_text_def persist_transcript_memory_def persist_local_def on_world_def demo_forwarder_env_def demo_memory_env_def
  unwrap_or_def adapter_start_def forwarder_new_def demo_ad_def adapter_settings_new_def store_entries_def split_def

lemma demo_hear: "on_text demo_forwarder_env ''red'' demo_forwarder = Some demo_heard"
proof -
  have "on_text demo_forwarder_env ''red'' demo_forwarder \<noteq> None"
    unfolding demo_forwarder_def by (simp add: demo_eval Let_def)
  then show ?thesis by (auto simp: demo_heard_def)
qed

lemma demo_heard_store:
  "ms_store (fst (ap_world (fo_adapter demo_heard))) =
     store_insert \<lparr> mk_app_name = ''liveclaw'', mk_user_id = ''u'' \<rparr> ''s'' [to_persisted (transcript_entry 7 ''red'')] Map.empty"
  unfolding demo_heard_def demo_forwarder_def
  by (simp add: demo_eval Let_def add_session_def sample_service_def)

lemma demo_heard_outputs: "fo_transcript_out demo_heard = [\<lparr> to_session_id = ''s'', to_text = ''red'', to_is_final = False \<rparr>]"
  unfolding demo_heard_def demo_forwarder_def by (simp add: demo_eval Let_def send_transcript_def)

definition quiet_gateway :: "unit app_state" where
  "quiet_gateway = initial_state (pairing_new id [] False []) () 0"

theorem transcripts_never_reach_channels_witness:
  "\<forall>am. \<exists>out st'. out \<in> set (fo_transcript_out demo_heard) \<and> to_session_id out = ''s'' \<and>
     forward_transcript am out quiet_gateway = Some st' \<and> channel_outbox st' = Map.empty"
proof
  fix am
  let ?out = "\<lparr> to_session_id = ''s'', to_text = ''red'', to_is_final = False \<rparr>"
  have "\<exists>st'. forward_transcript am ?out quiet_gateway = Some st'"
    by (simp add: forward_transcript_def forward_to_session_def quiet_gateway_def initial_state_def)
  then obtain st' where f: "forward_transcript am ?out quiet_gateway = Some st'" by blast
  have "on_events demo_forwarder_env [TextEvent ''red'' []]
      (forwarder_new demo_ad True ''u'' ''s'' (adapter_start (sample_service, Map.empty, ())) [([], DirNode)]) = Some demo_heard"
    using demo_hear by (simp add: demo_forwarder_def)
  from transcripts_never_reach_channels [OF this _ f] f show "\<exists>out st'. out \<in> set (fo_transcript_out demo_heard) \<and> to_session_id out = ''s'' \<and>
     forward_transcript am out quiet_gateway = Some st' \<and> channel_outbox st' = Map.empty"
    by (auto simp: demo_heard_outputs quiet_gateway_def initial_state_def)
qed

lemma demo_key: "artifact_key_of demo_forwarder (output_file demo_forwarder (TextEvent ''red'' [])) =
    \<lparr> ak_app_name = ''liveclaw'', ak_user_id = ''u'', ak_session_id = ''s'', ak_file_name = ''transcript-000001.txt'' \<rparr>"
proof -
  have "transcript_file 1 = ''transcript-000001.txt''" by code_simp
  then show ?thesis by (simp add: artifact_key_of_def output_file_def demo_forwarder_def forwarder_new_def)
qed

lemma demo_save: "\<exists>t. artifact_save (fe_faults demo_forwarder_env)
    (artifact_key_of demo_forwarder (output_file demo_forwarder (TextEvent ''red'' []))) (output_part (TextEvent ''red'' []))
    None (fo_tree demo_forwarder) = (Inr 1, t)"
proof -
  have "fst (artifact_save (\<lambda>_ _. None)
    \<lparr> ak_app_name = ''liveclaw'', ak_user_id = ''u'', ak_session_id = ''s'', ak_file_name = ''transcript-000001.txt'' \<rparr>
    (TextPart ''red'') None [([], DirNode)]) = Inr 1" by code_simp
  moreover have "fe_faults demo_forwarder_env = (\<lambda>_ _. None)" "fo_tree demo_forwarder = [([], DirNode)]"
    by (simp_all add: demo_forwarder_env_def demo_forwarder_def forwarder_new_def)
  ultimately show ?thesis unfolding demo_key by (simp add: output_part_def prod_eq_iff)
qed

theorem saved_outputs_stay_witness:
  "\<exists>fo. on_events demo_forwarder_env [TextEvent ''red'' [], AudioEvent [1] []] demo_forwarder = Some fo \<and>
     artifact_load (\<lambda>_ _. None)
       \<lparr> ak_app_name = ''liveclaw'', ak_user_id = ''u'', ak_session_id = ''s'', ak_file_name = ''transcript-000001.txt'' \<rparr>
       (Some 1) (fo_tree fo) = Inr (TextPart ''red'')"
proof -
  have 1: "on_event demo_forwarder_env (TextEvent ''red'' []) demo_forwarder = Some demo_heard" using demo_hear by simp
  obtain fo where fo: "on_events demo_forwarder_env [AudioEvent [1] []] demo_heard = Some fo" by (simp add: on_audio_def)
  obtain t where t: "artifact_save (fe_faults demo_forwarder_env)
    (artifact_key_of demo_forwarder (output_file demo_forwarder (TextEvent ''red'' []))) (output_part (TextEvent ''red'' []))
    None (fo_tree demo_forwarder) = (Inr 1, t)" using demo_save by blast
  from saved_outputs_stay [OF _ 1 fo _ t] fo 1 show ?thesis by (simp add: demo_key) (simp add: output_part_def)
qed


definition demo_session :: "demo_world realtime_session" where
  "demo_session = \<lparr> rt_connection = \<lparr> cs_kind = Native, cs_session_id = ''s'', cs_image = [], cs_api_key = [], cs_model = [],
       cs_voice = [], cs_instructions = None, cs_base_url = None, cs_tool_names = [] \<rparr>,
     rt_user_id = ''u'', rt_role = ''readonly'', rt_tools = [], rt_graph_enabled = False, rt_graph_recursion_limit = 1, rt_shutdown = False \<rparr>"

definition demo_live :: "demo_world adapter" where
  "demo_live = adapter_start (sample_service, Map.empty, ()) \<lparr> ap_sessions := [''s'' \<mapsto> demo_session],
     ap_memory_entries := [''s'' \<mapsto> [transcript_entry 1 ''old'']] \<rparr>"

theorem late_text_replaces_memory_witness:
  "\<exists>fo'. on_text demo_forwarder_env ''red'' (demo_forwarder \<lparr> fo_adapter := snd (terminate_session demo_memory_env demo_ad ''s'' demo_live) \<rparr>)
      = Some fo' \<and> ap_sessions (fo_adapter fo') ''s'' = None \<and> ap_memory_entries (fo_adapter fo') ''s'' \<noteq> None"
proof -
  let ?fo = "demo_forwarder \<lparr> fo_adapter := snd (terminate_session demo_memory_env demo_ad ''s'' demo_live) \<rparr>"
  have live: "ap_sessions demo_live ''s'' = Some demo_session" by (simp add: demo_live_def)
  then have "ap_memory_entries (fo_adapter ?fo) ''s'' = None" using terminate_session_memory [of demo_live "''s''"] by simp
  then have "on_text demo_forwarder_env ''red'' ?fo \<noteq> None"
    by (simp add: on_text_def persist_transcript_memory_def persist_local_def Let_def on_world_def split_def unwrap_or_def
        demo_forwarder_env_def demo_memory_env_def)
  then obtain fo' where fo': "on_text demo_forwarder_env ''red'' ?fo = Some fo'" by blast
  from late_text_replaces_memory [OF live _ _ _ fo', of demo_memory_env demo_ad] fo' show ?thesis by auto
qed

end
