(* ===== verification/Plugins.thy ===== *)
theory Plugins
  imports Security Transcripts Graph_Tools
begin

section \<open>The plugins\<close>

text \<open>
  \<open>liveclaw-app/src/plugins.rs\<close>, and the agent of \<open>liveclaw-app/src/agent.rs\<close> with its callbacks: the hooks that
  the runner's library calls around a turn. A hook is its function here; when the library calls which hook is the
  library's. A compiled regular expression is what the program asks of it, whether it matches a text and the text with
  every match replaced; the Unicode \<open>to_lowercase\<close> is a function \<open>lower\<close>.
\<close>

subsection \<open>Redaction\<close>

record pii_regex =
  rx_is_match :: "string \<Rightarrow> bool"
  rx_replace_all :: "string \<Rightarrow> string \<Rightarrow> string"

text \<open>The patterns for an email address, a phone number, a social security number, a credit card and an IP address.\<close>

definition backslash :: string where
  "backslash = [CHR 0x5C]"

definition pii_pattern_texts :: "string list" where
  "pii_pattern_texts = (let b = backslash @ ''b''; d = backslash @ ''d''; dot = backslash @ ''.'' in
     [b @ ''[A-Za-z0-9._%+-]+@[A-Za-z0-9.-]+'' @ dot @ ''[A-Z|a-z]{2,}'' @ b,
      b @ d @ ''{3}[-.]?'' @ d @ ''{3}[-.]?'' @ d @ ''{4}'' @ b,
      b @ d @ ''{3}-'' @ d @ ''{2}-'' @ d @ ''{4}'' @ b,
      b @ d @ ''{4}[-'' @ backslash @ ''s]?'' @ d @ ''{4}[-'' @ backslash @ ''s]?'' @ d @ ''{4}[-'' @ backslash @ ''s]?'' @
        d @ ''{4}'' @ b,
      b @ d @ ''{1,3}'' @ dot @ d @ ''{1,3}'' @ dot @ d @ ''{1,3}'' @ dot @ d @ ''{1,3}'' @ b])"

definition build_pii_patterns :: "(string \<Rightarrow> pii_regex) \<Rightarrow> pii_regex list" where
  "build_pii_patterns compile = map compile pii_pattern_texts"

definition redact_pii :: "string \<Rightarrow> pii_regex list \<Rightarrow> string" where
  "redact_pii t patterns = foldl (\<lambda>redacted pattern. rx_replace_all pattern redacted ''[REDACTED]'') t patterns"

definition text_matches :: "pii_regex list \<Rightarrow> part \<Rightarrow> bool" where
  "text_matches patterns part =
     (case part_text part of None \<Rightarrow> False | Some t \<Rightarrow> list_ex (\<lambda>p. rx_is_match p t) patterns)"

definition redact_part :: "pii_regex list \<Rightarrow> part \<Rightarrow> part" where
  "redact_part patterns part =
     (case part_text part of None \<Rightarrow> part | Some t \<Rightarrow> TextPart (redact_pii t patterns))"

text \<open>The hook on an event: a changed event, or nothing.\<close>

definition pii_on_event :: "pii_regex list \<Rightarrow> session_event \<Rightarrow> session_event option" where
  "pii_on_event patterns event =
     (case se_content event of
        None \<Rightarrow> None
      | Some content \<Rightarrow>
          (if list_ex (text_matches patterns) (co_parts content)
           then Some (event \<lparr> se_content := Some (content \<lparr> co_parts := map (redact_part patterns) (co_parts content) \<rparr>) \<rparr>)
           else None))"

subsection \<open>The other hooks\<close>

definition autosave_after_run ::
  "(string \<Rightarrow> string \<Rightarrow> string \<Rightarrow> memory_entry list \<Rightarrow> 'w \<Rightarrow> unit result \<times> 'w) \<Rightarrow> int \<Rightarrow> string \<Rightarrow> 'w \<Rightarrow> 'w" where
  "autosave_after_run add_session now session_id w =
     (let summary = session_id
      in if summary = [] then w
         else snd (add_session ''liveclaw'' ''system'' summary
           [\<lparr> me_content = text_content ''assistant'' summary, me_author = ''system'', me_timestamp = now \<rparr>] w))"

fun first_blocked :: "(string \<Rightarrow> string) \<Rightarrow> string \<Rightarrow> string list \<Rightarrow> string option" where
  "first_blocked lower t [] = None"
| "first_blocked lower t (keyword # keywords) =
     (if str_contains (lower t) (lower keyword) then Some keyword else first_blocked lower t keywords)"

definition guardrail_on_user_message :: "(string \<Rightarrow> string) \<Rightarrow> string list \<Rightarrow> content \<Rightarrow> content option result" where
  "guardrail_on_user_message lower blocked_keywords msg =
     (case first_blocked lower (join_with '' '' (List.map_filter part_text (co_parts msg))) blocked_keywords of
        Some keyword \<Rightarrow> Inl (''Blocked content detected: '' @ keyword)
      | None \<Rightarrow> Inr None)"

definition rate_limit_on_user_message :: "string \<Rightarrow> rate_limiter \<Rightarrow> content option result \<times> rate_limiter" where
  "rate_limit_on_user_message session_id rl =
     (case check_and_increment rl session_id of
        (True, rl) \<Rightarrow> (Inr None, rl)
      | (False, rl) \<Rightarrow> (Inl (''Rate limit exceeded for session '' @ session_id), rl))"

subsection \<open>The manager\<close>

record plugin_runtime_config =
  pr_enable_pii_redaction :: bool
  pr_enable_memory_autosave :: bool
  pr_rate_limit_per_session :: "32 word"

definition plugin_runtime_default :: plugin_runtime_config where
  "plugin_runtime_default = \<lparr> pr_enable_pii_redaction = True, pr_enable_memory_autosave = True, pr_rate_limit_per_session = 100 \<rparr>"

datatype plugin = RateLimit rate_limiter | PiiRedactor "pii_regex list" | MemoryAutosave | Guardrail "string list"

definition build_plugin_manager :: "plugin_runtime_config \<Rightarrow> pii_regex list \<Rightarrow> string list \<Rightarrow> plugin list" where
  "build_plugin_manager cfg pii_patterns blocked_keywords =
     [RateLimit (rate_limiter_new (max (pr_rate_limit_per_session cfg) 1))] @
     (if pr_enable_pii_redaction cfg then [PiiRedactor pii_patterns] else []) @
     (if pr_enable_memory_autosave cfg then [MemoryAutosave] else []) @
     [Guardrail blocked_keywords]"

subsection \<open>The outputs of the agent\<close>

text \<open>What the callbacks of the agent send to its two channels.\<close>

definition agent_on_audio :: "bytes \<Rightarrow> bytes list \<Rightarrow> bytes list" where
  "agent_on_audio audio_data sent = sent @ [audio_data]"

definition agent_on_transcript :: "string \<Rightarrow> (string \<times> bool) list \<Rightarrow> (string \<times> bool) list" where
  "agent_on_transcript t sent = sent @ [(t, True)]"

text \<open>
  The agent: what is given to the library's builder, whose answer is a parameter, as is the access control around a
  tool. The callbacks that only log are left out.
\<close>

record agent_voice_config =
  av_provider :: string
  av_api_key :: string
  av_model :: string
  av_voice :: "string option"
  av_instructions :: "string option"
  av_audio_format :: string

record 'w agent_spec =
  as_name :: string
  as_instruction :: string
  as_voice :: string
  as_server_vad :: bool
  as_before_tool :: "string \<Rightarrow> string list \<Rightarrow> rate_limiter \<Rightarrow> unit result \<times> rate_limiter"
  as_on_audio :: "bytes \<Rightarrow> bytes list \<Rightarrow> bytes list"
  as_on_transcript :: "string \<Rightarrow> (string \<times> bool) list \<Rightarrow> (string \<times> bool) list"
  as_tools :: "'w tools"

definition build_realtime_agent ::
  "('w agent_spec \<Rightarrow> 'a result) \<Rightarrow> (string \<Rightarrow> 'w tool \<Rightarrow> 'w tool) \<Rightarrow> agent_voice_config \<Rightarrow> 'w tools \<Rightarrow> 'a result" where
  "build_realtime_agent build protect config tools =
     (let protected_tools = map (\<lambda>(name, tool). (name, protect name tool)) tools
      in build \<lparr> as_name = ''voice_assistant'', as_instruction = unwrap_or (av_instructions config) [],
           as_voice = unwrap_or (av_voice config) ''alloy'', as_server_vad = True,
           as_before_tool = (\<lambda>session_id texts rl. before_tool_callback rl session_id texts),
           as_on_audio = agent_on_audio, as_on_transcript = agent_on_transcript,
           as_tools = protected_tools \<rparr>)"

subsection \<open>Facts\<close>

text \<open>What the library says of replacing: a text without a match is left alone.\<close>

definition regex_contract :: "pii_regex list \<Rightarrow> bool" where
  "regex_contract patterns \<longleftrightarrow> (\<forall>p \<in> set patterns. \<forall>t r. \<not> rx_is_match p t \<longrightarrow> rx_replace_all p t r = t)"

lemma redact_unmatched:
  "regex_contract patterns \<Longrightarrow> \<not> list_ex (\<lambda>p. rx_is_match p t) patterns \<Longrightarrow> redact_pii t patterns = t"
  unfolding redact_pii_def by (induction patterns) (auto simp: regex_contract_def)

lemma redact_part_unmatched: "regex_contract patterns \<Longrightarrow> \<not> text_matches patterns part \<Longrightarrow> redact_part patterns part = part"
  by (cases part) (simp_all add: redact_part_def text_matches_def part_text_def redact_unmatched)

lemma first_blocked_None: "first_blocked lower t ks = None \<longleftrightarrow> (\<forall>k \<in> set ks. \<not> str_contains (lower t) (lower k))"
  by (induction ks) auto

lemma first_blocked_Some:
  "first_blocked lower t ks = Some k \<Longrightarrow> \<exists>before later. ks = before @ k # later \<and> str_contains (lower t) (lower k) \<and>
     (\<forall>k' \<in> set before. \<not> str_contains (lower t) (lower k'))"
proof (induction ks)
  case (Cons a ks)
  show ?case
  proof (cases "str_contains (lower t) (lower a)")
    case True
    with Cons.prems show ?thesis by (intro exI [of _ "[]"] exI [of _ ks]) simp
  next
    case False
    with Cons obtain before later where "ks = before @ k # later" "str_contains (lower t) (lower k)"
      "\<forall>k' \<in> set before. \<not> str_contains (lower t) (lower k')" by auto
    with False show ?thesis by (intro exI [of _ "a # before"] exI [of _ later]) simp
  qed
qed simp

subsection \<open>Properties\<close>

text \<open>The shortcut of the redaction changes nothing: passing an event on when no text of it matches gives the same
  event as redacting every text of it, and nothing but the texts of an event is ever changed.\<close>

theorem redaction_shortcut_exact:
  assumes "regex_contract patterns"
  shows "(case pii_on_event patterns event of Some event' \<Rightarrow> event' | None \<Rightarrow> event) =
    event \<lparr> se_content := map_option (\<lambda>c. c \<lparr> co_parts := map (redact_part patterns) (co_parts c) \<rparr>) (se_content event) \<rparr>"
proof (cases "se_content event")
  case None
  then show ?thesis by (simp add: pii_on_event_def)
next
  case (Some c)
  show ?thesis
  proof (cases "list_ex (text_matches patterns) (co_parts c)")
    case True
    with Some show ?thesis by (simp add: pii_on_event_def)
  next
    case False
    then have "map (redact_part patterns) (co_parts c) = co_parts c"
      using redact_part_unmatched [OF assms] by (intro map_idI) (auto simp: list_ex_iff)
    with Some False show ?thesis by (simp add: pii_on_event_def)
  qed
qed

text \<open>The guardrail refuses a message exactly when some keyword occurs in its texts, joined by blanks and without
  regard to case, and names the first such keyword of its list.\<close>

theorem guardrail_exact:
  "(guardrail_on_user_message lower ks msg = Inr None \<longleftrightarrow>
     (\<forall>k \<in> set ks. \<not> (\<exists>a b. lower (join_with '' '' (List.map_filter part_text (co_parts msg))) = a @ lower k @ b))) \<and>
   (\<forall>e. guardrail_on_user_message lower ks msg = Inl e \<longrightarrow>
     (\<exists>before k later. ks = before @ k # later \<and> e = ''Blocked content detected: '' @ k \<and>
        (\<forall>k' \<in> set before. guardrail_on_user_message lower [k'] msg = Inr None)))"
proof -
  let ?t = "join_with '' '' (List.map_filter part_text (co_parts msg))"
  have one: "guardrail_on_user_message lower ks msg = Inr None \<longleftrightarrow> (\<forall>k \<in> set ks. \<not> str_contains (lower ?t) (lower k))" for ks
    by (cases "first_blocked lower ?t ks") (simp_all add: guardrail_on_user_message_def flip: first_blocked_None)
  have "\<exists>before k later. ks = before @ k # later \<and> e = ''Blocked content detected: '' @ k \<and>
      (\<forall>k' \<in> set before. guardrail_on_user_message lower [k'] msg = Inr None)"
    if e: "guardrail_on_user_message lower ks msg = Inl e" for e
  proof -
    obtain k where k: "first_blocked lower ?t ks = Some k" "e = ''Blocked content detected: '' @ k"
      using e by (auto simp: guardrail_on_user_message_def split: option.splits)
    from first_blocked_Some [OF k(1)] k(2) show ?thesis by (auto simp: one)
  qed
  then show ?thesis unfolding one str_contains_infix by blast
qed

subsection \<open>Witnesses\<close>

definition digit_regex :: pii_regex where
  "digit_regex = \<lparr> rx_is_match = list_ex is_dec_digit,
     rx_replace_all = (\<lambda>t r. if list_ex is_dec_digit t then r else t) \<rparr>"

theorem redaction_shortcut_exact_witness:
  "pii_on_event [digit_regex] \<lparr> se_author = [], se_timestamp = 0, se_content = Some (text_content ''user'' ''7''), se_compaction = None \<rparr> =
     Some \<lparr> se_author = [], se_timestamp = 0, se_content = Some (text_content ''user'' ''[REDACTED]''), se_compaction = None \<rparr>"
proof -
  let ?ev = "\<lparr> se_author = [], se_timestamp = 0, se_content = Some (text_content ''user'' ''7''), se_compaction = None \<rparr>"
  have "pii_on_event [digit_regex] ?ev \<noteq> None" by code_simp
  moreover have "redact_part [digit_regex] (TextPart ''7'') = TextPart ''[REDACTED]''" by code_simp
  moreover have "regex_contract [digit_regex]" by (simp add: regex_contract_def digit_regex_def)
  ultimately show ?thesis using redaction_shortcut_exact [of "[digit_regex]" ?ev] by (auto simp: text_content_def)
qed

theorem guardrail_exact_witness:
  "guardrail_on_user_message to_ascii_lowercase [''BOMB''] (text_content ''user'' ''a bomb'') \<noteq> Inr None"
proof
  assume "guardrail_on_user_message to_ascii_lowercase [''BOMB''] (text_content ''user'' ''a bomb'') = Inr None"
  then have "\<not> (\<exists>a b. to_ascii_lowercase (join_with '' '' (List.map_filter part_text (co_parts (text_content ''user'' ''a bomb'')))) =
      a @ to_ascii_lowercase ''BOMB'' @ b)"
    using guardrail_exact [of to_ascii_lowercase "[''BOMB'']" "text_content ''user'' ''a bomb''"] by (meson list.set_intros(1))
  moreover have "to_ascii_lowercase (join_with '' '' (List.map_filter part_text (co_parts (text_content ''user'' ''a bomb'')))) =
      ''a '' @ to_ascii_lowercase ''BOMB'' @ []" by code_simp
  ultimately show False by blast
qed

end
