(* ===== verification/Admission.thy ===== *)
theory Admission
  imports System
begin

section \<open>Who gets in\<close>

text \<open>
  The pairing guard and the gateway of \<open>liveclaw-gateway/src/server.rs\<close> together: a principal comes into the
  gateway only through the guard. The lemmas follow the guard, the owners of sessions and the owners of job tasks
  through every handler; the properties say that whoever owns something in a reachable state holds a token
  that pairing gave out, and that pairing gives one out only for the code.
\<close>

subsection \<open>What a handler does for its principal\<close>

text \<open>A handler acts for a principal when it leaves the guard alone, and every session and every job it adds is
  owned by that principal.\<close>

definition acts_for :: "string option \<Rightarrow> 'r app_state \<Rightarrow> 'r app_state \<Rightarrow> bool" where
  "acts_for q st st' \<longleftrightarrow> st_pairing st' = st_pairing st \<and>
     (\<forall>s p. session_owners st' s = Some p \<longrightarrow> session_owners st s = Some p \<or> q = Some p) \<and>
     (\<forall>j t. job_tasks st' j = Some t \<longrightarrow>
        (\<exists>t0. job_tasks st j = Some t0 \<and> jt_owner_principal_id t0 = jt_owner_principal_id t) \<or>
        q = Some (jt_owner_principal_id t))"

lemma acts_for_same [simp]:
  "st_pairing st' = st_pairing st \<Longrightarrow> session_owners st' = session_owners st \<Longrightarrow> job_tasks st' = job_tasks st \<Longrightarrow>
   acts_for q st st'"
  by (simp add: acts_for_def)

lemma acts_for_fewer:
  "st_pairing st' = st_pairing st \<Longrightarrow> session_owners st' \<subseteq>\<^sub>m session_owners st \<Longrightarrow> job_tasks st' = job_tasks st \<Longrightarrow>
   acts_for q st st'"
  unfolding acts_for_def map_le_def by (metis domI)

lemma acts_for_trans:
  assumes "acts_for q a b" "acts_for q b c"
  shows "acts_for q a c"
  using assms unfolding acts_for_def by metis

lemma with_access_acts:
  assumes "\<And>st conn. acts_for q st (fst (snd (f st conn)))"
  shows "acts_for q st (fst (snd (with_access sid st conn a b f)))"
proof -
  have *: "acts_for q st (fst (snd (f (bind_senders sid a b st) conn')))" for conn'
    using acts_for_trans [OF _ assms, where a = st and b = "bind_senders sid a b st"] by simp
  show ?thesis
    by (cases rule: authorize_cases [of conn sid st a b]) (simp_all add: with_access_def *)
qed

lemma terminate_acts: "acts_for q st (fst (snd (handle_terminate_session env sid st conn)))"
proof -
  have "acts_for q st ((forget_session sid st) \<lparr> st_runner := r \<rparr>)" for st :: "'a app_state" and r
    by (rule acts_for_fewer) (simp_all add: forget_session_def map_le_def)
  then show ?thesis unfolding handle_terminate_session_def
    by (intro with_access_acts) (auto simp: gw_simps Let_def split: sum.split)
qed

lemma chan_send_admission:
  assumes "chan_send c m st = (r, st')"
  shows "st_pairing st' = st_pairing st \<and> session_owners st' = session_owners st \<and> job_tasks st' = job_tasks st"
  using assms by (auto simp: chan_send_def split: option.splits if_splits)

lemma send_prompt_acts: "acts_for q st (fst (snd (send_prompt env sid t cr st conn)))"
  by (auto simp: send_prompt_def gw_simps split: sum.split)

lemma prompt_acts: "acts_for q st (fst (snd (handle_session_prompt env sid p cr st conn a b)))"
proof -
  have body: "acts_for q st (fst (snd (prompt_body env sid t cr st' conn c)))"
    if "st_pairing st' = st_pairing st" "session_owners st' = session_owners st" "job_tasks st' = job_tasks st"
    for t st' conn c
  proof -
    have same: "acts_for q st (fst (snd (send_prompt env sid t' cr st1 conn)))"
      if "st_pairing st1 = st_pairing st" "session_owners st1 = session_owners st" "job_tasks st1 = job_tasks st" for st1 t'
      by (rule acts_for_trans [OF acts_for_same [OF that] send_prompt_acts])
    show ?thesis
      using that by (auto simp: prompt_body_def no_wait_def gw_simps dest!: chan_send_admission intro!: same
          split: option.split sum.split prod.split send_outcome.split)
  qed
  show ?thesis
    by (cases rule: authorize_cases [of conn sid st "Some a" "Some b"])
      (simp_all add: handle_session_prompt_def Let_def body)
qed

lemma create_acts:
  "cn_principal_id conn = Some p \<Longrightarrow>
   acts_for (Some p) st (fst (snd (handle_create_session_internal env am config st conn a b)))"
  by (auto simp: handle_create_session_internal_def gw_simps Let_def acts_for_def split: sum.split)

lemma create_routed_acts:
  assumes "cn_principal_id conn = Some p"
  shows "acts_for (Some p) st (fst (snd (create_routed_session env am config k st conn a b)))"
  using create_acts [OF assms, of st env am config a b]
  by (auto simp: create_routed_session_def acts_for_def split: prod.split gateway_response.split)

lemma inbound_session_acts:
  assumes "cn_principal_id conn = Some p"
  shows "acts_for (Some p) st (fst (snd (inbound_session env am request k st conn a b)))"
proof -
  have d: "acts_for (Some p) st (drop_mapped_session env k s st)" for s
    by (rule acts_for_fewer) (simp_all add: drop_mapped_session_def gw_simps Let_def map_le_def)
  have m: "acts_for (Some p) st (st \<lparr> channel_routes := x, session_channel_routes := y \<rparr>)" for x y
    by simp
  note c = create_routed_acts [OF assms]
  show ?thesis
    using c acts_for_trans [OF d c] acts_for_trans [OF m c]
    by (auto simp: inbound_session_def Let_def split: option.split)
qed

lemma inbound_acts:
  assumes "cn_principal_id conn = Some p"
  shows "acts_for (Some p) st (fst (snd (handle_channel_inbound env am request st conn a b)))"
proof -
  have f: "acts_for q st (fst (snd (forward_inbound env request r tx sid st conn)))" for q st r tx sid conn
    by (auto simp: forward_inbound_def gw_simps Let_def split: sum.split)
  have w: "acts_for (Some p) st (fst (snd (with_access sid (st' \<lparr> session_channel_routes := x \<rparr>) conn' a b
      (forward_inbound env request r tx sid))))" if "acts_for (Some p) st st'" for r tx sid st' conn' x
  proof (rule acts_for_trans [OF that])
    have "acts_for (Some p) st' (st' \<lparr> session_channel_routes := x \<rparr>)" by simp
    then show "acts_for (Some p) st' (fst (snd (with_access sid (st' \<lparr> session_channel_routes := x \<rparr>) conn' a b
      (forward_inbound env request r tx sid))))"
      by (rule acts_for_trans) (rule with_access_acts [OF f])
  qed
  have body: "acts_for (Some p) st (fst (snd (case inbound_session env am request k st conn a b of
         (Inl resp, st, conn) \<Rightarrow> (resp, st, conn)
       | (Inr sid, st, conn) \<Rightarrow>
           (let st = st \<lparr> session_channel_routes := (session_channel_routes st)(sid \<mapsto> k) \<rparr>
            in with_access sid st conn a b (forward_inbound env request r tx sid)))))" for k r tx
  proof (cases "inbound_session env am request k st conn a b")
    case (fields res st' conn')
    with inbound_session_acts [OF assms, of st env am request k a b] have "acts_for (Some p) st st'" by simp
    with fields w show ?thesis by (cases res) (simp_all add: Let_def)
  qed
  show ?thesis
    using body by (auto simp: handle_channel_inbound_def Let_def split: option.split sum.split)
qed

lemma jobs_act:
  "cn_principal_id conn = Some p \<Longrightarrow> acts_for (Some p) st (snd (handle_create_channel_job am req st conn))"
  "acts_for q st (snd (handle_cancel_channel_job jid st conn))"
  "acts_for q st (snd (handle_get_channel_outbound c a u m st conn))"
  "acts_for q st (snd (drain_channel_outbox st pr c a u m))"
  "acts_for q st (run_channel_job_stop jid st)"
  by (auto simp: handle_create_channel_job_def handle_cancel_channel_job_def drain_channel_outbox_def take_outbox_def
      handle_get_channel_outbound_def run_channel_job_stop_def cancel_task_def Let_def split_def acts_for_def
      split: option.split sum.split if_splits)

lemma others_act:
  "acts_for q st (snd (handle_priority_probe st conn a b))"
  "acts_for q st (snd (handle_get_diagnostics env st))"
  "acts_for q st (queue_channel_outbound_transcript am out st)"
  "acts_for q st (close_chan ch st)"
proof -
  show "acts_for q st (snd (handle_priority_probe st conn a b))"
    by (auto simp: handle_priority_probe_def Let_def dest!: chan_send_admission split: prod.split send_outcome.split)
qed (auto simp: handle_get_diagnostics_def queue_channel_outbound_transcript_def close_chan_def gw_simps Let_def
      split: option.split sum.split)

lemma tool_call_acts: "acts_for q st (fst (snd (handle_session_tool_call env sid n v st conn a b)))"
  unfolding handle_session_tool_call_def by (rule with_access_acts) (auto simp: gw_simps split: sum.split)

lemma session_message_acts:
  assumes "cn_principal_id conn = Some p"
  shows "acts_for (Some p) st (fst (snd (handle_session_message env am msg st conn a b)))"
  by (cases msg) (auto simp: handle_create_session_def create_acts [OF assms] terminate_acts prompt_acts tool_call_acts
      handle_session_audio_def handle_session_audio_commit_def handle_session_response_create_def
      handle_session_response_interrupt_def gw_simps
      split: option.split sum.split intro!: with_access_acts)

lemma message_acts:
  assumes "\<not> login_message msg" "conn_named conn" "handle_message env am msg st conn a b = (resp, st', conn')"
  shows "acts_for (cn_principal_id conn) st st'"
proof (cases "cn_authenticated conn")
  case True
  with assms(2) obtain p where p: "cn_principal_id conn = Some p" by (auto simp: conn_named_def)
  have "acts_for (Some p) st (fst (snd (handle_message env am msg st conn a b)))"
    using session_message_acts [OF p, of st env am msg a b] assms(1)
    by (cases msg) (auto simp: authenticated_only_def on_state_def login_message_def inbound_acts [OF p] jobs_act(1) [OF p]
        jobs_act others_act split_def simp del: handle_session_message.simps)
  with assms(3) p show ?thesis by simp
next
  case False
  then have "fst (snd (handle_message env am msg st conn a b)) = st"
    using assms(1) by (cases msg) (simp_all add: authenticated_only_def login_message_def)
  with assms(3) show ?thesis by simp
qed

text \<open>A login changes the guard by one attempt at most.\<close>

lemma login_guard:
  assumes "login_message msg" "handle_message env am msg st conn a b = (resp, st', conn')"
  shows "st_pairing st' = st_pairing st \<or> (\<exists>code. msg = PairMsg code \<and>
    st_pairing st' = snd (try_pair (ev_sha env) (am_now am) (am_now_later am) (am_uuid am) (st_pairing st) code))"
proof (cases msg)
  case (PairMsg code)
  with assms(2) have "st' = fst (snd (handle_pair env am code st conn))" by (auto simp: no_wait_def)
  then show ?thesis using handle_pair_parts(1) [of env am code st conn] PairMsg by simp
next
  case (Authenticate t)
  with assms(2) have "st' = st" by (auto simp: no_wait_def handle_authenticate_def Let_def split: if_splits)
  then show ?thesis by simp
qed (use assms(1) in \<open>simp_all add: login_message_def\<close>)

subsection \<open>Admitted principals\<close>

text \<open>A principal is admitted by a guard that accepts its token; the name of all clients is, when the guard accepts
  the empty one.\<close>

definition admitted :: "sha \<Rightarrow> pairing_guard \<Rightarrow> string \<Rightarrow> bool" where
  "admitted sha g p \<longleftrightarrow> p = ''anonymous'' \<and> is_authenticated sha g [] \<or>
     (\<exists>token. is_authenticated sha g token \<and> p = principal_from_token sha token)"

lemma admitted_mono:
  assumes "\<And>t. is_authenticated sha g t \<Longrightarrow> is_authenticated sha g' t" "admitted sha g p"
  shows "admitted sha g' p"
  using assms unfolding admitted_def by blast

lemma login_admitted:
  assumes "login_message msg" "handle_message env am msg st conn a b = (resp, st', conn')"
    and "cn_principal_id conn' = Some p"
  shows "cn_principal_id conn = Some p \<or> admitted (ev_sha env) (st_pairing st') p"
proof (cases msg)
  case (PairMsg code)
  obtain res g where t: "try_pair (ev_sha env) (am_now am) (am_now_later am) (am_uuid am) (st_pairing st) code = (res, g)"
    by fastforce
  from PairMsg assms(2) t have "st_pairing st' = g" "conn' = snd (snd (handle_pair env am code st conn))"
    using handle_pair_parts(1) [of env am code st conn] by (auto simp: no_wait_def)
  moreover have "is_authenticated (ev_sha env) g token" if "res = Inr (Some token)" for token
    using pair_once_issues [of "ev_sha env" "st_pairing st" "(am_now am, am_now_later am, am_uuid am, code)" token g] t that
    by simp
  moreover have "is_authenticated (ev_sha env) g []" if "res = Inr None"
    using t that by (auto simp: try_pair_def is_authenticated_def Let_def split: if_splits option.splits)
  ultimately show ?thesis
    using assms(3) t by (auto simp: handle_pair_def admitted_def Let_def split: sum.splits option.splits if_splits)
next
  case (Authenticate t)
  with assms(2,3) show ?thesis
    by (auto simp: no_wait_def handle_authenticate_def admitted_def Let_def split: if_splits)
qed (use assms(1) in \<open>simp_all add: login_message_def\<close>)

text \<open>Where a principal stands in the world: it owns a session or a job, or is a connection's.\<close>

definition present :: "'r world \<Rightarrow> string \<Rightarrow> bool" where
  "present w p \<longleftrightarrow> (\<exists>s. session_owners (wo_state w) s = Some p) \<or>
     (\<exists>j t. job_tasks (wo_state w) j = Some t \<and> jt_owner_principal_id t = p) \<or>
     (\<exists>i t. wo_conns w i = Some t \<and> cn_principal_id (wt_conn t) = Some p)"

definition all_admitted :: "'r env \<Rightarrow> 'r world \<Rightarrow> bool" where
  "all_admitted env w \<longleftrightarrow> (\<forall>i t. wo_conns w i = Some t \<longrightarrow> conn_named (wt_conn t)) \<and>
     (\<forall>p. present w p \<longrightarrow> admitted (ev_sha env) (st_pairing (wo_state w)) p)"

text \<open>A step of somebody admitted, after which the connections are old ones or ones of admitted principals.\<close>

lemma all_admitted_step:
  assumes "all_admitted env w" "\<And>p. q = Some p \<Longrightarrow> admitted (ev_sha env) (st_pairing (wo_state w)) p"
    and "acts_for q (wo_state w) st"
    and "\<And>i t. conns i = Some t \<Longrightarrow> conn_named (wt_conn t)"
    and "\<And>i t p. conns i = Some t \<Longrightarrow> cn_principal_id (wt_conn t) = Some p \<Longrightarrow>
      present w p \<or> admitted (ev_sha env) (st_pairing (wo_state w)) p"
  shows "all_admitted env \<lparr> wo_state = st, wo_conns = conns \<rparr>"
proof -
  have old: "present w p \<Longrightarrow> admitted (ev_sha env) (st_pairing (wo_state w)) p" for p
    using assms(1) by (simp add: all_admitted_def)
  have "admitted (ev_sha env) (st_pairing (wo_state w)) p" if "present \<lparr> wo_state = st, wo_conns = conns \<rparr> p" for p
  proof -
    from that consider (owner) s where "session_owners st s = Some p"
      | (job) j t where "job_tasks st j = Some t" "jt_owner_principal_id t = p"
      | (conn) i t where "conns i = Some t" "cn_principal_id (wt_conn t) = Some p"
      by (auto simp: present_def)
    then have "present w p \<or> q = Some p \<or> admitted (ev_sha env) (st_pairing (wo_state w)) p"
      using assms(3,5) by cases (unfold acts_for_def present_def, blast+)
    then show ?thesis using old assms(2) by blast
  qed
  moreover have "st_pairing st = st_pairing (wo_state w)" using assms(3) by (simp add: acts_for_def)
  ultimately show ?thesis using assms(4) by (simp add: all_admitted_def)
qed

text \<open>A request acts for the principal of its token, or for nobody.\<close>

lemma request_principal_admitted:
  "authenticate_http_principal env token st = Inr p \<Longrightarrow> admitted (ev_sha env) (st_pairing st) p"
  by (auto simp: authenticate_http_principal_def admitted_def split: if_splits option.splits)

lemma supervised_acts:
  assumes "request_principal env auth query st = Inr q"
  shows "acts_for (Some q) st (snd (channel_webhook_supervised_action_handler env am a b auth query payload st))"
proof -
  let ?conn = "http_connection (extract_channel_token auth query) q"
  obtain resp st1 conn1 where
    i: "handle_channel_inbound env am (supervised_inbound query payload) st ?conn None None = (resp, st1, conn1)"
    by (metis prod_cases3)
  have g: "acts_for (Some q) st st1"
    using inbound_acts [of ?conn q st env am "supervised_inbound query payload" None None] i by simp
  have "acts_for (Some q) st (close_chan x (close_chan y (fst (snd
      (handle_session_tool_call env sid n v (st1 \<lparr> chans := c \<rparr>) conn1 a b)))))" for x y sid n v c
  proof (rule acts_for_trans [OF g])
    show "acts_for (Some q) st1 (close_chan x (close_chan y (fst (snd
      (handle_session_tool_call env sid n v (st1 \<lparr> chans := c \<rparr>) conn1 a b)))))"
      using tool_call_acts [of "Some q" "st1 \<lparr> chans := c \<rparr>" env sid n v conn1 a b]
      by (simp add: acts_for_def close_chan_def)
  qed
  with assms i g show ?thesis
    by (cases resp) (simp_all add: channel_webhook_supervised_action_handler_def Let_def split_def)
qed

lemma request_acts:
  "acts_for (case request_principal env auth query st of Inr q \<Rightarrow> Some q | Inl _ \<Rightarrow> None) st
     (snd (route_request env am a b auth query req st))"
proof (cases "request_principal env auth query st")
  case (Inl e)
  have "snd (route_request env am a b auth query req st) = st"
    using Inl by (cases req) (auto simp: answer_or_route_def handle_channel_http_route_def channel_webhook_handler_def
      channel_outbound_poll_handler_def handle_channel_http_outbound_poll_def channel_job_create_handler_def
      handle_channel_http_create_job_def channel_job_cancel_handler_def handle_channel_http_cancel_job_def
      channel_webhook_supervised_action_handler_def Let_def split: sum.split)
  then show ?thesis by simp
next
  case (Inr q)
  have r: "acts_for (Some q) st (snd (answer_or_route env am auth query asked st))" for asked
    using Inr inbound_acts [of "http_connection (extract_channel_token auth query) q" q st env am]
    by (auto simp: answer_or_route_def handle_channel_http_route_def split_def Let_def split: sum.split)
  have d: "acts_for (Some q) st (snd (channel_outbound_poll_handler env auth query p st))" for p
    using Inr jobs_act(4) [of "Some q" st q "po_channel p" "po_account_id p" "po_external_user_id p" "po_max_items p"]
    by (auto simp: channel_outbound_poll_handler_def handle_channel_http_outbound_poll_def Let_def split_def split: sum.split)
  show ?thesis
    using Inr by (cases req) (auto simp: r d supervised_acts jobs_act channel_webhook_handler_def Let_def split_def
      channel_job_create_handler_def handle_channel_http_create_job_def channel_job_cancel_handler_def
      handle_channel_http_cancel_job_def)
qed

subsection \<open>The guard of a running gateway\<close>

text \<open>A text that a connection received and that is an attempt to pair.\<close>

definition attempted :: "(string \<Rightarrow> gateway_message result) \<Rightarrow> ws_frame list \<Rightarrow> ws_frame list \<Rightarrow> string \<Rightarrow> bool" where
  "attempted from_str frames rest code \<longleftrightarrow>
     (\<exists>txt. recv_message frames = (Some (Inr txt), rest) \<and> from_str txt = Inr (PairMsg code))"

lemma turn_guard:
  assumes "ws_turn env from_str am ok frames t st = (r, rest, t', st')" "conn_named (wt_conn t)"
  shows "st_pairing st' = st_pairing st \<or> (\<exists>code. attempted from_str frames rest code \<and>
    st_pairing st' = snd (try_pair (ev_sha env) (am_now am) (am_now_later am) (am_uuid am) (st_pairing st) code))"
proof -
  have quiet: "st_pairing s = st_pairing st" if "only_chans st s" for s
    using that by (auto simp: only_chans_def)
  show ?thesis
  proof (cases "chan_recv (wt_priority t) st")
    case (Some p)
    then have "only_chans st st'"
      using assms(1) chan_recv_only_chans [of "wt_priority t" st "fst p" "snd p"]
      by (auto simp: ws_turn_def split_def Let_def)
    then show ?thesis using quiet by blast
  next
    case None
    obtain f fs where rec: "recv_message frames = (f, fs)" by (cases "recv_message frames")
    consider (nothing) "f = None" | (closed) u where "f = Some (Inl u)" | (body) u where "f = Some (Inr u)"
      by (metis not_None_eq old.sum.exhaust)
    then show ?thesis
    proof cases
      case nothing
      with assms(1) None rec have "only_chans st st'"
        by (auto simp: ws_turn_def split_def Let_def intro: chan_recv_only_chans split: option.splits)
      then show ?thesis using quiet by blast
    next
      case closed
      with assms(1) None rec show ?thesis by (simp add: ws_turn_def)
    next
      case (body u)
      with assms(1) None rec have w: "ws_text env from_str am ok u t st = (r, t', st')" "rest = fs"
        by (simp_all add: ws_turn_def split: prod.splits)
      from ws_text_cases [OF w(1)] consider "st' = st"
        | msg resp where "handle_message env am msg st (wt_conn t) (wt_standard t) (wt_priority t) = (resp, st', wt_conn t')"
            "from_str u = Inr msg" by blast
      then show ?thesis
      proof cases
        case 2
        show ?thesis
        proof (cases "login_message msg")
          case True
          with login_guard [OF True 2(1)] rec body w(2) 2(2) show ?thesis unfolding attempted_def by blast
        next
          case False
          from message_acts [OF False assms(2) 2(1)] show ?thesis by (simp add: acts_for_def)
        qed
      qed simp
    qed
  qed
qed

text \<open>Only a login changes who a connection is.\<close>

definition same_login :: "connection_state \<Rightarrow> connection_state \<Rightarrow> bool" where
  "same_login conn conn' \<longleftrightarrow> cn_authenticated conn' = cn_authenticated conn \<and> cn_principal_id conn' = cn_principal_id conn"

lemma same_login_owned [simp]: "same_login conn conn" "same_login conn (conn \<lparr> cn_owned_sessions := x \<rparr>)"
  by (simp_all add: same_login_def)

lemma same_login_trans: "same_login a b \<Longrightarrow> same_login b c \<Longrightarrow> same_login a c"
  by (simp add: same_login_def)

lemma authorize_login: "same_login conn (snd (snd (authorize_session_access sid st conn a b)))"
  by (auto simp: authorize_session_access_def split: option.split)

lemma with_access_login:
  assumes "\<And>st conn. same_login conn (snd (snd (f st conn)))"
  shows "same_login conn (snd (snd (with_access sid st conn a b f)))"
proof (cases "authorize_session_access sid st conn a b")
  case (fields x st1 conn1)
  with authorize_login [of conn sid st a b] have "same_login conn conn1" by simp
  with same_login_trans [OF this assms, of st1] show ?thesis by (cases x) (simp_all add: with_access_def fields)
qed

lemma send_prompt_login: "snd (snd (send_prompt env sid t cr st conn)) = conn"
  by (auto simp: send_prompt_def split: sum.split prod.split)

lemma prompt_login: "same_login conn (snd (snd (handle_session_prompt env sid p cr st conn a b)))"
proof -
  have body: "snd (snd (prompt_body env sid t cr st conn c)) = conn" for t st conn c
    by (auto simp: prompt_body_def no_wait_def send_prompt_login split: option.split sum.split prod.split send_outcome.split)
  show ?thesis
    by (cases rule: authorize_cases [of conn sid st "Some a" "Some b"])
      (simp_all add: handle_session_prompt_def Let_def body)
qed

lemma create_login: "same_login conn (snd (snd (handle_create_session_internal env am config st conn a b)))"
  by (auto simp: handle_create_session_internal_def Let_def split: sum.split prod.split)

lemma inbound_session_login: "same_login conn (snd (snd (inbound_session env am request k st conn a b)))"
proof -
  have "same_login conn (snd (snd (create_routed_session env am config k st conn a b)))" for config st
    using create_login [of conn env am config st a b]
    by (auto simp: create_routed_session_def split: prod.split gateway_response.split)
  then show ?thesis by (auto simp: inbound_session_def Let_def split: option.split)
qed

lemma inbound_login: "same_login conn (snd (snd (handle_channel_inbound env am request st conn a b)))"
proof -
  have f: "same_login conn (snd (snd (forward_inbound env request r tx sid st conn)))" for r tx sid st conn
    by (auto simp: forward_inbound_def Let_def split: sum.split prod.split)
  have "same_login conn (snd (snd (case inbound_session env am request k st conn a b of
         (Inl resp, st, conn) \<Rightarrow> (resp, st, conn)
       | (Inr sid, st, conn) \<Rightarrow>
           (let st = st \<lparr> session_channel_routes := (session_channel_routes st)(sid \<mapsto> k) \<rparr>
            in with_access sid st conn a b (forward_inbound env request r tx sid)))))" for k r tx
  proof (cases "inbound_session env am request k st conn a b")
    case (fields res st' conn')
    with inbound_session_login [of conn env am request k st a b] have "same_login conn conn'" by simp
    with same_login_trans [OF this with_access_login [OF f]] show ?thesis by (cases res) (simp_all add: fields Let_def)
  qed
  then show ?thesis by (auto simp: handle_channel_inbound_def Let_def split: option.split sum.split)
qed

lemma session_message_login: "same_login conn (snd (snd (handle_session_message env am msg st conn a b)))"
  by (cases msg) (auto simp: handle_create_session_def create_login prompt_login handle_terminate_session_def
      handle_session_audio_def handle_session_audio_commit_def handle_session_response_create_def
      handle_session_response_interrupt_def handle_session_tool_call_def gw_simps Let_def
      split: option.split sum.split intro!: with_access_login)

lemma message_login:
  assumes "\<not> login_message msg" "handle_message env am msg st conn a b = (resp, st', conn')"
  shows "same_login conn conn'"
proof -
  have "same_login conn (snd (snd (handle_message env am msg st conn a b)))"
    using assms(1) session_message_login [of conn env am msg st a b]
    by (cases msg) (auto simp: authenticated_only_def on_state_def login_message_def inbound_login split_def
        simp del: handle_session_message.simps)
  with assms(2) show ?thesis by simp
qed

text \<open>A turn of a connection keeps everybody admitted.\<close>

lemma turn_admitted:
  assumes "all_admitted env w" "wo_conns w i = Some t"
    and "ws_turn env from_str am ok frames t (wo_state w) = (r, rest, t', st')"
  shows "all_admitted env \<lparr> wo_state = st', wo_conns = (wo_conns w)(i \<mapsto> t') \<rparr>"
proof -
  have named: "conn_named (wt_conn u)" if "wo_conns w j = Some u" for j u
    using assms(1) that by (auto simp: all_admitted_def)
  have here: "present w p" if "cn_principal_id (wt_conn u) = Some p" "wo_conns w j = Some u" for u p j
    using that unfolding present_def by blast
  have owned: "admitted (ev_sha env) (st_pairing (wo_state w)) p" if "present w p" for p
    using assms(1) that by (simp add: all_admitted_def)
  from assms(3) show ?thesis
  proof (cases rule: ws_turn_cases)
    case quiet
    have "acts_for None (wo_state w) st'" using quiet(1) by (auto simp: only_chans_def)
    then show ?thesis
      by (rule all_admitted_step [OF assms(1), of None, rotated])
        (use quiet(2) named here assms(2) in \<open>auto split: if_splits\<close>)
  next
    case (message msg resp)
    show ?thesis
    proof (cases "login_message msg")
      case False
      note acts = message_acts [OF False named [OF assms(2)] message(1)]
      have same: "cn_principal_id (wt_conn t') = cn_principal_id (wt_conn t)" "conn_named (wt_conn t')"
        using message_login [OF False message(1)] named [OF assms(2)] by (simp_all add: same_login_def conn_named_def)
      show ?thesis
        by (rule all_admitted_step [OF assms(1) _ acts])
          (use same named here owned assms(2) in \<open>auto split: if_splits\<close>)
    next
      case True
      obtain g where g: "st' = (wo_state w) \<lparr> st_pairing := g \<rparr>" using login_state(1) [OF True message(1)] by blast
      have more: "is_authenticated (ev_sha env) (st_pairing st') tok" if "is_authenticated (ev_sha env) (st_pairing (wo_state w)) tok" for tok
        using login_guard [OF True message(1)] that
          pair_once_keeps [of "ev_sha env" "st_pairing (wo_state w)" tok "(am_now am, am_now_later am, am_uuid am, c)" for c]
        by auto
      have "conn_named (wt_conn t')"
        using login_state(4) [OF True message(1)] named [OF assms(2)] by (auto simp: conn_named_def)
      moreover have "admitted (ev_sha env) (st_pairing st') p"
        if "present \<lparr> wo_state = st', wo_conns = (wo_conns w)(i \<mapsto> t') \<rparr> p" for p
      proof -
        have "present w p \<or> cn_principal_id (wt_conn t') = Some p"
          using that by (auto simp: present_def g split: if_splits)
        then have "present w p \<or> admitted (ev_sha env) (st_pairing st') p"
          using login_admitted [OF True message(1)] here assms(2) by blast
        then show ?thesis using owned admitted_mono [OF more] by blast
      qed
      ultimately show ?thesis using named by (auto simp: all_admitted_def)
    qed
  qed
qed

lemma step_admitted:
  assumes "gateway_step env from_str w w'" "all_admitted env w"
  shows "all_admitted env w'"
proof -
  have named: "conn_named (wt_conn u)" if "wo_conns w j = Some u" for j u
    using assms(2) that by (auto simp: all_admitted_def)
  have here: "present w p" if "wo_conns w j = Some u" "cn_principal_id (wt_conn u) = Some p" for u p j
    using that unfolding present_def by blast
  have owned: "admitted (ev_sha env) (st_pairing (wo_state w)) p" if "present w p" for p
    using assms(2) that by (simp add: all_admitted_def)
  have acted: "all_admitted env (w \<lparr> wo_state := st \<rparr>)"
    if "acts_for q (wo_state w) st" "\<And>p. q = Some p \<Longrightarrow> admitted (ev_sha env) (st_pairing (wo_state w)) p" for q st
  proof -
    have "w \<lparr> wo_state := st \<rparr> = \<lparr> wo_state = st, wo_conns = wo_conns w \<rparr>" by simp
    with all_admitted_step [OF assms(2) that(2,1), where conns = "wo_conns w"] named here show ?thesis by metis
  qed
  have gone: "all_admitted env \<lparr> wo_state = st2, wo_conns = (wo_conns w)(i := None) \<rparr>"
    if "all_admitted env \<lparr> wo_state = st, wo_conns = (wo_conns w)(i \<mapsto> t) \<rparr>" "acts_for None st st2" for st st2 i t
    by (rule all_admitted_step [OF that(1), of None])
      (use that named in \<open>auto simp: all_admitted_def present_def split: if_splits\<close>)
  show ?thesis
    using assms(1)
  proof cases
    case (connect i s p t st)
    have "admitted (ev_sha env) (st_pairing (wo_state w)) q" if "cn_principal_id (wt_conn t) = Some q" for q
      using connect(6) that by (auto simp: ws_open_def new_connection_def admitted_def Let_def split: if_splits)
    moreover have "acts_for None (wo_state w) st" "conn_named (wt_conn t)"
      using ws_open_parts(1,2) [OF connect(6)] by (auto simp: only_chans_def)
    ultimately show ?thesis
      unfolding connect(1) by (intro all_admitted_step [OF assms(2), of None]) (use named here in \<open>auto split: if_splits\<close>)
  next
    case (turn i t am ok frames r rest t' st)
    show ?thesis unfolding turn(1) by (rule turn_admitted [OF assms(2) turn(2,4)])
  next
    case (leave i t am ok frames rest t' st)
    have "acts_for None st (ws_cleanup t' st)" by (simp add: ws_cleanup_def close_chan_def Let_def)
    with turn_admitted [OF assms(2) leave(2,4)] show ?thesis unfolding leave(1) by (rule gone)
  next
    case (stick i t am ok frames rest t' st)
    from turn_admitted [OF assms(2) stick(2,4)] show ?thesis unfolding stick(1) by (rule gone) simp
  next
    case (audio out st)
    have "acts_for None (wo_state w) st"
      using audio(2) forward_only_chans unfolding forward_audio_def by (fastforce simp: only_chans_def)
    then show ?thesis unfolding audio(1) by (rule acted) simp
  next
    case (transcript am out st)
    then obtain st1 where "forward_to_session (to_session_id out)
        (TranscriptUpdate (to_session_id out) (to_text out) (to_is_final out)) (wo_state w) = Some st1"
      and st: "st = queue_channel_outbound_transcript am out st1" by (auto simp: forward_transcript_def)
    then have "acts_for None (wo_state w) st1" using forward_only_chans by (fastforce simp: only_chans_def)
    from acts_for_trans [OF this others_act(3)] show ?thesis unfolding transcript(1) st by (rule acted) simp
  next
    case (job am jid st)
    obtain q where "acts_for (Some q) (wo_state w) st" "present w q"
      using job(3)
    proof cases
      case (tick task)
      have "acts_for (Some (jt_owner_principal_id task)) (wo_state w) st"
        using inbound_acts [of "job_connection (jt_owner_principal_id task)" "jt_owner_principal_id task" "wo_state w" env am
          "job_request (jt_job task)" None None]
        unfolding tick(1) by (simp add: run_channel_job_tick_def split_def job_connection_def)
      moreover have "present w (jt_owner_principal_id task)" using tick(2) unfolding present_def by blast
      ultimately show thesis by (rule that)
    next
      case (stop task)
      have "acts_for (Some (jt_owner_principal_id task)) (wo_state w) st" unfolding stop(1) by (rule jobs_act(5))
      moreover have "present w (jt_owner_principal_id task)" using stop(2) unfolding present_def by blast
      ultimately show thesis by (rule that)
    qed
    then show ?thesis unfolding job(1) using owned by (intro acted [of "Some q"]) auto
  next
    case (request am a b auth query req resp st)
    then have "acts_for (case request_principal env auth query (wo_state w) of Inr q \<Rightarrow> Some q | Inl _ \<Rightarrow> None) (wo_state w) st"
      using request_acts [of env auth query "wo_state w" am a b req] by simp
    then show ?thesis
      unfolding request(1) by (rule acted) (auto split: sum.splits dest: request_principal_admitted)
  qed
qed

lemma step_guard:
  assumes "gateway_step env from_str w w'" "all_admitted env w"
  shows "st_pairing (wo_state w') = st_pairing (wo_state w) \<or>
    (\<exists>i t am ok frames r rest t' st' code. wo_conns w i = Some t \<and>
       ws_turn env from_str am ok frames t (wo_state w) = (r, rest, t', st') \<and> attempted from_str frames rest code \<and>
       st_pairing (wo_state w') = st_pairing st' \<and> st_pairing (wo_state w') =
         snd (pair_once (ev_sha env) (st_pairing (wo_state w)) (am_now am, am_now_later am, am_uuid am, code)))"
proof -
  have named: "conn_named (wt_conn u)" if "wo_conns w j = Some u" for j u
    using assms(2) that by (auto simp: all_admitted_def)
  have turned: ?thesis if "wo_conns w i = Some t" "ws_turn env from_str am ok frames t (wo_state w) = (r, rest, t', st')"
    "st_pairing (wo_state w') = st_pairing st'" for i t am ok frames r rest t' st'
    using turn_guard [OF that(2) named [OF that(1)]] that unfolding pair_once.simps by metis
  show ?thesis
    using assms(1)
  proof cases
    case (connect i s p t st)
    then show ?thesis using ws_open_parts(1) [OF connect(6)] by (auto simp: only_chans_def)
  next
    case (turn i t am ok frames r rest t' st)
    then show ?thesis by (intro turned [OF turn(2,4)]) simp
  next
    case (leave i t am ok frames rest t' st)
    then show ?thesis by (intro turned [OF leave(2,4)]) (simp add: ws_cleanup_def close_chan_def Let_def)
  next
    case (stick i t am ok frames rest t' st)
    then show ?thesis by (intro turned [OF stick(2,4)]) simp
  next
    case (audio out st)
    then show ?thesis using forward_only_chans unfolding forward_audio_def by (fastforce simp: only_chans_def)
  next
    case (transcript am out st)
    then obtain st1 where "forward_to_session (to_session_id out)
        (TranscriptUpdate (to_session_id out) (to_text out) (to_is_final out)) (wo_state w) = Some st1"
      and st: "st = queue_channel_outbound_transcript am out st1" by (auto simp: forward_transcript_def)
    then have "st_pairing st1 = st_pairing (wo_state w)" using forward_only_chans by (fastforce simp: only_chans_def)
    then show ?thesis using others_act(3) [of None st1 am out] by (simp add: transcript(1) st acts_for_def)
  next
    case (job am jid st)
    have "st_pairing st = st_pairing (wo_state w)"
      using job(3) inbound_acts [of "job_connection p" p "wo_state w" env am x None None for p x] jobs_act(5) [of None "wo_state w" jid]
      by cases (auto simp: run_channel_job_tick_def split_def job_connection_def acts_for_def)
    then show ?thesis by (simp add: job(1))
  next
    case (request am a b auth query req resp st)
    then show ?thesis using request_acts [of env auth query "wo_state w" am a b req] by (simp add: acts_for_def)
  qed
qed

lemma initial_admitted: "all_admitted env (initial_world pairing r now)"
  by (simp add: all_admitted_def present_def initial_world_def initial_state_def)

text \<open>In every reachable state the guard is the result of attempts to pair, and everybody is admitted.\<close>

lemma pair_run_snoc: "snd (pair_run sha g (as @ [a])) = snd (pair_once sha (snd (pair_run sha g as)) a)"
  by (induction as arbitrary: g) (simp_all add: Let_def split_def)

lemma reachable_guard:
  assumes "reachable env from_str (initial_world pairing r now) w"
  shows "all_admitted env w \<and> (\<exists>as. st_pairing (wo_state w) = snd (pair_run (ev_sha env) pairing as))"
  using assms
proof induction
  case start
  show ?case by (intro conjI initial_admitted exI [of _ "[]"]) (simp add: initial_world_def initial_state_def)
next
  case (step w w')
  then obtain as where as: "st_pairing (wo_state w) = snd (pair_run (ev_sha env) pairing as)" and adm: "all_admitted env w" by blast
  from step_guard [OF step(2) adm] obtain bs where "st_pairing (wo_state w') = snd (pair_run (ev_sha env) pairing bs)"
    using as pair_run_snoc by metis
  then show ?case using step_admitted [OF step(2) adm] by blast
qed

text \<open>The tokens of a guard grow only with the code.\<close>

lemma new_hash_needs_code:
  assumes "token_hashes (snd (try_pair sha now now' uuid g code)) \<noteq> token_hashes g"
  shows "pairing_code g = Some code \<and> \<not> locked g now \<and>
    token_hashes (snd (try_pair sha now now' uuid g code)) = token_hashes g @ [hash_token sha uuid]"
  using assms by (auto simp: try_pair_cases locked_def split: if_splits option.splits)

lemma reachable_code:
  assumes "reachable env from_str (initial_world (pairing_with_lockout sha uuid True [] limit dur) r now) w"
  shows "pairing_code (st_pairing (wo_state w)) = Some (generate_pairing_code uuid)"
  using reachable_guard [OF assms] pair_run_frame(2) [of "ev_sha env" "pairing_with_lockout sha uuid True [] limit dur"]
  by (auto simp: pairing_with_lockout_def pairing_new_def)

subsection \<open>Properties\<close>


text \<open>C7: A token is given out for the pairing code only. In every reachable state of a gateway started with
  pairing required and without tokens: a turn of a connection that adds a token received a text with the
  code of this start, found the guard outside a lockout at the time of the turn, and the one token it
  adds is the identifier drawn in that turn. And a step of the gateway adds a token only through such a
  turn, whose guard it takes over.\<close>

theorem grant_needs_the_code:
  assumes "reachable env from_str (initial_world (pairing_with_lockout sha uuid True [] limit dur) r now) w"
  shows "(\<forall>i t am ok frames e rest t' st'. wo_conns w i = Some t \<longrightarrow>
      ws_turn env from_str am ok frames t (wo_state w) = (e, rest, t', st') \<longrightarrow>
      token_hashes (st_pairing st') \<noteq> token_hashes (st_pairing (wo_state w)) \<longrightarrow>
        attempted from_str frames rest (generate_pairing_code uuid) \<and> \<not> locked (st_pairing (wo_state w)) (am_now am) \<and>
        token_hashes (st_pairing st') = token_hashes (st_pairing (wo_state w)) @ [hash_token (ev_sha env) (am_uuid am)]) \<and>
    (\<forall>w'. gateway_step env from_str w w' \<longrightarrow>
      token_hashes (st_pairing (wo_state w')) \<noteq> token_hashes (st_pairing (wo_state w)) \<longrightarrow>
        (\<exists>i t am ok frames e rest t' st'. wo_conns w i = Some t \<and>
          ws_turn env from_str am ok frames t (wo_state w) = (e, rest, t', st') \<and>
          st_pairing (wo_state w') = st_pairing st'))"
proof (intro conjI allI impI)
  have adm: "all_admitted env w" using reachable_guard [OF assms(1)] by blast
  fix i t am ok frames e rest t' st'
  assume turn: "wo_conns w i = Some t" "ws_turn env from_str am ok frames t (wo_state w) = (e, rest, t', st')"
    and new: "token_hashes (st_pairing st') \<noteq> token_hashes (st_pairing (wo_state w))"
  have "conn_named (wt_conn t)" using adm turn(1) by (auto simp: all_admitted_def)
  from turn_guard [OF turn(2) this] new obtain code where "attempted from_str frames rest code" and
    st': "st_pairing st' = snd (try_pair (ev_sha env) (am_now am) (am_now_later am) (am_uuid am) (st_pairing (wo_state w)) code)"
    by metis
  then show "attempted from_str frames rest (generate_pairing_code uuid)" "\<not> locked (st_pairing (wo_state w)) (am_now am)"
    "token_hashes (st_pairing st') = token_hashes (st_pairing (wo_state w)) @ [hash_token (ev_sha env) (am_uuid am)]"
    using new_hash_needs_code [OF new [unfolded st']] reachable_code [OF assms(1)] by simp_all
next
  fix w'
  assume step: "gateway_step env from_str w w'"
    and new: "token_hashes (st_pairing (wo_state w')) \<noteq> token_hashes (st_pairing (wo_state w))"
  have "all_admitted env w" using reachable_guard [OF assms(1)] by blast
  from step_guard [OF step this] new show "\<exists>i t am ok frames e rest t' st'. wo_conns w i = Some t \<and>
      ws_turn env from_str am ok frames t (wo_state w) = (e, rest, t', st') \<and> st_pairing (wo_state w') = st_pairing st'"
    by metis
qed

subsection \<open>Example\<close>

text \<open>A client connects and pairs.\<close>

definition any_code :: "string \<Rightarrow> gateway_message result" where
  "any_code s = Inr (PairMsg s)"

definition pairing_world :: "string list world" where
  "pairing_world = initial_world (pairing_with_lockout (ev_sha idle_env) ''zz'' True [] 2 10) [] 0"

definition pairing_connected :: "string list world" where
  "pairing_connected = \<lparr> wo_state = snd (ws_open idle_env 0 1 (wo_state pairing_world)),
     wo_conns = [0 \<mapsto> fst (ws_open idle_env 0 1 (wo_state pairing_world))] \<rparr>"

definition pairing_turn :: "turn_end \<times> ws_frame list \<times> ws_task \<times> string list app_state" where
  "pairing_turn = ws_turn idle_env any_code (idle_ambient ''tok'') True [FText ''000000'']
     (fst (ws_open idle_env 0 1 (wo_state pairing_world))) (wo_state pairing_connected)"

definition paired_world :: "string list world" where
  "paired_world = \<lparr> wo_state = snd (snd (snd pairing_turn)), wo_conns = [0 \<mapsto> fst (snd (snd pairing_turn))] \<rparr>"

lemma pairing_guard_sample: "st_pairing (wo_state pairing_world) = sample_guard"
  by (simp add: pairing_world_def initial_world_def initial_state_def sample_guard_def idle_env_def)

lemma pairing_connected_parts:
  "st_pairing (wo_state pairing_connected) = sample_guard"
  "chan_recv (wt_priority (fst (ws_open idle_env 0 1 (wo_state pairing_world)))) (wo_state pairing_connected) = None"
  using pairing_guard_sample
  by (simp_all add: pairing_connected_def ws_open_def chan_recv_def new_channel_def Let_def)

text \<open>A turn that pairs.\<close>

lemma paired_turn:
  assumes "chan_recv (wt_priority t) st = None"
    and "try_pair (\<lambda>b. b) 5 6 u (st_pairing st) code = (Inr (Some u), g)"
  shows "ws_turn idle_env any_code (idle_ambient u) True [FText code] t st =
    (GoesOn, [], t \<lparr> wt_conn := (wt_conn t) \<lparr> cn_authenticated := True, cn_token := Some u,
        cn_principal_id := Some (principal_from_token (\<lambda>b. b) u) \<rparr>, wt_sent := wt_sent t @ [PairSuccess u] \<rparr>,
     st \<lparr> st_pairing := g \<rparr>)"
  using assms by (simp add: ws_turn_def ws_text_def any_code_def no_wait_def handle_pair_def idle_env_def idle_ambient_def
      send_response_def Let_def)

lemma sample_grant:
  "try_pair (\<lambda>b. b) 5 6 ''tok'' sample_guard ''000000'' = (Inr (Some ''tok''),
     sample_guard \<lparr> failed_attempts := 0, token_hashes := token_hashes sample_guard @ [hash_token (\<lambda>b. b) ''tok''] \<rparr>)"
  by (simp add: try_pair_right sample_guard_simps locked_def)

lemma pairing_turn_parts:
  "fst pairing_turn = GoesOn"
  "token_hashes (st_pairing (wo_state paired_world)) = [hash_token (\<lambda>b. b) ''tok'']"
  "cn_principal_id (wt_conn (fst (snd (snd pairing_turn)))) = Some (principal_from_token (\<lambda>b. b) ''tok'')"
proof -
  have none: "token_hashes sample_guard = []" by (simp add: sample_guard_def pairing_with_lockout_def pairing_new_def)
  note turned = paired_turn [OF pairing_connected_parts(2), unfolded pairing_connected_parts(1), OF sample_grant, folded pairing_turn_def]
  have "fst pairing_turn = GoesOn \<and> token_hashes (st_pairing (snd (snd (snd pairing_turn)))) = [hash_token (\<lambda>b. b) ''tok''] \<and>
      cn_principal_id (wt_conn (fst (snd (snd pairing_turn)))) = Some (principal_from_token (\<lambda>b. b) ''tok'')"
    unfolding turned fst_conv snd_conv by (simp add: none)
  then show "fst pairing_turn = GoesOn" "token_hashes (st_pairing (wo_state paired_world)) = [hash_token (\<lambda>b. b) ''tok'']"
    "cn_principal_id (wt_conn (fst (snd (snd pairing_turn)))) = Some (principal_from_token (\<lambda>b. b) ''tok'')"
    by (simp_all add: paired_world_def)
qed

lemma pairing_connects: "gateway_step idle_env any_code pairing_world pairing_connected"
  using connect [of pairing_world 0 0 1 idle_env "fst (ws_open idle_env 0 1 (wo_state pairing_world))"
      "snd (ws_open idle_env 0 1 (wo_state pairing_world))" any_code]
  by (simp add: pairing_world_def pairing_connected_def initial_world_def initial_state_def)

lemma pairing_pairs: "gateway_step idle_env any_code pairing_connected paired_world"
proof -
  have "unused pairing_connected (am_uuid (idle_ambient ''tok''))"
    by (auto simp: unused_def fresh_id_def pairing_connected_def pairing_world_def initial_world_def initial_state_def ws_open_def
        new_connection_def Let_def split: if_splits)
  then show ?thesis
    using turn [of pairing_connected 0 "fst (ws_open idle_env 0 1 (wo_state pairing_world))" "idle_ambient ''tok''" idle_env any_code
        True "[FText ''000000'']" GoesOn "fst (snd pairing_turn)" "fst (snd (snd pairing_turn))" "snd (snd (snd pairing_turn))"]
      pairing_turn_parts(1)
    by (simp add: pairing_turn_def paired_world_def pairing_connected_def prod_eq_iff)
qed

text \<open>What the pairing reaches, for the properties.\<close>

lemma pairing_reaches:
  "reachable idle_env any_code (initial_world (pairing_with_lockout (ev_sha idle_env) ''zz'' True [] 2 10) [] 0) pairing_connected"
  "reachable idle_env any_code (initial_world (pairing_with_lockout (ev_sha idle_env) ''zz'' True [] 2 10) [] 0) paired_world"
  using reachable.step [OF reachable.start pairing_connects] reachable.step [OF _ pairing_pairs]
  unfolding pairing_world_def by blast+

subsection \<open>Witnesses\<close>


theorem grant_needs_the_code_witness:
  "attempted any_code [FText ''000000''] (fst (snd pairing_turn)) ''000000'' \<and>
   token_hashes (st_pairing (wo_state paired_world)) = [hash_token (\<lambda>b. b) ''tok'']"
proof -
  let ?t = "fst (ws_open idle_env 0 1 (wo_state pairing_world))"
  have old: "token_hashes (st_pairing (wo_state pairing_connected)) = []"
    by (simp add: pairing_connected_parts sample_guard_def pairing_with_lockout_def pairing_new_def)
  have new: "token_hashes (st_pairing (snd (snd (snd pairing_turn)))) \<noteq> token_hashes (st_pairing (wo_state pairing_connected))"
    using pairing_turn_parts(2) by (simp add: paired_world_def old)
  have conn: "wo_conns pairing_connected 0 = Some ?t" by (simp add: pairing_connected_def)
  have turn: "ws_turn idle_env any_code (idle_ambient ''tok'') True [FText ''000000''] ?t (wo_state pairing_connected) =
      (fst pairing_turn, fst (snd pairing_turn), fst (snd (snd pairing_turn)), snd (snd (snd pairing_turn)))"
    by (simp add: pairing_turn_def prod_eq_iff)
  from grant_needs_the_code [OF pairing_reaches(1)] conn turn new
  have "attempted any_code [FText ''000000''] (fst (snd pairing_turn)) (generate_pairing_code ''zz'')"
    "token_hashes (st_pairing (snd (snd (snd pairing_turn)))) = [hash_token (ev_sha idle_env) (am_uuid (idle_ambient ''tok''))]"
    unfolding old by (metis append_Nil)+
  then show ?thesis unfolding sample_guard_code by (simp add: paired_world_def idle_env_def idle_ambient_def)
qed

end
