(* ===== verification/Startup.thy ===== *)
theory Startup
  imports Onboarding Gateway_Runner Admission
begin

section \<open>From the command line to the running gateway\<close>

text \<open>
  The second half of \<open>main\<close> in \<open>liveclaw-app/src/main.rs\<close>, what it builds with \<open>build_memory_service\<close> and
  \<open>FileArtifactService::new\<close> of \<open>storage.rs\<close>, \<open>build_runner\<close> of \<open>runner.rs\<close> and \<open>RunnerAdapter::new\<close>, and the
  start of the gateway in \<open>liveclaw-gateway/src/server.rs\<close>. The listener's address is bound by the system, a parameter;
  telemetry, whose errors the program ignores, and logging are left out. The memory and the artifacts are
  opened on the host of \<open>Service_Manager\<close>.
\<close>

subsection \<open>Opening the stores\<close>

datatype memory = VolatileMemory | FileMemory memory_service

definition disk_files :: "host_env \<Rightarrow> host \<Rightarrow> string \<rightharpoonup> string" where
  "disk_files env h path =
     (case disk_at (ho_disk h) (he_cwd env) path of
        None \<Rightarrow> None
      | Some (Regular text) \<Rightarrow> Some text
      | Some Directory \<Rightarrow> Some [])"

definition disk_read_fault :: "host_env \<Rightarrow> host \<Rightarrow> string \<Rightarrow> string option" where
  "disk_read_fault env h path = (case host_read env path h of Inl e \<Rightarrow> Some e | Inr _ \<Rightarrow> None)"

definition file_memory_new ::
  "memory_library \<Rightarrow> host_env \<Rightarrow> string \<Rightarrow> host \<Rightarrow> memory_service result" where
  "file_memory_new lib env path h =
     (case load_store lib (disk_files env h) (disk_read_fault env h) path of
        Inl e \<Rightarrow> Inl e
      | Inr store \<Rightarrow> Inr \<lparr> ms_path = path, ms_store = store \<rparr>)"

definition build_memory_service ::
  "memory_library \<Rightarrow> host_env \<Rightarrow> string \<Rightarrow> host \<Rightarrow> memory result" where
  "build_memory_service lib env backend h =
     (case memory_backend_of backend of
        Inl e \<Rightarrow> Inl e
      | Inr InMemoryBackend \<Rightarrow> Inr VolatileMemory
      | Inr (FileBackend path) \<Rightarrow>
          (case file_memory_new lib env path h of Inl e \<Rightarrow> Inl e | Inr service \<Rightarrow> Inr (FileMemory service)))"

definition file_artifacts_new :: "host_env \<Rightarrow> string \<Rightarrow> host \<Rightarrow> string result \<times> host" where
  "file_artifacts_new env root h =
     with_context (''Failed to create artifact storage root '' @ quoted root)
       (if root = [] then (Inr root, h)
        else host_bind (host_create_dir_all env root h) (\<lambda>_ h. (Inr root, h)))"

subsection \<open>The session lifecycle\<close>

text \<open>The compaction that the runner's library is asked for; its summariser is that of \<open>Transcripts\<close>.\<close>

record events_compaction =
  ec_compaction_interval :: "32 word"
  ec_overlap_size :: "32 word"

record runner_config =
  rc_app_name :: string
  rc_agent :: string
  rc_memory_service :: bool
  rc_artifact_service :: bool
  rc_plugin_manager :: bool
  rc_compaction_config :: "events_compaction option"

definition build_runner ::
  "(runner_config \<Rightarrow> unit result) \<Rightarrow> string \<Rightarrow> bool \<Rightarrow> bool \<Rightarrow> bool \<Rightarrow> events_compaction option \<Rightarrow> unit result" where
  "build_runner new agent memory_adapter artifact_service plugin_manager compaction =
     new \<lparr> rc_app_name = ''liveclaw'', rc_agent = agent, rc_memory_service = memory_adapter,
       rc_artifact_service = artifact_service, rc_plugin_manager = plugin_manager, rc_compaction_config = compaction \<rparr>"

definition lifecycle_compaction :: "compaction_policy \<Rightarrow> events_compaction option" where
  "lifecycle_compaction policy =
     (if cp_enabled policy
      then Some \<lparr> ec_compaction_interval = of_nat (max (cp_max_events_threshold policy) 1), ec_overlap_size = 0 \<rparr>
      else None)"

definition lifecycle_new :: "(runner_config \<Rightarrow> unit result) \<Rightarrow> compaction_policy \<Rightarrow> unit result" where
  "lifecycle_new new policy =
     build_runner new ''liveclaw-lifecycle-ingest'' False False False (lifecycle_compaction policy)"

subsection \<open>The gateway\<close>

record gateway_listen =
  gl_host :: string
  gl_port :: "16 word"

definition gateway_listen_default :: gateway_listen where
  "gateway_listen_default = \<lparr> gl_host = ''127.0.0.1'', gl_port = 8420 \<rparr>"

text \<open>Whether the gateway was given the receivers of the runner's outputs is what is kept of them.\<close>

record 'r gateway =
  gt_config :: gateway_listen
  gt_pairing :: pairing_guard
  gt_runner :: 'r
  gt_audio_rx :: bool
  gt_transcript_rx :: bool

definition gateway_new :: "gateway_listen \<Rightarrow> pairing_guard \<Rightarrow> 'r \<Rightarrow> 'r gateway" where
  "gateway_new config pairing runner = \<lparr> gt_config = config, gt_pairing = pairing, gt_runner = runner,
     gt_audio_rx = False, gt_transcript_rx = False \<rparr>"

definition gateway_with_output_channels :: "gateway_listen \<Rightarrow> pairing_guard \<Rightarrow> 'r \<Rightarrow> 'r gateway" where
  "gateway_with_output_channels config pairing runner = \<lparr> gt_config = config, gt_pairing = pairing, gt_runner = runner,
     gt_audio_rx = True, gt_transcript_rx = True \<rparr>"

definition listen_address :: "gateway_listen \<Rightarrow> string" where
  "listen_address config = gl_host config @ '':'' @ show_nat (unat (gl_port config))"

definition gateway_start :: "(string \<Rightarrow> unit result) \<Rightarrow> nat \<Rightarrow> 'r gateway \<Rightarrow> 'r app_state result" where
  "gateway_start bind_address now gw =
     (let st = initial_state (gt_pairing gw) (gt_runner gw) now
      in case bind_address (listen_address (gt_config gw)) of
           Inl e \<Rightarrow> Inl e
         | Inr _ \<Rightarrow> Inr st)"

subsection \<open>The rest of the program\<close>

text \<open>What is outside: SHA-256, the identifier the pairing code is made of, the system's answer to binding an address,
  the clock, the runner's library, the parser of the memory file, and the world the adapter acts on once
  the stores are open.\<close>

record 'w start_env =
  sn_sha :: sha
  sn_uuid :: string
  sn_bind :: "string \<Rightarrow> unit result"
  sn_now :: nat
  sn_new_runner :: "runner_config \<Rightarrow> unit result"
  sn_memory_library :: memory_library
  sn_world :: "memory \<Rightarrow> 'w"

record 'w started =
  sd_settings :: adapter_settings
  sd_artifacts :: "string option"
  sd_address :: string
  sd_state :: "'w adapter app_state"

definition configured_guard :: "'w start_env \<Rightarrow> liveclaw_config \<Rightarrow> pairing_guard" where
  "configured_guard sn config =
     pairing_with_lockout (sn_sha sn) (sn_uuid sn) (gw_require_pairing (lc_gateway config)) []
       (pc_max_attempts (lc_pairing config)) (from_secs (unat (pc_lockout_duration_secs (lc_pairing config))))"

definition configured_settings :: "'w start_env \<Rightarrow> liveclaw_config \<Rightarrow> provider_selection \<Rightarrow> adapter_settings" where
  "configured_settings sn config provider =
     adapter_settings_new config provider
       (is_ok (lifecycle_new (sn_new_runner sn) \<lparr> cp_enabled = cc_enable_compaction (lc_compaction config),
          cp_max_events_threshold = unat (cc_max_events_threshold (lc_compaction config)) \<rparr>))"

definition start_gateway ::
  "'w start_env \<Rightarrow> host_env \<Rightarrow> liveclaw_config \<Rightarrow> provider_selection \<Rightarrow> host \<Rightarrow> 'w started result \<times> host" where
  "start_gateway sn env config provider h =
     (let pairing = configured_guard sn config;
          listen = \<lparr> gl_host = gw_host (lc_gateway config), gl_port = gw_port (lc_gateway config) \<rparr>;
          backend = mm_backend (lc_memory config)
      in host_bind (with_context (''Failed to initialize memory backend '' @ quoted backend)
           (build_memory_service (sn_memory_library sn) env backend h, h)) (\<lambda>memory h.
         host_bind
           (if ac_enable_artifacts (lc_artifact config) then
              with_context (''Failed to initialize artifact storage '' @ quoted (ac_storage_path (lc_artifact config)))
                (host_bind (file_artifacts_new env (ac_storage_path (lc_artifact config)) h) (\<lambda>root h. (Inr (Some root), h)))
            else (Inr None, h)) (\<lambda>artifacts h.
           let settings = configured_settings sn config provider;
               gw = gateway_with_output_channels listen pairing (adapter_start (sn_world sn memory))
           in case gateway_start (sn_bind sn) (sn_now sn) gw of
                Inl e \<Rightarrow> (Inl e, h)
              | Inr st \<Rightarrow> (Inr \<lparr> sd_settings = settings, sd_artifacts = artifacts,
                    sd_address = listen_address listen, sd_state = st \<rparr>, h))))"

text \<open>The whole of \<open>main\<close>: a gateway that serves, or \<open>None\<close> when the command was another one. The program that
  works in a container is the worker of \<open>Docker_Bridge\<close>.\<close>

definition run_program ::
  "(string \<Rightarrow> string) \<Rightarrow> (string \<Rightarrow> toml result) \<Rightarrow> (toml \<Rightarrow> string) \<Rightarrow>
     (host_env \<Rightarrow> service_command \<Rightarrow> host \<Rightarrow> unit result \<times> host) \<Rightarrow> 'w start_env \<Rightarrow> host_env \<Rightarrow> string list \<Rightarrow> input \<Rightarrow>
     host \<Rightarrow> ('w started option result \<times> host) option" where
  "run_program lower parse pretty run_service sn env args input h =
     (case main_program lower parse pretty run_service env args input h of
        None \<Rightarrow> None
      | Some (Inl e, h) \<Rightarrow> Some (Inl e, h)
      | Some (Inr (Gateway config provider), h) \<Rightarrow>
          Some (host_bind (start_gateway sn env config provider h) (\<lambda>sd h. (Inr (Some sd), h)))
      | Some (Inr _, h) \<Rightarrow> Some (Inr None, h))"

subsection \<open>What a start does\<close>

lemma host_bind_Inr_iff: "host_bind m f = (Inr y, h') \<longleftrightarrow> (\<exists>x h. m = (Inr x, h) \<and> f x h = (Inr y, h'))"
  by (cases m; cases "fst m") (auto simp: host_bind_def)


lemma gateway_start_Inr:
  "gateway_start b now gw = Inr st \<longleftrightarrow> b (listen_address (gt_config gw)) = Inr () \<and>
     st = initial_state (gt_pairing gw) (gt_runner gw) now"
  by (cases "b (listen_address (gt_config gw))") (auto simp: gateway_start_def Let_def)

lemma started_iff:
  "start_gateway sn env config provider h = (Inr sd, h') \<longleftrightarrow>
    (let address = gw_host (lc_gateway config) @ '':'' @ show_nat (unat (gw_port (lc_gateway config)));
         root = ac_storage_path (lc_artifact config) in
     \<exists>memory. build_memory_service (sn_memory_library sn) env (mm_backend (lc_memory config)) h = Inr memory \<and>
       (if ac_enable_artifacts (lc_artifact config) then file_artifacts_new env root h = (Inr root, h') else h' = h) \<and>
       sn_bind sn address = Inr () \<and>
       sd = \<lparr> sd_settings = configured_settings sn config provider,
         sd_artifacts = (if ac_enable_artifacts (lc_artifact config) then Some root else None), sd_address = address,
         sd_state = initial_state (configured_guard sn config) (adapter_start (sn_world sn memory)) (sn_now sn) \<rparr>)"
proof (cases "build_memory_service (sn_memory_library sn) env (mm_backend (lc_memory config)) h")
  case (Inl e)
  then show ?thesis by (simp add: start_gateway_def Let_def host_bind_def with_context_def)
next
  case (Inr memory)
  define address where "address = gw_host (lc_gateway config) @ '':'' @ show_nat (unat (gw_port (lc_gateway config)))"
  define root where "root = ac_storage_path (lc_artifact config)"
  have listen: "listen_address \<lparr> gl_host = gw_host (lc_gateway config), gl_port = gw_port (lc_gateway config) \<rparr> = address"
    by (simp add: listen_address_def address_def)
  have start: "gateway_start b now (gateway_with_output_channels l g r) =
      (case b (listen_address l) of Inl e \<Rightarrow> Inl e | Inr _ \<Rightarrow> Inr (initial_state g r now))" for b now l g and r :: "'a adapter"
    by (simp add: gateway_start_def gateway_with_output_channels_def)
  obtain q h1 where made: "file_artifacts_new env root h = (q, h1)" by fastforce
  have "q = Inr x \<Longrightarrow> x = root" for x
    using made by (auto simp: file_artifacts_new_def host_bind_Inr_iff split: if_splits)
  then show ?thesis
    unfolding address_def [symmetric] root_def [symmetric] Let_def
    using made by (cases q; cases "sn_bind sn address")
      (auto simp: start_gateway_def Let_def host_bind_def with_context_def Inr listen start root_def [symmetric])
qed

lemma started:
  assumes "start_gateway sn env config provider h = (Inr sd, h')"
  obtains memory where "build_memory_service (sn_memory_library sn) env (mm_backend (lc_memory config)) h = Inr memory"
    "sd_state sd = initial_state (configured_guard sn config) (adapter_start (sn_world sn memory)) (sn_now sn)"
    "sd_address sd = gw_host (lc_gateway config) @ '':'' @ show_nat (unat (gw_port (lc_gateway config)))"
    "sd_settings sd = configured_settings sn config provider" "sn_bind sn (sd_address sd) = Inr ()"
    "sd_artifacts sd = (if ac_enable_artifacts (lc_artifact config) then Some (ac_storage_path (lc_artifact config)) else None)"
  using assms unfolding started_iff Let_def by auto

lemma served_command:
  assumes "run_program lower parse pretty run_service sn env args input h = Some (Inr (Some sd), h')"
  obtains path config provider h1 where "parse_command args = Inr (Run path)" "load_config parse env path h = Inr config"
    "\<exists>r. validate_runtime_and_provider lower (he_vars env) config True = Inr (provider, r)"
    "start_gateway sn env config provider h1 = (Inr sd, h')"
proof -
  from assms obtain config provider h1 where
    m: "main_program lower parse pretty run_service env args input h = Some (Inr (Gateway config provider), h1)"
    and s: "start_gateway sn env config provider h1 = (Inr sd, h')"
    by (auto simp: run_program_def host_bind_Inr_iff split: option.splits prod.splits sum.splits outcome.splits)
  have fin: "finished x \<noteq> (Inr (Gateway config provider), h1)" for x
    by (cases x; cases "fst x") (auto simp: finished_def host_bind_def)
  from m obtain path where "parse_command args = Inr (Run path)" "main_checks lower parse env path False h = (Inr (Gateway config provider), h1)"
    using fin by (auto simp: main_program_def main_checks_def host_bind_Inr_iff split: sum.splits app_command.splits option.splits)
  with that s show thesis by (auto simp: main_checks_def host_bind_Inr_iff)
qed

lemma volatile_backend: "memory_backend_of ''in_memory'' = Inr InMemoryBackend"
  by code_simp

lemma configured_guard_settings:
  "require_pairing (configured_guard sn config) = gw_require_pairing (lc_gateway config)"
  "max_attempts (configured_guard sn config) = pc_max_attempts (lc_pairing config)"
  "lockout_duration (configured_guard sn config) = from_secs (unat (pc_lockout_duration_secs (lc_pairing config)))"
  "pairing_code (configured_guard sn config) =
     (if gw_require_pairing (lc_gateway config) then Some (generate_pairing_code (sn_uuid sn)) else None)"
  by (simp_all add: configured_guard_def pairing_with_lockout_def pairing_new_def)

text \<open>From the end of an onboarding to the gateway.\<close>

lemma onboarded_serves:
  assumes "toml_contract parse pretty" "service_manager run_service place"
    and "\<forall>m. place (he_vars env) = Inr m \<longrightarrow> full_path (he_cwd env) m \<noteq> full_path (he_cwd env) (oo_config_path opts)"
    and "command_ok (Run (oo_config_path opts))"
    and "run_onboarding lower parse pretty run_service env opts input h = Some (Inr (), h')"
    and "\<forall>config input'. build_onboard_config (he_vars env) opts input = Some (Inr config, input') \<longrightarrow>
      sn_bind sn (gw_host (lc_gateway config) @ '':'' @ show_nat (unat (gw_port (lc_gateway config)))) = Inr ()"
  shows "\<exists>config input' sd. build_onboard_config (he_vars env) opts input = Some (Inr config, input') \<and>
    run_program lower parse pretty run_service sn env [oo_config_path opts] input2 h' = Some (Inr (Some sd), h') \<and>
    sd_address sd = gw_host (lc_gateway config) @ '':'' @ show_nat (unat (gw_port (lc_gateway config))) \<and>
    require_pairing (st_pairing (sd_state sd)) = gw_require_pairing (lc_gateway config) \<and>
    token_hashes (st_pairing (sd_state sd)) = [] \<and> session_owners (sd_state sd) = Map.empty \<and> sd_artifacts sd = None"
proof -
  obtain config input' p where b: "build_onboard_config (he_vars env) opts input = Some (Inr config, input')"
    and m: "main_program lower parse pretty run_service env [oo_config_path opts] input2 h' = Some (Inr (Gateway config p), h')"
    using onboarded_run [OF assms(1-5)] by metis
  from built_parts [OF b] obtain profile key model_name host port pairing url where
    config: "config = onboarded_config profile key model_name host port pairing url" by metis
  then have quiet: "mm_backend (lc_memory config) = ''in_memory''" "\<not> ac_enable_artifacts (lc_artifact config)"
    by (simp_all add: onboarded_config_def Let_def config_default_def default_defs)
  have memory: "build_memory_service (sn_memory_library sn) env ''in_memory'' h' = Inr VolatileMemory"
    by (simp add: build_memory_service_def volatile_backend)
  have bind: "sn_bind sn (gw_host (lc_gateway config) @ '':'' @ show_nat (unat (gw_port (lc_gateway config)))) = Inr ()"
    using assms(6) b by blast
  define sd where "sd = \<lparr> sd_settings = configured_settings sn config p, sd_artifacts = None,
    sd_address = gw_host (lc_gateway config) @ '':'' @ show_nat (unat (gw_port (lc_gateway config))),
    sd_state = initial_state (configured_guard sn config) (adapter_start (sn_world sn VolatileMemory)) (sn_now sn) \<rparr>"
  have "start_gateway sn env config p h' = (Inr sd, h')"
    using memory bind quiet unfolding started_iff Let_def sd_def by simp
  then have "run_program lower parse pretty run_service sn env [oo_config_path opts] input2 h' = Some (Inr (Some sd), h')"
    using m by (simp add: run_program_def host_bind_def)
  moreover have "token_hashes (configured_guard sn config) = []"
    by (simp add: configured_guard_def pairing_with_lockout_def pairing_new_def)
  ultimately show ?thesis
    using b by (intro exI [of _ config] exI [of _ input'] exI [of _ sd])
      (simp add: sd_def initial_state_def configured_guard_settings)
qed

subsection \<open>Properties\<close>

text \<open>C4: From the command line to every state of the running program. Whatever the arguments, a program that serves was
  told to run a configuration that it read and checked. In every state its gateway then reaches, whatever clients,
  jobs, requests, the provider and the services do: the guard is the configured one after some attempts, with
  the limits of the file; the adapter has a session exactly where the gateway has an owner, for that owner; and the
  user of every session, in whose name the provider is connected and tools run, is admitted by the guard.\<close>

theorem sessions_of_the_program_admitted:
  assumes "run_program lower parse pretty run_service sn henv args input h = Some (Inr (Some sd), h')"
    and "ev_sha env = sn_sha sn" "ev_runner env = adapter_runner aenv (sd_settings sd)"
    and "reachable env from_str \<lparr> wo_state = sd_state sd, wo_conns = Map.empty \<rparr> w"
  shows "\<exists>path config. parse_command args = Inr (Run path) \<and> load_config parse henv path h = Inr config \<and>
    (\<exists>attempts. st_pairing (wo_state w) = snd (pair_run (sn_sha sn) (configured_guard sn config) attempts)) \<and>
    require_pairing (st_pairing (wo_state w)) = gw_require_pairing (lc_gateway config) \<and>
    max_attempts (st_pairing (wo_state w)) = pc_max_attempts (lc_pairing config) \<and>
    session_owners (wo_state w) = (\<lambda>s. map_option rt_user_id (ap_sessions (st_runner (wo_state w)) s)) \<and>
    (\<forall>s sess. ap_sessions (st_runner (wo_state w)) s = Some sess \<longrightarrow>
       admitted (sn_sha sn) (st_pairing (wo_state w)) (rt_user_id sess))"
proof -
  from served_command [OF assms(1)] obtain path config provider h1 where
    c: "parse_command args = Inr (Run path)" "load_config parse henv path h = Inr config"
      "start_gateway sn henv config provider h1 = (Inr sd, h')" .
  from started [OF c(3)] obtain memory where
    st: "sd_state sd = initial_state (configured_guard sn config) (adapter_start (sn_world sn memory)) (sn_now sn)" .
  then have r: "reachable env from_str (initial_world (configured_guard sn config) (adapter_start (sn_world sn memory)) (sn_now sn)) w"
    using assms(4) by (simp add: initial_world_def)
  obtain attempts where a: "st_pairing (wo_state w) = snd (pair_run (sn_sha sn) (configured_guard sn config) attempts)"
    and adm: "all_admitted env w"
    using reachable_guard [OF r] assms(2) by auto
  have "adapter.synced (wo_state (initial_world (configured_guard sn config) (adapter_start (sn_world sn memory)) (sn_now sn)))"
    by (simp add: adapter.synced_def initial_world_def initial_state_def adapter_start_def session_users_def)
  then have "adapter.synced (wo_state w)" by (rule adapter.reachable_synced [OF r assms(3)])
  then have sync: "session_owners (wo_state w) = (\<lambda>s. map_option rt_user_id (ap_sessions (st_runner (wo_state w)) s))"
    by (simp add: adapter.synced_def session_users_def)
  have "admitted (sn_sha sn) (st_pairing (wo_state w)) (rt_user_id sess)"
    if "ap_sessions (st_runner (wo_state w)) s = Some sess" for s sess
  proof -
    have "session_owners (wo_state w) s = Some (rt_user_id sess)" using that by (simp add: sync)
    then show ?thesis using adm assms(2) unfolding all_admitted_def present_def by auto
  qed
  with c a sync show ?thesis by (auto simp: pair_run_frame configured_guard_settings)
qed


subsection \<open>Witnesses\<close>

definition demo_start_env :: "nat start_env" where
  "demo_start_env = \<lparr> sn_sha = (\<lambda>b. b), sn_uuid = ''zz'', sn_bind = (\<lambda>_. Inr ()), sn_now = 0, sn_new_runner = (\<lambda>_. Inr ()),
     sn_memory_library = sample_library, sn_world = (\<lambda>_. 0) \<rparr>"

lemma demo_run_path: "command_ok (Run (oo_config_path (demo_options ''127.0.0.1'')))"
  by (simp add: demo_parts command_words_def starts_with_def)

lemma demo_other_file:
  "\<forall>m. manifest_path_linux (he_vars demo_host_env) = Inr m \<longrightarrow>
     full_path (he_cwd demo_host_env) m \<noteq> full_path (he_cwd demo_host_env) (oo_config_path (demo_options ''127.0.0.1''))"
proof -
  have "full_path ''/h'' demo_manifest \<noteq> full_path ''/h'' ''n''" by code_simp
  then show ?thesis using demo_manifest_path by (simp add: demo_parts demo_host_env_def)
qed

lemma demo_binds:
  "\<forall>config input'. build_onboard_config (he_vars demo_host_env) (demo_options ''127.0.0.1'') [] = Some (Inr config, input') \<longrightarrow>
     sn_bind demo_start_env (gw_host (lc_gateway config) @ '':'' @ show_nat (unat (gw_port (lc_gateway config)))) = Inr ()"
  by (simp add: demo_start_env_def)

lemma demo_onboarded:
  obtains h' where "run_onboarding to_ascii_lowercase number_parse number_pretty run_service_command_linux demo_host_env
     (demo_options ''127.0.0.1'') [] demo_host = Some (Inr (), h')"
  using demo_run by blast


theorem sessions_of_the_program_admitted_witness:
  "\<exists>h' sd (w :: nat adapter world). run_program to_ascii_lowercase number_parse number_pretty run_service_command_linux demo_start_env
     demo_host_env [''n''] [] h' = Some (Inr (Some sd), h') \<and>
     reachable \<lparr> ev_sha = (\<lambda>b. b), ev_runner = adapter_runner sample_env (sd_settings sd) \<rparr> any_code
       \<lparr> wo_state = sd_state sd, wo_conns = Map.empty \<rparr> w \<and>
     session_owners (wo_state w) = (\<lambda>s. map_option rt_user_id (ap_sessions (st_runner (wo_state w)) s))"
proof -
  obtain h0 where over: "run_onboarding to_ascii_lowercase number_parse number_pretty run_service_command_linux demo_host_env
     (demo_options ''127.0.0.1'') [] demo_host = Some (Inr (), h0)" by (rule demo_onboarded)
  have "oo_config_path (demo_options ''127.0.0.1'') = ''n''" by (rule demo_parts)
  with onboarded_serves [OF number_contract demo_manager demo_other_file demo_run_path over demo_binds, of "[]"]
  obtain sd where run: "run_program to_ascii_lowercase number_parse number_pretty run_service_command_linux demo_start_env
     demo_host_env [''n''] [] h0 = Some (Inr (Some sd), h0)" by metis
  let ?env = "\<lparr> ev_sha = (\<lambda>b. b), ev_runner = adapter_runner sample_env (sd_settings sd) \<rparr>"
  let ?w = "\<lparr> wo_state = sd_state sd, wo_conns = Map.empty \<rparr>"
  have sha: "ev_sha ?env = sn_sha demo_start_env" by (simp add: demo_start_env_def)
  have runner: "ev_runner ?env = adapter_runner sample_env (sd_settings sd)" by simp
  have start: "reachable ?env any_code ?w ?w" by (rule reachable.start)
  from sessions_of_the_program_admitted [OF run sha runner start]
  have "session_owners (wo_state ?w) = (\<lambda>s. map_option rt_user_id (ap_sessions (st_runner (wo_state ?w)) s))" by blast
  with run start show ?thesis by (intro exI [of _ h0] exI [of _ sd] exI [of _ ?w] conjI)
qed

end
