(* ===== verification/Spec2Isabelle.thy ===== *)
theory Spec2Isabelle
  imports System Security Resilience Artifacts Graph_Tools Config Provider Runner_Adapter Gateway_Runner Docker_Runs
    Tool_Handlers Onboarding Forwarder Plugins Admission Startup
begin

text \<open>
  A verification development for liveclaw, a voice agent behind a WebSocket and HTTP gateway.

  The program. \<open>liveclaw-gateway\<close> is a server: clients pair with it, open sessions over a WebSocket or through HTTP
  channels, and exchange audio, text and tool calls. \<open>liveclaw-app\<close> is the program around it: the command line,
  the onboarding, the configuration, the service manager, and the runner behind the gateway, which
  connects each session to a realtime provider, in the process or in a container, and keeps its memory and artifacts.

  The gateway, \<open>liveclaw-gateway/src\<close>.
  \<open>Base64\<close>: \<open>base64_encode\<close> and \<open>base64_decode\<close> of \<open>server.rs\<close>; the round trip, and exactly what the decoder refuses.
  \<open>Pairing\<close>: \<open>pairing.rs\<close>, a guard as a record with the two clock readings of an attempt as arguments; the bound on
  guesses, the lockout and its end, which tokens are accepted. The locale \<open>credential_store\<close> is what the gateway relies on.
  \<open>Protocol\<close>: \<open>protocol.rs\<close>, the messages with their JSON as an abstract tree; the round trip and the advertised names.
  \<open>Normalize\<close>, \<open>Gateway_State\<close>, \<open>Sessions\<close>, \<open>Channels\<close>, \<open>Router\<close>: the shared tables of \<open>AppState\<close>, the access check
  and every handler of \<open>server.rs\<close> as a function from the state and the connection to the answer and both updated;
  the invariant of the tables, the separation of principals, first-in first-out outboxes, the authentication gate.
  \<open>Websocket\<close>: a turn of \<open>handle_ws\<close> with its bounded channels. \<open>Http\<close>: the endpoints, their payloads and tokens.
  \<open>System\<close>: the steps that the tasks of the server take in any order, as an inductive relation, and the invariants of the
  reachable states. \<open>Admission\<close>: the guard and the system together; whoever is present in a reachable state was let in
  by pairing, and a token is given out for the code only.

  The app, \<open>liveclaw-app/src\<close>.
  \<open>Security\<close>: \<open>security.rs\<close> and the tool callback of \<open>agent.rs\<close>, the rate limiter also as atomic steps of concurrent
  callers. \<open>Plugins\<close>: \<open>plugins.rs\<close> and the agent of \<open>agent.rs\<close>. \<open>Resilience\<close>: reconnecting and the session loop of \<open>main.rs\<close>.
  \<open>Transcripts\<close>: compaction and recall. \<open>Utf8\<close>, \<open>Floats\<close> and \<open>Workspace\<close>: decoding, the addition of \<open>f64\<close> on its bits,
  which gives a nearest number, and the tools of \<open>tools.rs\<close>.
  \<open>Memory_Store\<close> and \<open>Artifacts\<close>: \<open>storage.rs\<close> over file systems whose calls may fail.
  \<open>Graph_Tools\<close>: \<open>graph.rs\<close> and the tool calls of \<open>main.rs\<close>, over a graph engine with a contract.
  \<open>Config\<close> and \<open>Provider\<close>: \<open>config.rs\<close>, the choice of the provider and the checks before a start.
  \<open>Runner_Adapter\<close>: \<open>RunnerAdapter\<close>, which implements the gateway's trait; it refines a table from sessions to users.
  \<open>Tool_Handlers\<close>: the tools as the provider's model calls them, the metrics its concurrent calls share, and the errors of a
  native session; with \<open>Runner_Adapter\<close>, that no way to a tool gets around the role of the session.
  \<open>Docker_Bridge\<close> and \<open>Docker_Runs\<close>: the bridge to a session in a container as a step relation of its tasks and of the
  worker, and its runs. \<open>Gateway_Runner\<close>: the gateway over the adapter. \<open>Forwarder\<close>: what a session puts out, on its way
  to the gateway, the memory and the artifacts.
  \<open>Cli\<close>, \<open>Service_Manager\<close>, \<open>Onboarding\<close> and \<open>Startup\<close>: \<open>main\<close> from the arguments to the running gateway, over a host with
  a disk, external commands and shown lines. \<open>Prelude\<close> holds what all theories share: results, strings, JSON.

  Interfaces. Locales state what one part relies on in another: \<open>credential_store\<close> for the guard, \<open>runner_handle\<close> for the
  trait between the gateway and the adapter, \<open>codec\<close> for encodings that are read back and \<open>toml_field\<close> for the settings; each is interpreted
  on the definitions of the component that provides it, and the properties use the interpreted facts.

  Parameters. Code outside the repository is an argument of the definitions that use it. What is relied on is
  named: \<open>engine_contract\<close> (the graph library runs the nodes along their edges), \<open>auth_contract\<close> (a protected tool asks
  the roles first), \<open>launch_contract\<close> (a container starts its worker with the given environment), \<open>toml_contract\<close> (what is
  printed is read back), \<open>lower_contract\<close> (lower-casing of ASCII), \<open>regex_contract\<close> (replacing nothing changes nothing),
  \<open>file_memory\<close> (the memory service is that of \<open>Memory_Store\<close>). SHA-256, UUIDs, clocks, the provider's connection, the
  access control library, the runner's library, the system calls with their failures and the JSON and TOML
  text syntax are plain arguments. Each property with such a hypothesis has a witness with a concrete instance.

  Integers, bounds and fuel. Counters, ports, samples and clocks in nanoseconds have their width; lengths and the values of
  \<open>Instant\<close> are natural numbers. Loops that may not end are \<open>partial_function (option)\<close> (the questions of the onboarding) or
  bounded by what they consume (the attempts of a recovery, the queue of a connection); no theorem depends on fuel that
  is not shown to be enough.

  Not modelled. The array form in which serde also reads structures, but for the messages of clients and workers, trace events
  and the arguments of tools, where it is; the text syntax of JSON and TOML; the WebSocket
  upgrade and what tokio and axum do below a handler: a handler runs to its end, so interleavings inside one are
  left out, except in the rate limiter, the tool metrics and the container bridge, where the code is modelled by its atomic
  steps. The calendar text of the clock tool is a parameter. A \<open>remove_dir_all\<close> that
  fails half way, the library behind \<open>adk-runner\<close>, telemetry, logging, the text of the questions on the terminal, and the
  overflow of \<open>Instant + Duration\<close> beyond 2^63 seconds are left out.
\<close>

end
